(* ===== verification/Prelude.thy ===== *)
theory Prelude
  imports Main "HOL-Library.Word"
begin

text \<open>
  Vocabulary shared by all components: Python strings as lists of code points, the string
  methods the sources call (\<open>strip\<close>, \<open>lower\<close>, \<open>split\<close>, \<open>startswith\<close>, \<open>endswith\<close>,
  \<open>casefold\<close>), UUIDs, results of code that may raise, and generic list lemmas.

  A Python \<open>str\<close> is a sequence of code points, so it is a \<open>nat list\<close>; a \<open>bytes\<close> object is
  an \<open>8 word list\<close>. The tables for \<open>strip\<close>, \<open>lower\<close> and \<open>casefold\<close> are those of the
  interpreter. \<open>lower\<close> and \<open>casefold\<close> hold every code point whose image contains an ASCII
  character and leave the other non-ASCII code points alone, which no comparison in the
  modelled code (all against ASCII text) can observe.
\<close>

named_theorems count_simps \<comment> \<open>counting and sampling lemmas of the row loops\<close>
named_theorems result_simps \<comment> \<open>unfolding of results and their combinators\<close>
named_theorems query_simps \<comment> \<open>lookups and updates of the tables\<close>

section \<open>Strings and bytes\<close>

type_synonym code_point = nat
type_synonym pystr = "code_point list"
type_synonym byte = "8 word"
type_synonym bytes = "byte list"

definition lit :: "string \<Rightarrow> pystr" where
  "lit s = map of_char s"

lemma lit_Nil [simp]: "lit [] = []"
  by (simp add: lit_def)

lemma lit_Cons [simp]: "lit (c # s) = of_char c # lit s"
  by (simp add: lit_def)

lemma length_lit [simp]: "length (lit s) = length s"
  by (simp add: lit_def)

definition is_ascii :: "code_point \<Rightarrow> bool" where
  "is_ascii c \<longleftrightarrow> c < 128"

definition py_isspace :: "code_point \<Rightarrow> bool" where
  "py_isspace c \<longleftrightarrow>
     9 \<le> c \<and> c \<le> 13 \<or> 28 \<le> c \<and> c \<le> 32 \<or> c = 133 \<or> c = 160 \<or> c = 5760 \<or>
     8192 \<le> c \<and> c \<le> 8202 \<or> c = 8232 \<or> c = 8233 \<or> c = 8239 \<or> c = 8287 \<or> c = 12288"

definition py_strip :: "pystr \<Rightarrow> pystr" where
  "py_strip s = rev (dropWhile py_isspace (rev (dropWhile py_isspace s)))"

definition py_strip_char :: "code_point \<Rightarrow> pystr \<Rightarrow> pystr" where
  "py_strip_char c s = rev (dropWhile (\<lambda>x. x = c) (rev (dropWhile (\<lambda>x. x = c) s)))"

definition ascii_lower :: "code_point \<Rightarrow> code_point" where
  "ascii_lower c = (if 65 \<le> c \<and> c \<le> 90 then c + 32 else c)"

definition lower_char :: "code_point \<Rightarrow> pystr" where
  "lower_char c = (if c = 304 then [105, 775] else if c = 8490 then [107] else [ascii_lower c])"

definition py_lower :: "pystr \<Rightarrow> pystr" where
  "py_lower s = concat (map lower_char s)"

definition casefold_char :: "code_point \<Rightarrow> pystr" where
  "casefold_char c =
     (if c = 223 \<or> c = 7838 then [115, 115]
      else if c = 304 then [105, 775]
      else if c = 329 then [700, 110]
      else if c = 383 then [115]
      else if c = 496 then [106, 780]
      else if c = 7830 then [104, 817]
      else if c = 7831 then [116, 776]
      else if c = 7832 then [119, 778]
      else if c = 7833 then [121, 778]
      else if c = 7834 then [97, 702]
      else if c = 8490 then [107]
      else if c = 64256 then [102, 102]
      else if c = 64257 then [102, 105]
      else if c = 64258 then [102, 108]
      else if c = 64259 then [102, 102, 105]
      else if c = 64260 then [102, 102, 108]
      else if c = 64261 \<or> c = 64262 then [115, 116]
      else [ascii_lower c])"

definition py_casefold :: "pystr \<Rightarrow> pystr" where
  "py_casefold s = concat (map casefold_char s)"

fun py_split :: "code_point \<Rightarrow> pystr \<Rightarrow> pystr list" where
  "py_split sep [] = [[]]"
| "py_split sep (c # s) =
     (if c = sep then [] # py_split sep s
      else (case py_split sep s of [] \<Rightarrow> [[c]] | p # ps \<Rightarrow> (c # p) # ps))"

definition py_startswith :: "pystr \<Rightarrow> pystr \<Rightarrow> bool" where
  "py_startswith s p \<longleftrightarrow> take (length p) s = p"

definition py_endswith :: "pystr \<Rightarrow> pystr \<Rightarrow> bool" where
  "py_endswith s p \<longleftrightarrow> length p \<le> length s \<and> drop (length s - length p) s = p"

subsection \<open>Facts about the string methods\<close>

lemma py_strip_Nil [simp]: "py_strip [] = []"
  by (simp add: py_strip_def)

lemma dropWhile_empty_iff: "dropWhile P xs = [] \<longleftrightarrow> list_all P xs"
  by (induction xs) auto

lemma list_all_dropWhile [simp]: "list_all P (dropWhile P xs) \<longleftrightarrow> list_all P xs"
  by (induction xs) auto

lemma py_strip_empty_iff: "py_strip s = [] \<longleftrightarrow> list_all py_isspace s"
  using list_all_dropWhile [of py_isspace s]
  by (simp add: py_strip_def list_all_iff del: list_all_dropWhile)

lemma dropWhile_id_hd: "xs = [] \<or> \<not> P (hd xs) \<Longrightarrow> dropWhile P xs = xs"
  by (cases xs) auto

text \<open>A string is unchanged by \<open>strip\<close> exactly when neither end is white space.\<close>

lemma py_strip_id_iff:
  "py_strip s = s \<longleftrightarrow> s = [] \<or> \<not> py_isspace (hd s) \<and> \<not> py_isspace (last s)"
proof
  assume eq: "py_strip s = s"
  show "s = [] \<or> \<not> py_isspace (hd s) \<and> \<not> py_isspace (last s)"
  proof (cases "s = []")
    case False
    let ?d = "dropWhile py_isspace s"
    have len: "length (dropWhile py_isspace (rev ?d)) \<le> length ?d" "length ?d \<le> length s"
      using length_dropWhile_le [of py_isspace "rev ?d"] length_dropWhile_le [of py_isspace s]
      by simp_all
    from eq have "length (py_strip s) = length s" by simp
    then have "length ?d = length s" using len by (simp add: py_strip_def)
    then have d: "?d = s"
      by (metis append_Nil append_eq_conv_conj length_0_conv length_append
          takeWhile_dropWhile_id add_cancel_left_left)
    then have "dropWhile py_isspace (rev s) = rev s"
      using eq by (simp add: py_strip_def rev_swap)
    then have "\<not> py_isspace (hd (rev s))"
      using False by (metis hd_dropWhile rev_is_Nil_conv)
    moreover have "\<not> py_isspace (hd s)" using False d by (metis hd_dropWhile)
    ultimately show ?thesis using False by (simp add: hd_rev)
  qed simp
next
  assume "s = [] \<or> \<not> py_isspace (hd s) \<and> \<not> py_isspace (last s)"
  then show "py_strip s = s"
    by (auto simp: py_strip_def dropWhile_id_hd hd_rev)
qed

lemma py_strip_idem [simp]: "py_strip (py_strip s) = py_strip s"
proof -
  let ?d = "dropWhile py_isspace s"
  let ?r = "dropWhile py_isspace (rev ?d)"
  have "?r = [] \<or> \<not> py_isspace (hd ?r)" by (metis hd_dropWhile)
  moreover have "?r \<noteq> [] \<Longrightarrow> last ?r = hd ?d"
  proof -
    assume ne: "?r \<noteq> []"
    have "rev ?d = takeWhile py_isspace (rev ?d) @ ?r" by simp
    then have "last (rev ?d) = last ?r" using ne by (metis last_appendR)
    moreover have "?d \<noteq> []" using ne by (metis dropWhile.simps(1) rev.simps(1))
    ultimately show "last ?r = hd ?d" by (simp add: last_rev)
  qed
  moreover have "?d = [] \<or> \<not> py_isspace (hd ?d)" by (metis hd_dropWhile)
  moreover have "?r \<noteq> [] \<Longrightarrow> ?d \<noteq> []" by (metis dropWhile.simps(1) rev.simps(1))
  ultimately have "rev ?r = [] \<or> \<not> py_isspace (hd (rev ?r)) \<and> \<not> py_isspace (last (rev ?r))"
    by (metis hd_rev last_rev rev_is_Nil_conv)
  then show ?thesis
    unfolding py_strip_id_iff by (simp only: py_strip_def)
qed

lemma length_py_strip_le: "length (py_strip s) \<le> length s"
proof -
  have "length (dropWhile py_isspace (rev (dropWhile py_isspace s))) \<le> length (dropWhile py_isspace s)"
    using length_dropWhile_le [of py_isspace "rev (dropWhile py_isspace s)"] by simp
  then show ?thesis
    using length_dropWhile_le [of py_isspace s] by (simp add: py_strip_def)
qed

lemma py_lower_Nil [simp]: "py_lower [] = []"
  by (simp add: py_lower_def)

lemma py_lower_append: "py_lower (s @ t) = py_lower s @ py_lower t"
  by (simp add: py_lower_def)

lemma lower_char_ascii: "is_ascii c \<Longrightarrow> lower_char c = [ascii_lower c]"
  by (simp add: lower_char_def is_ascii_def)

lemma py_lower_ascii: "list_all is_ascii s \<Longrightarrow> py_lower s = map ascii_lower s"
  by (induction s) (auto simp: py_lower_def lower_char_ascii)

lemma ascii_lower_ascii: "is_ascii (ascii_lower c) \<longleftrightarrow> is_ascii c"
  by (auto simp: ascii_lower_def is_ascii_def)

lemma ascii_lower_idem [simp]: "ascii_lower (ascii_lower c) = ascii_lower c"
  by (simp add: ascii_lower_def)

lemma py_split_not_Nil [simp]: "py_split sep s \<noteq> []"
  by (cases s) (auto split: list.splits)

lemma py_split_no_sep: "sep \<notin> set s \<Longrightarrow> py_split sep s = [s]"
  by (induction s) auto

lemma py_split_append: "sep \<notin> set p \<Longrightarrow> py_split sep (p @ sep # s) = p # py_split sep s"
  by (induction p) auto

lemma length_py_split: "length (py_split sep s) = Suc (count_list s sep)"
  by (induction s) (auto split: list.splits)

lemma py_split_parts_no_sep: "p \<in> set (py_split sep s) \<Longrightarrow> sep \<notin> set p"
  by (induction s arbitrary: p) (fastforce split: list.splits if_splits)+

lemma py_split_elem: "c \<in> set s \<Longrightarrow> c = sep \<or> (\<exists>p \<in> set (py_split sep s). c \<in> set p)"
  by (induction s) (auto split: list.splits)

section \<open>UUIDs\<close>

text \<open>
  A UUID is an opaque 128-bit identifier; its order is the one \<open>ORDER BY id\<close> uses.
\<close>

datatype uuid = Uuid (uuid_value: nat)

instantiation uuid :: linorder
begin

definition less_eq_uuid :: "uuid \<Rightarrow> uuid \<Rightarrow> bool" where
  "less_eq_uuid a b \<longleftrightarrow> uuid_value a \<le> uuid_value b"

definition less_uuid :: "uuid \<Rightarrow> uuid \<Rightarrow> bool" where
  "less_uuid a b \<longleftrightarrow> uuid_value a < uuid_value b"

instance
  by standard (auto simp: less_eq_uuid_def less_uuid_def uuid.expand)

end

text \<open>
  PostgreSQL's \<open>text\<close> cannot hold U+0000, and neither can a string in \<open>jsonb\<close>: sending one fails before
  any constraint is checked. The pseudo-constraint \<open>unstorable_value\<close> stands for this error.
\<close>

definition storable_text :: "pystr \<Rightarrow> bool" where
  "storable_text s \<longleftrightarrow> 0 \<notin> set s"

section \<open>Results of code that may raise\<close>

text \<open>\<open>Inl e\<close> is the exception \<open>e\<close>, \<open>Inr x\<close> the returned value.\<close>

fun bind_result :: "'e + 'a \<Rightarrow> ('a \<Rightarrow> 'e + 'b) \<Rightarrow> 'e + 'b" where
  "bind_result (Inl e) f = Inl e"
| "bind_result (Inr x) f = f x"

definition require :: "bool \<Rightarrow> 'e \<Rightarrow> 'e + unit" where
  "require b e = (if b then Inr () else Inl e)"

fun map_results :: "('a \<Rightarrow> 'e + 'b) \<Rightarrow> 'a list \<Rightarrow> 'e + 'b list" where
  "map_results f [] = Inr []"
| "map_results f (x # xs) =
     bind_result (f x) (\<lambda>y. bind_result (map_results f xs) (\<lambda>ys. Inr (y # ys)))"

lemma bind_result_Inr_iff [result_simps]:
  "bind_result r f = Inr y \<longleftrightarrow> (\<exists>x. r = Inr x \<and> f x = Inr y)"
  by (cases r) auto

lemma bind_result_Inl_iff [result_simps]:
  "bind_result r f = Inl e \<longleftrightarrow> r = Inl e \<or> (\<exists>x. r = Inr x \<and> f x = Inl e)"
  by (cases r) auto

lemma require_Inr [result_simps]: "require b e = Inr u \<longleftrightarrow> b"
  by (simp add: require_def)

lemma require_Inl [result_simps]: "require b e = Inl e' \<longleftrightarrow> \<not> b \<and> e' = e"
  by (auto simp: require_def)

lemma map_results_Inr_iff:
  "map_results f xs = Inr ys \<longleftrightarrow> list_all2 (\<lambda>x y. f x = Inr y) xs ys"
  by (induction xs arbitrary: ys) (auto simp: result_simps list_all2_Cons1)

lemma map_results_total:
  "\<forall>x \<in> set xs. f x = Inr (g x) \<Longrightarrow> map_results f xs = Inr (map g xs)"
  by (induction xs) auto

lemma map_results_error:
  "map_results f xs = Inl e \<Longrightarrow> \<exists>x \<in> set xs. f x = Inl e"
  by (induction xs) (auto simp: result_simps)

section \<open>Generic list lemmas\<close>

lemma filter_length_complement:
  "length (filter P xs) + length (filter (\<lambda>x. \<not> P x) xs) = length xs"
  by (induction xs) auto

lemma distinct_map_filterI: "distinct (map f xs) \<Longrightarrow> distinct (map f (filter P xs))"
  by (induction xs) auto

lemma sorted_wrt_map_filterI: "sorted_wrt R xs \<Longrightarrow> sorted_wrt R (filter P xs)"
  by (simp add: sorted_wrt_filter)

end
