(* ===== verification/Numbers.thy ===== *)
theory Numbers
  imports Complex_Main "HOL-Library.Log_Nat" Prelude
begin

text \<open>
  Python's two number types that round: \<open>float\<close> (IEEE 754 binary64) and
  \<open>decimal.Decimal\<close> under a context with a precision. Both round an exact rational to a
  bounded number of digits, in base 2 and base 10, so one function \<open>round_prec\<close> serves
  them, and its laws are proved once, in the locale \<open>integer_rounding\<close>, for any rounding
  of a rational to an integer that is monotone and fixes the integers.

  A finite float is its exact rational value (\<open>-0.0\<close> and \<open>0.0\<close> compare equal in Python and
  are the same value here).
\<close>

section \<open>Logarithms of rationals\<close>

text \<open>\<open>ilog b q\<close> is the integer \<open>k\<close> with \<open>b ^ k \<le> q < b ^ (k + 1)\<close>, for \<open>0 < q\<close>.\<close>

definition ilog :: "nat \<Rightarrow> rat \<Rightarrow> int" where
  "ilog b q =
     (let (n, d) = quotient_of q;
          k = int (floorlog b (nat n)) - int (floorlog b (nat d))
      in if of_nat b powi k \<le> q then k else k - 1)"

lemma powi_less_iff:
  fixes a :: rat
  assumes "1 < a"
  shows "a powi m < a powi n \<longleftrightarrow> m < n"
  using power_int_strict_increasing [of m n a] power_int_increasing [of n m a] assms
  by (metis less_le_not_le linorder_not_le order_less_imp_le)

lemma powi_split:
  fixes a :: rat
  assumes "0 < a"
  shows "a powi (m + n) = a powi m * a powi n"
  using assms by (simp add: power_int_add)

lemma floorlog_pow_bounds:
  assumes "1 < b" and "0 < n"
  shows "(of_nat b :: rat) powi (int (floorlog b n) - 1) \<le> of_nat n"
    and "of_nat n < (of_nat b :: rat) powi int (floorlog b n)"
proof -
  have pos: "0 < floorlog b n" using assms by (simp add: floorlog_def)
  have "b ^ (floorlog b n - 1) \<le> n \<and> n < b ^ floorlog b n"
    using floorlog_bounds [of n b] assms by simp
  then have lo: "b ^ (floorlog b n - 1) \<le> n" and hi: "n < b ^ floorlog b n" by simp_all
  have "(of_nat b :: rat) powi (int (floorlog b n) - 1) = of_nat (b ^ (floorlog b n - 1))"
    using pos by (metis Suc_diff_1 of_nat_Suc add_diff_cancel_left' of_nat_power power_int_of_nat)
  also have "\<dots> \<le> of_nat n" using lo by (simp only: of_nat_le_iff)
  finally show "(of_nat b :: rat) powi (int (floorlog b n) - 1) \<le> of_nat n" .
  show "of_nat n < (of_nat b :: rat) powi int (floorlog b n)"
    using hi by (metis of_nat_less_iff of_nat_power power_int_of_nat)
qed

lemma ilog_bounds:
  assumes "1 < b" and "0 < q"
  shows "of_nat b powi ilog b q \<le> q" and "q < of_nat b powi (ilog b q + 1)"
proof -
  obtain n d where nd: "quotient_of q = (n, d)" by (cases "quotient_of q")
  then have d: "0 < d" and q: "q = of_int n / of_int d"
    by (auto dest: quotient_of_denom_pos quotient_of_div)
  with assms have n: "0 < n" by (simp add: zero_less_divide_iff)
  let ?a = "int (floorlog b (nat n))" and ?c = "int (floorlog b (nat d))"
  let ?B = "of_nat b :: rat"
  have B: "0 < ?B" "?B \<noteq> 0" using assms(1) by auto
  have bn: "?B powi (?a - 1) \<le> of_int n" "of_int n < ?B powi ?a"
    using floorlog_pow_bounds [OF assms(1), of "nat n"] n by simp_all
  have bd: "?B powi (?c - 1) \<le> of_int d" "of_int d < ?B powi ?c"
    using floorlog_pow_bounds [OF assms(1), of "nat d"] d by simp_all
  have dpos: "(0::rat) < of_int d" using d by simp
  have "?B powi (?a - ?c - 1) * of_int d \<le> ?B powi (?a - ?c - 1) * ?B powi ?c"
    using bd(2) B by (intro mult_left_mono) auto
  also have "\<dots> = ?B powi (?a - 1)" using powi_split [OF B(1), of "?a - ?c - 1" ?c] by simp
  also have "\<dots> \<le> of_int n" by (rule bn)
  finally have lo: "?B powi (?a - ?c - 1) \<le> q" using dpos by (simp add: q pos_le_divide_eq)
  have "of_int n < ?B powi ?a" by (rule bn)
  also have "\<dots> = ?B powi (?a - ?c + 1) * ?B powi (?c - 1)"
    using powi_split [OF B(1), of "?a - ?c + 1" "?c - 1"] by simp
  also have "\<dots> \<le> ?B powi (?a - ?c + 1) * of_int d"
    using bd(1) B by (intro mult_left_mono) auto
  finally have hi: "q < ?B powi (?a - ?c + 1)" using dpos by (simp add: q pos_divide_less_eq)
  show "?B powi ilog b q \<le> q" using lo by (simp add: ilog_def nd Let_def)
  show "q < ?B powi (ilog b q + 1)" using hi by (simp add: ilog_def nd Let_def)
qed

lemma ilog_unique:
  assumes "1 < b" and "of_nat b powi k \<le> q" and "q < of_nat b powi (k + 1)"
  shows "ilog b q = k"
proof -
  let ?B = "of_nat b :: rat"
  have B: "1 < ?B" using assms(1) by simp
  have pos: "0 < q" using assms(2) B by (meson less_le_trans zero_less_power_int zero_less_one less_trans)
  note bounds = ilog_bounds [OF assms(1) pos]
  have "?B powi k < ?B powi (ilog b q + 1)" using assms(2) bounds(2) by (rule le_less_trans)
  moreover have "?B powi ilog b q < ?B powi (k + 1)" using bounds(1) assms(3) by (rule le_less_trans)
  ultimately show ?thesis using B by (simp add: powi_less_iff)
qed

lemma ilog_mono:
  assumes "1 < b" and "0 < p" and "p \<le> q"
  shows "ilog b p \<le> ilog b q"
proof -
  have "of_nat b powi ilog b p < (of_nat b :: rat) powi (ilog b q + 1)"
    using ilog_bounds [OF assms(1), of p] ilog_bounds [OF assms(1), of q] assms by linarith
  then show ?thesis using assms(1) by (simp add: powi_less_iff)
qed

section \<open>Rounding to an integer\<close>

definition round_half_even :: "rat \<Rightarrow> int" where
  "round_half_even x =
     (let f = \<lfloor>x\<rfloor>; r = x - of_int f
      in if r < 1/2 then f else if 1/2 < r then f + 1 else if even f then f else f + 1)"

text \<open>For a number that is not negative, \<open>ROUND_HALF_UP\<close>.\<close>

definition round_half_up :: "rat \<Rightarrow> int" where
  "round_half_up x = \<lfloor>x + 1/2\<rfloor>"

definition round_at :: "(rat \<Rightarrow> int) \<Rightarrow> nat \<Rightarrow> int \<Rightarrow> rat \<Rightarrow> rat" where
  "round_at rnd b e q = of_int (rnd (q / of_nat b powi e)) * of_nat b powi e"

text \<open>
  \<open>round_prec rnd b p emin q\<close> rounds a positive \<open>q\<close> to \<open>p\<close> digits in base \<open>b\<close>, no digit
  weighing less than \<open>b ^ emin\<close>.
\<close>

definition round_prec :: "(rat \<Rightarrow> int) \<Rightarrow> nat \<Rightarrow> nat \<Rightarrow> int \<Rightarrow> rat \<Rightarrow> rat" where
  "round_prec rnd b p emin q = round_at rnd b (max emin (ilog b q - int p + 1)) q"

locale integer_rounding =
  fixes rnd :: "rat \<Rightarrow> int"
  assumes rnd_mono: "x \<le> y \<Longrightarrow> rnd x \<le> rnd y"
    and rnd_of_int: "rnd (of_int k) = k"
begin

lemma rnd_floor: "\<lfloor>x\<rfloor> \<le> rnd x"
  using rnd_mono [of "of_int \<lfloor>x\<rfloor>" x] by (simp add: rnd_of_int)

lemma rnd_ceiling: "rnd x \<le> \<lceil>x\<rceil>"
  using rnd_mono [of x "of_int \<lceil>x\<rceil>"] by (simp add: rnd_of_int)

lemma rnd_le_int: "x \<le> of_int k \<Longrightarrow> rnd x \<le> k"
  using rnd_mono [of x "of_int k"] by (simp add: rnd_of_int)

lemma rnd_ge_int: "of_int k \<le> x \<Longrightarrow> k \<le> rnd x"
  using rnd_mono [of "of_int k" x] by (simp add: rnd_of_int)

lemma round_at_mono: "0 < b \<Longrightarrow> p \<le> q \<Longrightarrow> round_at rnd b e p \<le> round_at rnd b e q"
  by (auto simp: round_at_def intro!: mult_right_mono rnd_mono divide_right_mono)

lemma round_at_error:
  assumes "0 < b"
  shows "\<bar>round_at rnd b e q - q\<bar> < of_nat b powi e"
proof -
  let ?E = "of_nat b powi e :: rat"
  have E: "0 < ?E" using assms by simp
  have "\<bar>of_int (rnd (q / ?E)) - q / ?E\<bar> < 1"
    using rnd_floor [of "q / ?E"] rnd_ceiling [of "q / ?E"] by linarith
  then have "\<bar>of_int (rnd (q / ?E)) - q / ?E\<bar> * ?E < 1 * ?E"
    using E by (intro mult_strict_right_mono) auto
  moreover have "\<bar>of_int (rnd (q / ?E)) - q / ?E\<bar> * ?E = \<bar>round_at rnd b e q - q\<bar>"
    using E assms by (simp add: round_at_def abs_mult_pos left_diff_distrib)
  ultimately show ?thesis by simp
qed

text \<open>A multiple of the quantum is kept.\<close>

lemma round_at_exact:
  assumes "0 < b" and "q = of_int k * of_nat b powi e"
  shows "round_at rnd b e q = q"
  using assms by (simp add: round_at_def rnd_of_int)

lemma round_at_pow:
  assumes "0 < b" and "e \<le> m"
  shows "round_at rnd b e (of_nat b powi m) = of_nat b powi m"
proof (rule round_at_exact)
  have "(of_nat b :: rat) powi m = of_nat b powi (m - e) * of_nat b powi e"
    using powi_split [of "of_nat b" "m - e" e] assms by simp
  also have "of_nat b powi (m - e) = (of_int (int b ^ nat (m - e)) :: rat)"
    using assms by (simp add: power_int_def)
  finally show "of_nat b powi m = of_int (int b ^ nat (m - e)) * (of_nat b powi e :: rat)" .
qed (use assms in simp)

lemma round_at_pow_upper:
  assumes "0 < b" and "q \<le> of_nat b powi m" and "e \<le> m"
  shows "round_at rnd b e q \<le> of_nat b powi m"
proof -
  have "round_at rnd b e (of_nat b powi m) = of_nat b powi m"
    using assms(1,3) by (rule round_at_pow)
  then show ?thesis using round_at_mono [OF assms(1,2), of e] by simp
qed

lemma round_at_pow_lower:
  assumes "0 < b" and "of_nat b powi m \<le> q" and "e \<le> m"
  shows "of_nat b powi m \<le> round_at rnd b e q"
proof -
  have "round_at rnd b e (of_nat b powi m) = of_nat b powi m"
    using assms(1,3) by (rule round_at_pow)
  then show ?thesis using round_at_mono [OF assms(1,2), of e] by simp
qed

text \<open>
  Rounding to a precision is monotone although the quantum changes with the argument:
  across a change of exponent the power of the base between the two arguments separates
  their images.
\<close>

lemma round_prec_mono:
  assumes b: "1 < b" and prec: "0 < n" and p: "0 < p" and pq: "p \<le> q"
  shows "round_prec rnd b n emin p \<le> round_prec rnd b n emin q"
proof -
  let ?ep = "max emin (ilog b p - int n + 1)" and ?eq = "max emin (ilog b q - int n + 1)"
  have lm: "ilog b p \<le> ilog b q" using ilog_mono [OF b p pq] .
  have q: "0 < q" using p pq by simp
  show ?thesis
  proof (cases "?ep = ?eq")
    case True
    then show ?thesis
      unfolding round_prec_def using round_at_mono [of b p q "?eq"] b pq by simp
  next
    case False
    with lm have eq: "?eq = ilog b q - int n + 1" and lt: "ilog b p < ilog b q" by (auto simp: max_def split: if_splits)
    have 1: "round_at rnd b ?ep p \<le> of_nat b powi ilog b q"
    proof (rule round_at_pow_upper)
      have "p < of_nat b powi (ilog b p + 1)" by (rule ilog_bounds [OF b p])
      also have "\<dots> \<le> of_nat b powi ilog b q" using b lt by (intro power_int_increasing) auto
      finally show "p \<le> of_nat b powi ilog b q" by simp
      show "?ep \<le> ilog b q" using False lm prec by (auto simp: max_def split: if_splits)
    qed (use b in simp)
    have 2: "of_nat b powi ilog b q \<le> round_at rnd b ?eq q"
      by (rule round_at_pow_lower) (use b q eq prec in \<open>auto simp: ilog_bounds\<close>)
    from 1 2 show ?thesis unfolding round_prec_def by (rule order_trans)
  qed
qed

text \<open>Numbers that already fit the precision are fixed points.\<close>

lemma round_prec_exact:
  assumes b: "1 < b" and q: "0 < q" "q = of_int k * of_nat b powi e"
    and fits: "of_int k < (of_nat b :: rat) powi int n" and e: "emin \<le> e"
  shows "round_prec rnd b n emin q = q"
proof -
  let ?B = "of_nat b :: rat" and ?E = "max emin (ilog b q - int n + 1)"
  have B: "0 < ?B" "1 < ?B" using b by auto
  have "?B powi ilog b q \<le> q" by (rule ilog_bounds [OF b q(1)])
  also have "q < ?B powi int n * ?B powi e" unfolding q(2) using fits B(1) by (intro mult_strict_right_mono) auto
  also have "\<dots> = ?B powi (int n + e)" using powi_split [OF B(1), of "int n" e] by simp
  finally have "ilog b q < int n + e" using powi_less_iff [OF B(2)] by blast
  then have le: "?E \<le> e" using e by simp
  have "?B powi e = ?B powi (e - ?E) * ?B powi ?E" using powi_split [OF B(1), of "e - ?E" ?E] by simp
  also have "?B powi (e - ?E) = of_int (int b ^ nat (e - ?E))" using le by (simp add: power_int_def)
  finally have "q = of_int (k * int b ^ nat (e - ?E)) * ?B powi ?E" unfolding q(2) by simp
  with _ show ?thesis unfolding round_prec_def by (rule round_at_exact) (use b in simp)
qed

lemma round_prec_nonneg:
  assumes "1 < b" and "0 \<le> q"
  shows "0 \<le> round_prec rnd b n emin q"
proof -
  have "0 \<le> q / of_nat b powi max emin (ilog b q - int n + 1)" using assms by simp
  then have "0 \<le> rnd (q / of_nat b powi max emin (ilog b q - int n + 1))"
    using rnd_ge_int [of 0] by simp
  then show ?thesis by (simp add: round_prec_def round_at_def)
qed

text \<open>A rounded number fits the precision, so rounding it again changes nothing.\<close>

lemma round_prec_fits:
  assumes b: "1 < b" and n: "0 < n" and q: "0 < q"
  obtains k e where "round_prec rnd b n emin q = of_int k * of_nat b powi e"
    "of_int k < (of_nat b :: rat) powi int n" "emin \<le> e"
proof -
  let ?B = "of_nat b :: rat" and ?E = "max emin (ilog b q - int n + 1)"
  let ?k = "rnd (q / ?B powi ?E)"
  have B: "1 < ?B" "0 < ?B" using b by auto
  have "q < ?B powi (ilog b q + 1)" by (rule ilog_bounds [OF b q])
  also have "\<dots> \<le> ?B powi (int n + ?E)" using B by (intro power_int_increasing) auto
  also have "\<dots> = ?B powi int n * ?B powi ?E" by (rule powi_split [OF B(2)])
  finally have "q / ?B powi ?E \<le> of_int (int b ^ n)" using B by (simp add: divide_le_eq)
  then have "?k \<le> int b ^ n" by (rule rnd_le_int)
  then consider "?k < int b ^ n" | "?k = int b ^ n" by linarith
  then show thesis
  proof cases
    case 1
    then have "of_int ?k < (of_int (int b ^ n) :: rat)" by (simp only: of_int_less_iff)
    then show thesis by (intro that [of ?k ?E]) (simp_all add: round_prec_def round_at_def)
  next
    case 2
    have "?B * ?B powi ?E = ?B powi (?E + 1)" using powi_split [OF B(2), of 1 ?E] by (simp add: add.commute)
    moreover have "(int b ^ n) = int b ^ (n - 1) * int b" using n by (cases n) auto
    ultimately have "round_prec rnd b n emin q = of_int (int b ^ (n - 1)) * ?B powi (?E + 1)"
      by (simp add: round_prec_def round_at_def 2 mult.assoc)
    moreover have "of_int (int b ^ (n - 1)) < ?B powi int n"
      using power_strict_increasing [of "n - 1" n ?B] n B by simp
    ultimately show thesis by (intro that [of "int b ^ (n - 1)" "?E + 1"]) simp_all
  qed
qed

lemma round_prec_idem:
  assumes "1 < b" and "0 < n" and "0 < q" and "0 < round_prec rnd b n emin q"
  shows "round_prec rnd b n emin (round_prec rnd b n emin q) = round_prec rnd b n emin q"
  by (rule round_prec_fits [OF assms(1-3), of emin]) (use round_prec_exact assms in blast)

end

lemma round_half_even_bounds:
  "\<lfloor>x\<rfloor> \<le> round_half_even x" "round_half_even x \<le> \<lfloor>x\<rfloor> + 1"
  by (simp_all add: round_half_even_def Let_def)

lemma round_half_even_near: "\<bar>of_int (round_half_even x) - x\<bar> \<le> 1/2"
proof -
  have "of_int \<lfloor>x\<rfloor> \<le> x" "x < of_int \<lfloor>x\<rfloor> + 1" by linarith+
  then show ?thesis unfolding round_half_even_def Let_def by (auto simp: abs_le_iff)
qed

lemma round_half_even_mono:
  assumes "x \<le> y"
  shows "round_half_even x \<le> round_half_even y"
proof (cases "\<lfloor>x\<rfloor> = \<lfloor>y\<rfloor>")
  case True
  with assms show ?thesis by (auto simp: round_half_even_def Let_def)
next
  case False
  with assms have "\<lfloor>x\<rfloor> + 1 \<le> \<lfloor>y\<rfloor>" using floor_mono [OF assms] by linarith
  then show ?thesis
    using round_half_even_bounds(2) [of x] round_half_even_bounds(1) [of y] by linarith
qed

interpretation half_even: integer_rounding round_half_even
  by unfold_locales (auto simp: round_half_even_mono, simp add: round_half_even_def)

interpretation half_up: integer_rounding round_half_up
proof
  fix x y :: rat
  assume "x \<le> y"
  then show "round_half_up x \<le> round_half_up y" by (simp add: round_half_up_def floor_mono)
next
  fix k
  show "round_half_up (of_int k) = k" unfolding round_half_up_def by linarith
qed

end
