(* ===== verification/Regex.thy ===== *)
theory Regex
  imports Prelude
begin

text \<open>
  The regular expressions the sources compile with \<open>re.compile\<close> and apply with
  \<open>fullmatch\<close>. All of them are regular (no back references, no look-around), so
  \<open>fullmatch\<close> succeeds exactly on the words of the expression's language: \<open>matches\<close> is
  that language, \<open>fullmatch\<close> an executable decision procedure, and \<open>fullmatch_iff\<close>
  says they agree.
\<close>

datatype rx =
    RNone
  | REps
  | RCls "(nat \<times> nat) list"
  | RAlt rx rx
  | RCat rx rx
  | RStar rx

text \<open>A character class is a list of inclusive code point ranges.\<close>

definition in_cls :: "(nat \<times> nat) list \<Rightarrow> code_point \<Rightarrow> bool" where
  "in_cls rs c \<longleftrightarrow> list_ex (\<lambda>(a, b). a \<le> c \<and> c \<le> b) rs"

inductive matches :: "rx \<Rightarrow> pystr \<Rightarrow> bool" where
  m_eps: "matches REps []"
| m_cls: "in_cls rs c \<Longrightarrow> matches (RCls rs) [c]"
| m_alt1: "matches r s \<Longrightarrow> matches (RAlt r q) s"
| m_alt2: "matches q s \<Longrightarrow> matches (RAlt r q) s"
| m_cat: "matches r u \<Longrightarrow> matches q v \<Longrightarrow> matches (RCat r q) (u @ v)"
| m_star0: "matches (RStar r) []"
| m_star1: "matches r (c # u) \<Longrightarrow> matches (RStar r) v \<Longrightarrow> matches (RStar r) (c # u @ v)"

inductive_simps matches_RNone [simp]: "matches RNone s"
inductive_simps matches_REps [simp]: "matches REps s"
inductive_simps matches_RCls [simp]: "matches (RCls rs) s"
inductive_simps matches_RAlt [simp]: "matches (RAlt r q) s"
inductive_simps matches_RCat: "matches (RCat r q) s"
inductive_simps matches_RStar: "matches (RStar r) s"

definition ROpt :: "rx \<Rightarrow> rx" where
  "ROpt r = RAlt REps r"

definition RPlus :: "rx \<Rightarrow> rx" where
  "RPlus r = RCat r (RStar r)"

fun RRep :: "nat \<Rightarrow> rx \<Rightarrow> rx" where
  "RRep 0 r = REps"
| "RRep (Suc n) r = RCat r (RRep n r)"

text \<open>\<open>RUpTo n r\<close> is \<open>r{0,n}\<close>.\<close>

fun RUpTo :: "nat \<Rightarrow> rx \<Rightarrow> rx" where
  "RUpTo 0 r = REps"
| "RUpTo (Suc n) r = ROpt (RCat r (RUpTo n r))"

fun RSeq :: "rx list \<Rightarrow> rx" where
  "RSeq [] = REps"
| "RSeq (r # rs) = RCat r (RSeq rs)"

definition RChr :: "code_point \<Rightarrow> rx" where
  "RChr c = RCls [(c, c)]"

section \<open>The decision procedure\<close>

fun nullable :: "rx \<Rightarrow> bool" where
  "nullable RNone = False"
| "nullable REps = True"
| "nullable (RCls rs) = False"
| "nullable (RAlt r q) = (nullable r \<or> nullable q)"
| "nullable (RCat r q) = (nullable r \<and> nullable q)"
| "nullable (RStar r) = True"

fun mk_alt :: "rx \<Rightarrow> rx \<Rightarrow> rx" where
  "mk_alt RNone q = q"
| "mk_alt r RNone = r"
| "mk_alt r q = RAlt r q"

fun mk_cat :: "rx \<Rightarrow> rx \<Rightarrow> rx" where
  "mk_cat RNone q = RNone"
| "mk_cat REps q = q"
| "mk_cat r q = RCat r q"

fun after_char :: "code_point \<Rightarrow> rx \<Rightarrow> rx" where
  "after_char c RNone = RNone"
| "after_char c REps = RNone"
| "after_char c (RCls rs) = (if in_cls rs c then REps else RNone)"
| "after_char c (RAlt r q) = mk_alt (after_char c r) (after_char c q)"
| "after_char c (RCat r q) =
     (if nullable r then mk_alt (mk_cat (after_char c r) q) (after_char c q)
      else mk_cat (after_char c r) q)"
| "after_char c (RStar r) = mk_cat (after_char c r) (RStar r)"

fun fullmatch :: "rx \<Rightarrow> pystr \<Rightarrow> bool" where
  "fullmatch r [] = nullable r"
| "fullmatch r (c # s) = fullmatch (after_char c r) s"

lemma nullable_iff: "nullable r \<longleftrightarrow> matches r []"
  by (induction r) (auto simp: matches_RCat intro: matches.intros)

lemma matches_mk_alt [simp]: "matches (mk_alt r q) s \<longleftrightarrow> matches (RAlt r q) s"
  by (induction r q rule: mk_alt.induct) auto

lemma matches_mk_cat [simp]: "matches (mk_cat r q) s \<longleftrightarrow> matches (RCat r q) s"
  by (induction r q rule: mk_cat.induct) (auto simp: matches_RCat)

lemma matches_RStar_Cons:
  "matches (RStar r) (c # s) \<longleftrightarrow> (\<exists>u v. s = u @ v \<and> matches r (c # u) \<and> matches (RStar r) v)"
  by (subst matches_RStar) auto

lemma matches_RCat_Cons:
  "matches (RCat r q) (c # s) \<longleftrightarrow>
     (matches r [] \<and> matches q (c # s)) \<or> (\<exists>u v. s = u @ v \<and> matches r (c # u) \<and> matches q v)"
  by (auto simp: matches_RCat Cons_eq_append_conv)

lemma matches_after_char: "matches (after_char c r) s \<longleftrightarrow> matches r (c # s)"
proof (induction r arbitrary: s)
  case (RCat r q)
  have 1: "matches (RCat (after_char c r) q) s
      \<longleftrightarrow> (\<exists>u v. s = u @ v \<and> matches r (c # u) \<and> matches q v)"
    by (auto simp: matches_RCat RCat.IH)
  show ?case
  proof (cases "nullable r")
    case True
    then show ?thesis
      by (auto simp: 1 matches_RCat_Cons nullable_iff RCat.IH)
  next
    case False
    then show ?thesis
      by (auto simp: 1 matches_RCat_Cons nullable_iff)
  qed
next
  case (RStar r)
  then show ?case by (auto simp: matches_RCat matches_RStar_Cons)
qed auto

theorem fullmatch_iff: "fullmatch r s \<longleftrightarrow> matches r s"
  by (induction s arbitrary: r) (auto simp: nullable_iff matches_after_char)

section \<open>Reading off the language of an expression\<close>

lemma matches_RChr [simp]: "matches (RChr c) s \<longleftrightarrow> s = [c]"
  by (auto simp: RChr_def in_cls_def)

lemma matches_ROpt [simp]: "matches (ROpt r) s \<longleftrightarrow> s = [] \<or> matches r s"
  by (auto simp: ROpt_def)

lemma matches_star_cls [simp]: "matches (RStar (RCls rs)) s \<longleftrightarrow> list_all (in_cls rs) s"
proof (induction s)
  case Nil
  show ?case by (auto intro: m_star0)
next
  case (Cons c s)
  then show ?case by (auto simp: matches_RStar_Cons)
qed

lemma matches_cat_cls:
  "matches (RCat (RCls rs) q) s \<longleftrightarrow> (\<exists>c v. s = c # v \<and> in_cls rs c \<and> matches q v)"
  by (auto simp: matches_RCat intro: exI [where x = "[_]"])

lemma matches_plus_cls [simp]:
  "matches (RPlus (RCls rs)) s \<longleftrightarrow> s \<noteq> [] \<and> list_all (in_cls rs) s"
proof -
  have "matches (RPlus (RCls rs)) s \<longleftrightarrow> (\<exists>c v. s = c # v \<and> in_cls rs c \<and> list_all (in_cls rs) v)"
    by (simp add: RPlus_def matches_cat_cls)
  also have "\<dots> \<longleftrightarrow> s \<noteq> [] \<and> list_all (in_cls rs) s" by (cases s) auto
  finally show ?thesis .
qed

lemma matches_rep_cls [simp]:
  "matches (RRep n (RCls rs)) s \<longleftrightarrow> length s = n \<and> list_all (in_cls rs) s"
proof (induction n arbitrary: s)
  case (Suc n)
  then show ?case by (cases s) (auto simp: matches_cat_cls)
qed auto

lemma matches_upto_cls [simp]:
  "matches (RUpTo n (RCls rs)) s \<longleftrightarrow> length s \<le> n \<and> list_all (in_cls rs) s"
proof (induction n arbitrary: s)
  case (Suc n)
  then show ?case by (cases s) (auto simp: matches_cat_cls)
qed auto

lemma in_cls_Nil [simp]: "in_cls [] c = False"
  by (simp add: in_cls_def)

lemma in_cls_Cons [simp]: "in_cls ((a, b) # rs) c \<longleftrightarrow> (a \<le> c \<and> c \<le> b) \<or> in_cls rs c"
  by (simp add: in_cls_def)

lemma matches_cat_chr [simp]:
  "matches (RCat (RChr c) r) s \<longleftrightarrow> (\<exists>t. s = c # t \<and> matches r t)"
  by (auto simp: matches_RCat)

lemma matches_cat_last:
  "matches (RCat r (RCls rs)) s \<longleftrightarrow> s \<noteq> [] \<and> matches r (butlast s) \<and> in_cls rs (last s)"
proof (cases s rule: rev_cases)
  case (snoc t c)
  then show ?thesis by (auto simp: matches_RCat)
qed (auto simp: matches_RCat)

text \<open>A name of up to \<open>n + 2\<close> characters: its ends in one class, its inside in a wider one.\<close>

definition RName :: "(nat \<times> nat) list \<Rightarrow> (nat \<times> nat) list \<Rightarrow> nat \<Rightarrow> rx" where
  "RName ends inner n = RCat (RCls ends) (ROpt (RCat (RUpTo n (RCls inner)) (RCls ends)))"

lemma matches_RName:
  assumes "\<And>c. in_cls ends c \<Longrightarrow> in_cls inner c"
  shows "matches (RName ends inner n) s \<longleftrightarrow>
    s \<noteq> [] \<and> length s \<le> n + 2 \<and> list_all (in_cls inner) s \<and>
    in_cls ends (hd s) \<and> in_cls ends (last s)"
proof (cases s)
  case (Cons c v)
  show ?thesis
  proof (cases v rule: rev_cases)
    case (snoc u d)
    then show ?thesis
      using Cons assms by (auto simp: RName_def matches_cat_cls matches_cat_last)
  qed (use Cons assms in \<open>auto simp: RName_def matches_cat_cls matches_cat_last\<close>)
qed (simp add: RName_def matches_cat_cls)

text \<open>Parts over one class, separated by a character outside it.\<close>

definition RParts :: "code_point \<Rightarrow> (nat \<times> nat) list \<Rightarrow> rx" where
  "RParts sep rs = RCat (RPlus (RCls rs)) (RStar (RCat (RChr sep) (RPlus (RCls rs))))"

definition part_ok :: "(nat \<times> nat) list \<Rightarrow> pystr \<Rightarrow> bool" where
  "part_ok rs p \<longleftrightarrow> p \<noteq> [] \<and> list_all (in_cls rs) p"

lemma matches_parts_tail:
  assumes "\<not> in_cls rs sep"
  shows "matches (RStar (RCat (RChr sep) (RPlus (RCls rs)))) s \<longleftrightarrow>
    s = [] \<or> hd s = sep \<and> list_all (part_ok rs) (py_split sep (tl s))"
proof (induction "length s" arbitrary: s rule: less_induct)
  case less
  show ?case
  proof (cases s)
    case (Cons c t)
    have tail: "matches (RStar (RCat (RChr sep) (RPlus (RCls rs)))) v \<longleftrightarrow>
        v = [] \<or> hd v = sep \<and> list_all (part_ok rs) (py_split sep (tl v))"
      if "length v \<le> length t" for v
      using less that Cons by simp
    have tail_at: "matches (RStar (RCat (RChr sep) (RPlus (RCls rs)))) v \<longleftrightarrow>
        v = [] \<or> hd v = sep \<and> list_all (part_ok rs) (py_split sep (tl v))" if "t = u @ v" for u v
      using that by (intro tail) simp
    have inner: "matches (RCat (RChr sep) (RPlus (RCls rs))) (c # u) \<longleftrightarrow> c = sep \<and> part_ok rs u" for u
      by (auto simp: part_ok_def)
    have "matches (RStar (RCat (RChr sep) (RPlus (RCls rs)))) s \<longleftrightarrow>
        c = sep \<and> (\<exists>u v. t = u @ v \<and> part_ok rs u \<and>
          (v = [] \<or> hd v = sep \<and> list_all (part_ok rs) (py_split sep (tl v))))"
      unfolding Cons matches_RStar_Cons inner using tail_at by blast
    also have "\<dots> \<longleftrightarrow> c = sep \<and> list_all (part_ok rs) (py_split sep t)"
    proof (intro conj_cong refl iffI)
      assume "\<exists>u v. t = u @ v \<and> part_ok rs u \<and>
        (v = [] \<or> hd v = sep \<and> list_all (part_ok rs) (py_split sep (tl v)))"
      then obtain u v where uv: "t = u @ v" "part_ok rs u"
        "v = [] \<or> hd v = sep \<and> list_all (part_ok rs) (py_split sep (tl v))" by blast
      have "sep \<notin> set u" using uv(2) assms by (auto simp: part_ok_def list_all_iff)
      then show "list_all (part_ok rs) (py_split sep t)"
        using uv by (cases v) (auto simp: py_split_append py_split_no_sep)
    next
      assume ok: "list_all (part_ok rs) (py_split sep t)"
      let ?u = "takeWhile (\<lambda>c. c \<noteq> sep) t" and ?v = "dropWhile (\<lambda>c. c \<noteq> sep) t"
      have u: "sep \<notin> set ?u" by (auto dest: set_takeWhileD)
      have "part_ok rs ?u \<and> (?v = [] \<or> hd ?v = sep \<and> list_all (part_ok rs) (py_split sep (tl ?v)))"
      proof (cases ?v)
        case Nil
        then have whole: "?u = t" by (simp add: takeWhile_eq_all_conv)
        have "py_split sep t = [t]" using Nil by (intro py_split_no_sep) auto
        then have "part_ok rs ?u" unfolding whole using ok by simp
        then show ?thesis using Nil by blast
      next
        case (Cons d w)
        then have d: "d = sep" using hd_dropWhile [of "\<lambda>c. c \<noteq> sep" t] by simp
        have "py_split sep (?u @ sep # w) = ?u # py_split sep w" by (rule py_split_append [OF u])
        also have "?u @ sep # w = t"
          using takeWhile_dropWhile_id [of "\<lambda>c. c \<noteq> sep" t] Cons d by simp
        finally have "py_split sep t = ?u # py_split sep w" .
        then show ?thesis using ok Cons d by simp
      qed
      then show "\<exists>u v. t = u @ v \<and> part_ok rs u \<and>
          (v = [] \<or> hd v = sep \<and> list_all (part_ok rs) (py_split sep (tl v)))"
        using takeWhile_dropWhile_id [of "\<lambda>c. c \<noteq> sep" t, symmetric] by blast
    qed
    finally show ?thesis using Cons by simp
  qed (simp add: m_star0)
qed

lemma matches_RParts:
  assumes "\<not> in_cls rs sep"
  shows "matches (RParts sep rs) s \<longleftrightarrow> list_all (part_ok rs) (py_split sep s)"
proof -
  have "matches (RStar (RCat (RChr sep) (RPlus (RCls rs)))) (sep # s)
      \<longleftrightarrow> matches (RParts sep rs) s"
    unfolding matches_RStar_Cons RParts_def matches_RCat [of "RPlus (RCls rs)"] by (auto simp: matches_RCat)
  then show ?thesis using matches_parts_tail [OF assms, of "sep # s"] by simp
qed

section \<open>Substitution of characters\<close>

text \<open>An expression that does not tell a character from its image.\<close>

fun blind_to :: "(code_point \<Rightarrow> code_point) \<Rightarrow> rx \<Rightarrow> bool" where
  "blind_to f (RCls rs) = (\<forall>c. in_cls rs (f c) = in_cls rs c)"
| "blind_to f (RAlt r q) = (blind_to f r \<and> blind_to f q)"
| "blind_to f (RCat r q) = (blind_to f r \<and> blind_to f q)"
| "blind_to f (RStar r) = blind_to f r"
| "blind_to f _ = True"

lemma blind_mk: "blind_to f r \<Longrightarrow> blind_to f q \<Longrightarrow> blind_to f (mk_alt r q) \<and> blind_to f (mk_cat r q)"
  by (cases r; cases q) auto

lemma blind_after: "blind_to f r \<Longrightarrow> blind_to f (after_char c r)"
  by (induction r) (auto simp: blind_mk)

lemma after_char_blind: "blind_to f r \<Longrightarrow> after_char (f c) r = after_char c r"
  by (induction r) auto

lemma fullmatch_map: "blind_to f r \<Longrightarrow> fullmatch r (map f s) = fullmatch r s"
  by (induction s arbitrary: r) (auto simp: after_char_blind blind_after)

lemma blind_upto: "blind_to f r \<Longrightarrow> blind_to f (RUpTo n r)"
  by (induction n) (auto simp: ROpt_def)

end
