(* ===== verification/PyValues.thy ===== *)
theory PyValues
  imports Numbers Regex
begin

text \<open>
  Python values that reach the modelled code with a dynamic type: floats, and the objects a
  rule specification or a JSON configuration may hold. \<open>float(s)\<close> is modelled for the strings
  of the number grammar of \<open>validation/rules.py\<close>: the exact decimal value of the literal,
  rounded to nearest-even binary64, infinite beyond the largest finite float.
\<close>

section \<open>Floats\<close>

datatype pyfloat = FFin rat | FPosInf | FNegInf | FNaN

definition double_limit :: rat where
  "double_limit = 2 ^ 1024"

definition round_double :: "rat \<Rightarrow> pyfloat" where
  "round_double q =
     (if q = 0 then FFin 0
      else let r = round_prec round_half_even 2 53 (-1074) \<bar>q\<bar>
           in if double_limit \<le> r then (if q < 0 then FNegInf else FPosInf)
              else FFin (sgn q * r))"

fun float_isfinite :: "pyfloat \<Rightarrow> bool" where
  "float_isfinite (FFin q) = True"
| "float_isfinite _ = False"

text \<open>The values a float object can have: a finite one is a binary64 number.\<close>

definition is_float :: "pyfloat \<Rightarrow> bool" where
  "is_float f \<longleftrightarrow> (case f of FFin q \<Rightarrow> round_double q = FFin q | _ \<Rightarrow> True)"

fun float_le :: "pyfloat \<Rightarrow> pyfloat \<Rightarrow> bool" where
  "float_le FNaN _ = False"
| "float_le _ FNaN = False"
| "float_le FNegInf _ = True"
| "float_le _ FPosInf = True"
| "float_le FPosInf _ = False"
| "float_le _ FNegInf = False"
| "float_le (FFin p) (FFin q) = (p \<le> q)"

fun float_less :: "pyfloat \<Rightarrow> pyfloat \<Rightarrow> bool" where
  "float_less FNaN _ = False"
| "float_less _ FNaN = False"
| "float_less FPosInf _ = False"
| "float_less _ FNegInf = False"
| "float_less FNegInf _ = True"
| "float_less _ FPosInf = True"
| "float_less (FFin p) (FFin q) = (p < q)"

lemma float_less_iff_not_le:
  "a \<noteq> FNaN \<Longrightarrow> b \<noteq> FNaN \<Longrightarrow> float_less a b \<longleftrightarrow> \<not> float_le b a"
  by (cases a; cases b) auto

lemma float_le_refl: "a \<noteq> FNaN \<Longrightarrow> float_le a a"
  by (cases a) auto

lemma round_double_zero [simp]: "round_double 0 = FFin 0"
  by (simp add: round_double_def)

lemma round_double_not_NaN [simp]: "round_double q \<noteq> FNaN"
  by (simp add: round_double_def Let_def)

abbreviation mantissa53 :: "rat \<Rightarrow> rat" where
  "mantissa53 q \<equiv> round_prec round_half_even 2 53 (-1074) q"

lemma mantissa53_mono: "0 < p \<Longrightarrow> p \<le> q \<Longrightarrow> mantissa53 p \<le> mantissa53 q"
  by (rule half_even.round_prec_mono) simp_all

lemma mantissa53_nonneg: "0 \<le> q \<Longrightarrow> 0 \<le> mantissa53 q"
  by (rule half_even.round_prec_nonneg) simp_all

lemma double_limit_pos: "0 < double_limit"
  by (simp add: double_limit_def)

text \<open>A number with a 53-bit mantissa is a float, and converts to itself.\<close>

lemma round_double_dyadic:
  assumes k: "\<bar>k\<bar> < 2 ^ 53" and e: "-1074 \<le> e" and q: "q = of_int k * 2 powi e"
    and lim: "\<bar>q\<bar> < double_limit"
  shows "round_double q = FFin q"
proof (cases "q = 0")
  case False
  have 1: "\<bar>q\<bar> = of_int \<bar>k\<bar> * of_nat 2 powi e" by (simp add: q abs_mult)
  have 2: "of_int \<bar>k\<bar> < (of_nat 2 :: rat) powi int 53"
    using of_int_less_iff [of "\<bar>k\<bar>" "2 ^ 53", where 'a = rat] k by simp
  have "mantissa53 \<bar>q\<bar> = \<bar>q\<bar>"
    by (rule half_even.round_prec_exact [OF _ _ 1 2 e]) (use False in simp_all)
  then show ?thesis using False lim by (simp add: round_double_def Let_def sgn_mult_abs)
qed simp

lemma round_double_of_int:
  assumes "\<bar>k\<bar> < 2 ^ 53"
  shows "round_double (of_int k) = FFin (of_int k)"
proof (rule round_double_dyadic [where k = k and e = 0])
  have "\<bar>of_int k :: rat\<bar> < 2 ^ 53" using of_int_less_iff [of "\<bar>k\<bar>" "2 ^ 53", where 'a = rat] assms by simp
  also have "(2::rat) ^ 53 \<le> double_limit" unfolding double_limit_def by (rule power_increasing) auto
  finally show "\<bar>of_int k :: rat\<bar> < double_limit" .
qed (use assms in simp_all)

text \<open>Conversion to a float never reverses an order: the heart of comparing after parsing.\<close>

lemma round_double_mono:
  assumes "p \<le> q"
  shows "float_le (round_double p) (round_double q)"
proof -
  consider "0 < p" | "p = 0" | "p < 0" "0 \<le> q" | "q < 0" using assms by linarith
  then show ?thesis
  proof cases
    case 1
    then have "mantissa53 p \<le> mantissa53 q" using assms by (rule mantissa53_mono)
    then show ?thesis using 1 assms by (auto simp: round_double_def Let_def)
  next
    case 2
    then show ?thesis
      using assms mantissa53_nonneg [of q] by (auto simp: round_double_def Let_def sgn_if)
  next
    case 3
    then show ?thesis
      using mantissa53_nonneg [of q] mantissa53_nonneg [of "- p"]
      by (auto simp: round_double_def Let_def sgn_if)
  next
    case 4
    then have "mantissa53 (- q) \<le> mantissa53 (- p)" using assms by (intro mantissa53_mono) auto
    then show ?thesis using 4 assms by (auto simp: round_double_def Let_def)
  qed
qed

text \<open>What the conversion yields is a float: converting its value again changes nothing.\<close>

lemma round_double_is_float: "is_float (round_double q)"
proof (cases "q = 0 \<or> mantissa53 \<bar>q\<bar> = 0 \<or> double_limit \<le> mantissa53 \<bar>q\<bar>")
  case True
  then show ?thesis by (auto simp: is_float_def round_double_def Let_def)
next
  case False
  then have pos: "0 < mantissa53 \<bar>q\<bar>" using mantissa53_nonneg [of "\<bar>q\<bar>"] by auto
  have "mantissa53 (mantissa53 \<bar>q\<bar>) = mantissa53 \<bar>q\<bar>"
    by (rule half_even.round_prec_idem) (use False pos in simp_all)
  moreover have "\<bar>sgn q * mantissa53 \<bar>q\<bar>\<bar> = mantissa53 \<bar>q\<bar>" "sgn (sgn q * mantissa53 \<bar>q\<bar>) = sgn q"
    using False pos by (simp_all add: abs_mult sgn_mult abs_sgn_eq)
  ultimately show ?thesis using False pos by (simp add: is_float_def round_double_def Let_def)
qed

section \<open>Decimal literals\<close>

definition is_digit :: "code_point \<Rightarrow> bool" where
  "is_digit c \<longleftrightarrow> 48 \<le> c \<and> c \<le> 57"

definition digits_value :: "pystr \<Rightarrow> int" where
  "digits_value s = foldl (\<lambda>a c. a * 10 + (int c - 48)) 0 s"

text \<open>An optional sign in front: the factor and the rest.\<close>

fun read_sign :: "pystr \<Rightarrow> int \<times> pystr" where
  "read_sign [] = (1, [])"
| "read_sign (c # s) = (if c = 45 then (-1, s) else if c = 43 then (1, s) else (1, c # s))"

definition signed_value :: "pystr \<Rightarrow> int" where
  "signed_value s = (let (g, r) = read_sign s in g * digits_value r)"

fun read_fraction :: "pystr \<Rightarrow> pystr \<times> pystr" where
  "read_fraction [] = ([], [])"
| "read_fraction (c # s) =
     (if c = 46 then (takeWhile is_digit s, dropWhile is_digit s) else ([], c # s))"

fun read_exponent :: "pystr \<Rightarrow> int" where
  "read_exponent [] = 0"
| "read_exponent (c # s) = (if c = 101 \<or> c = 69 then signed_value s else 0)"

definition decimal_value :: "pystr \<Rightarrow> rat" where
  "decimal_value s =
     (let (g, r) = read_sign s;
          ip = takeWhile is_digit r;
          (fp, ex) = read_fraction (dropWhile is_digit r)
      in of_int (g * digits_value (ip @ fp)) * 10 powi (read_exponent ex - int (length fp)))"

definition float_of_str :: "pystr \<Rightarrow> pyfloat" where
  "float_of_str s = round_double (decimal_value s)"

lemma digits_value_snoc: "digits_value (s @ [c]) = digits_value s * 10 + (int c - 48)"
  by (simp add: digits_value_def)

lemma digits_value_nonneg: "list_all is_digit s \<Longrightarrow> 0 \<le> digits_value s"
proof -
  have "list_all is_digit s \<Longrightarrow> 0 \<le> a \<Longrightarrow> 0 \<le> foldl (\<lambda>a c. a * 10 + (int c - 48)) a s" for a
    by (induction s arbitrary: a) (auto simp: is_digit_def)
  then show "list_all is_digit s \<Longrightarrow> 0 \<le> digits_value s" by (simp add: digits_value_def)
qed

section \<open>Objects of dynamic type\<close>

datatype pyval =
    VNone
  | VBool bool
  | VInt int
  | VFloat pyfloat
  | VStr pystr
  | VUuid uuid
  | VList "pyval list"
  | VDict "(pystr \<times> pyval) list"

text \<open>
  The numeric value of an operand of \<open><\<close> or \<open><=\<close>; \<open>None\<close> where Python raises
  \<open>TypeError\<close>. Comparisons between an \<open>int\<close> and a \<open>float\<close> are exact.
\<close>

fun number_of :: "pyval \<Rightarrow> pyfloat option" where
  "number_of (VBool b) = Some (FFin (if b then 1 else 0))"
| "number_of (VInt i) = Some (FFin (of_int i))"
| "number_of (VFloat f) = Some f"
| "number_of _ = None"

fun is_str :: "pyval \<Rightarrow> bool" where
  "is_str (VStr s) = True"
| "is_str _ = False"

fun is_uuid :: "pyval \<Rightarrow> bool" where
  "is_uuid (VUuid u) = True"
| "is_uuid _ = False"

text \<open>\<open>isinstance(v, (int, float)) and not isinstance(v, bool)\<close>.\<close>

fun is_number :: "pyval \<Rightarrow> bool" where
  "is_number (VInt i) = True"
| "is_number (VFloat f) = True"
| "is_number _ = False"

text \<open>
  \<open>math.isfinite\<close> of a number: \<open>None\<close> is the \<open>OverflowError\<close> of an \<open>int\<close> that no finite float
  approximates.
\<close>

fun math_isfinite :: "pyval \<Rightarrow> bool option" where
  "math_isfinite (VInt i) = (if float_isfinite (round_double (of_int i)) then Some True else None)"
| "math_isfinite (VFloat f) = Some (float_isfinite f)"
| "math_isfinite _ = None"

end
