(* ===== verification/ValidationModels.thy ===== *)
theory ValidationModels
  imports PyValues
begin

text \<open>
  The values of the Validation Engine (\<open>validation/models.py\<close>): rule specifications, violation
  samples, results, and the errors it raises. The fields of a specification are objects of
  dynamic type, as the dataclasses do not check them; \<open>NotARuleSpec\<close> stands for an object that
  is an instance of none of the five classes.
\<close>

definition VIOLATION_SAMPLE_LIMIT :: nat where
  "VIOLATION_SAMPLE_LIMIT = 20"

definition VALUE_PREVIEW_LIMIT :: nat where
  "VALUE_PREVIEW_LIMIT = 128"

datatype rule_spec =
    RequiredRuleSpec (rule_id: pyval) (target_column: pyval)
  | UniqueRuleSpec (rule_id: pyval) (target_column: pyval)
  | TypeRuleSpec (rule_id: pyval) (target_column: pyval) (expected_type: pyval)
  | RangeRuleSpec (rule_id: pyval) (target_column: pyval) (minimum: pyval) (maximum: pyval)
  | RegexRuleSpec (rule_id: pyval) (target_column: pyval) (pattern: pyval)
  | NotARuleSpec

record violation_sample =
  row_number :: int
  value_preview :: "pystr option"
  truncated :: bool

record rule_result =
  result_rule :: rule_spec
  evaluated_count :: int
  passed_count :: int
  violation_count :: int
  skipped_count :: int
  violation_samples :: "violation_sample list"

record engine_result =
  total_rows :: int
  rule_results :: "rule_result list"

text \<open>One constructor per message of \<open>ValidationInputError\<close>.\<close>

datatype input_error =
    DataNotAFrame
  | UnsupportedRule
  | RuleIdNotUuid
  | RuleIdsNotUnique
  | TargetColumnNotAString
  | TargetColumnMissing
  | TargetColumnNotTextual
  | ExpectedTypeUnsupported
  | RangeWithoutBoundary
  | RangeBoundaryNotFinite
  | RangeMinimumExceedsMaximum
  | RegexPatternEmpty
  | RegexPatternInvalid

text \<open>
  What a call of the engine can raise: its own error, the \<open>TypeError\<close> of an operation on
  operands of the wrong type, the \<open>ValueError\<close> of \<open>zip(strict=True)\<close>, the error of Polars for an
  unknown column.
\<close>

datatype engine_exc =
    ValidationInputError input_error
  | OperandTypeError
  | ZipLengthError
  | ColumnNotFound

end
