(* ===== verification/RowScan.thy ===== *)
theory RowScan
  imports ValidationModels
begin

text \<open>
  What the four evaluation loops of \<open>validation/rules.py\<close> share: they number the rows from 1,
  judge each as passing, violating or skipped, count, and keep the first samples. The locale
  \<open>row_scan\<close> is that contract; its lemmas turn a loop into the list of its verdicts, and each
  loop of \<open>Rules\<close> is an interpretation.
\<close>

record tally =
  samples :: "violation_sample list"
  violations :: int
  skipped :: int

definition make_sample :: "int \<Rightarrow> pystr option \<Rightarrow> violation_sample" where
  "make_sample n v =
     \<lparr>row_number = n,
      value_preview = map_option (take VALUE_PREVIEW_LIMIT) v,
      truncated = (case v of None \<Rightarrow> False | Some s \<Rightarrow> VALUE_PREVIEW_LIMIT < length s)\<rparr>"

definition append_sample ::
  "violation_sample list \<Rightarrow> int \<Rightarrow> pystr option \<Rightarrow> violation_sample list" where
  "append_sample ss n v =
     (if VIOLATION_SAMPLE_LIMIT \<le> length ss then ss else ss @ [make_sample n v])"

definition count_violation :: "int \<Rightarrow> pystr option \<Rightarrow> tally \<Rightarrow> tally" where
  "count_violation n v t =
     t\<lparr>violations := violations t + 1, samples := append_sample (samples t) n v\<rparr>"

definition count_skip :: "tally \<Rightarrow> tally" where
  "count_skip t = t\<lparr>skipped := skipped t + 1\<rparr>"

definition new_tally :: tally where
  "new_tally = \<lparr>samples = [], violations = 0, skipped = 0\<rparr>"

datatype verdict = Passes | Violates | Skips

fun tally_step :: "int \<Rightarrow> verdict \<Rightarrow> pystr option \<Rightarrow> tally \<Rightarrow> tally" where
  "tally_step n Passes v t = t"
| "tally_step n Violates v t = count_violation n v t"
| "tally_step n Skips v t = count_skip t"

fun tally_all :: "int \<Rightarrow> (verdict \<times> pystr option) list \<Rightarrow> tally \<Rightarrow> tally" where
  "tally_all n [] t = t"
| "tally_all n ((d, v) # ds) t = tally_all (n + 1) ds (tally_step n d v t)"

text \<open>The verdicts of a loop whose judgement of a row may depend on the rows before it.\<close>

fun judge_all :: "('s \<Rightarrow> 'r \<Rightarrow> 'e + verdict) \<Rightarrow> ('s \<Rightarrow> 'r \<Rightarrow> 's) \<Rightarrow> 's \<Rightarrow> 'r list \<Rightarrow> 'e + verdict list"
  where
  "judge_all judge advance s [] = Inr []"
| "judge_all judge advance s (x # xs) =
     bind_result (judge s x) (\<lambda>d.
     bind_result (judge_all judge advance (advance s x) xs) (\<lambda>ds. Inr (d # ds)))"

text \<open>The samples a list of verdicts asks for, without the bound.\<close>

fun all_samples :: "int \<Rightarrow> (verdict \<times> pystr option) list \<Rightarrow> violation_sample list" where
  "all_samples n [] = []"
| "all_samples n ((d, v) # ds) =
     (if d = Violates then [make_sample n v] else []) @ all_samples (n + 1) ds"

lemma length_judge_all: "judge_all judge advance s xs = Inr ds \<Longrightarrow> length ds = length xs"
  by (induction xs arbitrary: s ds) (auto simp: result_simps)

lemma tally_all_eq:
  assumes "length (samples t) \<le> VIOLATION_SAMPLE_LIMIT"
  shows "tally_all n ds t =
    \<lparr>samples = take VIOLATION_SAMPLE_LIMIT (samples t @ all_samples n ds),
     violations = violations t + int (count_list (map fst ds) Violates),
     skipped = skipped t + int (count_list (map fst ds) Skips)\<rparr>"
  using assms
proof (induction ds arbitrary: n t)
  case (Cons x ds)
  obtain d v where x: "x = (d, v)" by (cases x)
  have "length (samples (tally_step n d v t)) \<le> VIOLATION_SAMPLE_LIMIT"
    using Cons.prems by (cases d) (auto simp: count_violation_def count_skip_def append_sample_def)
  from Cons.IH [OF this, of "n + 1"] show ?case
    using Cons.prems
    by (cases d) (auto simp: x count_violation_def count_skip_def append_sample_def take_Cons')
qed simp

lemma length_all_samples: "length (all_samples n ds) = count_list (map fst ds) Violates"
  by (induction n ds rule: all_samples.induct) auto

text \<open>With the verdicts given by the row's index, the samples are those of the violating indices.\<close>

lemma all_samples_index:
  "length ds = length vs \<Longrightarrow>
   all_samples n (zip ds vs) =
     map (\<lambda>i. make_sample (n + int i) (vs ! i)) (filter (\<lambda>i. ds ! i = Violates) [0..<length vs])"
proof (induction ds vs arbitrary: n rule: list_induct2)
  case (Cons d ds v vs)
  have split: "[0..<length (v # vs)] = 0 # map Suc [0..<length vs]"
    by (simp add: map_Suc_upt upt_conv_Cons del: upt_Suc)
  have "n + (1 + int i) = n + 1 + int i" for i by simp
  then show ?case
    unfolding split by (simp add: Cons.IH filter_map o_def add.assoc)
qed simp

lemma count_list_index:
  "count_list ds d = length (filter (\<lambda>i. ds ! i = d) [0..<length ds])"
proof (induction ds)
  case (Cons x ds)
  have split: "[0..<length (x # ds)] = 0 # map Suc [0..<length ds]"
    by (simp add: map_Suc_upt upt_conv_Cons del: upt_Suc)
  show ?case unfolding split by (simp add: Cons.IH filter_map o_def)
qed simp

locale row_scan =
  fixes scan :: "int \<Rightarrow> 'r list \<Rightarrow> 's \<Rightarrow> tally \<Rightarrow> 'e + tally"
    and judge :: "'s \<Rightarrow> 'r \<Rightarrow> 'e + verdict"
    and advance :: "'s \<Rightarrow> 'r \<Rightarrow> 's"
    and cell :: "'r \<Rightarrow> pystr option"
  assumes scan_Nil: "scan n [] s t = Inr t"
    and scan_Cons: "scan n (x # xs) s t =
      bind_result (judge s x) (\<lambda>d. scan (n + 1) xs (advance s x) (tally_step n d (cell x) t))"
begin

lemma scan_tally_all:
  "scan n xs s t =
     bind_result (judge_all judge advance s xs) (\<lambda>ds. Inr (tally_all n (zip ds (map cell xs)) t))"
proof (induction xs arbitrary: n s t)
  case (Cons x xs)
  show ?case
  proof (cases "judge s x")
    case (Inr d)
    then show ?thesis
      by (cases "judge_all judge advance (advance s x) xs") (simp_all add: scan_Cons Cons.IH)
  qed (simp add: scan_Cons)
qed (simp add: scan_Nil)

lemma scan_new_tally:
  "scan 1 xs s new_tally =
     bind_result (judge_all judge advance s xs) (\<lambda>ds. Inr
       \<lparr>samples = take VIOLATION_SAMPLE_LIMIT (all_samples 1 (zip ds (map cell xs))),
        violations = int (count_list ds Violates),
        skipped = int (count_list ds Skips)\<rparr>)"
  by (cases "judge_all judge advance s xs")
    (simp_all add: scan_tally_all tally_all_eq new_tally_def length_judge_all)

end

end
