(* ===== verification/Rules.thy ===== *)
theory Rules
  imports RowScan
begin

text \<open>
  The five rule families of \<open>validation/rules.py\<close>: the missing-value test, the type grammars,
  the four evaluation loops and \<open>evaluate_rule\<close>. Polars' \<open>Series.str.contains\<close> is not code of
  this repository: it is the parameter \<open>contains\<close>, which maps a pattern and a column to the
  list of matches (\<open>None\<close> for a null cell), or to \<open>None\<close> where Polars raises.
\<close>

type_synonym polars_contains = "pystr \<Rightarrow> pystr option list \<Rightarrow> bool option list option"

section \<open>Missing values and the type grammars\<close>

definition is_missing :: "pystr option \<Rightarrow> bool" where
  "is_missing v = (case v of None \<Rightarrow> True | Some s \<Rightarrow> s = [] \<or> py_strip s = [])"

definition digit_class :: rx where
  "digit_class = RCls [(48, 57)]"

definition sign_class :: rx where
  "sign_class = RCls [(43, 43), (45, 45)]"

definition integer_pattern :: rx where
  "integer_pattern = RSeq [ROpt sign_class, RPlus digit_class]"

definition number_pattern :: rx where
  "number_pattern = RSeq
     [ROpt sign_class,
      RAlt (RSeq [RPlus digit_class, ROpt (RSeq [RChr 46, RPlus digit_class])])
           (RSeq [RChr 46, RPlus digit_class]),
      ROpt (RSeq [RCls [(101, 101), (69, 69)], ROpt sign_class, RPlus digit_class])]"

definition date_pattern :: rx where
  "date_pattern =
     RSeq [RRep 4 digit_class, RChr 45, RRep 2 digit_class, RChr 45, RRep 2 digit_class]"

definition datetime_pattern :: rx where
  "datetime_pattern = RSeq
     [RRep 4 digit_class, RChr 45, RRep 2 digit_class, RChr 45, RRep 2 digit_class, RChr 84,
      RRep 2 digit_class, RChr 58, RRep 2 digit_class, RChr 58, RRep 2 digit_class,
      ROpt (RSeq [RChr 46, digit_class, RUpTo 5 digit_class]),
      RAlt (RChr 90) (RSeq [sign_class, RRep 2 digit_class, RChr 58, RRep 2 digit_class])]"

definition parse_number :: "pystr \<Rightarrow> pyfloat option" where
  "parse_number s =
     (if \<not> fullmatch number_pattern s then None
      else let parsed = float_of_str s in if float_isfinite parsed then Some parsed else None)"

subsection \<open>Calendar\<close>

definition is_leap :: "int \<Rightarrow> bool" where
  "is_leap y \<longleftrightarrow> 4 dvd y \<and> (\<not> 100 dvd y \<or> 400 dvd y)"

definition days_in_month :: "int \<Rightarrow> int \<Rightarrow> int" where
  "days_in_month y m =
     (if m = 2 then (if is_leap y then 29 else 28)
      else if m \<in> {4, 6, 9, 11} then 30 else 31)"

text \<open>The range check of \<open>datetime.date\<close>, whose years run from 1 to 9999.\<close>

definition valid_date :: "int \<Rightarrow> int \<Rightarrow> int \<Rightarrow> bool" where
  "valid_date y m d \<longleftrightarrow>
     1 \<le> y \<and> y \<le> 9999 \<and> 1 \<le> m \<and> m \<le> 12 \<and> 1 \<le> d \<and> d \<le> days_in_month y m"

definition field :: "nat \<Rightarrow> nat \<Rightarrow> pystr \<Rightarrow> int" where
  "field i n s = digits_value (take n (drop i s))"

text \<open>\<open>date.fromisoformat\<close> on a string of the date grammar: does it return?\<close>

definition date_fromisoformat :: "pystr \<Rightarrow> bool" where
  "date_fromisoformat s \<longleftrightarrow> valid_date (field 0 4 s) (field 5 2 s) (field 8 2 s)"

definition replace_Z :: "pystr \<Rightarrow> pystr" where
  "replace_Z s = concat (map (\<lambda>c. if c = 90 then lit ''+00:00'' else [c]) s)"

text \<open>
  \<open>datetime.fromisoformat\<close> on a string of the datetime grammar with \<open>Z\<close> replaced: \<open>None\<close> is
  its \<open>ValueError\<close>, \<open>Some z\<close> a datetime whose \<open>utcoffset()\<close> is \<open>z\<close>, in minutes. The offset's
  hours and minutes are not range-checked one by one; only their sum must stay below a day.
\<close>

definition datetime_fromisoformat :: "pystr \<Rightarrow> int option option" where
  "datetime_fromisoformat s =
     (let rest = drop 19 s;
          zone = (case rest of c # r \<Rightarrow> if c = 46 then dropWhile is_digit r else rest | [] \<Rightarrow> [])
      in if \<not> valid_date (field 0 4 s) (field 5 2 s) (field 8 2 s) then None
         else if 23 < field 11 2 s \<or> 59 < field 14 2 s \<or> 59 < field 17 2 s then None
         else (case zone of
             [] \<Rightarrow> Some None
           | sg # hm \<Rightarrow>
               let off = field 0 2 hm * 60 + field 3 2 hm
               in if 24 * 60 \<le> off then None
                  else Some (Some (if sg = 45 then - off else off))))"

definition is_date :: "pystr \<Rightarrow> bool" where
  "is_date s = (if \<not> fullmatch date_pattern s then False else date_fromisoformat s)"

definition is_datetime :: "pystr \<Rightarrow> bool" where
  "is_datetime s =
     (if \<not> fullmatch datetime_pattern s then False
      else (case datetime_fromisoformat (replace_Z s) of
          None \<Rightarrow> False
        | Some off \<Rightarrow> off \<noteq> None))"

subsection \<open>Tests of one value\<close>

definition matches_type :: "pystr \<Rightarrow> pyval \<Rightarrow> engine_exc + bool" where
  "matches_type s ty =
     (if ty = VStr (lit ''string'') then Inr True
      else if ty = VStr (lit ''integer'') then Inr (fullmatch integer_pattern s)
      else if ty = VStr (lit ''number'') then Inr (parse_number s \<noteq> None)
      else if ty = VStr (lit ''boolean'') then Inr (py_casefold s \<in> {lit ''true'', lit ''false''})
      else if ty = VStr (lit ''date'') then Inr (is_date s)
      else if ty = VStr (lit ''datetime'') then Inr (is_datetime s)
      else Inl (ValidationInputError ExpectedTypeUnsupported))"

definition compare_with ::
  "(pyfloat \<Rightarrow> pyfloat \<Rightarrow> bool) \<Rightarrow> pyfloat \<Rightarrow> pyval \<Rightarrow> engine_exc + bool" where
  "compare_with cmp x v =
     (case number_of v of None \<Rightarrow> Inl OperandTypeError | Some y \<Rightarrow> Inr (cmp x y))"

definition within_range :: "pystr \<Rightarrow> pyval \<Rightarrow> pyval \<Rightarrow> engine_exc + bool" where
  "within_range s lo hi =
     (case parse_number s of
        None \<Rightarrow> Inr False
      | Some parsed \<Rightarrow>
          bind_result (if lo = VNone then Inr False else compare_with float_less parsed lo)
            (\<lambda>below. if below then Inr False
              else if hi = VNone then Inr True else compare_with float_le parsed hi))"

section \<open>The evaluation loops\<close>

fun required_loop :: "int \<Rightarrow> pystr option list \<Rightarrow> tally \<Rightarrow> tally" where
  "required_loop n [] t = t"
| "required_loop n (v # vs) t =
     required_loop (n + 1) vs (if is_missing v then count_violation n v t else t)"

fun unique_loop :: "int \<Rightarrow> pystr option list \<Rightarrow> pystr set \<Rightarrow> tally \<Rightarrow> tally" where
  "unique_loop n [] seen t = t"
| "unique_loop n (v # vs) seen t =
     (if is_missing v then unique_loop (n + 1) vs seen (count_skip t)
      else if the v \<in> seen then unique_loop (n + 1) vs seen (count_violation n v t)
      else unique_loop (n + 1) vs (insert (the v) seen) t)"

fun non_missing_loop ::
  "(pystr \<Rightarrow> engine_exc + bool) \<Rightarrow> int \<Rightarrow> pystr option list \<Rightarrow> tally \<Rightarrow> engine_exc + tally" where
  "non_missing_loop passes n [] t = Inr t"
| "non_missing_loop passes n (v # vs) t =
     (if is_missing v then non_missing_loop passes (n + 1) vs (count_skip t)
      else bind_result (passes (the v)) (\<lambda>ok.
        non_missing_loop passes (n + 1) vs (if ok then t else count_violation n v t)))"

text \<open>The two lists are walked together; \<open>strict=True\<close> raises when one of them ends first.\<close>

fun regex_loop ::
  "int \<Rightarrow> pystr option list \<Rightarrow> bool option list \<Rightarrow> tally \<Rightarrow> engine_exc + tally" where
  "regex_loop n [] [] t = Inr t"
| "regex_loop n (v # vs) (m # ms) t =
     regex_loop (n + 1) vs ms
       (if is_missing v then count_skip t
        else if m \<noteq> Some True then count_violation n v t else t)"
| "regex_loop n _ _ t = Inl ZipLengthError"

definition make_result :: "rule_spec \<Rightarrow> int \<Rightarrow> tally \<Rightarrow> rule_result" where
  "make_result rule evaluated t =
     \<lparr>result_rule = rule, evaluated_count = evaluated,
      passed_count = evaluated - violations t, violation_count = violations t,
      skipped_count = skipped t, violation_samples = samples t\<rparr>"

definition evaluate_required :: "pystr option list \<Rightarrow> rule_spec \<Rightarrow> rule_result" where
  "evaluate_required vs rule =
     make_result rule (int (length vs)) (required_loop 1 vs new_tally)"

definition evaluate_unique :: "pystr option list \<Rightarrow> rule_spec \<Rightarrow> rule_result" where
  "evaluate_unique vs rule =
     (let t = unique_loop 1 vs {} new_tally
      in make_result rule (int (length vs) - skipped t) t)"

definition evaluate_non_missing ::
  "pystr option list \<Rightarrow> rule_spec \<Rightarrow> (pystr \<Rightarrow> engine_exc + bool) \<Rightarrow> engine_exc + rule_result" where
  "evaluate_non_missing vs rule passes =
     bind_result (non_missing_loop passes 1 vs new_tally)
       (\<lambda>t. Inr (make_result rule (int (length vs) - skipped t) t))"

definition evaluate_regex ::
  "polars_contains \<Rightarrow> pystr option list \<Rightarrow> rule_spec \<Rightarrow> engine_exc + rule_result" where
  "evaluate_regex contains vs rule =
     (case pattern rule of
        VStr p \<Rightarrow> (case contains p vs of
            None \<Rightarrow> Inl (ValidationInputError RegexPatternInvalid)
          | Some ms \<Rightarrow> bind_result (regex_loop 1 vs ms new_tally)
              (\<lambda>t. Inr (make_result rule (int (length vs) - skipped t) t)))
      | _ \<Rightarrow> Inl OperandTypeError)"

definition evaluate_rule ::
  "polars_contains \<Rightarrow> pystr option list \<Rightarrow> rule_spec \<Rightarrow> engine_exc + rule_result" where
  "evaluate_rule contains vs rule =
     (case rule of
        RequiredRuleSpec _ _ \<Rightarrow> Inr (evaluate_required vs rule)
      | UniqueRuleSpec _ _ \<Rightarrow> Inr (evaluate_unique vs rule)
      | TypeRuleSpec _ _ ty \<Rightarrow> evaluate_non_missing vs rule (\<lambda>s. matches_type s ty)
      | RangeRuleSpec _ _ lo hi \<Rightarrow> evaluate_non_missing vs rule (\<lambda>s. within_range s lo hi)
      | RegexRuleSpec _ _ _ \<Rightarrow> evaluate_regex contains vs rule
      | NotARuleSpec \<Rightarrow> Inl (ValidationInputError UnsupportedRule))"

definition validate_regex_pattern :: "polars_contains \<Rightarrow> pyval \<Rightarrow> engine_exc + unit" where
  "validate_regex_pattern contains p =
     (case p of
        VStr s \<Rightarrow>
          if s = [] then Inl (ValidationInputError RegexPatternEmpty)
          else if contains s [Some []] = None then Inl (ValidationInputError RegexPatternInvalid)
          else Inr ()
      | _ \<Rightarrow> Inl (ValidationInputError RegexPatternEmpty))"


section \<open>The loops as row scans\<close>

definition required_verdict :: "pystr option \<Rightarrow> verdict" where
  "required_verdict v = (if is_missing v then Violates else Passes)"

definition unique_verdict :: "pystr set \<Rightarrow> pystr option \<Rightarrow> verdict" where
  "unique_verdict seen v =
     (if is_missing v then Skips else if the v \<in> seen then Violates else Passes)"

definition see_value :: "pystr set \<Rightarrow> pystr option \<Rightarrow> pystr set" where
  "see_value seen v = (if is_missing v then seen else insert (the v) seen)"

definition value_verdict ::
  "(pystr \<Rightarrow> engine_exc + bool) \<Rightarrow> pystr option \<Rightarrow> engine_exc + verdict" where
  "value_verdict passes v =
     (if is_missing v then Inr Skips
      else bind_result (passes (the v)) (\<lambda>ok. Inr (if ok then Passes else Violates)))"

fun match_verdict :: "pystr option \<times> bool option \<Rightarrow> verdict" where
  "match_verdict (v, m) =
     (if is_missing v then Skips else if m \<noteq> Some True then Violates else Passes)"

interpretation required: row_scan
  "\<lambda>n vs (s::unit) t. Inr (required_loop n vs t) :: engine_exc + tally"
  "\<lambda>s v. Inr (required_verdict v)" "\<lambda>s v. s" "\<lambda>v. v"
  by unfold_locales (auto simp: required_verdict_def)

interpretation unique: row_scan
  "\<lambda>n vs seen t. Inr (unique_loop n vs seen t) :: engine_exc + tally"
  "\<lambda>seen v. Inr (unique_verdict seen v)" see_value "\<lambda>v. v"
  by unfold_locales (auto simp: unique_verdict_def see_value_def insert_absorb)

interpretation non_missing: row_scan
  "\<lambda>n vs (s::unit) t. non_missing_loop passes n vs t"
  "\<lambda>s v. value_verdict passes v" "\<lambda>s v. s" "\<lambda>v. v" for passes
proof unfold_locales
  fix n v vs and s :: unit and t
  show "non_missing_loop passes n (v # vs) t =
    bind_result (value_verdict passes v) (\<lambda>d. non_missing_loop passes (n + 1) vs (tally_step n d v t))"
    by (cases "passes (the v)") (auto simp: value_verdict_def)
qed simp

interpretation regex: row_scan
  "\<lambda>n rows (s::unit) t. regex_loop n (map fst rows) (map snd rows) t"
  "\<lambda>s row. Inr (match_verdict row)" "\<lambda>s row. s" fst
  by unfold_locales (auto split: prod.splits)

lemma judge_all_index:
  "judge_all (\<lambda>s x. Inr (f s x)) advance s xs =
     Inr (map (\<lambda>i. f (foldl advance s (take i xs)) (xs ! i)) [0..<length xs])"
proof (induction xs arbitrary: s)
  case (Cons x xs)
  have split: "[0..<length (x # xs)] = 0 # map Suc [0..<length xs]"
    by (simp add: map_Suc_upt upt_conv_Cons del: upt_Suc)
  show ?case unfolding split by (simp add: Cons.IH o_def)
qed simp

lemma judge_all_cong:
  "(\<And>s x. x \<in> set xs \<Longrightarrow> judge s x = judge' s x) \<Longrightarrow>
   judge_all judge advance s xs = judge_all judge' advance s xs"
  by (induction xs arbitrary: s) auto

lemma foldl_const [simp]: "foldl (\<lambda>s v. s) s xs = s"
  by (induction xs) auto

section \<open>What a rule's result must be\<close>

text \<open>
  The declarative result of a rule over a column: \<open>skip i\<close> says that row \<open>i\<close> (counted from 0)
  is left out, \<open>bad i\<close> that an evaluated row violates the rule. The samples are those of the
  first violating rows, in row order, numbered from 1.
\<close>

definition rows_where :: "(nat \<Rightarrow> bool) \<Rightarrow> 'a list \<Rightarrow> nat list" where
  "rows_where P vs = filter P [0..<length vs]"

definition spec_result ::
  "rule_spec \<Rightarrow> pystr option list \<Rightarrow> (nat \<Rightarrow> bool) \<Rightarrow> (nat \<Rightarrow> bool) \<Rightarrow> rule_result" where
  "spec_result rule vs skip bad =
     \<lparr>result_rule = rule,
      evaluated_count = int (length (rows_where (\<lambda>i. \<not> skip i) vs)),
      passed_count = int (length (rows_where (\<lambda>i. \<not> skip i \<and> \<not> bad i) vs)),
      violation_count = int (length (rows_where (\<lambda>i. \<not> skip i \<and> bad i) vs)),
      skipped_count = int (length (rows_where skip vs)),
      violation_samples = take VIOLATION_SAMPLE_LIMIT
        (map (\<lambda>i. make_sample (int i + 1) (vs ! i)) (rows_where (\<lambda>i. \<not> skip i \<and> bad i) vs))\<rparr>"

definition missing_at :: "pystr option list \<Rightarrow> nat \<Rightarrow> bool" where
  "missing_at vs i \<longleftrightarrow> is_missing (vs ! i)"

lemma length_rows_where_split [count_simps]:
  "length (rows_where (\<lambda>i. P i \<and> Q i) vs) + length (rows_where (\<lambda>i. P i \<and> \<not> Q i) vs)
     = length (rows_where P vs)"
  unfolding rows_where_def using filter_length_complement [of Q "filter P [0..<length vs]"]
  by (simp add: conj_commute)

lemma length_rows_where_not [count_simps]:
  "length (rows_where P vs) + length (rows_where (\<lambda>i. \<not> P i) vs) = length vs"
  unfolding rows_where_def using filter_length_complement [of P "[0..<length vs]"] by simp

lemma rows_where_cong:
  "(\<And>i. i < length vs \<Longrightarrow> P i \<longleftrightarrow> Q i) \<Longrightarrow> rows_where P vs = rows_where Q vs"
  unfolding rows_where_def by (rule filter_cong) auto

lemma count_list_rows:
  "count_list (map f [0..<length vs]) d = length (rows_where (\<lambda>i. f i = d) vs)"
proof -
  have "filter (\<lambda>i. map f [0..<length vs] ! i = d) [0..<length vs] = rows_where (\<lambda>i. f i = d) vs"
    unfolding rows_where_def by (rule filter_cong) auto
  then show ?thesis by (simp add: count_list_index)
qed

lemma all_samples_rows:
  "all_samples n (zip (map f [0..<length vs]) vs) =
     map (\<lambda>i. make_sample (n + int i) (vs ! i)) (rows_where (\<lambda>i. f i = Violates) vs)"
proof -
  have "filter (\<lambda>i. map f [0..<length vs] ! i = Violates) [0..<length vs]
      = rows_where (\<lambda>i. f i = Violates) vs"
    unfolding rows_where_def by (rule filter_cong) auto
  then show ?thesis by (simp add: all_samples_index)
qed

text \<open>From the verdicts, given by index, to the declarative result.\<close>

lemma make_result_spec:
  assumes v: "\<And>i. i < length vs \<Longrightarrow> f i = (if skip i then Skips else if bad i then Violates else Passes)"
  shows "make_result rule (int (length vs) - int (count_list (map f [0..<length vs]) Skips))
     \<lparr>samples = take VIOLATION_SAMPLE_LIMIT (all_samples 1 (zip (map f [0..<length vs]) vs)),
      violations = int (count_list (map f [0..<length vs]) Violates),
      skipped = int (count_list (map f [0..<length vs]) Skips)\<rparr> = spec_result rule vs skip bad"
proof -
  have 1: "rows_where (\<lambda>i. f i = Violates) vs = rows_where (\<lambda>i. \<not> skip i \<and> bad i) vs"
    by (rule rows_where_cong) (simp add: v)
  have 2: "rows_where (\<lambda>i. f i = Skips) vs = rows_where skip vs"
    by (rule rows_where_cong) (simp add: v)
  have 3: "int (length (rows_where (\<lambda>i. \<not> skip i \<and> bad i) vs)) +
      int (length (rows_where (\<lambda>i. \<not> skip i \<and> \<not> bad i) vs)) =
      int (length (rows_where (\<lambda>i. \<not> skip i) vs))"
    using length_rows_where_split [of "\<lambda>i. \<not> skip i" bad vs] by linarith
  have 4: "int (length (rows_where skip vs)) + int (length (rows_where (\<lambda>i. \<not> skip i) vs)) = int (length vs)"
    using length_rows_where_not [of skip vs] by linarith
  show ?thesis
    unfolding count_list_rows all_samples_rows 1 2 make_result_def spec_result_def
    using 3 4 by (simp add: add.commute)
qed

lemma spec_result_cong:
  assumes "\<And>i. i < length vs \<Longrightarrow> skip i \<longleftrightarrow> skip' i"
    and "\<And>i. i < length vs \<Longrightarrow> \<not> skip i \<Longrightarrow> bad i \<longleftrightarrow> bad' i"
  shows "spec_result rule vs skip bad = spec_result rule vs skip' bad'"
proof -
  have "rows_where (\<lambda>i. \<not> skip i) vs = rows_where (\<lambda>i. \<not> skip' i) vs"
    and "rows_where skip vs = rows_where skip' vs"
    and "rows_where (\<lambda>i. \<not> skip i \<and> bad i) vs = rows_where (\<lambda>i. \<not> skip' i \<and> bad' i) vs"
    and "rows_where (\<lambda>i. \<not> skip i \<and> \<not> bad i) vs = rows_where (\<lambda>i. \<not> skip' i \<and> \<not> bad' i) vs"
    by (rule rows_where_cong; use assms in blast)+
  then show ?thesis by (simp add: spec_result_def)
qed

section \<open>The rule families\<close>

lemma evaluate_required_spec:
  "evaluate_required vs rule = spec_result rule vs (\<lambda>_. False) (missing_at vs)"
proof -
  let ?f = "\<lambda>i. required_verdict (vs ! i)"
  have j: "judge_all (\<lambda>s v. Inr (required_verdict v)) (\<lambda>s v. s) () vs
      = (Inr (map ?f [0..<length vs]) :: engine_exc + verdict list)"
    using judge_all_index [of "\<lambda>s. required_verdict" "\<lambda>s v. s" "()" vs] by simp
  have "required_loop 1 vs new_tally =
     \<lparr>samples = take VIOLATION_SAMPLE_LIMIT (all_samples 1 (zip (map ?f [0..<length vs]) vs)),
      violations = int (count_list (map ?f [0..<length vs]) Violates),
      skipped = int (count_list (map ?f [0..<length vs]) Skips)\<rparr>"
    using required.scan_new_tally [of vs "()", unfolded j] by simp
  moreover have "count_list (map ?f [0..<length vs]) Skips = 0"
    by (auto simp: count_list_0_iff required_verdict_def)
  moreover note make_result_spec [of vs ?f "\<lambda>_. False" "missing_at vs" rule]
  ultimately show ?thesis
    by (simp add: evaluate_required_def required_verdict_def missing_at_def)
qed

text \<open>The values seen before a row, as the loop's set holds them.\<close>

lemma foldl_see_value:
  "foldl see_value seen vs = seen \<union> {s. \<exists>v \<in> set vs. \<not> is_missing v \<and> s = the v}"
  by (induction vs arbitrary: seen) (auto simp: see_value_def)

lemma not_missing_Some: "\<not> is_missing v \<Longrightarrow> \<exists>s. v = Some s"
  by (cases v) (auto simp: is_missing_def)

definition repeats_earlier :: "pystr option list \<Rightarrow> nat \<Rightarrow> bool" where
  "repeats_earlier vs i \<longleftrightarrow> (\<exists>j < i. vs ! j = vs ! i)"

lemma evaluate_unique_spec:
  "evaluate_unique vs rule = spec_result rule vs (missing_at vs) (repeats_earlier vs)"
proof -
  let ?f = "\<lambda>i. unique_verdict (foldl see_value {} (take i vs)) (vs ! i)"
  have j: "judge_all (\<lambda>seen v. Inr (unique_verdict seen v)) see_value {} vs
      = (Inr (map ?f [0..<length vs]) :: engine_exc + verdict list)"
    by (rule judge_all_index)
  have loop: "unique_loop 1 vs {} new_tally =
     \<lparr>samples = take VIOLATION_SAMPLE_LIMIT (all_samples 1 (zip (map ?f [0..<length vs]) vs)),
      violations = int (count_list (map ?f [0..<length vs]) Violates),
      skipped = int (count_list (map ?f [0..<length vs]) Skips)\<rparr>"
    using unique.scan_new_tally [of vs "{}"] by (simp add: j)
  have f: "?f i = (if missing_at vs i then Skips
      else if repeats_earlier vs i then Violates else Passes)" if "i < length vs" for i
  proof (cases "missing_at vs i")
    case False
    then obtain s where s: "vs ! i = Some s" using not_missing_Some by (auto simp: missing_at_def)
    have "s \<in> foldl see_value {} (take i vs) \<longleftrightarrow> (\<exists>v \<in> set (take i vs). \<not> is_missing v \<and> s = the v)"
      by (simp add: foldl_see_value)
    also have "\<dots> \<longleftrightarrow> Some s \<in> set (take i vs)"
      using False s not_missing_Some by (fastforce simp: missing_at_def)
    also have "\<dots> \<longleftrightarrow> repeats_earlier vs i"
      using that s by (auto simp: repeats_earlier_def in_set_conv_nth)
    finally show ?thesis using False s by (simp add: unique_verdict_def missing_at_def)
  qed (simp add: unique_verdict_def missing_at_def)
  show ?thesis
    using make_result_spec [of vs ?f "missing_at vs" "repeats_earlier vs" rule, OF f]
    by (simp add: evaluate_unique_def loop)
qed

lemma value_verdict_total:
  assumes "\<forall>v \<in> set vs. \<not> is_missing v \<longrightarrow> passes (the v) = Inr (p (the v))"
  shows "judge_all (\<lambda>s. value_verdict passes) (\<lambda>s v. s) u vs =
     Inr (map (\<lambda>i. if missing_at vs i then Skips
       else if \<not> p (the (vs ! i)) then Violates else Passes) [0..<length vs])"
proof -
  let ?g = "\<lambda>v. if is_missing v then Skips else if \<not> p (the v) then Violates else Passes"
  have "judge_all (\<lambda>s. value_verdict passes) (\<lambda>s v. s) u vs =
      judge_all (\<lambda>s v. Inr (?g v)) (\<lambda>s v. s) u vs"
    by (rule judge_all_cong) (use assms in \<open>auto simp: value_verdict_def\<close>)
  also have "\<dots> = Inr (map (\<lambda>i. ?g (vs ! i)) [0..<length vs])"
    using judge_all_index [of "\<lambda>s. ?g" "\<lambda>s v. s" u vs] by simp
  finally show ?thesis by (simp add: missing_at_def)
qed

lemma evaluate_non_missing_result:
  assumes "\<forall>v \<in> set vs. \<not> is_missing v \<longrightarrow> passes (the v) = Inr (p (the v))"
  shows "evaluate_non_missing vs rule passes =
     Inr (spec_result rule vs (missing_at vs) (\<lambda>i. \<not> p (the (vs ! i))))"
  unfolding evaluate_non_missing_def
  using non_missing.scan_new_tally [of passes vs "()", unfolded value_verdict_total [OF assms]]
    make_result_spec [of vs "\<lambda>i. if missing_at vs i then Skips
       else if \<not> p (the (vs ! i)) then Violates else Passes" "missing_at vs"
       "\<lambda>i. \<not> p (the (vs ! i))" rule]
  by simp

text \<open>Every result a rule can return has the declarative shape, whatever the parameter does.\<close>

lemma make_result_of_verdicts:
  assumes "length ds = length vs"
  shows "make_result rule (int (length vs) - int (count_list ds Skips))
     \<lparr>samples = take VIOLATION_SAMPLE_LIMIT (all_samples 1 (zip ds vs)),
      violations = int (count_list ds Violates), skipped = int (count_list ds Skips)\<rparr>
   = spec_result rule vs (\<lambda>i. ds ! i = Skips) (\<lambda>i. ds ! i = Violates)"
proof -
  have "map (\<lambda>i. ds ! i) [0..<length vs] = ds" using assms by (metis map_nth)
  then show ?thesis
    using make_result_spec [of vs "\<lambda>i. ds ! i" "\<lambda>i. ds ! i = Skips" "\<lambda>i. ds ! i = Violates" rule]
    by (metis verdict.exhaust)
qed

lemma regex_loop_lengths: "regex_loop n vs ms t = Inr t' \<Longrightarrow> length ms = length vs"
  by (induction n vs ms t rule: regex_loop.induct) auto

lemma evaluate_non_missing_shape:
  assumes "evaluate_non_missing vs rule passes = Inr r"
  obtains skip bad where "r = spec_result rule vs skip bad"
proof -
  from assms obtain t where loop: "non_missing_loop passes 1 vs new_tally = Inr t"
    and r: "r = make_result rule (int (length vs) - skipped t) t"
    by (auto simp: evaluate_non_missing_def result_simps)
  from loop obtain ds where ds: "judge_all (\<lambda>s. value_verdict passes) (\<lambda>s v. s) () vs = Inr ds"
      and t: "t = \<lparr>samples = take VIOLATION_SAMPLE_LIMIT (all_samples 1 (zip ds vs)),
        violations = int (count_list ds Violates), skipped = int (count_list ds Skips)\<rparr>"
    unfolding non_missing.scan_new_tally [of passes vs "()"] bind_result_Inr_iff by auto
  from make_result_of_verdicts [OF length_judge_all [OF ds], of rule] r t
  show ?thesis by (intro that) simp
qed

lemma evaluate_rule_shape:
  assumes "evaluate_rule contains vs rule = Inr r"
  obtains skip bad where "r = spec_result rule vs skip bad"
proof (cases rule)
  case (RequiredRuleSpec i c)
  with assms that evaluate_required_spec show ?thesis by (auto simp: evaluate_rule_def)
next
  case (UniqueRuleSpec i c)
  with assms that evaluate_unique_spec show ?thesis by (auto simp: evaluate_rule_def)
next
  case (RegexRuleSpec i c p)
  from assms RegexRuleSpec obtain s ms t where
    "contains s vs = Some ms" and loop: "regex_loop 1 vs ms new_tally = Inr t"
    and r: "r = make_result rule (int (length vs) - skipped t) t"
    by (auto simp: evaluate_rule_def evaluate_regex_def result_simps split: pyval.splits option.splits)
  have len: "length ms = length vs" using loop by (rule regex_loop_lengths)
  have "regex_loop 1 (map fst (zip vs ms)) (map snd (zip vs ms)) new_tally = Inr t"
    using loop len by simp
  then obtain ds where ds: "judge_all (\<lambda>s row. Inr (match_verdict row)) (\<lambda>s row. s) () (zip vs ms) =
        (Inr ds :: engine_exc + verdict list)"
      and t: "t = \<lparr>samples = take VIOLATION_SAMPLE_LIMIT (all_samples 1 (zip ds (map fst (zip vs ms)))),
        violations = int (count_list ds Violates), skipped = int (count_list ds Skips)\<rparr>"
    unfolding regex.scan_new_tally [of "zip vs ms" "()"] bind_result_Inr_iff by auto
  have "length ds = length vs" using length_judge_all [OF ds] len by simp
  from make_result_of_verdicts [OF this, of rule] r t len show ?thesis by (intro that) simp
next
  case NotARuleSpec
  with assms show ?thesis by (simp add: evaluate_rule_def)
next
  case (TypeRuleSpec i c ty)
  with assms obtain passes where "evaluate_non_missing vs rule passes = Inr r"
    by (auto simp: evaluate_rule_def)
  then show ?thesis by (rule evaluate_non_missing_shape) (rule that)
next
  case (RangeRuleSpec i c lo hi)
  with assms obtain passes where "evaluate_non_missing vs rule passes = Inr r"
    by (auto simp: evaluate_rule_def)
  then show ?thesis by (rule evaluate_non_missing_shape) (rule that)
qed

lemma rule_counts_balanced:
  assumes "evaluate_rule contains vs rule = Inr r"
  shows "evaluated_count r = passed_count r + violation_count r \<and>
    evaluated_count r + skipped_count r = int (length vs) \<and>
    0 \<le> passed_count r \<and> 0 \<le> violation_count r \<and> 0 \<le> skipped_count r \<and>
    int (length (violation_samples r)) = min 20 (violation_count r) \<and>
    result_rule r = rule"
proof -
  obtain skip bad where r: "r = spec_result rule vs skip bad"
    using assms by (rule evaluate_rule_shape)
  have "length (rows_where (\<lambda>i. \<not> skip i \<and> bad i) vs) +
      length (rows_where (\<lambda>i. \<not> skip i \<and> \<not> bad i) vs) = length (rows_where (\<lambda>i. \<not> skip i) vs)"
    and "length (rows_where skip vs) + length (rows_where (\<lambda>i. \<not> skip i) vs) = length vs"
    by (rule count_simps)+
  then show ?thesis by (auto simp: r spec_result_def VIOLATION_SAMPLE_LIMIT_def)
qed

section \<open>Properties\<close>

text \<open>
  Whatever a rule and a column, a result of the engine balances: evaluated rows are passed
  or violating, evaluated and skipped rows make up the column, every count is non-negative,
  the samples are the first 20 violations (all of them when there are at most 20).
\<close>

theorem rule_counts_balance:
  assumes "evaluate_rule contains vs rule = Inr r"
  shows "evaluated_count r = passed_count r + violation_count r \<and>
    evaluated_count r + skipped_count r = int (length vs) \<and>
    0 \<le> passed_count r \<and> 0 \<le> violation_count r \<and> 0 \<le> skipped_count r \<and>
    int (length (violation_samples r)) = min 20 (violation_count r) \<and>
    result_rule r = rule"
  using assms by (rule rule_counts_balanced)

theorem rule_counts_balance_witness:
  "let r = evaluate_required [Some [65], None] (RequiredRuleSpec VNone VNone)
   in evaluated_count r = passed_count r + violation_count r"
  using rule_counts_balance [of "\<lambda>p vs. None" "[Some [65], None]" "RequiredRuleSpec VNone VNone"]
  by (simp add: evaluate_rule_def Let_def)

text \<open>
  The samples explain the violations: each names a row of the column (from 1), in strictly
  increasing order, with at most 128 characters of the row's own cell and the truncation flag
  set exactly when the cell is longer.
\<close>

theorem samples_show_their_rows:
  assumes "evaluate_rule contains vs rule = Inr r"
  shows "sorted_wrt (<) (map row_number (violation_samples r)) \<and>
    (\<forall>s \<in> set (violation_samples r). \<exists>i < length vs.
       row_number s = int i + 1 \<and>
       value_preview s = map_option (take 128) (vs ! i) \<and>
       (truncated s \<longleftrightarrow> (\<exists>t. vs ! i = Some t \<and> 128 < length t)))"
proof -
  obtain skip bad where r: "r = spec_result rule vs skip bad"
    using assms by (rule evaluate_rule_shape)
  let ?rows = "rows_where (\<lambda>i. \<not> skip i \<and> bad i) vs"
  have "sorted_wrt (<) ?rows" unfolding rows_where_def by (simp add: sorted_wrt_filter)
  then have "sorted_wrt (<) (map (\<lambda>i. int i + 1) ?rows)"
    unfolding sorted_wrt_map by (rule sorted_wrt_mono_rel [rotated]) simp
  then have 1: "sorted_wrt (<) (map row_number (violation_samples r))"
    by (simp add: r spec_result_def take_map [symmetric] o_def make_sample_def sorted_wrt_take)
  have 2: "\<exists>i < length vs. s = make_sample (int i + 1) (vs ! i)" if "s \<in> set (violation_samples r)" for s
    using that by (auto simp: r spec_result_def rows_where_def dest!: in_set_takeD)
  have 3: "\<exists>i < length vs. row_number s = int i + 1 \<and>
       value_preview s = map_option (take 128) (vs ! i) \<and>
       (truncated s \<longleftrightarrow> (\<exists>t. vs ! i = Some t \<and> 128 < length t))"
    if s: "s \<in> set (violation_samples r)" for s
    using 2 [OF s] by (auto simp: make_sample_def VALUE_PREVIEW_LIMIT_def split: option.splits)
  from 1 3 show ?thesis by blast
qed

theorem samples_show_their_rows_witness:
  "sorted_wrt (<) (map row_number
     (violation_samples (evaluate_required [None, Some [65], None] (RequiredRuleSpec VNone VNone))))"
  using samples_show_their_rows
    [of "\<lambda>p vs. None" "[None, Some [65], None]" "RequiredRuleSpec VNone VNone"]
  by (simp add: evaluate_rule_def)

text \<open>
  The passes of a \<open>unique\<close> rule count the distinct present values of the column.
\<close>

theorem unique_passes_count_distinct:
  "passed_count (evaluate_unique vs rule) = int (card {s. Some s \<in> set vs \<and> \<not> is_missing (Some s)})"
proof -
  let ?rows = "rows_where (\<lambda>i. \<not> missing_at vs i \<and> \<not> repeats_earlier vs i) vs"
  let ?vals = "map (\<lambda>i. vs ! i) ?rows"
  have inj: "inj_on (\<lambda>i. vs ! i) (set ?rows)"
  proof (rule inj_onI)
    fix i j assume "i \<in> set ?rows" "j \<in> set ?rows" and eq: "vs ! i = vs ! j"
    then have "\<not> repeats_earlier vs i" "\<not> repeats_earlier vs j" by (simp_all add: rows_where_def)
    with eq show "i = j" unfolding repeats_earlier_def by (metis linorder_neqE_nat)
  qed
  have "set ?vals = Some ` {s. Some s \<in> set vs \<and> \<not> is_missing (Some s)}"
  proof
    show "set ?vals \<subseteq> Some ` {s. Some s \<in> set vs \<and> \<not> is_missing (Some s)}"
    proof
      fix v assume "v \<in> set ?vals"
      then obtain i where i: "i < length vs" "\<not> is_missing (vs ! i)" "v = vs ! i"
        by (auto simp: rows_where_def missing_at_def)
      then obtain s where "vs ! i = Some s" using not_missing_Some by blast
      with i show "v \<in> Some ` {s. Some s \<in> set vs \<and> \<not> is_missing (Some s)}"
        by (metis (mono_tags, lifting) image_eqI mem_Collect_eq nth_mem)
    qed
    show "Some ` {s. Some s \<in> set vs \<and> \<not> is_missing (Some s)} \<subseteq> set ?vals"
    proof
      fix v assume "v \<in> Some ` {s. Some s \<in> set vs \<and> \<not> is_missing (Some s)}"
      then obtain k where k: "k < length vs" "vs ! k = v" "\<not> is_missing v"
        by (auto simp: in_set_conv_nth)
      define m where "m = (LEAST i. vs ! i = v)"
      have m1: "vs ! m = v" unfolding m_def by (rule LeastI [of "\<lambda>i. vs ! i = v" k]) (rule k(2))
      have m2: "m \<le> k" unfolding m_def by (rule Least_le) (rule k(2))
      note m = m1 m2
      have "vs ! j \<noteq> v" if "j < m" for j
        using not_less_Least [of j "\<lambda>i. vs ! i = v"] that unfolding m_def by blast
      then have "\<not> repeats_earlier vs m" using m1 by (auto simp: repeats_earlier_def)
      then have "m \<in> set ?rows" using m k by (simp add: rows_where_def missing_at_def)
      then show "v \<in> set ?vals" using m(1) by force
    qed
  qed
  moreover have "length ?rows = card (set ?vals)"
  proof -
    have "distinct ?rows" by (simp add: rows_where_def)
    then have "length ?rows = card (set ?rows)" by (simp only: distinct_card)
    also have "\<dots> = card ((\<lambda>i. vs ! i) ` set ?rows)" using inj by (simp only: card_image)
    finally show ?thesis by simp
  qed
  ultimately have "length ?rows = card {s. Some s \<in> set vs \<and> \<not> is_missing (Some s)}"
    by (simp add: card_image)
  then show ?thesis by (simp add: evaluate_unique_spec spec_result_def)
qed

end
