(* ===== verification/TypeRules.thy ===== *)
theory TypeRules
  imports Rules
begin

text \<open>
  What the type, range and regex rules accept, stated without the executable grammars: integer
  and number literals by their shape, dates by their calendar values, ranges by the exact
  decimal value, regexes by the documented behaviour of Polars.
\<close>

section \<open>Literals\<close>

definition is_sign :: "pystr \<Rightarrow> bool" where
  "is_sign s \<longleftrightarrow> s = [] \<or> s = [43] \<or> s = [45]"

definition is_digits :: "pystr \<Rightarrow> bool" where
  "is_digits s \<longleftrightarrow> s \<noteq> [] \<and> list_all is_digit s"

definition is_integer_literal :: "pystr \<Rightarrow> bool" where
  "is_integer_literal s \<longleftrightarrow> (\<exists>sg ds. s = sg @ ds \<and> is_sign sg \<and> is_digits ds)"

definition is_mantissa :: "pystr \<Rightarrow> bool" where
  "is_mantissa s \<longleftrightarrow> is_digits s \<or> (\<exists>ip fp. s = ip @ 46 # fp \<and> is_digits ip \<and> is_digits fp) \<or>
     (\<exists>fp. s = 46 # fp \<and> is_digits fp)"

definition is_exponent :: "pystr \<Rightarrow> bool" where
  "is_exponent s \<longleftrightarrow> s = [] \<or> (\<exists>e i. s = e # i \<and> (e = 101 \<or> e = 69) \<and> is_integer_literal i)"

definition is_number_literal :: "pystr \<Rightarrow> bool" where
  "is_number_literal s \<longleftrightarrow> (\<exists>sg m ex. s = sg @ m @ ex \<and> is_sign sg \<and> is_mantissa m \<and> is_exponent ex)"

lemma in_digit_class: "in_cls [(48, 57)] = is_digit"
  by (auto simp: fun_eq_iff is_digit_def)

lemma matches_digits: "matches (RPlus digit_class) s \<longleftrightarrow> is_digits s"
  by (simp add: digit_class_def in_digit_class is_digits_def)

lemma matches_digit_rep: "matches (RRep n digit_class) s \<longleftrightarrow> length s = n \<and> list_all is_digit s"
  by (simp add: digit_class_def in_digit_class)

lemma matches_sign: "matches sign_class s \<longleftrightarrow> s = [43] \<or> s = [45]"
  by (auto simp: sign_class_def)

lemma matches_opt_sign: "matches (ROpt sign_class) s \<longleftrightarrow> is_sign s"
  by (auto simp: matches_sign is_sign_def)

lemma matches_RSeq_Nil [simp]: "matches (RSeq []) s \<longleftrightarrow> s = []"
  by simp

lemma matches_RSeq_Cons:
  "matches (RSeq (r # rs)) s \<longleftrightarrow> (\<exists>u v. s = u @ v \<and> matches r u \<and> matches (RSeq rs) v)"
  by (simp add: matches_RCat)

lemma matches_RSeq_chr [simp]:
  "matches (RSeq (RChr c # rs)) s \<longleftrightarrow> (\<exists>t. s = c # t \<and> matches (RSeq rs) t)"
  by simp

lemma matches_RSeq_single [simp]: "matches (RSeq [r]) s \<longleftrightarrow> matches r s"
  by (simp add: matches_RCat)

lemmas grammar_simps =
  matches_digits matches_opt_sign matches_sign matches_digit_rep matches_RSeq_Cons

lemma matches_integer: "matches (RSeq [ROpt sign_class, RPlus digit_class]) s \<longleftrightarrow> is_integer_literal s"
  unfolding is_integer_literal_def matches_RSeq_Cons [of "ROpt _"] matches_opt_sign
    matches_RSeq_single matches_digits ..

lemma integer_pattern_iff: "fullmatch integer_pattern s \<longleftrightarrow> is_integer_literal s"
  unfolding fullmatch_iff integer_pattern_def matches_integer ..

lemma matches_mantissa:
  "matches (RAlt (RSeq [RPlus digit_class, ROpt (RSeq [RChr 46, RPlus digit_class])])
     (RSeq [RChr 46, RPlus digit_class])) s \<longleftrightarrow> is_mantissa s"
proof -
  have 1: "matches (RSeq [RPlus digit_class, ROpt (RSeq [RChr 46, RPlus digit_class])]) s \<longleftrightarrow>
      is_digits s \<or> (\<exists>ip fp. s = ip @ 46 # fp \<and> is_digits ip \<and> is_digits fp)"
    unfolding matches_RSeq_Cons [of "RPlus digit_class"] matches_RSeq_single matches_ROpt
      matches_RSeq_chr matches_digits by (auto simp: conj_disj_distribL ex_disj_distrib)
  have 2: "matches (RSeq [RChr 46, RPlus digit_class]) s \<longleftrightarrow> (\<exists>fp. s = 46 # fp \<and> is_digits fp)"
    by (simp add: matches_digits del: RSeq.simps)
  show ?thesis unfolding matches_RAlt 1 2 is_mantissa_def by blast
qed

lemma matches_exponent:
  "matches (ROpt (RSeq [RCls [(101, 101), (69, 69)], ROpt sign_class, RPlus digit_class])) s
     \<longleftrightarrow> is_exponent s"
proof -
  have "matches (RSeq [RCls [(101, 101), (69, 69)], ROpt sign_class, RPlus digit_class]) s \<longleftrightarrow>
      (\<exists>e i. s = e # i \<and> (e = 101 \<or> e = 69) \<and> is_integer_literal i)"
    unfolding RSeq.simps(2) [of "RCls _"] matches_cat_cls matches_integer by auto
  then show ?thesis by (simp add: is_exponent_def del: RSeq.simps)
qed

lemma number_pattern_iff: "fullmatch number_pattern s \<longleftrightarrow> is_number_literal s"
  unfolding fullmatch_iff number_pattern_def is_number_literal_def
    matches_RSeq_Cons matches_mantissa matches_exponent matches_opt_sign matches_RSeq_Nil
  by (metis append_Nil2)

lemma parse_number_iff:
  "parse_number s = Some f \<longleftrightarrow>
     is_number_literal s \<and> f = round_double (decimal_value s) \<and> float_isfinite f"
  by (auto simp: parse_number_def number_pattern_iff float_of_str_def Let_def)

section \<open>Dates\<close>

text \<open>\<open>pad n k\<close> is the decimal notation of \<open>k\<close> with \<open>n\<close> digits.\<close>

fun pad :: "nat \<Rightarrow> int \<Rightarrow> pystr" where
  "pad 0 k = []"
| "pad (Suc n) k = pad n (k div 10) @ [nat (k mod 10) + 48]"

definition iso_date :: "int \<Rightarrow> int \<Rightarrow> int \<Rightarrow> pystr" where
  "iso_date y m d = pad 4 y @ 45 # pad 2 m @ 45 # pad 2 d"

lemma length_pad [simp]: "length (pad n k) = n"
  by (induction n k rule: pad.induct) auto

lemma pad_digits: "list_all is_digit (pad n k)"
  by (induction n k rule: pad.induct) (auto simp: is_digit_def nat_less_iff)

lemma digits_value_pad: "0 \<le> k \<Longrightarrow> k < 10 ^ n \<Longrightarrow> digits_value (pad n k) = k"
proof (induction n arbitrary: k)
  case 0
  then show ?case by (simp add: digits_value_def)
next
  case (Suc n)
  then have "0 \<le> k div 10" "k div 10 < 10 ^ n" by auto
  then show ?case by (simp add: Suc.IH digits_value_snoc)
qed

lemma pad_digits_value: "list_all is_digit s \<Longrightarrow> pad (length s) (digits_value s) = s"
proof (induction s rule: rev_induct)
  case (snoc c s)
  then have c: "48 \<le> c" "c \<le> 57" by (auto simp: is_digit_def)
  then have "(digits_value s * 10 + (int c - 48)) div 10 = digits_value s"
    "(digits_value s * 10 + (int c - 48)) mod 10 = int c - 48" by presburger+
  with snoc c show ?case by (simp add: digits_value_snoc)
qed (simp add: digits_value_def)

lemma digits_value_bound: "list_all is_digit s \<Longrightarrow> digits_value s < 10 ^ length s"
proof (induction s rule: rev_induct)
  case (snoc c s)
  then have "int c - 48 < 10" "digits_value s < 10 ^ length s" by (auto simp: is_digit_def)
  then show ?case by (simp add: digits_value_snoc)
qed (simp add: digits_value_def)

lemma date_pattern_iff:
  "fullmatch date_pattern s \<longleftrightarrow> (\<exists>a b c. s = a @ 45 # b @ 45 # c \<and>
     length a = 4 \<and> length b = 2 \<and> length c = 2 \<and>
     list_all is_digit a \<and> list_all is_digit b \<and> list_all is_digit c)"
proof -
  have "fullmatch date_pattern s \<longleftrightarrow>
    (\<exists>a t. s = a @ t \<and> (length a = 4 \<and> list_all is_digit a) \<and>
      (\<exists>t'. t = 45 # t' \<and> (\<exists>b u. t' = b @ u \<and> (length b = 2 \<and> list_all is_digit b) \<and>
        (\<exists>c. u = 45 # c \<and> (length c = 2 \<and> list_all is_digit c)))))"
    unfolding fullmatch_iff date_pattern_def
      matches_RSeq_Cons [of "RRep 4 digit_class"] matches_RSeq_Cons [of "RRep 2 digit_class"]
      matches_RSeq_chr matches_RSeq_Nil matches_digit_rep by simp
  then show ?thesis by (auto; blast)
qed

lemma is_date_iff: "is_date s \<longleftrightarrow> (\<exists>y m d. valid_date y m d \<and> s = iso_date y m d)"
proof
  assume d: "is_date s"
  then have fm: "fullmatch date_pattern s" and v: "date_fromisoformat s"
    by (auto simp: is_date_def split: if_splits)
  from fm [unfolded date_pattern_iff] obtain a b c where s: "s = a @ 45 # b @ 45 # c"
    "length a = 4" "length b = 2" "length c = 2"
    "list_all is_digit a" "list_all is_digit b" "list_all is_digit c" by blast
  have "field 0 4 s = digits_value a" "field 5 2 s = digits_value b" "field 8 2 s = digits_value c"
    by (simp_all add: s field_def)
  with v have "valid_date (digits_value a) (digits_value b) (digits_value c)"
    by (simp add: date_fromisoformat_def)
  moreover have "s = iso_date (digits_value a) (digits_value b) (digits_value c)"
    using pad_digits_value [of a] pad_digits_value [of b] pad_digits_value [of c]
    by (simp add: s iso_date_def)
  ultimately show "\<exists>y m d. valid_date y m d \<and> s = iso_date y m d" by blast
next
  assume "\<exists>y m d. valid_date y m d \<and> s = iso_date y m d"
  then obtain y m d where v: "valid_date y m d" and s: "s = iso_date y m d" by blast
  have d31: "days_in_month y m \<le> 31" by (simp add: days_in_month_def)
  have b: "0 \<le> y" "y < 10 ^ 4" "0 \<le> m" "m < 10 ^ 2" "0 \<le> d" "d < 10 ^ 2"
    using v d31 by (auto simp: valid_date_def)
  have "field 0 4 s = y" "field 5 2 s = m" "field 8 2 s = d"
    unfolding s iso_date_def field_def using b by (simp_all add: digits_value_pad)
  moreover have "fullmatch date_pattern s"
    unfolding date_pattern_iff s iso_date_def by (metis length_pad pad_digits)
  ultimately show "is_date s" using v by (simp add: is_date_def date_fromisoformat_def)
qed

section \<open>The six expected types\<close>

definition expected_types :: "pystr list" where
  "expected_types = map lit [''string'', ''integer'', ''number'', ''boolean'', ''date'', ''datetime'']"

text \<open>The declarative meaning of an expected type.\<close>

definition conforms :: "pystr \<Rightarrow> pystr \<Rightarrow> bool" where
  "conforms ty s \<longleftrightarrow>
     (ty = lit ''string'') \<or>
     (ty = lit ''integer'' \<and> is_integer_literal s) \<or>
     (ty = lit ''number'' \<and> is_number_literal s \<and> float_isfinite (round_double (decimal_value s))) \<or>
     (ty = lit ''boolean'' \<and> (py_casefold s = lit ''true'' \<or> py_casefold s = lit ''false'')) \<or>
     (ty = lit ''date'' \<and> (\<exists>y m d. valid_date y m d \<and> s = iso_date y m d)) \<or>
     (ty = lit ''datetime'' \<and> is_datetime s)"

lemma matches_type_conforms:
  assumes "ty \<in> set expected_types"
  shows "matches_type s (VStr ty) = Inr (conforms ty s)"
  using assms
  by (auto simp: expected_types_def matches_type_def conforms_def integer_pattern_iff is_date_iff
      parse_number_def number_pattern_iff float_of_str_def Let_def)

lemma type_rule_spec:
  assumes "ty \<in> set expected_types"
  shows "evaluate_rule contains vs (TypeRuleSpec i c (VStr ty)) =
     Inr (spec_result (TypeRuleSpec i c (VStr ty)) vs (missing_at vs)
       (\<lambda>k. \<not> conforms ty (the (vs ! k))))"
proof -
  have "\<forall>v \<in> set vs. \<not> is_missing v \<longrightarrow> matches_type (the v) (VStr ty) = Inr (conforms ty (the v))"
    by (simp add: matches_type_conforms [OF assms])
  from evaluate_non_missing_result [OF this] show ?thesis by (simp add: evaluate_rule_def)
qed

section \<open>Ranges\<close>

definition valid_boundary :: "pyval \<Rightarrow> bool" where
  "valid_boundary v \<longleftrightarrow> v = VNone \<or> (\<exists>q. number_of v = Some (FFin q))"

text \<open>Inclusive bounds on the parsed float.\<close>

definition in_bounds :: "pyval \<Rightarrow> pyval \<Rightarrow> pyfloat \<Rightarrow> bool" where
  "in_bounds lo hi f \<longleftrightarrow>
     (\<forall>a. number_of lo = Some a \<longrightarrow> float_le a f) \<and> (\<forall>b. number_of hi = Some b \<longrightarrow> float_le f b)"

definition range_accepts :: "pyval \<Rightarrow> pyval \<Rightarrow> pystr \<Rightarrow> bool" where
  "range_accepts lo hi s \<longleftrightarrow> (\<exists>f. parse_number s = Some f \<and> in_bounds lo hi f)"

lemma parse_number_finite: "parse_number s = Some f \<Longrightarrow> \<exists>q. f = FFin q"
  unfolding parse_number_iff by (metis float_isfinite.elims(2))

lemma within_range_spec:
  assumes "valid_boundary lo" and "valid_boundary hi"
  shows "within_range s lo hi = Inr (range_accepts lo hi s)"
proof (cases "parse_number s")
  case (Some f)
  then obtain q where "f = FFin q" using parse_number_finite by blast
  with Some assms show ?thesis
    by (auto simp: within_range_def range_accepts_def in_bounds_def valid_boundary_def compare_with_def)
qed (simp add: within_range_def range_accepts_def)

lemma range_rule_spec:
  assumes "valid_boundary lo" and "valid_boundary hi"
  shows "evaluate_rule contains vs (RangeRuleSpec i c lo hi) =
     Inr (spec_result (RangeRuleSpec i c lo hi) vs (missing_at vs)
       (\<lambda>k. \<not> range_accepts lo hi (the (vs ! k))))"
proof -
  have "\<forall>v \<in> set vs. \<not> is_missing v \<longrightarrow>
      within_range (the v) lo hi = Inr (range_accepts lo hi (the v))"
    by (simp add: within_range_spec [OF assms])
  from evaluate_non_missing_result [OF this] show ?thesis by (simp add: evaluate_rule_def)
qed

text \<open>
  A float bound is not crossed by rounding: the exact value decides in its favour. An absent
  bound (\<open>None\<close>) bounds everything; a present one is a float (the service stores floats).
\<close>

definition lower_bound :: "pyval \<Rightarrow> rat \<Rightarrow> bool" where
  "lower_bound v q \<longleftrightarrow> v = VNone \<or> (\<exists>a. v = VFloat (FFin a) \<and> is_float (FFin a) \<and> a \<le> q)"

definition upper_bound :: "pyval \<Rightarrow> rat \<Rightarrow> bool" where
  "upper_bound v q \<longleftrightarrow> v = VNone \<or> (\<exists>a. v = VFloat (FFin a) \<and> is_float (FFin a) \<and> q \<le> a)"

lemma range_accepts_exact:
  assumes lit: "is_number_literal s" and fin: "float_isfinite (round_double (decimal_value s))"
    and lo: "lower_bound lo (decimal_value s)" and hi: "upper_bound hi (decimal_value s)"
  shows "range_accepts lo hi s"
proof -
  let ?f = "round_double (decimal_value s)"
  have "parse_number s = Some ?f" using lit fin by (simp add: parse_number_iff)
  moreover have "float_le a ?f" if "number_of lo = Some a" for a
    using lo that round_double_mono by (auto simp: lower_bound_def is_float_def) metis
  moreover have "float_le ?f b" if "number_of hi = Some b" for b
    using hi that round_double_mono by (auto simp: upper_bound_def is_float_def) metis
  ultimately show ?thesis by (auto simp: range_accepts_def in_bounds_def)
qed

section \<open>Regexes\<close>

text \<open>
  The documented behaviour of \<open>Series.str.contains\<close>: an invalid pattern raises whatever the
  column; a valid one gives null for a null cell and otherwise whether the pattern occurs in
  the cell, cell by cell. \<open>valid\<close> and \<open>occurs\<close> are the Rust regex dialect, left open.
\<close>

definition contains_law :: "polars_contains \<Rightarrow> (pystr \<Rightarrow> bool) \<Rightarrow> (pystr \<Rightarrow> pystr \<Rightarrow> bool) \<Rightarrow> bool" where
  "contains_law contains valid occurs \<longleftrightarrow>
     (\<forall>p vs. contains p vs = (if valid p then Some (map (map_option (occurs p)) vs) else None))"

lemma regex_rule_spec:
  assumes law: "contains_law contains valid occurs" and p: "valid p"
  shows "evaluate_rule contains vs (RegexRuleSpec i c (VStr p)) =
     Inr (spec_result (RegexRuleSpec i c (VStr p)) vs (missing_at vs)
       (\<lambda>k. \<not> occurs p (the (vs ! k))))"
proof -
  let ?ms = "map (map_option (occurs p)) vs" and ?rule = "RegexRuleSpec i c (VStr p)"
  let ?f = "\<lambda>k. match_verdict (zip vs ?ms ! k)"
  have ms: "contains p vs = Some ?ms" using law p by (simp add: contains_law_def)
  have len: "length (zip vs ?ms) = length vs" by simp
  have j: "judge_all (\<lambda>s row. Inr (match_verdict row)) (\<lambda>s row. s) () (zip vs ?ms)
      = (Inr (map ?f [0..<length vs]) :: engine_exc + verdict list)"
    using judge_all_index [of "\<lambda>s. match_verdict" "\<lambda>s row. s" "()" "zip vs ?ms", unfolded len] by simp
  have loop: "regex_loop 1 vs ?ms new_tally = Inr
     \<lparr>samples = take VIOLATION_SAMPLE_LIMIT (all_samples 1 (zip (map ?f [0..<length vs]) vs)),
      violations = int (count_list (map ?f [0..<length vs]) Violates),
      skipped = int (count_list (map ?f [0..<length vs]) Skips)\<rparr>"
    using regex.scan_new_tally [of "zip vs ?ms" "()", unfolded j] by simp
  have f: "?f k = (if missing_at vs k then Skips
      else if \<not> occurs p (the (vs ! k)) then Violates else Passes)" if "k < length vs" for k
    using that by (cases "vs ! k") (auto simp: missing_at_def is_missing_def)
  show ?thesis
    using make_result_spec [of vs ?f "missing_at vs" "\<lambda>k. \<not> occurs p (the (vs ! k))" ?rule, OF f]
    by (simp add: evaluate_rule_def evaluate_regex_def ms loop)
qed

section \<open>Properties\<close>

text \<open>
  C16. The date type accepts exactly the ISO notations of the dates of the proleptic Gregorian
  calendar in the years 1 to 9999.
\<close>

theorem date_type_iff_calendar_date:
  "is_date s \<longleftrightarrow> (\<exists>y m d. valid_date y m d \<and> s = iso_date y m d)"
  by (rule is_date_iff)

text \<open>
  C17. Rounding to a float never turns a value away: a literal whose exact decimal value lies
  within float boundaries is accepted by the range.
\<close>

theorem range_never_rejects_exact_value:
  assumes "is_number_literal s" and "float_isfinite (round_double (decimal_value s))"
    and "lower_bound lo (decimal_value s)" and "upper_bound hi (decimal_value s)"
  shows "within_range s lo hi = Inr True"
proof -
  have "valid_boundary lo" "valid_boundary hi"
    using assms(3,4) by (auto simp: valid_boundary_def lower_bound_def upper_bound_def)
  then show ?thesis using range_accepts_exact [OF assms] by (simp add: within_range_spec)
qed

lemma decimal_value_25: "decimal_value (lit ''2.5'') = of_int 5 * 2 powi (-1)"
  by (simp add: decimal_value_def is_digit_def digits_value_def)

theorem range_never_rejects_exact_value_witness:
  "within_range (lit ''2.5'') (VFloat (FFin 0)) VNone = Inr True"
proof (rule range_never_rejects_exact_value)
  show "is_number_literal (lit ''2.5'')"
    unfolding number_pattern_iff [symmetric] by code_simp
  have "round_double (decimal_value (lit ''2.5'')) = FFin (decimal_value (lit ''2.5''))"
    by (rule round_double_dyadic [OF _ _ decimal_value_25])
      (simp_all add: decimal_value_25 double_limit_def del: lit_Cons)
  then show "float_isfinite (round_double (decimal_value (lit ''2.5'')))" by simp
  show "lower_bound (VFloat (FFin 0)) (decimal_value (lit ''2.5''))"
    unfolding decimal_value_25 by (simp add: lower_bound_def is_float_def)
  show "upper_bound VNone (decimal_value (lit ''2.5''))" by (simp add: upper_bound_def)
qed

end
