(* ===== verification/Engine.thy ===== *)
theory Engine
  imports TypeRules
begin

text \<open>
  The Validation Engine (\<open>validation/engine.py\<close>): \<open>validate\<close> checks the whole input, then
  evaluates the rules in order. A Polars frame is its height and its named, typed columns; the
  values of a column that is not textual are never read.
\<close>

datatype dtype = DString | DOther

record column =
  col_name :: pystr
  col_dtype :: dtype
  col_values :: "pystr option list"

record frame =
  columns :: "column list"
  height :: nat

text \<open>The \<open>data\<close> argument: a frame, or an object that is not one.\<close>

datatype engine_data = Frame frame | NotAFrame

definition column_names :: "frame \<Rightarrow> pystr list" where
  "column_names f = map col_name (columns f)"

definition find_column :: "frame \<Rightarrow> pystr \<Rightarrow> column option" where
  "find_column f c = find (\<lambda>col. col_name col = c) (columns f)"

text \<open>What Polars guarantees of a frame: names are unique, all columns have its height.\<close>

definition wf_frame :: "frame \<Rightarrow> bool" where
  "wf_frame f \<longleftrightarrow> distinct (column_names f) \<and>
     list_all (\<lambda>col. length (col_values col) = height f) (columns f)"

section \<open>Input validation\<close>

definition check_boundary :: "pyval \<Rightarrow> engine_exc + unit" where
  "check_boundary v =
     (if v = VNone then Inr ()
      else if \<not> is_number v then Inl (ValidationInputError RangeBoundaryNotFinite)
      else (case math_isfinite v of
          None \<Rightarrow> Inl (ValidationInputError RangeBoundaryNotFinite)
        | Some fin \<Rightarrow> require fin (ValidationInputError RangeBoundaryNotFinite)))"

definition exceeds :: "pyval \<Rightarrow> pyval \<Rightarrow> engine_exc + bool" where
  "exceeds lo hi =
     (case (number_of lo, number_of hi) of
        (Some a, Some b) \<Rightarrow> Inr (float_less b a)
      | _ \<Rightarrow> Inl OperandTypeError)"

definition validate_range :: "pyval \<Rightarrow> pyval \<Rightarrow> engine_exc + unit" where
  "validate_range lo hi =
     (if lo = VNone \<and> hi = VNone then Inl (ValidationInputError RangeWithoutBoundary)
      else bind_result (check_boundary lo) (\<lambda>_.
           bind_result (check_boundary hi) (\<lambda>_.
             if lo \<noteq> VNone \<and> hi \<noteq> VNone
             then bind_result (exceeds lo hi)
               (\<lambda>gt. require (\<not> gt) (ValidationInputError RangeMinimumExceedsMaximum))
             else Inr ())))"

definition validate_parameters :: "polars_contains \<Rightarrow> rule_spec \<Rightarrow> engine_exc + unit" where
  "validate_parameters contains rule =
     (case rule of
        TypeRuleSpec _ _ ty \<Rightarrow>
          (case ty of
             VStr t \<Rightarrow> require (t \<in> set expected_types) (ValidationInputError ExpectedTypeUnsupported)
           | _ \<Rightarrow> Inl (ValidationInputError ExpectedTypeUnsupported))
      | RangeRuleSpec _ _ lo hi \<Rightarrow> validate_range lo hi
      | RegexRuleSpec _ _ p \<Rightarrow> validate_regex_pattern contains p
      | _ \<Rightarrow> Inr ())"

definition validate_target :: "frame \<Rightarrow> pyval \<Rightarrow> engine_exc + unit" where
  "validate_target data target =
     (case target of
        VStr c \<Rightarrow>
          if c = [] then Inl (ValidationInputError TargetColumnNotAString)
          else if c \<notin> set (column_names data) then Inl (ValidationInputError TargetColumnMissing)
          else (case find_column data c of
              None \<Rightarrow> Inl ColumnNotFound
            | Some col \<Rightarrow>
                require (col_dtype col = DString) (ValidationInputError TargetColumnNotTextual))
      | _ \<Rightarrow> Inl (ValidationInputError TargetColumnNotAString))"

fun validate_inputs ::
  "polars_contains \<Rightarrow> frame \<Rightarrow> pyval set \<Rightarrow> rule_spec list \<Rightarrow> engine_exc + unit" where
  "validate_inputs contains data seen [] = Inr ()"
| "validate_inputs contains data seen (rule # rules) =
     (if rule = NotARuleSpec then Inl (ValidationInputError UnsupportedRule)
      else if \<not> is_uuid (rule_id rule) then Inl (ValidationInputError RuleIdNotUuid)
      else if rule_id rule \<in> seen then Inl (ValidationInputError RuleIdsNotUnique)
      else
        bind_result (validate_target data (target_column rule)) (\<lambda>_.
        bind_result (validate_parameters contains rule) (\<lambda>_.
        validate_inputs contains data (insert (rule_id rule) seen) rules)))"

section \<open>Evaluation\<close>

definition get_column :: "frame \<Rightarrow> pyval \<Rightarrow> engine_exc + pystr option list" where
  "get_column data target =
     (case target of
        VStr c \<Rightarrow> (case find_column data c of
            None \<Rightarrow> Inl ColumnNotFound
          | Some col \<Rightarrow> Inr (col_values col))
      | _ \<Rightarrow> Inl OperandTypeError)"

definition evaluate_on :: "polars_contains \<Rightarrow> frame \<Rightarrow> rule_spec \<Rightarrow> engine_exc + rule_result" where
  "evaluate_on contains data rule =
     bind_result (get_column data (target_column rule)) (\<lambda>vs. evaluate_rule contains vs rule)"

definition validate ::
  "polars_contains \<Rightarrow> engine_data \<Rightarrow> rule_spec list \<Rightarrow> engine_exc + engine_result" where
  "validate contains data rules =
     (case data of
        NotAFrame \<Rightarrow> Inl (ValidationInputError DataNotAFrame)
      | Frame f \<Rightarrow>
          bind_result (validate_inputs contains f {} rules) (\<lambda>_.
          bind_result (map_results (evaluate_on contains f) rules) (\<lambda>rs.
            Inr \<lparr>total_rows = int (height f), rule_results = rs\<rparr>)))"

section \<open>Which inputs are valid\<close>

definition finite_number :: "pyval \<Rightarrow> bool" where
  "finite_number v \<longleftrightarrow> is_number v \<and> math_isfinite v = Some True"

text \<open>The declarative validity of a rule for a frame.\<close>

definition valid_range :: "pyval \<Rightarrow> pyval \<Rightarrow> bool" where
  "valid_range lo hi \<longleftrightarrow> (lo \<noteq> VNone \<or> hi \<noteq> VNone) \<and>
     (lo \<noteq> VNone \<longrightarrow> finite_number lo) \<and> (hi \<noteq> VNone \<longrightarrow> finite_number hi) \<and>
     (\<forall>a b. number_of lo = Some a \<longrightarrow> number_of hi = Some b \<longrightarrow> \<not> float_less b a)"

definition valid_parameters :: "polars_contains \<Rightarrow> rule_spec \<Rightarrow> bool" where
  "valid_parameters contains rule \<longleftrightarrow>
     (case rule of
        TypeRuleSpec _ _ ty \<Rightarrow> ty \<in> VStr ` set expected_types
      | RangeRuleSpec _ _ lo hi \<Rightarrow> valid_range lo hi
      | RegexRuleSpec _ _ p \<Rightarrow> (\<exists>s. p = VStr s \<and> s \<noteq> [] \<and> contains s [Some []] \<noteq> None)
      | NotARuleSpec \<Rightarrow> False
      | _ \<Rightarrow> True)"

definition valid_target :: "frame \<Rightarrow> pyval \<Rightarrow> bool" where
  "valid_target data target \<longleftrightarrow>
     (\<exists>c col. target = VStr c \<and> c \<noteq> [] \<and> find_column data c = Some col \<and> col_dtype col = DString)"

definition valid_rule :: "polars_contains \<Rightarrow> frame \<Rightarrow> rule_spec \<Rightarrow> bool" where
  "valid_rule contains data rule \<longleftrightarrow>
     rule \<noteq> NotARuleSpec \<and> is_uuid (rule_id rule) \<and> valid_target data (target_column rule) \<and>
     valid_parameters contains rule"

lemma find_column_None: "find_column f c = None \<longleftrightarrow> c \<notin> set (column_names f)"
  by (auto simp: find_column_def column_names_def find_None_iff)

lemma find_column_Some:
  "find_column f c = Some col \<Longrightarrow> col \<in> set (columns f) \<and> col_name col = c"
  by (auto simp: find_column_def find_Some_iff)

lemma finite_number_FFin: "finite_number v \<Longrightarrow> \<exists>q. number_of v = Some (FFin q)"
  unfolding finite_number_def
  by (cases v) (auto elim: float_isfinite.elims split: if_splits)

lemma check_boundary_iff [result_simps]:
  "check_boundary v = Inr u \<longleftrightarrow> v = VNone \<or> finite_number v"
  by (auto simp: check_boundary_def finite_number_def result_simps split: option.splits)

lemma validate_range_iff: "validate_range lo hi = Inr u \<longleftrightarrow> valid_range lo hi"
proof (cases "lo = VNone \<or> hi = VNone")
  case True
  then show ?thesis
    by (auto simp: validate_range_def valid_range_def result_simps)
next
  case False
  show ?thesis
  proof (cases "finite_number lo \<and> finite_number hi")
    case True
    then obtain a b where "number_of lo = Some (FFin a)" "number_of hi = Some (FFin b)"
      using finite_number_FFin by blast
    then show ?thesis
      using False True by (auto simp: validate_range_def valid_range_def exceeds_def result_simps)
  next
    case False
    with \<open>\<not> (lo = VNone \<or> hi = VNone)\<close> show ?thesis
      by (auto simp: validate_range_def valid_range_def result_simps)
  qed
qed

lemma validate_regex_pattern_iff [result_simps]:
  "validate_regex_pattern contains p = Inr u \<longleftrightarrow>
     (\<exists>s. p = VStr s \<and> s \<noteq> [] \<and> contains s [Some []] \<noteq> None)"
  by (auto simp: validate_regex_pattern_def split: pyval.splits)

lemma validate_parameters_iff:
  "rule \<noteq> NotARuleSpec \<Longrightarrow>
   validate_parameters contains rule = Inr u \<longleftrightarrow> valid_parameters contains rule"
  by (cases rule)
    (auto simp: validate_parameters_def valid_parameters_def validate_range_iff result_simps
      split: pyval.splits)

lemma validate_target_iff: "validate_target data target = Inr u \<longleftrightarrow> valid_target data target"
  by (auto simp: validate_target_def valid_target_def result_simps find_column_None [symmetric]
      split: pyval.splits option.splits)

lemma validate_inputs_iff:
  "validate_inputs contains data seen rules = Inr () \<longleftrightarrow>
     list_all (valid_rule contains data) rules \<and> distinct (map rule_id rules) \<and>
     set (map rule_id rules) \<inter> seen = {}"
proof (induction rules arbitrary: seen)
  case (Cons rule rules)
  show ?case
    by (auto simp: result_simps Cons.IH validate_target_iff validate_parameters_iff valid_rule_def)
qed simp

section \<open>Validated input is evaluated without an error\<close>

lemma valid_range_boundaries:
  "valid_range lo hi \<Longrightarrow> valid_boundary lo \<and> valid_boundary hi"
  using finite_number_FFin by (auto simp: valid_range_def valid_boundary_def)

text \<open>
  What the five families say of a column: which rows a rule leaves out, and when one of the others
  violates it. A \<open>type\<close> rule asks for any text, a signed run of ASCII digits, a number literal whose
  float is finite, \<open>true\<close> or \<open>false\<close> up to case folding, a real calendar date in ISO form, or a
  datetime with an offset; a \<open>range\<close> rule for a number literal whose finite float lies within the
  inclusive bounds.
\<close>

definition rule_skips :: "rule_spec \<Rightarrow> pystr option list \<Rightarrow> nat \<Rightarrow> bool" where
  "rule_skips rule vs i \<longleftrightarrow> (case rule of RequiredRuleSpec _ _ \<Rightarrow> False | _ \<Rightarrow> missing_at vs i)"

definition text_of :: "pyval \<Rightarrow> pystr" where
  "text_of v = (case v of VStr s \<Rightarrow> s | _ \<Rightarrow> [])"

definition rule_violated :: "(pystr \<Rightarrow> pystr \<Rightarrow> bool) \<Rightarrow> rule_spec \<Rightarrow> pystr option list \<Rightarrow> nat \<Rightarrow> bool" where
  "rule_violated occurs rule vs i \<longleftrightarrow>
     (case rule of
        RequiredRuleSpec _ _ \<Rightarrow> missing_at vs i
      | UniqueRuleSpec _ _ \<Rightarrow> repeats_earlier vs i
      | TypeRuleSpec _ _ ty \<Rightarrow> \<not> conforms (text_of ty) (the (vs ! i))
      | RangeRuleSpec _ _ lo hi \<Rightarrow> \<not> range_accepts lo hi (the (vs ! i))
      | RegexRuleSpec _ _ p \<Rightarrow> \<not> occurs (text_of p) (the (vs ! i))
      | NotARuleSpec \<Rightarrow> False)"

definition declared_result :: "(pystr \<Rightarrow> pystr \<Rightarrow> bool) \<Rightarrow> pystr option list \<Rightarrow> rule_spec \<Rightarrow> rule_result" where
  "declared_result occurs vs rule = spec_result rule vs (rule_skips rule vs) (rule_violated occurs rule vs)"

definition target_values :: "frame \<Rightarrow> rule_spec \<Rightarrow> pystr option list" where
  "target_values data rule =
     (case find_column data (text_of (target_column rule)) of Some col \<Rightarrow> col_values col | None \<Rightarrow> [])"

lemma evaluate_rule_declared:
  assumes law: "contains_law contains valid occurs" and p: "valid_parameters contains rule"
  shows "evaluate_rule contains vs rule = Inr (declared_result occurs vs rule)"
proof (cases rule)
  case (RequiredRuleSpec i c)
  then show ?thesis
    by (simp add: evaluate_rule_def evaluate_required_spec declared_result_def rule_skips_def [abs_def]
        rule_violated_def [abs_def])
next
  case (UniqueRuleSpec i c)
  then show ?thesis
    by (simp add: evaluate_rule_def evaluate_unique_spec declared_result_def rule_skips_def [abs_def]
        rule_violated_def [abs_def])
next
  case (TypeRuleSpec i c ty)
  with p obtain t where "ty = VStr t" "t \<in> set expected_types" by (auto simp: valid_parameters_def)
  then show ?thesis using TypeRuleSpec
    by (simp add: type_rule_spec declared_result_def rule_skips_def [abs_def] rule_violated_def [abs_def] text_of_def)
next
  case (RangeRuleSpec i c lo hi)
  with p have "valid_boundary lo" "valid_boundary hi"
    using valid_range_boundaries by (auto simp: valid_parameters_def)
  then show ?thesis using RangeRuleSpec
    by (simp add: range_rule_spec declared_result_def rule_skips_def [abs_def] rule_violated_def [abs_def])
next
  case (RegexRuleSpec i c p')
  with p obtain s where s: "p' = VStr s" "contains s [Some []] \<noteq> None"
    by (auto simp: valid_parameters_def)
  then have "valid s" using law by (auto simp: contains_law_def split: if_splits)
  then show ?thesis using RegexRuleSpec s
    by (simp add: regex_rule_spec [OF law] declared_result_def rule_skips_def [abs_def] rule_violated_def [abs_def]
        text_of_def)
qed (use p in \<open>simp add: valid_parameters_def\<close>)

lemma evaluate_on_declared:
  assumes law: "contains_law contains valid occurs" and rule: "valid_rule contains data rule"
  shows "evaluate_on contains data rule = Inr (declared_result occurs (target_values data rule) rule)"
proof -
  from rule obtain c col where "target_column rule = VStr c" "find_column data c = Some col"
    by (auto simp: valid_rule_def valid_target_def)
  moreover have "valid_parameters contains rule" using rule by (simp add: valid_rule_def)
  ultimately show ?thesis
    using evaluate_rule_declared [OF law]
    by (simp add: evaluate_on_def get_column_def target_values_def text_of_def)
qed

lemma evaluate_on_valid:
  "contains_law contains valid occurs \<Longrightarrow> valid_rule contains data rule \<Longrightarrow> \<exists>r. evaluate_on contains data rule = Inr r"
  using evaluate_on_declared by blast

lemma map_results_ex: "(\<And>x. x \<in> set xs \<Longrightarrow> \<exists>y. f x = Inr y) \<Longrightarrow> \<exists>ys. map_results f xs = Inr ys"
  by (rule exI, rule map_results_total [where g = "\<lambda>x. projr (f x)"]) fastforce

lemma validate_Inr:
  "validate contains (Frame f) rules = Inr res \<longleftrightarrow>
     list_all (valid_rule contains f) rules \<and> distinct (map rule_id rules) \<and>
     list_all2 (\<lambda>rule r. evaluate_on contains f rule = Inr r) rules (rule_results res) \<and>
     res = \<lparr>total_rows = int (height f), rule_results = rule_results res\<rparr>"
  by (auto simp: validate_def result_simps validate_inputs_iff map_results_Inr_iff)

lemma list_all2_map_eq:
  "list_all2 P xs ys \<Longrightarrow> (\<And>x y. P x y \<Longrightarrow> f y = x) \<Longrightarrow> map f ys = xs"
  by (induction rule: list_all2_induct) auto

lemma list_all2_mem: "list_all2 P xs ys \<Longrightarrow> y \<in> set ys \<Longrightarrow> \<exists>x. P x y"
  by (induction rule: list_all2_induct) auto

section \<open>Properties\<close>

text \<open>
  C18. The engine accepts an input exactly when every rule is one of the five families with a
  UUID, a non-empty textual target column of the frame and valid parameters, and no two rules
  share an identifier.
\<close>

theorem inputs_accepted_iff_valid:
  "validate_inputs contains data {} rules = Inr () \<longleftrightarrow>
     list_all (valid_rule contains data) rules \<and> distinct (map rule_id rules)"
  by (simp add: validate_inputs_iff)

text \<open>
  C13. The engine computes what its rules declare: with Polars as documented, a valid input is evaluated
  without an error to one result per rule, in the order of the rules and over all rows, and each
  result counts the rows left out and the rows that violate the rule as the rule's family declares
  them, with the samples of the first violating rows.
\<close>

theorem engine_computes_declared_results:
  assumes "contains_law contains valid occurs"
    and "list_all (valid_rule contains f) rules" and "distinct (map rule_id rules)"
  shows "validate contains (Frame f) rules =
    Inr \<lparr>total_rows = int (height f),
         rule_results = map (\<lambda>rule. declared_result occurs (target_values f rule) rule) rules\<rparr>"
proof -
  have "map_results (evaluate_on contains f) rules =
      Inr (map (\<lambda>rule. declared_result occurs (target_values f rule) rule) rules)"
    using assms(2) evaluate_on_declared [OF assms(1)]
    by (simp add: map_results_Inr_iff list_all2_map2 list.rel_refl_strong list_all_iff)
  moreover have "validate_inputs contains f {} rules = Inr ()" using assms by (simp add: validate_inputs_iff)
  ultimately show ?thesis by (simp add: validate_def)
qed

definition sample_frame :: frame where
  "sample_frame =
     \<lparr>columns = [\<lparr>col_name = lit ''age'', col_dtype = DString, col_values = [Some [52], None]\<rparr>],
      height = 2\<rparr>"

definition sample_rule :: rule_spec where
  "sample_rule = RequiredRuleSpec (VUuid (Uuid 1)) (VStr (lit ''age''))"

lemma sample_rule_valid: "valid_rule contains sample_frame sample_rule"
  by (simp add: valid_rule_def sample_rule_def valid_parameters_def valid_target_def
      sample_frame_def find_column_def)

definition prefix_contains :: polars_contains where
  "prefix_contains p vs = Some (map (map_option (\<lambda>s. py_startswith s p)) vs)"

lemma prefix_contains_law: "contains_law prefix_contains (\<lambda>p. True) (\<lambda>p s. py_startswith s p)"
  by (simp add: contains_law_def prefix_contains_def)

theorem engine_computes_declared_results_witness:
  "validate prefix_contains (Frame sample_frame) [sample_rule] =
     Inr \<lparr>total_rows = 2, rule_results =
       [spec_result sample_rule [Some [52], None] (\<lambda>_. False) (missing_at [Some [52], None])]\<rparr>"
proof -
  have "target_values sample_frame sample_rule = [Some [52], None]"
    by (simp add: target_values_def sample_frame_def sample_rule_def text_of_def find_column_def)
  moreover have "rule_skips sample_rule vs = (\<lambda>_. False)" "rule_violated occurs sample_rule vs = missing_at vs" for vs occurs
    by (simp_all add: rule_skips_def [abs_def] rule_violated_def [abs_def] sample_rule_def)
  moreover have "height sample_frame = 2" by (simp add: sample_frame_def)
  ultimately show ?thesis
    using engine_computes_declared_results [OF prefix_contains_law, of sample_frame "[sample_rule]"] sample_rule_valid
    by (simp add: declared_result_def)
qed

text \<open>
  C15. In any result over a well-formed frame the rules appear in input order, each once, and
  each accounts for every row of the frame: evaluated plus skipped rows are the total.
\<close>

theorem engine_accounts_for_every_row:
  assumes "validate contains (Frame f) rules = Inr res" and "wf_frame f"
  shows "map result_rule (rule_results res) = rules \<and>
    (\<forall>r \<in> set (rule_results res).
       evaluated_count r + skipped_count r = total_rows res \<and>
       evaluated_count r = passed_count r + violation_count r)"
proof -
  from assms(1) have all2: "list_all2 (\<lambda>rule r. evaluate_on contains f rule = Inr r) rules (rule_results res)"
    and rows: "total_rows res = int (height f)"
    by (auto simp: validate_Inr) (metis engine_result.select_convs(1))
  have one: "result_rule r = rule \<and> evaluated_count r + skipped_count r = int (height f) \<and>
      evaluated_count r = passed_count r + violation_count r"
    if "evaluate_on contains f rule = Inr r" for rule r
  proof -
    from that obtain c col where col: "find_column f c = Some col"
      and ev: "evaluate_rule contains (col_values col) rule = Inr r"
      by (auto simp: evaluate_on_def get_column_def result_simps split: pyval.splits option.splits)
    have "length (col_values col) = height f"
      using find_column_Some [OF col] assms(2) by (auto simp: wf_frame_def list_all_iff)
    then show ?thesis using rule_counts_balanced [OF ev] by simp
  qed
  have "map result_rule (rule_results res) = rules"
    using all2 by (rule list_all2_map_eq) (use one in blast)
  moreover have "\<exists>rule. evaluate_on contains f rule = Inr r" if "r \<in> set (rule_results res)" for r
    using list_all2_mem [OF all2 that] .
  ultimately show ?thesis using one rows by metis
qed

theorem engine_accounts_for_every_row_witness:
  "\<exists>res. validate prefix_contains (Frame sample_frame) [sample_rule] = Inr res \<and>
     map result_rule (rule_results res) = [sample_rule]"
proof -
  have "validate_inputs prefix_contains sample_frame {} [sample_rule] = Inr ()"
    using validate_inputs_iff [of prefix_contains sample_frame "{}" "[sample_rule]"] sample_rule_valid
    by (simp del: validate_inputs.simps)
  moreover have "evaluate_on prefix_contains sample_frame sample_rule =
      Inr (evaluate_required [Some [52], None] sample_rule)"
    by (simp add: evaluate_on_def get_column_def sample_rule_def sample_frame_def find_column_def
        evaluate_rule_def)
  ultimately have "validate prefix_contains (Frame sample_frame) [sample_rule] =
      Inr \<lparr>total_rows = 2, rule_results = [evaluate_required [Some [52], None] sample_rule]\<rparr>"
    by (simp add: validate_def) (simp add: sample_frame_def)
  moreover have "wf_frame sample_frame"
    by (simp add: wf_frame_def sample_frame_def column_names_def)
  ultimately show ?thesis using engine_accounts_for_every_row by blast
qed

end
