(* ===== verification/Score.thy ===== *)
theory Score
  imports Engine
begin

text \<open>
  The quality score (\<open>analysis/score.py\<close>). Python computes it in decimal arithmetic of 40
  digits, rounding twice: the quotient half-even to 40 digits, then half-up to two places. The
  theorems show that the double rounding never shows: the score is the exact percentage,
  rounded half-up once.
\<close>

section \<open>Decimal arithmetic\<close>

text \<open>The signals that trap under the default context.\<close>

datatype decimal_exc = DecimalOverflow | DecimalInvalidOperation

definition DECIMAL_PREC :: nat where
  "DECIMAL_PREC = 40"

text \<open>\<open>Etiny\<close> is \<open>Emin - prec + 1\<close>; a result of \<open>10 ^ (Emax + 1)\<close> or more overflows.\<close>

definition DECIMAL_ETINY :: int where
  "DECIMAL_ETINY = -999999 - 39"

definition decimal_limit :: rat where
  "decimal_limit = 10 powi 1000000"

definition dec_nearest :: "rat \<Rightarrow> rat" where
  "dec_nearest q =
     (if q = 0 then 0
      else if q < 0 then - round_prec round_half_even 10 DECIMAL_PREC DECIMAL_ETINY (- q)
      else round_prec round_half_even 10 DECIMAL_PREC DECIMAL_ETINY q)"

text \<open>How an operator rounds its exact result to the context.\<close>

definition dec_fix :: "rat \<Rightarrow> decimal_exc + rat" where
  "dec_fix q =
     (if decimal_limit \<le> \<bar>dec_nearest q\<bar> then Inl DecimalOverflow else Inr (dec_nearest q))"

definition half_up_signed :: "rat \<Rightarrow> int" where
  "half_up_signed x = (if x < 0 then - round_half_up (- x) else round_half_up x)"

text \<open>\<open>quantize\<close> to two places, \<open>ROUND_HALF_UP\<close>.\<close>

definition quantize2 :: "rat \<Rightarrow> decimal_exc + rat" where
  "quantize2 q =
     (let k = half_up_signed (q * 100)
      in if 10 ^ DECIMAL_PREC \<le> \<bar>k\<bar> then Inl DecimalInvalidOperation else Inr (of_int k / 100))"

section \<open>The score\<close>

definition total_passed :: "rule_result list \<Rightarrow> int" where
  "total_passed results = sum_list (map passed_count results)"

definition total_evaluated :: "rule_result list \<Rightarrow> int" where
  "total_evaluated results = sum_list (map evaluated_count results)"

definition calculate_quality_score :: "rule_result list \<Rightarrow> decimal_exc + rat option" where
  "calculate_quality_score results =
     (let passed = total_passed results; evaluated = total_evaluated results
      in if evaluated = 0 then Inr None
         else bind_result (dec_fix (100 * of_int passed)) (\<lambda>product.
              bind_result (dec_fix (product / of_int evaluated)) (\<lambda>score.
              bind_result (quantize2 score) (\<lambda>rounded. Inr (Some rounded)))))"

text \<open>The percentage to two places, half-up, with one rounding of the exact quotient.\<close>

definition exact_score :: "int \<Rightarrow> int \<Rightarrow> rat" where
  "exact_score passed evaluated =
     of_int (round_half_up (10000 * of_int passed / of_int evaluated)) / 100"

section \<open>One rounding is seen\<close>

lemma dec_nearest_pos:
  "0 < q \<Longrightarrow> dec_nearest q = round_prec round_half_even 10 DECIMAL_PREC DECIMAL_ETINY q"
  by (simp add: dec_nearest_def)

lemma dec_nearest_0 [simp]: "dec_nearest 0 = 0"
  by (simp add: dec_nearest_def)

lemma dec_nearest_nonneg: "0 \<le> q \<Longrightarrow> 0 \<le> dec_nearest q"
  by (cases "q = 0") (auto simp: dec_nearest_pos intro!: half_even.round_prec_nonneg)

text \<open>A decimal of at most 40 digits is kept, in particular an integer below \<open>10 ^ 40\<close>.\<close>

lemma dec_nearest_exact:
  assumes "0 < k" and "k < 10 ^ 40" and "DECIMAL_ETINY \<le> e"
  shows "dec_nearest (of_int k * 10 powi e) = of_int k * 10 powi e"
proof -
  have pos: "(0::rat) < of_int k * 10 powi e" using assms(1) by simp
  have "(of_int k :: rat) < of_int (10 ^ 40)" using assms(2) by (simp only: of_int_less_iff)
  then have fits: "(of_int k :: rat) < of_nat 10 powi int DECIMAL_PREC"
    by (simp add: DECIMAL_PREC_def)
  have "round_prec round_half_even 10 DECIMAL_PREC DECIMAL_ETINY (of_int k * 10 powi e)
      = of_int k * 10 powi e"
    by (rule half_even.round_prec_exact [OF _ pos _ fits assms(3)]) simp_all
  with pos show ?thesis by (simp only: dec_nearest_pos)
qed

lemma dec_nearest_of_int: "0 \<le> k \<Longrightarrow> k < 10 ^ 40 \<Longrightarrow> dec_nearest (of_int k) = of_int k"
  using dec_nearest_exact [of k 0] by (cases "k = 0") (auto simp: DECIMAL_ETINY_def)

lemma dec_nearest_mono:
  assumes "0 < p" and "p \<le> q"
  shows "dec_nearest p \<le> dec_nearest q"
  using assms half_even.round_prec_mono [of 10 DECIMAL_PREC p q DECIMAL_ETINY]
  by (simp add: dec_nearest_pos DECIMAL_PREC_def)

lemma dec_nearest_error:
  assumes "0 < q" and "q \<le> 100"
  shows "\<bar>dec_nearest q - q\<bar> < 1 / 10 ^ 37"
proof -
  have "(of_nat 10 :: rat) powi ilog 10 q < of_nat 10 powi 3"
    using ilog_bounds(1) [of 10 q] assms by simp
  then have "ilog 10 q < 3" using powi_less_iff [of "10::rat" "ilog 10 q" 3] by simp
  then have e: "max DECIMAL_ETINY (ilog 10 q - int DECIMAL_PREC + 1) \<le> - 37"
    by (simp add: DECIMAL_ETINY_def DECIMAL_PREC_def)
  have "\<bar>dec_nearest q - q\<bar> < of_nat 10 powi max DECIMAL_ETINY (ilog 10 q - int DECIMAL_PREC + 1)"
    unfolding dec_nearest_pos [OF assms(1)] round_prec_def by (rule half_even.round_at_error) simp
  also have "\<dots> \<le> (of_nat 10 :: rat) powi (- 37)" using e by (intro power_int_increasing) auto
  also have "\<dots> = 1 / 10 ^ 37" by (simp add: power_int_def field_simps)
  finally show ?thesis .
qed

text \<open>
  The points where the second rounding switches are \<open>(2 k - 1) / 200\<close>. They have few digits, so
  the first rounding keeps them and cannot carry a quotient from above to below one; a quotient
  below one is at least \<open>1 / (200 e)\<close> away, further than the first rounding moves it.
\<close>

lemma half_point_kept:
  assumes "1 \<le> k" and "k \<le> 10000"
  shows "dec_nearest (of_int (2 * k - 1) / 200) = of_int (2 * k - 1) / 200"
proof -
  have eq: "(of_int (2 * k - 1) / 200 :: rat) = of_int (5 * (2 * k - 1)) * 10 powi (-3)"
    by (simp add: power_int_minus field_simps)
  show ?thesis unfolding eq by (rule dec_nearest_exact) (use assms in \<open>simp_all add: DECIMAL_ETINY_def\<close>)
qed

lemma half_step: "of_int k \<le> r + 1/2 \<Longrightarrow> of_int (2 * k - 1) / 200 \<le> r / 100" for r :: rat
  by simp

lemma half_step_back: "of_int (2 * k - 1) / 200 \<le> d \<Longrightarrow> of_int k \<le> d * 100 + 1/2" for d :: rat
  by simp

lemma double_rounding_hidden:
  assumes p: "0 \<le> p" "p \<le> e" and e: "0 < e" "e \<le> 10 ^ 34"
  shows "round_half_up (dec_nearest (100 * of_int p / of_int e) * 100)
       = round_half_up (10000 * of_int p / of_int e)"
proof (cases "p = 0")
  case False
  let ?q = "100 * of_int p / of_int e :: rat" and ?r = "10000 * of_int p / of_int e :: rat"
  let ?k = "\<lfloor>?r + 1/2\<rfloor>"
  have epos: "(0::rat) < of_int e" using e by simp
  have pe: "(of_int p :: rat) \<le> of_int e" "(0::rat) < of_int p"
    using p False by (simp_all only: of_int_le_iff of_int_0_less_iff)
  have q: "0 < ?q" using pe epos by simp
  have q1: "?q \<le> 100" using pe epos by (simp only: pos_divide_le_eq)
  have r: "?r = ?q * 100" by simp
  have k0: "0 \<le> ?k" using q by (simp only: r) linarith
  have k1: "?k \<le> 10000" using q1 unfolding r by linarith
  have lower: "of_int ?k \<le> dec_nearest ?q * 100 + 1/2"
  proof (cases "?k = 0")
    case False
    have "of_int (2 * ?k - 1) / 200 \<le> ?r / 100"
      by (rule half_step) (rule of_int_floor_le)
    also have "?r / 100 = ?q" by simp
    finally have "of_int (2 * ?k - 1) / 200 \<le> ?q" .
    moreover have "0 < 2 * ?k - 1" using False k0 by linarith
    then have "(0::rat) < of_int (2 * ?k - 1)" by (simp only: of_int_0_less_iff)
    ultimately have "dec_nearest (of_int (2 * ?k - 1) / 200) \<le> dec_nearest ?q"
      by (intro dec_nearest_mono divide_pos_pos) simp_all
    moreover have "dec_nearest (of_int (2 * ?k - 1) / 200) = of_int (2 * ?k - 1) / 200"
      by (rule half_point_kept) (use False k0 k1 in linarith)+
    ultimately show ?thesis by (intro half_step_back) (simp only:)
  qed (use dec_nearest_nonneg [of ?q] q in simp)
  have upper: "dec_nearest ?q * 100 + 1/2 < of_int ?k + 1"
  proof -
    have "?r + 1/2 < of_int ?k + 1" by linarith
    then have "20000 * of_int p < (2 * of_int ?k + 1) * (of_int e :: rat)"
      using epos by (simp add: field_simps)
    then have "20000 * p + 1 \<le> (2 * ?k + 1) * e"
      by (metis (no_types, opaque_lifting) of_int_less_iff of_int_mult of_int_add of_int_numeral
          of_int_1 zless_imp_add1_zle)
    then have "(of_int (20000 * p + 1) :: rat) \<le> of_int ((2 * ?k + 1) * e)"
      by (simp only: of_int_le_iff)
    then have "?q + 1 / (200 * of_int e) \<le> of_int (2 * ?k + 1) / 200"
      using epos by (simp add: field_simps)
    moreover have "1 / 10 ^ 37 \<le> 1 / (200 * of_int e :: rat)"
    proof -
      have "(of_int e :: rat) \<le> of_int (10 ^ 34)" using e(2) by (simp only: of_int_le_iff)
      then show ?thesis using epos by (intro divide_left_mono) auto
    qed
    moreover have "dec_nearest ?q < ?q + 1 / 10 ^ 37" using dec_nearest_error [OF q q1] by linarith
    ultimately have "dec_nearest ?q < of_int (2 * ?k + 1) / 200" by linarith
    then show ?thesis by simp
  qed
  show ?thesis unfolding round_half_up_def using lower upper by (simp add: floor_eq_iff)
qed (simp add: dec_nearest_def)

section \<open>The score of balanced results\<close>

definition counts_ok :: "rule_result \<Rightarrow> bool" where
  "counts_ok r \<longleftrightarrow> 0 \<le> passed_count r \<and> 0 \<le> violation_count r \<and>
     evaluated_count r = passed_count r + violation_count r"

lemma totals_bounds:
  assumes "list_all counts_ok results"
  shows "0 \<le> total_passed results" and "total_passed results \<le> total_evaluated results"
  using assms unfolding total_passed_def total_evaluated_def
  by (induction results) (auto simp: counts_ok_def)

lemma total_violations:
  assumes "list_all counts_ok results"
  shows "total_evaluated results - total_passed results = sum_list (map violation_count results)"
  using assms unfolding total_passed_def total_evaluated_def
  by (induction results) (auto simp: counts_ok_def)

text \<open>The results of the engine are balanced.\<close>

lemma evaluate_on_counts_ok: "evaluate_on contains f rule = Inr r \<Longrightarrow> counts_ok r"
  by (auto simp: evaluate_on_def result_simps counts_ok_def dest!: rule_counts_balanced)

lemma engine_counts_ok:
  assumes "validate contains (Frame f) rules = Inr res"
  shows "list_all counts_ok (rule_results res)"
proof -
  have "list_all2 (\<lambda>rule r. evaluate_on contains f rule = Inr r) rules (rule_results res)"
    using assms by (simp add: validate_Inr)
  then show ?thesis
    by (induction rule: list_all2_induct) (auto intro: evaluate_on_counts_ok)
qed

lemma decimal_limit_large: "10 ^ 40 < decimal_limit"
proof -
  have "(10::rat) powi 40 < decimal_limit"
    unfolding decimal_limit_def by (rule power_int_strict_increasing) simp_all
  then show ?thesis by simp
qed

lemma dec_fix_small: "\<bar>dec_nearest q\<bar> \<le> 10 ^ 40 \<Longrightarrow> dec_fix q = Inr (dec_nearest q)"
  using decimal_limit_large by (simp add: dec_fix_def)

lemma half_up_bounds:
  "0 \<le> x \<Longrightarrow> 0 \<le> round_half_up x" "x \<le> of_int k \<Longrightarrow> round_half_up x \<le> k"
  using half_up.rnd_ge_int [of 0 x] half_up.rnd_le_int [of x k] by simp_all

lemma exact_score_bounds:
  assumes "0 \<le> p" "p \<le> e" "0 < e"
  shows "0 \<le> exact_score p e" and "exact_score p e \<le> 100"
proof -
  have pe: "(of_int p :: rat) \<le> of_int e" "(0::rat) \<le> of_int p" "(0::rat) < of_int e"
    using assms by (simp_all only: of_int_le_iff of_int_0_le_iff of_int_0_less_iff)
  then have "0 \<le> 10000 * of_int p / (of_int e :: rat)" "10000 * of_int p / (of_int e :: rat) \<le> of_int 10000"
    by (simp_all only: pos_divide_le_eq) simp_all
  from half_up_bounds(1) [OF this(1)] half_up_bounds(2) [OF this(2)]
  show "0 \<le> exact_score p e" "exact_score p e \<le> 100"
    by (simp_all add: exact_score_def)
qed

lemma score_is_exact:
  assumes ok: "list_all counts_ok results"
    and e: "0 < total_evaluated results" "total_evaluated results \<le> 10 ^ 34"
  shows "calculate_quality_score results =
    Inr (Some (exact_score (total_passed results) (total_evaluated results)))"
proof -
  let ?p = "total_passed results" and ?e = "total_evaluated results"
  let ?q = "100 * of_int ?p / of_int ?e :: rat"
  note p = totals_bounds [OF ok]
  have "dec_nearest (of_int (100 * ?p)) = of_int (100 * ?p)"
    by (rule dec_nearest_of_int) (use p e in simp_all)
  moreover have "\<bar>of_int (100 * ?p)\<bar> \<le> (of_int (10 ^ 40) :: rat)"
    using p e by (simp only: of_int_abs [symmetric] of_int_le_iff) simp
  ultimately have product: "dec_fix (100 * of_int ?p) = Inr (100 * of_int ?p)"
    using dec_fix_small [of "100 * of_int ?p"] by simp
  have pe: "(of_int ?p :: rat) \<le> of_int ?e" "(0::rat) \<le> of_int ?p" "(0::rat) < of_int ?e"
    using p e by (simp_all only: of_int_le_iff of_int_0_le_iff of_int_0_less_iff)
  then have q: "0 \<le> ?q" "?q \<le> 100" by (simp_all only: pos_divide_le_eq) simp_all
  have n0: "0 \<le> dec_nearest ?q" using dec_nearest_nonneg [OF q(1)] .
  have n100: "dec_nearest ?q \<le> 100"
    using dec_nearest_mono [of ?q 100] dec_nearest_of_int [of 100] q by (cases "?q = 0") auto
  then have quotient: "dec_fix ?q = Inr (dec_nearest ?q)"
    using n0 by (intro dec_fix_small) simp
  have hidden: "round_half_up (dec_nearest ?q * 100) = round_half_up (10000 * of_int ?p / of_int ?e)"
    using double_rounding_hidden [OF p e] .
  have "half_up_signed (dec_nearest ?q * 100) = round_half_up (dec_nearest ?q * 100)"
    using n0 by (simp add: half_up_signed_def)
  moreover have "0 \<le> round_half_up (dec_nearest ?q * 100)" "round_half_up (dec_nearest ?q * 100) \<le> 10000"
    using n0 n100 by (auto intro!: half_up_bounds)
  ultimately have "quantize2 (dec_nearest ?q) = Inr (exact_score ?p ?e)"
    using hidden by (simp add: quantize2_def exact_score_def DECIMAL_PREC_def Let_def)
  then show ?thesis
    using e product quotient by (simp add: calculate_quality_score_def Let_def)
qed

lemma score_witness_value:
  "exact_score 1 3 = 3333 / 100"
  by (simp add: exact_score_def round_half_up_def floor_eq_iff)

definition one_of_three :: rule_result where
  "one_of_three = \<lparr>result_rule = NotARuleSpec, evaluated_count = 3, passed_count = 1,
     violation_count = 2, skipped_count = 0, violation_samples = []\<rparr>"

lemma one_of_three_simps [simp]:
  "counts_ok one_of_three" "violation_count one_of_three = 2" "total_passed [one_of_three] = 1" "total_evaluated [one_of_three] = 3"
  by (simp_all add: one_of_three_def counts_ok_def total_passed_def total_evaluated_def)

section \<open>Properties\<close>

text \<open>
  C19. For balanced counts of at most \<open>10 ^ 34\<close> evaluated cells the score is the percentage of
  passed cells rounded half-up to two places, as if computed exactly: neither the 40-digit
  quotient's own rounding nor a decimal signal is ever seen.
\<close>

theorem score_is_exact_percentage:
  assumes "list_all counts_ok results"
    and "0 < total_evaluated results" and "total_evaluated results \<le> 10 ^ 34"
  shows "calculate_quality_score results =
    Inr (Some (exact_score (total_passed results) (total_evaluated results)))"
  using assms by (rule score_is_exact)

theorem score_is_exact_percentage_witness:
  "calculate_quality_score [one_of_three] = Inr (Some (3333 / 100))"
  using score_is_exact_percentage [of "[one_of_three]"] by (simp add: score_witness_value)

lemma exact_score_100:
  assumes "0 \<le> p" "p \<le> e" "0 < e"
  shows "exact_score p e = 100 \<longleftrightarrow> 20000 * (e - p) \<le> e"
proof -
  have pos: "(0::rat) < of_int e" using assms by simp
  have le: "10000 * of_int p / of_int e + 1/2 < (10001 :: rat)"
    using exact_score_bounds [OF assms] pos assms by (simp add: field_simps)
  have "exact_score p e = 100 \<longleftrightarrow> round_half_up (10000 * of_int p / of_int e) = 10000"
    by (simp add: exact_score_def field_simps)
  also have "\<dots> \<longleftrightarrow> 10000 \<le> 10000 * of_int p / of_int e + (1/2 :: rat)"
    using le by (simp add: round_half_up_def floor_eq_iff)
  also have "\<dots> \<longleftrightarrow> 20000 * (of_int e - of_int p) \<le> (of_int e :: rat)"
    using pos by (simp add: field_simps)
  also have "\<dots> \<longleftrightarrow> 20000 * (e - p) \<le> e"
    by (metis (no_types, lifting) of_int_diff of_int_le_iff of_int_mult of_int_numeral)
  finally show ?thesis .
qed

text \<open>
  The score lies between 0 and 100, the range the database column accepts. It is 100
  exactly when at most one evaluated cell in 20000 violates its rule: below 20000 evaluated
  cells a single violation shows.
\<close>

theorem score_bounds:
  assumes "list_all counts_ok results"
    and "0 < total_evaluated results" and "total_evaluated results \<le> 10 ^ 34"
  shows "\<exists>s. calculate_quality_score results = Inr (Some s) \<and> 0 \<le> s \<and> s \<le> 100 \<and>
    (s = 100 \<longleftrightarrow> 20000 * sum_list (map violation_count results) \<le> total_evaluated results)"
  using score_is_exact [OF assms] exact_score_bounds [OF totals_bounds [OF assms(1)] assms(2)]
    exact_score_100 [OF totals_bounds [OF assms(1)] assms(2)] total_violations [OF assms(1)]
  by simp

theorem score_bounds_witness:
  "\<exists>s. calculate_quality_score [one_of_three] = Inr (Some s) \<and> 0 \<le> s \<and> s < 100"
  using score_bounds [of "[one_of_three]"] by (auto simp: order_less_le)

end
