(* ===== verification/Database.thy ===== *)
theory Database
  imports Prelude "HOL-Library.Product_Lexorder" "HOL-Library.Multiset"
begin

text \<open>
  What the services use of PostgreSQL and SQLAlchemy: tables as lists of rows in insertion
  order, constraints that reject a row by name, ordered queries with a limit and an offset, and
  transactions that leave the database as it was when their body raises or the commit fails.
  Times are UTC instants in microseconds, the resolution of both Python and PostgreSQL.
\<close>

type_synonym instant = int

definition seconds :: "int \<Rightarrow> instant" where
  "seconds n = n * 1000000"

definition hours :: "int \<Rightarrow> instant" where
  "hours n = seconds (3600 * n)"

text \<open>What a clock returns: a naive datetime, or an aware one, of which the instant matters.\<close>

datatype clock_reading = NaiveTime | AwareTime instant

section \<open>Constraints\<close>

type_synonym constraint_name = string

fun first_violated :: "(constraint_name \<times> bool) list \<Rightarrow> constraint_name option" where
  "first_violated [] = None"
| "first_violated ((name, holds) # cs) = (if holds then first_violated cs else Some name)"

lemma first_violated_None: "first_violated cs = None \<longleftrightarrow> list_all snd cs"
  by (induction cs rule: first_violated.induct) auto

lemma first_violated_Some: "first_violated cs = Some name \<Longrightarrow> (name, False) \<in> set cs"
  by (induction cs rule: first_violated.induct) (auto split: if_splits)

lemma first_violated_append:
  "list_all snd cs \<Longrightarrow> first_violated (cs @ ds) = first_violated ds"
  by (induction cs rule: first_violated.induct) auto

definition insert_row ::
  "('row list \<Rightarrow> 'row \<Rightarrow> (constraint_name \<times> bool) list) \<Rightarrow> 'row \<Rightarrow> 'row list \<Rightarrow> constraint_name + 'row list"
  where
  "insert_row constraints row rows =
     (case first_violated (constraints rows row) of
        None \<Rightarrow> Inr (rows @ [row])
      | Some name \<Rightarrow> Inl name)"

lemma insert_row_Inr:
  "insert_row constraints row rows = Inr rows' \<longleftrightarrow>
     rows' = rows @ [row] \<and> list_all snd (constraints rows row)"
  using first_violated_None [of "constraints rows row"]
  by (auto simp: insert_row_def split: option.splits)

text \<open>\<open>UPDATE\<close> of the rows a condition selects.\<close>

definition update_rows :: "('row \<Rightarrow> bool) \<Rightarrow> ('row \<Rightarrow> 'row) \<Rightarrow> 'row list \<Rightarrow> 'row list" where
  "update_rows cond f rows = map (\<lambda>r. if cond r then f r else r) rows"

lemma set_update_rows: "r \<in> set (update_rows cond f rows) \<longleftrightarrow>
    (r \<in> set rows \<and> \<not> cond r) \<or> (\<exists>q \<in> set rows. cond q \<and> r = f q)"
  by (auto simp: update_rows_def image_iff)

lemma map_update_rows: "(\<And>r. cond r \<Longrightarrow> key (f r) = key r) \<Longrightarrow> map key (update_rows cond f rows) = map key rows"
  by (auto simp: update_rows_def)

lemma find_filter: "find P xs = (case filter P xs of [] \<Rightarrow> None | x # _ \<Rightarrow> Some x)"
  by (induction xs) auto

lemma image_update_rows:
  assumes "\<And>r. cond r \<Longrightarrow> key (f r) = key r"
  shows "key ` set (update_rows cond f rows) = key ` set rows"
  using arg_cong [OF map_update_rows [of cond key f rows], of set] assms by simp

text \<open>
  A table whose inserts are checked: the contract of every table of the schema. \<open>row_ok\<close> is
  what the row's own constraints say, \<open>keys\<close> the unique columns.
\<close>

locale checked_table =
  fixes ins :: "'row \<Rightarrow> 'row list \<Rightarrow> constraint_name + 'row list"
    and row_ok :: "'row \<Rightarrow> bool" and key :: "'row \<Rightarrow> 'k"
  assumes ins_appends: "ins r rows = Inr rows' \<Longrightarrow> rows' = rows @ [r]"
    and ins_checks: "ins r rows = Inr rows' \<Longrightarrow> row_ok r"
    and ins_fresh: "ins r rows = Inr rows' \<Longrightarrow> key r \<notin> key ` set rows"
begin

definition table_ok :: "'row list \<Rightarrow> bool" where
  "table_ok rows \<longleftrightarrow> list_all row_ok rows \<and> distinct (map key rows)"

lemma ins_table_ok: "table_ok rows \<Longrightarrow> ins r rows = Inr rows' \<Longrightarrow> table_ok rows'"
  using ins_appends [of r rows rows'] ins_checks [of r rows rows'] ins_fresh [of r rows rows']
  by (auto simp: table_ok_def)

lemma filter_table_ok: "table_ok rows \<Longrightarrow> table_ok (filter P rows)"
  by (auto simp: table_ok_def list_all_iff intro: distinct_map_filterI)

lemma update_table_ok:
  assumes "table_ok rows" and "\<And>r. r \<in> set rows \<Longrightarrow> cond r \<Longrightarrow> row_ok (f r)"
    and "\<And>r. cond r \<Longrightarrow> key (f r) = key r"
  shows "table_ok (update_rows cond f rows)"
  using assms map_update_rows [of cond key f rows]
  by (auto simp: table_ok_def list_all_iff set_update_rows)

text \<open>The key finds at most one row.\<close>

lemma key_unique: "table_ok rows \<Longrightarrow> r \<in> set rows \<Longrightarrow> q \<in> set rows \<Longrightarrow> key r = key q \<Longrightarrow> r = q"
  by (auto simp: table_ok_def distinct_map inj_on_def)

lemma filter_key:
  assumes "table_ok rows" and "r \<in> set rows"
  shows "filter (\<lambda>q. key q = key r) rows = [r]"
  using assms
proof (induction rows)
  case (Cons q rows)
  show ?case
  proof (cases "q = r")
    case True
    have "key q \<notin> key ` set rows" using Cons.prems(1) by (simp add: table_ok_def)
    with True have "filter (\<lambda>q. key q = key r) rows = []"
      by (auto simp: filter_empty_conv image_iff)
    with True show ?thesis by simp
  next
    case False
    then have "r \<in> set rows" "key q \<noteq> key r"
      using Cons.prems key_unique [of "q # rows" q r] by auto
    then show ?thesis using Cons by (simp add: table_ok_def)
  qed
qed simp

lemma find_key: "table_ok rows \<Longrightarrow> r \<in> set rows \<Longrightarrow> find (\<lambda>q. key q = key r) rows = Some r"
  using filter_key [of rows r] by (simp add: find_filter)

end

section \<open>Queries\<close>

definition order_by :: "('row \<Rightarrow> 'k::linorder) \<Rightarrow> 'row list \<Rightarrow> 'row list" where
  "order_by k rows = sort_key k rows"

text \<open>\<open>LIMIT\<close> and \<open>OFFSET\<close>.\<close>

definition page :: "nat \<Rightarrow> nat \<Rightarrow> 'row list \<Rightarrow> 'row list" where
  "page n off rows = take n (drop off rows)"

lemma set_order_by [simp]: "set (order_by k rows) = set rows"
  by (simp add: order_by_def)

lemma sorted_order_by: "sorted (map k (order_by k rows))"
  by (simp add: order_by_def)

lemma mset_order_by [simp]: "mset (order_by k rows) = mset rows"
  by (simp add: order_by_def)

lemma set_page: "set (page n off rows) \<subseteq> set rows"
  unfolding page_def by (meson order_trans set_drop_subset set_take_subset)

lemma length_page: "length (page n off rows) \<le> n"
  by (simp add: page_def)

text \<open>Consecutive pages of the same query are consecutive parts of it.\<close>

lemma page_append: "page n off rows @ page m (off + n) rows = page (n + m) off rows"
  by (simp add: page_def take_add drop_drop [of n off] add.commute [of n off] del: drop_drop)

text \<open>\<open>one_or_none\<close>: \<open>None\<close> is the error for several rows.\<close>

fun one_or_none :: "'row list \<Rightarrow> 'row option option" where
  "one_or_none [] = Some None"
| "one_or_none [r] = Some (Some r)"
| "one_or_none (r # q # rows) = None"

lemma one_or_none_SomeD: "one_or_none (filter P rows) = Some (Some r) \<Longrightarrow> r \<in> set rows \<and> P r"
  using filter_set [of P rows] by (cases "filter P rows" rule: one_or_none.cases) auto

text \<open>A condition that fixes a unique column selects at most one row.\<close>

lemma filter_unique:
  assumes "distinct (map key rows)" and "\<And>r. P r \<Longrightarrow> key r = k"
  obtains (none) "filter P rows = []" | (one) r where "filter P rows = [r]" "r \<in> set rows" "P r"
  using assms
proof (induction rows arbitrary: thesis)
  case (Cons q rows)
  show ?case
  proof (cases "P q")
    case True
    have "\<not> P r" if "r \<in> set rows" for r
      using that Cons.prems(3,4) True by force
    then have "filter P (q # rows) = [q]" using True by (auto simp: filter_empty_conv)
    then show ?thesis using Cons.prems(2) True by auto
  next
    case False
    from Cons.prems have "distinct (map key rows)" by simp
    then show ?thesis
      using Cons.IH [of thesis] Cons.prems(1,2,4) False by auto
  qed
qed simp

lemma one_or_none_Some:
  assumes "distinct (map key rows)" and "\<And>r. P r \<Longrightarrow> key r = k"
  shows "one_or_none (filter P rows) = Some (Some r) \<longleftrightarrow> r \<in> set rows \<and> P r"
    and "one_or_none (filter P rows) = Some None \<longleftrightarrow> (\<forall>r \<in> set rows. \<not> P r)"
    and "one_or_none (filter P rows) \<noteq> None"
proof -
  define F where "F = filter P rows"
  have mem: "r \<in> set rows \<and> P r \<longleftrightarrow> r \<in> set F" for r by (auto simp: F_def)
  have none: "(\<forall>r \<in> set rows. \<not> P r) \<longleftrightarrow> F = []" by (auto simp: F_def filter_empty_conv)
  have "F = [] \<or> (\<exists>q. F = [q])"
    using filter_unique [of key rows P k] assms unfolding F_def by blast
  then show "one_or_none (filter P rows) = Some (Some r) \<longleftrightarrow> r \<in> set rows \<and> P r"
    and "one_or_none (filter P rows) = Some None \<longleftrightarrow> (\<forall>r \<in> set rows. \<not> P r)"
    and "one_or_none (filter P rows) \<noteq> None"
    unfolding mem none F_def [symmetric] by auto
qed

section \<open>Transactions\<close>

text \<open>
  \<open>with session_factory() as session, session.begin()\<close>: the body sees the state and returns the
  new one, which is committed; when it raises, or the database fails (\<open>Some e\<close>), nothing changes.
\<close>

definition transaction :: "'e option \<Rightarrow> 's \<Rightarrow> ('s \<Rightarrow> 'e + 'a \<times> 's) \<Rightarrow> ('e + 'a) \<times> 's" where
  "transaction fault s body =
     (case body s of
        Inl e \<Rightarrow> (Inl e, s)
      | Inr (x, s') \<Rightarrow> (case fault of Some e \<Rightarrow> (Inl e, s) | None \<Rightarrow> (Inr x, s')))"

lemma transaction_Inr [result_simps]:
  "transaction fault s body = (Inr x, s') \<longleftrightarrow> fault = None \<and> body s = Inr (x, s')"
  by (auto simp: transaction_def split: sum.splits option.splits)

lemma transaction_Inl:
  "transaction fault s body = (Inl e, s') \<Longrightarrow> s' = s"
  by (auto simp: transaction_def split: sum.splits option.splits prod.splits)

lemma transaction_cases:
  assumes "transaction fault s body = (r, s')"
  obtains (raised) e where "r = Inl e" "s' = s" | (committed) x where "r = Inr x" "body s = Inr (x, s')"
  using assms by (auto simp: transaction_def split: sum.splits option.splits prod.splits)

end
