(* ===== verification/IdentityStore.thy ===== *)
theory IdentityStore
  imports Database
begin

text \<open>
  Users and sessions as the database keeps them (\<open>identity/models.py\<close>) and the queries on them
  (\<open>identity/repositories.py\<close>). The \<open>email\<close> columns hold ASCII only, so \<open>lower\<close> is ASCII
  lowering and their lengths in characters and octets agree.
\<close>

record user_row =
  user_id :: uuid
  user_email :: pystr
  user_email_normalized :: pystr
  user_password_hash :: pystr
  user_created_at :: instant
  user_updated_at :: instant

record session_row =
  session_id :: uuid
  session_user_id :: uuid
  token_hash :: bytes
  csrf_token :: bytes
  session_created_at :: instant
  last_seen_at :: instant
  absolute_expires_at :: instant
  revoked_at :: "instant option"

record identity_db =
  users :: "user_row list"
  sessions :: "session_row list"

section \<open>Constraints\<close>

definition user_row_checks :: "user_row \<Rightarrow> (constraint_name \<times> bool) list" where
  "user_row_checks u =
     [(''ck_users_email_normalized_lowercase'',
        map ascii_lower (user_email_normalized u) = user_email_normalized u),
      (''ck_users_email_normalized_octet_length'',
        3 \<le> length (user_email_normalized u) \<and> length (user_email_normalized u) \<le> 254),
      (''ck_users_email_octet_length'', 3 \<le> length (user_email u) \<and> length (user_email u) \<le> 254),
      (''ck_users_updated_not_before_created'', user_created_at u \<le> user_updated_at u)]"

definition user_constraints :: "user_row list \<Rightarrow> user_row \<Rightarrow> (constraint_name \<times> bool) list" where
  "user_constraints us u =
     user_row_checks u @
     [(''pk_users'', user_id u \<notin> user_id ` set us),
      (''uq_users_email_normalized'', user_email_normalized u \<notin> user_email_normalized ` set us)]"

definition session_row_checks :: "session_row \<Rightarrow> (constraint_name \<times> bool) list" where
  "session_row_checks s =
     [(''ck_sessions_absolute_lifetime'', absolute_expires_at s = session_created_at s + hours 12),
      (''ck_sessions_csrf_token_length'', length (csrf_token s) = 32),
      (''ck_sessions_last_seen_not_after_absolute_expiry'', last_seen_at s \<le> absolute_expires_at s),
      (''ck_sessions_last_seen_not_before_created'', session_created_at s \<le> last_seen_at s),
      (''ck_sessions_revoked_not_before_created'',
        case revoked_at s of None \<Rightarrow> True | Some t \<Rightarrow> session_created_at s \<le> t),
      (''ck_sessions_token_hash_length'', length (token_hash s) = 32)]"

definition session_constraints ::
  "user_row list \<Rightarrow> session_row list \<Rightarrow> session_row \<Rightarrow> (constraint_name \<times> bool) list" where
  "session_constraints us ss s =
     session_row_checks s @
     [(''pk_sessions'', session_id s \<notin> session_id ` set ss),
      (''uq_sessions_token_hash'', token_hash s \<notin> token_hash ` set ss),
      (''fk_sessions_user_id_users'', session_user_id s \<in> user_id ` set us)]"

definition insert_user :: "user_row \<Rightarrow> user_row list \<Rightarrow> constraint_name + user_row list" where
  "insert_user = insert_row user_constraints"

definition insert_session ::
  "user_row list \<Rightarrow> session_row \<Rightarrow> session_row list \<Rightarrow> constraint_name + session_row list" where
  "insert_session us = insert_row (session_constraints us)"

definition user_row_ok :: "user_row \<Rightarrow> bool" where
  "user_row_ok u \<longleftrightarrow> list_all snd (user_row_checks u)"

definition session_row_ok :: "session_row \<Rightarrow> bool" where
  "session_row_ok s \<longleftrightarrow> list_all snd (session_row_checks s)"

interpretation users_by_id: checked_table insert_user user_row_ok user_id
  by unfold_locales
    (auto simp: insert_user_def insert_row_Inr user_constraints_def user_row_ok_def)

interpretation users_by_email: checked_table insert_user user_row_ok user_email_normalized
  by unfold_locales
    (auto simp: insert_user_def insert_row_Inr user_constraints_def user_row_ok_def)

interpretation sessions_by_id: checked_table "insert_session us" session_row_ok session_id for us
  by unfold_locales
    (auto simp: insert_session_def insert_row_Inr session_constraints_def session_row_ok_def)

interpretation sessions_by_token: checked_table "insert_session us" session_row_ok token_hash for us
  by unfold_locales
    (auto simp: insert_session_def insert_row_Inr session_constraints_def session_row_ok_def)

section \<open>Queries and updates\<close>

definition get_credentials_by_email :: "user_row list \<Rightarrow> pystr \<Rightarrow> (uuid \<times> pystr) option option" where
  "get_credentials_by_email us normalized =
     map_option (map_option (\<lambda>u. (user_id u, user_password_hash u)))
       (one_or_none (filter (\<lambda>u. user_email_normalized u = normalized) us))"

definition get_user :: "user_row list \<Rightarrow> uuid \<Rightarrow> user_row option option" where
  "get_user us i = one_or_none (filter (\<lambda>u. user_id u = i) us)"

text \<open>The condition and the touch of \<open>authenticate_and_touch\<close>'s single statement.\<close>

definition touchable :: "bytes \<Rightarrow> instant \<Rightarrow> int \<Rightarrow> session_row \<Rightarrow> bool" where
  "touchable h now idle_timeout s \<longleftrightarrow>
     token_hash s = h \<and> revoked_at s = None \<and> now < absolute_expires_at s \<and>
     now - idle_timeout < last_seen_at s"

definition touch :: "instant \<Rightarrow> session_row \<Rightarrow> session_row" where
  "touch now s = s\<lparr>last_seen_at := max (last_seen_at s) now\<rparr>"

definition authenticate_and_touch ::
  "bytes \<Rightarrow> instant \<Rightarrow> int \<Rightarrow> session_row list \<Rightarrow> session_row option option \<times> session_row list" where
  "authenticate_and_touch h now idle_timeout ss =
     (one_or_none (map (touch now) (filter (touchable h now idle_timeout) ss)),
      update_rows (touchable h now idle_timeout) (touch now) ss)"

definition get_session_by_token_hash :: "session_row list \<Rightarrow> bytes \<Rightarrow> session_row option option" where
  "get_session_by_token_hash ss h = one_or_none (filter (\<lambda>s. token_hash s = h) ss)"

definition inactive :: "instant \<Rightarrow> int \<Rightarrow> session_row \<Rightarrow> bool" where
  "inactive now idle_timeout s \<longleftrightarrow>
     revoked_at s \<noteq> None \<or> absolute_expires_at s \<le> now \<or> last_seen_at s \<le> now - idle_timeout"

text \<open>\<open>locked\<close> are the rows other transactions hold, which \<open>skip_locked\<close> leaves out.\<close>

definition delete_inactive_batch ::
  "(uuid \<Rightarrow> bool) \<Rightarrow> instant \<Rightarrow> int \<Rightarrow> nat \<Rightarrow> session_row list \<Rightarrow> nat \<times> session_row list" where
  "delete_inactive_batch locked now idle_timeout limit ss =
     (let ids = map session_id (take limit
            (order_by (\<lambda>s. (absolute_expires_at s, session_id s))
              (filter (\<lambda>s. inactive now idle_timeout s \<and> \<not> locked (session_id s)) ss)))
      in (length ids, filter (\<lambda>s. session_id s \<notin> set ids) ss))"

section \<open>The invariant of the tables\<close>

definition identity_ok :: "identity_db \<Rightarrow> bool" where
  "identity_ok db \<longleftrightarrow>
     users_by_id.table_ok (users db) \<and> users_by_email.table_ok (users db) \<and>
     sessions_by_id.table_ok (sessions db) \<and> sessions_by_token.table_ok (sessions db) \<and>
     (\<forall>s \<in> set (sessions db). session_user_id s \<in> user_id ` set (users db))"

lemma session_row_ok_iff:
  "session_row_ok s \<longleftrightarrow>
     absolute_expires_at s = session_created_at s + hours 12 \<and> length (csrf_token s) = 32 \<and>
     last_seen_at s \<le> absolute_expires_at s \<and> session_created_at s \<le> last_seen_at s \<and>
     (\<forall>t. revoked_at s = Some t \<longrightarrow> session_created_at s \<le> t) \<and> length (token_hash s) = 32"
  by (auto simp: session_row_ok_def session_row_checks_def split: option.splits)

text \<open>The touch keeps every constraint: it never meets a row it would invalidate.\<close>

lemma touch_row_ok: "session_row_ok s \<Longrightarrow> touchable h now idle s \<Longrightarrow> session_row_ok (touch now s)"
  by (auto simp: session_row_ok_iff touchable_def touch_def)

lemma touch_keeps [simp]:
  "session_id (touch now s) = session_id s" "token_hash (touch now s) = token_hash s"
  "session_user_id (touch now s) = session_user_id s" "revoked_at (touch now s) = revoked_at s"
  "absolute_expires_at (touch now s) = absolute_expires_at s" "csrf_token (touch now s) = csrf_token s"
  "session_created_at (touch now s) = session_created_at s"
  by (simp_all add: touch_def)

text \<open>What the queries find in tables that satisfy the invariant.\<close>

lemma identity_ok_distinct:
  assumes "identity_ok db"
  shows "distinct (map user_id (users db))" "distinct (map user_email_normalized (users db))"
    "distinct (map session_id (sessions db))" "distinct (map token_hash (sessions db))"
  using assms
  by (simp_all add: identity_ok_def users_by_id.table_ok_def users_by_email.table_ok_def
      sessions_by_id.table_ok_def sessions_by_token.table_ok_def)

lemma get_user_iff:
  assumes "identity_ok db"
  shows "get_user (users db) i = Some (Some u) \<longleftrightarrow> u \<in> set (users db) \<and> user_id u = i"
    and "get_user (users db) i = Some None \<longleftrightarrow> i \<notin> user_id ` set (users db)"
    and "get_user (users db) i \<noteq> None"
  using one_or_none_Some [OF identity_ok_distinct(1) [OF assms], of "\<lambda>u. user_id u = i" i]
  by (auto simp: get_user_def)

lemma get_session_iff:
  assumes "identity_ok db"
  shows "get_session_by_token_hash (sessions db) h = Some (Some s) \<longleftrightarrow>
      s \<in> set (sessions db) \<and> token_hash s = h"
    and "get_session_by_token_hash (sessions db) h = Some None \<longleftrightarrow> h \<notin> token_hash ` set (sessions db)"
    and "get_session_by_token_hash (sessions db) h \<noteq> None"
  using one_or_none_Some [OF identity_ok_distinct(4) [OF assms], of "\<lambda>s. token_hash s = h" h]
  by (auto simp: get_session_by_token_hash_def)

lemma get_credentials_iff:
  assumes "identity_ok db"
  shows "get_credentials_by_email (users db) e = Some (Some (i, h)) \<longleftrightarrow>
      (\<exists>u \<in> set (users db). user_email_normalized u = e \<and> user_id u = i \<and> user_password_hash u = h)"
    and "get_credentials_by_email (users db) e = Some None \<longleftrightarrow>
      e \<notin> user_email_normalized ` set (users db)"
    and "get_credentials_by_email (users db) e \<noteq> None"
  using one_or_none_Some [OF identity_ok_distinct(2) [OF assms], of "\<lambda>u. user_email_normalized u = e" e]
  by (auto simp: get_credentials_by_email_def)

lemma one_or_none_map: "one_or_none (map f xs) = map_option (map_option f) (one_or_none xs)"
  by (cases xs rule: one_or_none.cases) auto

lemma authenticate_and_touch_iff:
  assumes "identity_ok db"
  shows "fst (authenticate_and_touch h now idle (sessions db)) = Some (Some s') \<longleftrightarrow>
      (\<exists>s \<in> set (sessions db). touchable h now idle s \<and> s' = touch now s)"
    and "fst (authenticate_and_touch h now idle (sessions db)) = Some None \<longleftrightarrow>
      (\<forall>s \<in> set (sessions db). \<not> touchable h now idle s)"
    and "fst (authenticate_and_touch h now idle (sessions db)) \<noteq> None"
  using one_or_none_Some [OF identity_ok_distinct(4) [OF assms], of "touchable h now idle" h]
  by (auto simp: authenticate_and_touch_def one_or_none_map touchable_def)

text \<open>The batch deletes inactive rows only.\<close>

lemma delete_inactive_batch_kept:
  assumes "delete_inactive_batch locked now idle n ss = (k, ss')" and "s \<in> set ss"
    and "distinct (map session_id ss)"
    and "s \<notin> set ss'"
  shows "inactive now idle s \<and> \<not> locked (session_id s)"
proof -
  have "session_id s \<in> session_id ` {r \<in> set ss. inactive now idle r \<and> \<not> locked (session_id r)}"
    using assms by (auto simp: delete_inactive_batch_def Let_def dest!: in_set_takeD)
  then obtain r where r: "r \<in> set ss" "session_id r = session_id s"
    "inactive now idle r" "\<not> locked (session_id r)" by auto
  then have "r = s" using assms(2,3) by (auto simp: distinct_map inj_on_def)
  with r show ?thesis by simp
qed

end
