(* ===== verification/Tokens.thy ===== *)
theory Tokens
  imports Regex
begin

text \<open>
  Session and CSRF tokens (\<open>identity/tokens.py\<close>): 32 random bytes, shown as 43 characters of
  unpadded URL-safe base64. \<open>base64.urlsafe_b64encode\<close> and the strict \<open>base64.b64decode\<close> of the
  standard library are modelled on any length; SHA-256 is a parameter. Random bytes are an
  argument of the operations that draw them.
\<close>

definition TOKEN_BYTES :: nat where
  "TOKEN_BYTES = 32"

definition TOKEN_ENCODED_LENGTH :: nat where
  "TOKEN_ENCODED_LENGTH = 43"

datatype token_error = TokenEncodingError

section \<open>Base64\<close>

definition b64_char :: "nat \<Rightarrow> code_point" where
  "b64_char v =
     (if v < 26 then 65 + v else if v < 52 then 71 + v else if v < 62 then v - 4
      else if v = 62 then 43 else 47)"

definition b64_value :: "code_point \<Rightarrow> nat option" where
  "b64_value c =
     (if 65 \<le> c \<and> c \<le> 90 then Some (c - 65)
      else if 97 \<le> c \<and> c \<le> 122 then Some (c - 71)
      else if 48 \<le> c \<and> c \<le> 57 then Some (c + 4)
      else if c = 43 then Some 62
      else if c = 47 then Some 63
      else None)"

fun b64encode :: "bytes \<Rightarrow> pystr" where
  "b64encode [] = []"
| "b64encode [a] =
     [b64_char (unat a div 4), b64_char (unat a mod 4 * 16), 61, 61]"
| "b64encode [a, b] =
     [b64_char (unat a div 4), b64_char (unat a mod 4 * 16 + unat b div 16),
      b64_char (unat b mod 16 * 4), 61]"
| "b64encode (a # b # c # bs) =
     b64_char (unat a div 4) # b64_char (unat a mod 4 * 16 + unat b div 16) #
     b64_char (unat b mod 16 * 4 + unat c div 64) # b64_char (unat c mod 64) # b64encode bs"

definition join2 :: "nat \<Rightarrow> nat \<Rightarrow> byte" where
  "join2 u v = word_of_nat (u * 4 + v div 16)"

definition join3 :: "nat \<Rightarrow> nat \<Rightarrow> byte" where
  "join3 v w = word_of_nat (v mod 16 * 16 + w div 4)"

definition join4 :: "nat \<Rightarrow> nat \<Rightarrow> byte" where
  "join4 w x = word_of_nat (w mod 4 * 64 + x)"

text \<open>
  \<open>binascii.a2b_base64\<close> in strict mode: whole quads over the alphabet, padding at the very end
  only. The unused low bits of the last character are dropped without a check.
\<close>

fun b64decode :: "pystr \<Rightarrow> bytes option" where
  "b64decode [] = Some []"
| "b64decode (p # q # r # s # cs) =
     (case (b64_value p, b64_value q) of
        (Some u, Some v) \<Rightarrow>
          if r = 61 then (if s = 61 \<and> cs = [] then Some [join2 u v] else None)
          else (case b64_value r of
              None \<Rightarrow> None
            | Some w \<Rightarrow>
                if s = 61 then (if cs = [] then Some [join2 u v, join3 v w] else None)
                else (case (b64_value s, b64decode cs) of
                    (Some x, Some bs) \<Rightarrow> Some (join2 u v # join3 v w # join4 w x # bs)
                  | _ \<Rightarrow> None))
      | _ \<Rightarrow> None)"
| "b64decode _ = None"

text \<open>The two characters that \<open>altchars\<close> exchanges, in either direction.\<close>

definition to_urlsafe_char :: "code_point \<Rightarrow> code_point" where
  "to_urlsafe_char c = (if c = 43 then 45 else if c = 47 then 95 else c)"

definition from_urlsafe_char :: "code_point \<Rightarrow> code_point" where
  "from_urlsafe_char c = (if c = 45 then 43 else if c = 95 then 47 else c)"

definition to_urlsafe :: "pystr \<Rightarrow> pystr" where
  "to_urlsafe s = map to_urlsafe_char s"

definition from_urlsafe :: "pystr \<Rightarrow> pystr" where
  "from_urlsafe s = map from_urlsafe_char s"

definition rstrip_pad :: "pystr \<Rightarrow> pystr" where
  "rstrip_pad s = rev (dropWhile (\<lambda>c. c = 61) (rev s))"

section \<open>The token operations\<close>

definition token_class :: rx where
  "token_class = RCls [(65, 90), (97, 122), (48, 57), (95, 95), (45, 45)]"

definition token_pattern :: rx where
  "token_pattern = RRep 43 token_class"

definition encode_token :: "bytes \<Rightarrow> token_error + pystr" where
  "encode_token raw =
     (if length raw \<noteq> TOKEN_BYTES then Inl TokenEncodingError
      else
        let encoded = rstrip_pad (to_urlsafe (b64encode raw))
        in if length encoded \<noteq> TOKEN_ENCODED_LENGTH then Inl TokenEncodingError
           else Inr encoded)"

definition decode_token :: "pystr \<Rightarrow> token_error + bytes" where
  "decode_token encoded =
     (if length encoded \<noteq> TOKEN_ENCODED_LENGTH then Inl TokenEncodingError
      else if \<not> fullmatch token_pattern encoded then Inl TokenEncodingError
      else (case b64decode (from_urlsafe (encoded @ [61])) of
          None \<Rightarrow> Inl TokenEncodingError
        | Some decoded \<Rightarrow>
            if length decoded \<noteq> TOKEN_BYTES then Inl TokenEncodingError
            else if encode_token decoded \<noteq> Inr encoded then Inl TokenEncodingError
            else Inr decoded))"

definition hash_session_token :: "(bytes \<Rightarrow> bytes) \<Rightarrow> bytes \<Rightarrow> token_error + bytes" where
  "hash_session_token sha256 raw =
     (if length raw \<noteq> TOKEN_BYTES then Inl TokenEncodingError else Inr (sha256 raw))"

definition csrf_tokens_match :: "bytes \<Rightarrow> bytes \<Rightarrow> bool" where
  "csrf_tokens_match expected supplied =
     (if length expected \<noteq> TOKEN_BYTES \<or> length supplied \<noteq> TOKEN_BYTES then False
      else expected = supplied)"

section \<open>Codecs\<close>

text \<open>
  What the session code relies on: every raw token has a text, and a text is accepted exactly
  when it is the text of the raw token it yields.
\<close>

locale token_codec =
  fixes enc :: "bytes \<Rightarrow> token_error + pystr" and dec :: "pystr \<Rightarrow> token_error + bytes"
    and valid :: "bytes \<Rightarrow> bool"
  assumes enc_total: "valid raw \<Longrightarrow> \<exists>s. enc raw = Inr s"
    and enc_valid: "enc raw = Inr s \<Longrightarrow> valid raw"
    and dec_enc: "enc raw = Inr s \<Longrightarrow> dec s = Inr raw"
    and dec_canonical: "dec s = Inr raw \<Longrightarrow> enc raw = Inr s"
begin

lemma dec_iff: "dec s = Inr raw \<longleftrightarrow> enc raw = Inr s"
  using dec_enc dec_canonical by blast

lemma enc_inj: "enc a = Inr s \<Longrightarrow> enc b = Inr s \<Longrightarrow> a = b"
  using dec_enc [of a s] dec_enc [of b s] by simp

lemma dec_inj: "dec s = Inr raw \<Longrightarrow> dec t = Inr raw \<Longrightarrow> s = t"
  using dec_canonical [of s raw] dec_canonical [of t raw] by simp

lemma dec_valid: "dec s = Inr raw \<Longrightarrow> valid raw"
  using dec_canonical enc_valid by blast

end

section \<open>The base64 round trip\<close>

lemma b64_value_char [simp]: "v < 64 \<Longrightarrow> b64_value (b64_char v) = Some v"
  by (auto simp: b64_value_def b64_char_def)

lemma b64_char_value: "b64_value c = Some v \<Longrightarrow> b64_char v = c \<and> v < 64"
  by (auto simp: b64_value_def b64_char_def split: if_splits)

lemma b64_char_not_pad [simp]: "b64_char v \<noteq> 61" "61 \<noteq> b64_char v"
  by (auto simp: b64_char_def)

lemma b64_char_not_urlsafe [simp]: "b64_char v \<noteq> 45" "b64_char v \<noteq> 95" "45 \<noteq> b64_char v" "95 \<noteq> b64_char v"
  by (auto simp: b64_char_def)

lemma unat_byte: "unat (a :: byte) < 256"
  using unsigned_less [of a] by simp

lemma byte_parts:
  "unat (a :: byte) div 4 < 64" "unat a div 16 < 16" "unat a div 64 < 4"
  using unat_byte [of a] by (simp_all add: less_mult_imp_div_less)

lemma low_parts:
  "x mod 4 * 16 < (64::nat)" "x mod 16 * 4 < (64::nat)"
  "y < 16 \<Longrightarrow> x mod 4 * 16 + y < (64::nat)" "z < 4 \<Longrightarrow> x mod 16 * 4 + z < (64::nat)"
proof -
  have "x mod 4 < 4" "x mod 16 < 16" by simp_all
  then show "x mod 4 * 16 < (64::nat)" "x mod 16 * 4 < (64::nat)"
    "y < 16 \<Longrightarrow> x mod 4 * 16 + y < (64::nat)" "z < 4 \<Longrightarrow> x mod 16 * 4 + z < (64::nat)"
    by linarith+
qed

lemmas sextets [simp] = byte_parts low_parts

lemma split_16: "r < 16 \<Longrightarrow> (k * 16 + r) div 16 = k" "r < 16 \<Longrightarrow> (k * 16 + r) mod 16 = r"
  for k r :: nat
  by simp_all

lemma split_4: "r < 4 \<Longrightarrow> (k * 4 + r) div 4 = k" "r < 4 \<Longrightarrow> (k * 4 + r) mod 4 = r"
  for k r :: nat
  by simp_all

lemma join_bytes [simp]:
  "join2 (unat a div 4) (unat a mod 4 * 16) = a"
  "join2 (unat a div 4) (unat a mod 4 * 16 + unat b div 16) = a"
  "join3 (unat a mod 4 * 16 + unat b div 16) (unat b mod 16 * 4) = b"
  "join3 (unat a mod 4 * 16 + unat b div 16) (unat b mod 16 * 4 + unat c div 64) = b"
  "join4 (unat b mod 16 * 4 + unat c div 64) (unat c mod 64) = c"
  by (simp_all add: join2_def join3_def join4_def split_16 split_4 byte_parts)

lemma b64decode_encode: "b64decode (b64encode raw) = Some raw"
  by (induction raw rule: b64encode.induct) simp_all

lemma urlsafe_inverse: "45 \<notin> set s \<Longrightarrow> 95 \<notin> set s \<Longrightarrow> from_urlsafe (to_urlsafe s) = s"
  by (induction s) (auto simp: to_urlsafe_def from_urlsafe_def to_urlsafe_char_def from_urlsafe_char_def)

lemma b64encode_no_urlsafe: "45 \<notin> set (b64encode raw) \<and> 95 \<notin> set (b64encode raw)"
  by (induction raw rule: b64encode.induct) auto

text \<open>The text of a token's length ends in exactly one padding character.\<close>

lemma b64encode_one_pad:
  "length raw mod 3 = 2 \<Longrightarrow>
   \<exists>s. b64encode raw = s @ [61] \<and> 61 \<notin> set s \<and> length s = 4 * (length raw div 3) + 3 \<and>
     list_all (\<lambda>c. b64_value c \<noteq> None) s"
proof (induction raw rule: b64encode.induct)
  case (4 a b c bs)
  then obtain s where "b64encode bs = s @ [61]" "61 \<notin> set s"
    "length s = 4 * (length bs div 3) + 3" "list_all (\<lambda>c. b64_value c \<noteq> None) s"
    by (auto simp: mod_Suc split: if_splits)
  moreover have "(3 + length bs) div 3 = Suc (length bs div 3)" by simp
  ultimately show ?case
    by (intro exI [where x = "b64_char (unat a div 4) #
        b64_char (unat a mod 4 * 16 + unat b div 16) #
        b64_char (unat b mod 16 * 4 + unat c div 64) # b64_char (unat c mod 64) # s"]) simp
qed auto

text \<open>And back: a text whose unused bits are zero is the text of what it decodes to.\<close>

lemma unat_join:
  assumes "u < 64" "v < 64" "w < 64" "x < 64"
  shows "unat (join2 u v) = u * 4 + v div 16" "unat (join3 v w) = v mod 16 * 16 + w div 4"
    "unat (join4 w x) = w mod 4 * 64 + x"
proof -
  have small: "unat (word_of_nat n :: byte) = n" if "n < 256" for n
    using that by (simp add: unsigned_of_nat take_bit_nat_eq_self)
  have "v div 16 < 4" "w div 4 < 16" using assms by (simp_all add: less_mult_imp_div_less)
  moreover have "v mod 16 < 16" "w mod 4 < 4" by simp_all
  ultimately have "u * 4 + v div 16 < 256" "v mod 16 * 16 + w div 4 < 256" "w mod 4 * 64 + x < 256"
    using assms by linarith+
  then show "unat (join2 u v) = u * 4 + v div 16" "unat (join3 v w) = v mod 16 * 16 + w div 4"
    "unat (join4 w x) = w mod 4 * 64 + x"
    by (simp_all only: join2_def join3_def join4_def small)
qed

lemma sextets_back:
  assumes "u < 64" "v < 64" "w < 64" "x < 64"
  shows "unat (join2 u v) div 4 = u"
    "unat (join2 u v) mod 4 * 16 + unat (join3 v w) div 16 = v"
    "unat (join3 v w) mod 16 * 4 + unat (join4 w x) div 64 = w"
    "unat (join4 w x) mod 64 = x"
    "w mod 4 = 0 \<Longrightarrow> unat (join3 v w) mod 16 * 4 = w"
proof -
  have "v div 16 < 4" "w div 4 < 16" using assms by (simp_all add: less_mult_imp_div_less)
  then show "unat (join2 u v) div 4 = u"
    "unat (join2 u v) mod 4 * 16 + unat (join3 v w) div 16 = v"
    "unat (join3 v w) mod 16 * 4 + unat (join4 w x) div 64 = w"
    "unat (join4 w x) mod 64 = x"
    "w mod 4 = 0 \<Longrightarrow> unat (join3 v w) mod 16 * 4 = w"
    using assms by (auto simp: unat_join split_16 split_4)
qed

definition canonical_end :: "code_point \<Rightarrow> bool" where
  "canonical_end c \<longleftrightarrow> (case b64_value c of None \<Rightarrow> False | Some v \<Rightarrow> v mod 4 = 0)"

lemma b64encode_decode:
  assumes "length s = 4 * k + 3" and "list_all (\<lambda>c. b64_value c \<noteq> None) s" and "canonical_end (last s)"
  shows "\<exists>raw. b64decode (s @ [61]) = Some raw \<and> b64encode raw = s @ [61] \<and> length raw = 3 * k + 2"
  using assms
proof (induction k arbitrary: s)
  case 0
  then obtain p q r where s: "s = [p, q, r]" by (auto simp: length_Suc_conv numeral_3_eq_3)
  with 0 obtain u v w where uvw: "b64_value p = Some u" "b64_value q = Some v" "b64_value r = Some w"
    "w mod 4 = 0" by (auto simp: canonical_end_def)
  then have "u < 64" "v < 64" "w < 64" "b64_char u = p" "b64_char v = q" "b64_char w = r"
    using b64_char_value by blast+
  then show ?case
    using uvw s by (auto simp: sextets_back [where x = 0])
next
  case (Suc k)
  from Suc.prems(1) have "length s = Suc (Suc (Suc (Suc (4 * k + 3))))" by simp
  then obtain p q r t s' where s: "s = p # q # r # t # s'" "length s' = 4 * k + 3"
    unfolding length_Suc_conv by blast
  then have "s' \<noteq> []" by auto
  then obtain raw where raw: "b64decode (s' @ [61]) = Some raw" "b64encode raw = s' @ [61]"
    "length raw = 3 * k + 2"
    using Suc.IH [of s'] Suc.prems s by auto
  from Suc.prems s obtain u v w x where uvwx: "b64_value p = Some u" "b64_value q = Some v"
    "b64_value r = Some w" "b64_value t = Some x" by auto
  then have "u < 64" "v < 64" "w < 64" "x < 64"
    "b64_char u = p" "b64_char v = q" "b64_char w = r" "b64_char x = t"
    using b64_char_value by blast+
  moreover have "r \<noteq> 61" "t \<noteq> 61" using uvwx by (auto simp: b64_value_def)
  ultimately show ?case
    using uvwx raw s by (auto simp: sextets_back)
qed

section \<open>Tokens are their texts\<close>

lemma rstrip_pad_one: "61 \<notin> set s \<Longrightarrow> rstrip_pad (s @ [61]) = s"
proof -
  assume "61 \<notin> set s"
  then have "dropWhile (\<lambda>c. c = 61) (rev s) = rev s"
    by (intro dropWhile_id_hd) (metis hd_in_set set_rev)
  then show ?thesis by (simp add: rstrip_pad_def)
qed

lemma urlsafe_pad: "61 \<notin> set (to_urlsafe s) \<longleftrightarrow> 61 \<notin> set s" "to_urlsafe (s @ [61]) = to_urlsafe s @ [61]"
  by (auto simp: to_urlsafe_def to_urlsafe_char_def)

text \<open>The alphabet of the grammar is the alphabet of base64, exchanged.\<close>

definition token_char :: "code_point \<Rightarrow> bool" where
  "token_char c \<longleftrightarrow> in_cls [(65, 90), (97, 122), (48, 57), (95, 95), (45, 45)] c"

lemma token_char_to: "b64_value c \<noteq> None \<Longrightarrow> token_char (to_urlsafe_char c)"
  by (auto simp: b64_value_def token_char_def to_urlsafe_char_def split: if_splits)

lemma token_char_from: "token_char c \<Longrightarrow> b64_value (from_urlsafe_char c) \<noteq> None"
  by (auto simp: b64_value_def token_char_def from_urlsafe_char_def)

lemma token_char_from_to: "token_char c \<Longrightarrow> to_urlsafe_char (from_urlsafe_char c) = c"
  by (auto simp: token_char_def from_urlsafe_char_def to_urlsafe_char_def)

lemma token_pattern_iff:
  "fullmatch token_pattern s \<longleftrightarrow> length s = 43 \<and> list_all token_char s"
proof -
  have "in_cls [(65, 90), (97, 122), (48, 57), (95, 95), (45, 45)] = token_char"
    by (rule ext) (simp only: token_char_def)
  then show ?thesis
    using matches_rep_cls [of 43 "[(65, 90), (97, 122), (48, 57), (95, 95), (45, 45)]" s]
    by (simp only: fullmatch_iff token_pattern_def token_class_def)
qed

lemma encode_token_shape:
  assumes "length raw = TOKEN_BYTES"
  shows "\<exists>s. encode_token raw = Inr (to_urlsafe s) \<and> b64encode raw = s @ [61] \<and> length s = 43 \<and>
    fullmatch token_pattern (to_urlsafe s)"
proof -
  obtain s where s: "b64encode raw = s @ [61]" "61 \<notin> set s"
    "length s = 4 * (length raw div 3) + 3" "list_all (\<lambda>c. b64_value c \<noteq> None) s"
    using b64encode_one_pad [of raw] assms by (auto simp: TOKEN_BYTES_def)
  have len: "length s = 43" using s(3) assms by (simp add: TOKEN_BYTES_def)
  have "rstrip_pad (to_urlsafe (b64encode raw)) = to_urlsafe s"
    using s by (simp add: urlsafe_pad rstrip_pad_one)
  then have "encode_token raw = Inr (to_urlsafe s)"
    using assms len by (simp add: encode_token_def TOKEN_ENCODED_LENGTH_def to_urlsafe_def)
  moreover have "fullmatch token_pattern (to_urlsafe s)"
    using len s(4) token_char_to by (simp add: token_pattern_iff to_urlsafe_def list_all_iff)
  ultimately show ?thesis using s len by blast
qed

lemma encode_token_valid: "encode_token raw = Inr s \<Longrightarrow> length raw = TOKEN_BYTES"
  by (auto simp: encode_token_def split: if_splits)

lemma decode_token_canonical: "decode_token s = Inr raw \<Longrightarrow> encode_token raw = Inr s"
  by (auto simp: decode_token_def split: if_splits option.splits)

lemma decode_encode_token:
  assumes "encode_token raw = Inr t"
  shows "decode_token t = Inr raw"
proof -
  have raw: "length raw = TOKEN_BYTES" using encode_token_valid [OF assms] .
  then obtain s where s: "encode_token raw = Inr (to_urlsafe s)" "b64encode raw = s @ [61]"
    "length s = 43" "fullmatch token_pattern (to_urlsafe s)"
    using encode_token_shape by blast
  have "from_urlsafe (to_urlsafe s @ [61]) = s @ [61]"
    using urlsafe_inverse [of "s @ [61]"] b64encode_no_urlsafe [of raw] s(2) by (simp add: urlsafe_pad)
  then have "b64decode (from_urlsafe (to_urlsafe s @ [61])) = Some raw"
    using b64decode_encode [of raw] s(2) by simp
  moreover have "t = to_urlsafe s" using assms s(1) by simp
  ultimately show ?thesis
    using s raw by (simp add: decode_token_def TOKEN_ENCODED_LENGTH_def to_urlsafe_def)
qed

interpretation session_token: token_codec encode_token decode_token "\<lambda>raw. length raw = TOKEN_BYTES"
proof
  fix raw :: bytes
  assume "length raw = TOKEN_BYTES"
  then show "\<exists>s. encode_token raw = Inr s" using encode_token_shape by blast
qed (auto intro: encode_token_valid decode_encode_token decode_token_canonical)

section \<open>Properties\<close>

text \<open>
  C20. A text is accepted as a token exactly when it is the text of the raw token it yields, and
  every 32-byte token has one: bearer tokens and their raw bytes are in bijection, no token has
  two spellings.
\<close>

theorem token_text_canonical:
  "(decode_token s = Inr raw \<longleftrightarrow> encode_token raw = Inr s) \<and>
   ((\<exists>t. encode_token raw = Inr t) \<longleftrightarrow> length raw = TOKEN_BYTES)"
  using session_token.dec_iff session_token.enc_total session_token.enc_valid by blast

lemma decode_token_accepts:
  assumes s: "length s = 43" "list_all token_char s" and c: "canonical_end (from_urlsafe_char (last s))"
  shows "\<exists>raw. decode_token s = Inr raw"
proof -
  let ?b = "from_urlsafe s"
  have "s \<noteq> []" using s by auto
  then have "canonical_end (last ?b)" using c by (simp add: from_urlsafe_def last_map)
  moreover have b: "list_all (\<lambda>c. b64_value c \<noteq> None) ?b"
    using s(2) token_char_from by (auto simp: from_urlsafe_def list_all_iff)
  ultimately obtain raw where raw: "b64encode raw = ?b @ [61]" "length raw = 32"
    using b64encode_decode [of ?b 10] s by (auto simp: from_urlsafe_def)
  moreover have "to_urlsafe ?b = s"
    using s(2) by (simp add: to_urlsafe_def from_urlsafe_def list_all_iff token_char_from_to map_idI)
  moreover have "61 \<notin> set s" using s(2) by (auto simp: list_all_iff token_char_def)
  ultimately have "rstrip_pad (to_urlsafe (b64encode raw)) = s"
    by (simp add: urlsafe_pad rstrip_pad_one)
  then have "encode_token raw = Inr s"
    using raw s by (simp add: encode_token_def TOKEN_BYTES_def TOKEN_ENCODED_LENGTH_def)
  then show ?thesis using decode_encode_token by blast
qed

lemma canonical_end_pad2: "canonical_end (b64_char (n mod 16 * 4))"
  by (simp add: canonical_end_def)

lemma b64encode_last:
  "length raw mod 3 = 2 \<Longrightarrow> canonical_end (last (butlast (b64encode raw)))"
proof (induction raw rule: b64encode.induct)
  case (4 a b c bs)
  then have "length bs mod 3 = 2" by (simp add: mod_Suc split: if_splits)
  moreover from this obtain s where "b64encode bs = s @ [61]" "s \<noteq> []"
    using b64encode_one_pad [of bs] by fastforce
  ultimately show ?case using 4 by (simp add: butlast_append)
qed (auto simp: canonical_end_pad2)

text \<open>
  The accepted texts: 43 characters of the URL-safe alphabet, the last of them one whose
  two unused bits are zero.
\<close>

theorem token_accepted_iff:
  "(\<exists>raw. decode_token s = Inr raw) \<longleftrightarrow>
     length s = 43 \<and> list_all token_char s \<and> canonical_end (from_urlsafe_char (last s))"
proof
  assume "\<exists>raw. decode_token s = Inr raw"
  then obtain raw where enc: "encode_token raw = Inr s" using decode_token_canonical by blast
  then have raw: "length raw = TOKEN_BYTES" by (rule encode_token_valid)
  then obtain t where t: "s = to_urlsafe t" "b64encode raw = t @ [61]" "length t = 43"
    "fullmatch token_pattern s" using encode_token_shape [OF raw] enc by auto
  have "canonical_end (last t)" using b64encode_last [of raw] raw t(2) by (simp add: TOKEN_BYTES_def)
  moreover have "t \<noteq> []" using t(3) by auto
  moreover have "from_urlsafe (to_urlsafe t) = t"
    using urlsafe_inverse [of t] b64encode_no_urlsafe [of raw] t(2) by simp
  ultimately have "canonical_end (from_urlsafe_char (last s))"
    unfolding t(1) by (metis from_urlsafe_def last_map list.map_disc_iff to_urlsafe_def)
  then show "length s = 43 \<and> list_all token_char s \<and> canonical_end (from_urlsafe_char (last s))"
    using t(4) by (simp add: token_pattern_iff)
qed (use decode_token_accepts in blast)

end
