(* ===== verification/Email.thy ===== *)
theory Email
  imports Regex
begin

text \<open>
  E-mail addresses (\<open>identity/email.py\<close>): the conservative ASCII policy, the stored form that
  keeps the case of the local part, and the login identity that does not.
\<close>

datatype email_error =
    EmailNotAscii
  | EmailTooLong
  | EmailSeparatorCount
  | EmailLocalLength
  | EmailLocalNotDotAtom
  | EmailDomainLength
  | EmailDomainInvalid

record canonical_email =
  email :: pystr
  email_normalized :: pystr

definition atext :: "(nat \<times> nat) list" where
  "atext = [(65, 90), (97, 122), (48, 57), (33, 33), (35, 39), (42, 42), (43, 43), (45, 45),
     (47, 47), (61, 61), (63, 63), (94, 94), (95, 95), (96, 96), (123, 126)]"

definition local_part_pattern :: rx where
  "local_part_pattern = RParts 46 atext"

definition label_ends :: "(nat \<times> nat) list" where
  "label_ends = [(65, 90), (97, 122), (48, 57)]"

definition label_inner :: "(nat \<times> nat) list" where
  "label_inner = [(65, 90), (97, 122), (48, 57), (45, 45)]"

definition domain_label_pattern :: rx where
  "domain_label_pattern = RName label_ends label_inner 61"

definition canonicalize_email :: "pystr \<Rightarrow> email_error + canonical_email" where
  "canonicalize_email value =
     (let stripped = py_strip value
      in if \<not> list_all is_ascii stripped then Inl EmailNotAscii
         else if 254 < length stripped then Inl EmailTooLong
         else if count_list stripped 64 \<noteq> 1 then Inl EmailSeparatorCount
         else (case py_split 64 stripped of
             [local_part, domain] \<Rightarrow>
               if \<not> (1 \<le> length local_part \<and> length local_part \<le> 64) then Inl EmailLocalLength
               else if \<not> fullmatch local_part_pattern local_part then Inl EmailLocalNotDotAtom
               else if \<not> (1 \<le> length domain \<and> length domain \<le> 253) then Inl EmailDomainLength
               else
                 let labels = py_split 46 domain
                 in if length labels < 2 \<or> list_ex (\<lambda>l. \<not> fullmatch domain_label_pattern l) labels
                    then Inl EmailDomainInvalid
                    else
                      let stored = local_part @ 64 # py_lower domain
                      in Inr \<lparr>email = stored, email_normalized = py_lower stored\<rparr>
           | _ \<Rightarrow> Inl EmailSeparatorCount))"

section \<open>The policy, declaratively\<close>

definition is_dot_atom :: "pystr \<Rightarrow> bool" where
  "is_dot_atom s \<longleftrightarrow> list_all (\<lambda>p. p \<noteq> [] \<and> list_all (in_cls atext) p) (py_split 46 s)"

definition is_domain_label :: "pystr \<Rightarrow> bool" where
  "is_domain_label l \<longleftrightarrow> l \<noteq> [] \<and> length l \<le> 63 \<and> list_all (in_cls label_inner) l \<and>
     hd l \<noteq> 45 \<and> last l \<noteq> 45"

definition valid_address :: "pystr \<Rightarrow> pystr \<Rightarrow> bool" where
  "valid_address local_part domain \<longleftrightarrow>
     64 \<notin> set local_part \<and> 64 \<notin> set domain \<and>
     length local_part \<le> 64 \<and> is_dot_atom local_part \<and>
     length local_part + length domain \<le> 253 \<and>
     2 \<le> length (py_split 46 domain) \<and> list_all is_domain_label (py_split 46 domain)"

lemma local_part_pattern_iff: "fullmatch local_part_pattern s \<longleftrightarrow> is_dot_atom s"
  unfolding fullmatch_iff local_part_pattern_def
  by (subst matches_RParts) (simp_all add: atext_def is_dot_atom_def part_ok_def list_all_iff)

lemma domain_label_pattern_iff: "fullmatch domain_label_pattern s \<longleftrightarrow> is_domain_label s"
proof -
  have "in_cls label_ends c \<longleftrightarrow> in_cls label_inner c \<and> c \<noteq> 45" for c
    by (auto simp: label_ends_def label_inner_def)
  moreover from this have "matches domain_label_pattern s \<longleftrightarrow>
      s \<noteq> [] \<and> length s \<le> 61 + 2 \<and> list_all (in_cls label_inner) s \<and>
      in_cls label_ends (hd s) \<and> in_cls label_ends (last s)"
    unfolding domain_label_pattern_def by (intro matches_RName) blast
  ultimately show ?thesis
    by (auto simp: fullmatch_iff is_domain_label_def list_all_iff)
qed

lemma is_dot_atom_nonempty: "is_dot_atom s \<Longrightarrow> s \<noteq> []"
  by (auto simp: is_dot_atom_def)

lemma py_split_two:
  "py_split sep s = [a, b] \<longleftrightarrow> s = a @ sep # b \<and> sep \<notin> set a \<and> sep \<notin> set b"
proof
  assume split: "py_split sep s = [a, b]"
  then have no: "sep \<notin> set a" "sep \<notin> set b"
    using py_split_parts_no_sep [of _ sep s] by simp_all
  have "sep \<in> set s"
  proof (rule ccontr)
    assume "sep \<notin> set s"
    then show False using split py_split_no_sep [of sep s] by simp
  qed
  then obtain u v where s: "s = u @ sep # v" "sep \<notin> set u" by (meson split_list_first)
  then have "py_split sep s = u # py_split sep v" by (simp add: py_split_append)
  with split have "u = a" and v: "py_split sep v = [b]" by simp_all
  have "sep \<notin> set v"
  proof
    assume "sep \<in> set v"
    then obtain x y where "v = x @ sep # y" "sep \<notin> set x" by (meson split_list_first)
    then show False using v by (simp add: py_split_append)
  qed
  then have "v = b" using v py_split_no_sep [of sep v] by simp
  with s \<open>u = a\<close> no show "s = a @ sep # b \<and> sep \<notin> set a \<and> sep \<notin> set b" by simp
qed (simp add: py_split_append py_split_no_sep)

lemma atext_ascii: "in_cls atext c \<Longrightarrow> is_ascii c \<and> c \<noteq> 64"
  by (auto simp: atext_def is_ascii_def)

lemma label_inner_ascii: "in_cls label_inner c \<Longrightarrow> is_ascii c \<and> c \<noteq> 64"
  by (auto simp: label_inner_def is_ascii_def)

lemma parts_ascii:
  assumes "list_all Q (py_split 46 s)" and "\<And>p. Q p \<Longrightarrow> list_all is_ascii p"
  shows "list_all is_ascii s"
proof -
  have "is_ascii c" if "c \<in> set s" for c
    using py_split_elem [OF that, of 46] assms by (auto simp: list_all_iff is_ascii_def)
  then show ?thesis by (simp add: list_all_iff)
qed

lemma dot_atom_ascii: "is_dot_atom s \<Longrightarrow> list_all is_ascii s"
  unfolding is_dot_atom_def by (erule parts_ascii) (auto simp: list_all_iff atext_ascii)

lemma domain_ascii: "list_all is_domain_label (py_split 46 s) \<Longrightarrow> list_all is_ascii s"
  by (erule parts_ascii) (auto simp: list_all_iff is_domain_label_def label_inner_ascii)

lemma domain_nonempty: "2 \<le> length (py_split 46 d) \<Longrightarrow> d \<noteq> []"
  by auto

text \<open>The checks of the code, in its order, are the policy.\<close>

lemma canonicalize_email_iff:
  "canonicalize_email v = Inr r \<longleftrightarrow>
     (\<exists>l d. py_strip v = l @ 64 # d \<and> valid_address l d \<and>
        r = \<lparr>email = l @ 64 # py_lower d, email_normalized = py_lower (l @ 64 # py_lower d)\<rparr>)"
  (is "?L \<longleftrightarrow> ?R")
proof
  assume ?L
  then obtain l d where split: "py_split 64 (py_strip v) = [l, d]"
    and checks: "length (py_strip v) \<le> 254" "length l \<le> 64" "is_dot_atom l"
      "2 \<le> length (py_split 46 d)" "list_all is_domain_label (py_split 46 d)"
    and r: "r = \<lparr>email = l @ 64 # py_lower d, email_normalized = py_lower (l @ 64 # py_lower d)\<rparr>"
    by (auto simp: canonicalize_email_def Let_def local_part_pattern_iff domain_label_pattern_iff
        list_all_iff list_ex_iff split: if_splits list.splits)
  from split have "py_strip v = l @ 64 # d" "64 \<notin> set l" "64 \<notin> set d"
    by (simp_all add: py_split_two)
  with checks r show ?R by (auto simp: valid_address_def)
next
  assume ?R
  then obtain l d where v: "py_strip v = l @ 64 # d" and ok: "valid_address l d"
    and r: "r = \<lparr>email = l @ 64 # py_lower d, email_normalized = py_lower (l @ 64 # py_lower d)\<rparr>"
    by blast
  have split: "py_split 64 (l @ 64 # d) = [l, d]"
    using ok by (simp add: py_split_two valid_address_def)
  have "count_list (l @ 64 # d) 64 = 1" using split length_py_split [of 64 "l @ 64 # d"] by simp
  moreover have "list_all is_ascii (l @ 64 # d)"
    using ok dot_atom_ascii domain_ascii by (simp add: valid_address_def is_ascii_def)
  moreover have "l \<noteq> []" "d \<noteq> []"
    using ok is_dot_atom_nonempty domain_nonempty by (auto simp: valid_address_def)
  ultimately show ?L
    using ok split unfolding canonicalize_email_def v r Let_def
    by (simp add: valid_address_def local_part_pattern_iff domain_label_pattern_iff
        list_all_iff list_ex_iff Suc_le_eq)
qed

section \<open>Case\<close>

lemma py_isspace_lower [simp]: "py_isspace (ascii_lower c) = py_isspace c"
  by (auto simp: py_isspace_def ascii_lower_def)

lemma py_strip_lower: "py_strip (map ascii_lower s) = map ascii_lower (py_strip s)"
  by (simp add: py_strip_def dropWhile_map o_def rev_map)

lemma ascii_lower_eq_iff: "\<not> (97 \<le> c \<and> c \<le> 122) \<Longrightarrow> \<not> (65 \<le> c \<and> c \<le> 90) \<Longrightarrow> ascii_lower x = c \<longleftrightarrow> x = c"
  by (auto simp: ascii_lower_def)

lemma py_split_map:
  "(\<And>c. f c = sep \<longleftrightarrow> c = sep) \<Longrightarrow> py_split sep (map f s) = map (map f) (py_split sep s)"
  by (induction s) (auto split: list.splits)

lemma count_list_map_sep: "(\<And>c. f c = x \<longleftrightarrow> c = x) \<Longrightarrow> count_list (map f s) x = count_list s x"
  by (induction s) auto

lemma patterns_ignore_case:
  "blind_to ascii_lower local_part_pattern" "blind_to ascii_lower domain_label_pattern"
  by (auto simp: local_part_pattern_def RParts_def RPlus_def RChr_def domain_label_pattern_def
      RName_def ROpt_def atext_def label_ends_def label_inner_def ascii_lower_def
      simp del: RUpTo.simps intro!: blind_upto)

lemma valid_address_lower: "valid_address (map ascii_lower l) (map ascii_lower d) \<longleftrightarrow> valid_address l d"
proof -
  have dom: "py_split 46 (map ascii_lower d) = map (map ascii_lower) (py_split 46 d)"
    by (rule py_split_map) (simp add: ascii_lower_eq_iff)
  have label: "is_domain_label (map ascii_lower p) = is_domain_label p" for p
    using fullmatch_map [OF patterns_ignore_case(2)] by (simp add: domain_label_pattern_iff)
  have atom: "is_dot_atom (map ascii_lower l) = is_dot_atom l"
    using fullmatch_map [OF patterns_ignore_case(1)] by (simp add: local_part_pattern_iff)
  have at: "64 \<in> set (map ascii_lower s) \<longleftrightarrow> 64 \<in> set s" for s
    by (auto simp: ascii_lower_def image_iff)
  show ?thesis
    unfolding valid_address_def dom atom at by (simp add: list_all_iff label)
qed

lemma address_ascii:
  "valid_address l d \<Longrightarrow> list_all is_ascii l \<and> list_all is_ascii d \<and> list_all is_ascii (l @ 64 # d)"
  using dot_atom_ascii domain_ascii by (simp add: valid_address_def is_ascii_def)

lemma stored_forms:
  assumes "valid_address l d"
  shows "l @ 64 # py_lower d = l @ 64 # map ascii_lower d"
    and "py_lower (l @ 64 # py_lower d) = map ascii_lower (l @ 64 # d)"
proof -
  have d: "py_lower d = map ascii_lower d" using address_ascii [OF assms] by (simp add: py_lower_ascii)
  then show "l @ 64 # py_lower d = l @ 64 # map ascii_lower d" by simp
  have "list_all is_ascii (l @ 64 # map ascii_lower d)"
    using address_ascii [OF assms] ascii_lower_ascii by (auto simp: list_all_iff)
  then show "py_lower (l @ 64 # py_lower d) = map ascii_lower (l @ 64 # d)"
    unfolding d by (simp add: py_lower_ascii)
qed

lemma canonicalize_email_map:
  "canonicalize_email v = Inr r \<longleftrightarrow>
     (\<exists>l d. py_strip v = l @ 64 # d \<and> valid_address l d \<and>
        r = \<lparr>email = l @ 64 # map ascii_lower d, email_normalized = map ascii_lower (l @ 64 # d)\<rparr>)"
  unfolding canonicalize_email_iff using stored_forms by metis

lemma canonicalize_email_lower:
  assumes "canonicalize_email v = Inr r"
  shows "canonicalize_email (map ascii_lower v) =
    Inr \<lparr>email = email_normalized r, email_normalized = email_normalized r\<rparr>"
proof -
  from assms obtain l d where v: "py_strip v = l @ 64 # d" and ok: "valid_address l d"
    and r: "email_normalized r = map ascii_lower (l @ 64 # d)"
    by (auto simp: canonicalize_email_map)
  have "py_strip (map ascii_lower v) = map ascii_lower l @ 64 # map ascii_lower d"
    by (simp add: py_strip_lower v ascii_lower_def)
  then show ?thesis
    using ok r unfolding canonicalize_email_map
    by (intro exI [where x = "map ascii_lower l"] exI [where x = "map ascii_lower d"])
      (simp add: valid_address_lower o_def ascii_lower_def)
qed

text \<open>An accepted address has no white space at its ends.\<close>

lemma strip_address: "valid_address l d \<Longrightarrow> py_strip (l @ 64 # d) = l @ 64 # d"
proof -
  assume ok: "valid_address l d"
  have l: "l \<noteq> []" and d: "d \<noteq> []"
    using ok is_dot_atom_nonempty domain_nonempty by (auto simp: valid_address_def)
  have part: "\<not> py_isspace c" if "in_cls atext c \<or> in_cls label_inner c \<or> c = 46" for c
    using that by (auto simp: atext_def label_inner_def py_isspace_def)
  have "\<not> py_isspace c" if "c \<in> set l" for c
    using py_split_elem [OF that, of 46] ok part
    by (auto simp: valid_address_def is_dot_atom_def list_all_iff)
  moreover have "\<not> py_isspace c" if "c \<in> set d" for c
    using py_split_elem [OF that, of 46] ok part
    by (auto simp: valid_address_def is_domain_label_def list_all_iff)
  ultimately show ?thesis using l d by (simp add: py_strip_id_iff)
qed

lemma login_identity_case:
  assumes "canonicalize_email v = Inr r" and "map ascii_lower w = map ascii_lower v"
  shows "\<exists>r'. canonicalize_email w = Inr r' \<and> email_normalized r' = email_normalized r"
proof -
  from assms(1) obtain l d where v: "py_strip v = l @ 64 # d" and ok: "valid_address l d"
    and r: "email_normalized r = map ascii_lower (l @ 64 # d)"
    by (auto simp: canonicalize_email_map)
  have "map ascii_lower (py_strip w) = map ascii_lower l @ 64 # map ascii_lower d"
    using assms(2) py_strip_lower [of v] py_strip_lower [of w] v by (simp add: ascii_lower_def)
  then obtain l' t where lt: "py_strip w = l' @ t" "map ascii_lower l' = map ascii_lower l"
    "map ascii_lower t = 64 # map ascii_lower d"
    unfolding map_eq_append_conv by metis
  from lt(3) obtain c d' where cd: "t = c # d'" "ascii_lower c = 64" "map ascii_lower d' = map ascii_lower d"
    by (cases t) auto
  note w = lt(1,2) cd
  have "c = 64" using cd(2) by (simp add: ascii_lower_eq_iff)
  moreover have "valid_address l' d'" using valid_address_lower [of l' d'] valid_address_lower [of l d] w ok by simp
  ultimately have "canonicalize_email w = Inr \<lparr>email = l' @ 64 # map ascii_lower d',
      email_normalized = map ascii_lower (l' @ 64 # d')\<rparr>"
    using w unfolding canonicalize_email_map
    by (intro exI [where x = l'] exI [where x = d']) simp
  then show ?thesis using w(2,5) r by simp
qed

lemma canonical_forms:
  assumes "canonicalize_email v = Inr r"
  shows "canonicalize_email (email r) = Inr r \<and>
    canonicalize_email (email_normalized r) =
      Inr \<lparr>email = email_normalized r, email_normalized = email_normalized r\<rparr> \<and>
    map ascii_lower (email_normalized r) = email_normalized r \<and>
    3 \<le> length (email r) \<and> length (email r) \<le> 254 \<and>
    length (email_normalized r) = length (email r)"
proof -
  from assms obtain l d where v: "py_strip v = l @ 64 # d" and ok: "valid_address l d"
    and r: "r = \<lparr>email = l @ 64 # map ascii_lower d, email_normalized = map ascii_lower (l @ 64 # d)\<rparr>"
    by (auto simp: canonicalize_email_map)
  let ?d = "map ascii_lower d"
  have lower2: "map ascii_lower (map ascii_lower s) = map ascii_lower s" for s by simp
  have ok': "valid_address l ?d"
    using valid_address_lower [of l d] valid_address_lower [of l ?d] ok by (simp add: o_def)
  have fixed: "canonicalize_email (email r) = Inr r"
    unfolding canonicalize_email_map r
    by (intro exI [where x = l] exI [where x = ?d])
      (simp add: strip_address [OF ok'] ok' o_def)
  have "map ascii_lower (email r) = email_normalized r" by (simp add: r o_def)
  then have norm: "canonicalize_email (email_normalized r) =
      Inr \<lparr>email = email_normalized r, email_normalized = email_normalized r\<rparr>"
    using canonicalize_email_lower [OF fixed] by simp
  have "l \<noteq> []" "d \<noteq> []"
    using ok is_dot_atom_nonempty domain_nonempty by (auto simp: valid_address_def)
  then have "1 \<le> length l" "1 \<le> length d" by (simp_all add: Suc_le_eq)
  moreover have "length l + length d \<le> 253" using ok by (simp add: valid_address_def)
  ultimately show ?thesis using fixed norm by (simp add: r o_def)
qed

section \<open>Properties\<close>

text \<open>
  C21. An input is accepted exactly when, stripped, it is a dot-atom of at most 64 characters,
  an at sign, and a domain of at least two valid labels, at most 254 characters in all; the
  stored address lowers the domain only, the login identity lowers everything.
\<close>

theorem email_accepted_iff:
  "canonicalize_email v = Inr r \<longleftrightarrow>
     (\<exists>l d. py_strip v = l @ 64 # d \<and> valid_address l d \<and>
        r = \<lparr>email = l @ 64 # map ascii_lower d, email_normalized = map ascii_lower (l @ 64 # d)\<rparr>)"
  by (rule canonicalize_email_map)

text \<open>
  Two spellings of an address that differ in ASCII case only are accepted together and
  have the same login identity.
\<close>

theorem login_identity_ignores_case:
  assumes "canonicalize_email v = Inr r" and "map ascii_lower w = map ascii_lower v"
  shows "\<exists>r'. canonicalize_email w = Inr r' \<and> email_normalized r' = email_normalized r"
  using assms by (rule login_identity_case)

lemma short_address_valid: "valid_address (lit ''A'') (lit ''b.Co'')"
  by (simp add: valid_address_def is_dot_atom_def is_domain_label_def atext_def label_inner_def)

lemma short_address:
  "canonicalize_email (lit ''A@b.Co'') =
     Inr \<lparr>email = lit ''A@b.co'', email_normalized = lit ''a@b.co''\<rparr>"
  unfolding canonicalize_email_map using short_address_valid
  by (intro exI [where x = "lit ''A''"] exI [where x = "lit ''b.Co''"])
    (simp add: py_strip_def py_isspace_def ascii_lower_def)

theorem login_identity_ignores_case_witness:
  "\<exists>r'. canonicalize_email (lit ''a@B.co'') = Inr r' \<and> email_normalized r' = lit ''a@b.co''"
  using login_identity_ignores_case [OF short_address, of "lit ''a@B.co''"]
  by (simp add: ascii_lower_def)

text \<open>
  The stored address is a fixed point of the policy and so is the login identity, which is
  lower case; both satisfy the length constraints of the \<open>users\<close> table.
\<close>

theorem email_canonical_forms:
  assumes "canonicalize_email v = Inr r"
  shows "canonicalize_email (email r) = Inr r \<and>
    canonicalize_email (email_normalized r) =
      Inr \<lparr>email = email_normalized r, email_normalized = email_normalized r\<rparr> \<and>
    map ascii_lower (email_normalized r) = email_normalized r \<and>
    3 \<le> length (email r) \<and> length (email r) \<le> 254 \<and>
    length (email_normalized r) = length (email r)"
  using assms by (rule canonical_forms)

theorem email_canonical_forms_witness:
  "canonicalize_email (lit ''A@b.co'') =
     Inr \<lparr>email = lit ''A@b.co'', email_normalized = lit ''a@b.co''\<rparr>"
  using email_canonical_forms [OF short_address] by simp

end
