(* ===== verification/Passwords.thy ===== *)
theory Passwords
  imports Prelude
begin

text \<open>
  Passwords (\<open>identity/passwords.py\<close>): normalisation, hashing and the interpretation of stored
  hashes. Unicode's NFC and the Argon2 hasher are parameters; what is relied on of them is
  \<open>nfc_law\<close> and \<open>hasher_law\<close>.
\<close>

definition MIN_PASSWORD_LENGTH :: nat where
  "MIN_PASSWORD_LENGTH = 15"

definition MAX_PASSWORD_LENGTH :: nat where
  "MAX_PASSWORD_LENGTH = 128"

datatype password_error =
    PasswordNotUtf8
  | PasswordLength
  | HashingError
  | MalformedPasswordHashError
  | Argon2VersionMismatch

datatype password_verification = MATCH | MISMATCH | MALFORMED

text \<open>How \<open>PasswordHasher.verify\<close> ends: it returns, or raises one of three exceptions.\<close>

datatype verify_outcome =
    VerifyOk
  | VerifyMismatchError
  | InvalidHashError
  | VerificationError

text \<open>
  An \<open>argon2.PasswordHasher\<close>. \<open>hash\<close> draws a salt and may fail; \<open>check_needs_rehash\<close> is \<open>None\<close>
  when it raises \<open>InvalidHashError\<close>.
\<close>

record hasher =
  hash_password :: "bytes \<Rightarrow> pystr \<Rightarrow> pystr option"
  verify_password :: "pystr \<Rightarrow> pystr \<Rightarrow> verify_outcome"
  needs_rehash :: "pystr \<Rightarrow> bool option"

record argon2_profile =
  time_cost :: nat
  memory_cost :: nat
  parallelism :: nat
  hash_len :: nat
  salt_len :: nat
  is_argon2id :: bool

definition ARGON2_VERSION :: nat where
  "ARGON2_VERSION = 19"

definition create_production_hasher :: "nat \<Rightarrow> (argon2_profile \<Rightarrow> hasher) \<Rightarrow> password_error + hasher" where
  "create_production_hasher library_version build =
     (if library_version \<noteq> ARGON2_VERSION then Inl Argon2VersionMismatch
      else Inr (build \<lparr>time_cost = 3, memory_cost = 65536, parallelism = 4, hash_len = 32,
        salt_len = 16, is_argon2id = True\<rparr>))"

text \<open>Only surrogates have no UTF-8 encoding.\<close>

definition is_surrogate :: "code_point \<Rightarrow> bool" where
  "is_surrogate c \<longleftrightarrow> 55296 \<le> c \<and> c \<le> 57343"

definition normalize_and_validate :: "(pystr \<Rightarrow> pystr) \<Rightarrow> pystr \<Rightarrow> password_error + pystr" where
  "normalize_and_validate nfc password =
     (let normalized = nfc password
      in if list_ex is_surrogate normalized then Inl PasswordNotUtf8
         else if \<not> (MIN_PASSWORD_LENGTH \<le> length normalized \<and> length normalized \<le> MAX_PASSWORD_LENGTH)
         then Inl PasswordLength
         else Inr normalized)"

definition password_hash :: "(pystr \<Rightarrow> pystr) \<Rightarrow> hasher \<Rightarrow> bytes \<Rightarrow> pystr \<Rightarrow> password_error + pystr" where
  "password_hash nfc hs salt password =
     bind_result (normalize_and_validate nfc password) (\<lambda>normalized.
       case hash_password hs salt normalized of None \<Rightarrow> Inl HashingError | Some h \<Rightarrow> Inr h)"

definition password_verify ::
  "(pystr \<Rightarrow> pystr) \<Rightarrow> hasher \<Rightarrow> pystr \<Rightarrow> pystr \<Rightarrow> password_error + password_verification" where
  "password_verify nfc hs encoded_hash password =
     bind_result (normalize_and_validate nfc password) (\<lambda>normalized.
       Inr (case verify_password hs encoded_hash normalized of
           VerifyOk \<Rightarrow> MATCH
         | VerifyMismatchError \<Rightarrow> MISMATCH
         | InvalidHashError \<Rightarrow> MALFORMED
         | VerificationError \<Rightarrow> MALFORMED))"

definition check_needs_rehash :: "hasher \<Rightarrow> pystr \<Rightarrow> password_error + bool" where
  "check_needs_rehash hs encoded_hash =
     (case needs_rehash hs encoded_hash of
        None \<Rightarrow> Inl MalformedPasswordHashError
      | Some b \<Rightarrow> Inr b)"

section \<open>What is relied on\<close>

definition nfc_law :: "(pystr \<Rightarrow> pystr) \<Rightarrow> bool" where
  "nfc_law nfc \<longleftrightarrow> (\<forall>s. nfc (nfc s) = nfc s)"

text \<open>A hash of the hasher verifies the password it was made of and no other.\<close>

definition hasher_law :: "hasher \<Rightarrow> bool" where
  "hasher_law hs \<longleftrightarrow>
     (\<forall>salt p h. hash_password hs salt p = Some h \<longrightarrow>
        needs_rehash hs h \<noteq> None \<and>
        (\<forall>q. verify_password hs h q = (if q = p then VerifyOk else VerifyMismatchError)))"

lemma normalize_and_validate_iff:
  "normalize_and_validate nfc p = Inr q \<longleftrightarrow>
     q = nfc p \<and> \<not> list_ex is_surrogate (nfc p) \<and> 15 \<le> length (nfc p) \<and> length (nfc p) \<le> 128"
  by (auto simp: normalize_and_validate_def Let_def MIN_PASSWORD_LENGTH_def MAX_PASSWORD_LENGTH_def)

lemma normalize_twice:
  assumes "nfc_law nfc" and "normalize_and_validate nfc p = Inr q"
  shows "normalize_and_validate nfc q = Inr q"
  using assms by (auto simp: normalize_and_validate_iff nfc_law_def)

lemma verify_own_hash:
  assumes nfc: "nfc_law nfc" and hs: "hasher_law hs" and h: "password_hash nfc hs salt p = Inr h"
    and q: "normalize_and_validate nfc q = Inr q'"
  shows "password_verify nfc hs h q = Inr (if nfc q = nfc p then MATCH else MISMATCH)"
proof -
  from h have "hash_password hs salt (nfc p) = Some h"
    by (auto simp: password_hash_def result_simps normalize_and_validate_iff split: option.splits)
  then have "verify_password hs h (nfc q) = (if nfc q = nfc p then VerifyOk else VerifyMismatchError)"
    using hs unfolding hasher_law_def by blast
  moreover have "q' = nfc q" using q by (simp add: normalize_and_validate_iff)
  ultimately show ?thesis using q by (simp add: password_verify_def)
qed

text \<open>A hasher for which the laws hold, for concrete evaluation: it replaces each character by its successor.\<close>

definition shifting_hasher :: hasher where
  "shifting_hasher = \<lparr>hash_password = \<lambda>salt p. Some (map Suc p),
     verify_password = \<lambda>h q. if map Suc q = h then VerifyOk else VerifyMismatchError,
     needs_rehash = \<lambda>h. Some False\<rparr>"

lemma shifting_hasher_law: "hasher_law shifting_hasher"
  by (simp add: hasher_law_def shifting_hasher_def inj_map_eq_map)

lemma nfc_law_id: "nfc_law (\<lambda>s. s)"
  by (simp add: nfc_law_def)

section \<open>Properties\<close>

text \<open>
  A stored hash verifies exactly the passwords that are canonically equivalent to the one
  it was made of: two spellings with the same NFC form match, any others do not, and a hash of
  the service is never reported as malformed.
\<close>

theorem password_matches_iff_equivalent:
  assumes "nfc_law nfc" and "hasher_law hs" and "password_hash nfc hs salt p = Inr h"
    and "normalize_and_validate nfc q = Inr q'"
  shows "password_verify nfc hs h q = Inr (if nfc q = nfc p then MATCH else MISMATCH)"
  using assms by (rule verify_own_hash)

theorem password_matches_iff_equivalent_witness:
  "password_verify (\<lambda>s. s) shifting_hasher (map Suc (lit ''correct horse battery'')) (lit ''correct horse staple'')
     = Inr MISMATCH"
  using password_matches_iff_equivalent [OF nfc_law_id shifting_hasher_law,
      of "[]" "lit ''correct horse battery''" "map Suc (lit ''correct horse battery'')"
        "lit ''correct horse staple''" "lit ''correct horse staple''"]
  by (simp add: password_hash_def normalize_and_validate_def shifting_hasher_def is_surrogate_def
      MIN_PASSWORD_LENGTH_def MAX_PASSWORD_LENGTH_def)

end
