(* ===== verification/IdentityService.thy ===== *)
theory IdentityService
  imports IdentityStore Tokens Email Passwords
begin

text \<open>
  The identity use cases (\<open>identity/service.py\<close>): registration, login, authentication, logout
  and the cleanup of inactive sessions, each with its transactions. Random values, the clock,
  failing transactions, rows locked elsewhere and what other transactions do between the two of
  a login are inputs of a call.
\<close>

definition IDLE_TIMEOUT :: int where
  "IDLE_TIMEOUT = hours 2"

definition ABSOLUTE_TIMEOUT :: int where
  "ABSOLUTE_TIMEOUT = hours 12"

definition CLEANUP_BATCH_SIZE :: nat where
  "CLEANUP_BATCH_SIZE = 100"

datatype identity_exc =
    EmailPolicyError email_error
  | PasswordError password_error
  | TokenError token_error
  | ClockIsNaive
  | DuplicateIdentity
  | InvalidCredentials
  | AuthenticationRequired
  | InvalidCsrf
  | IntegrityError constraint_name
  | MultipleResultsFound
  | DatabaseError

datatype session_state = REVOKED | ABSOLUTE_EXPIRED | IDLE_EXPIRED | ACTIVE

datatype logout_result = LogoutRevoked | AlreadyInactive

record identity_env =
  nfc :: "pystr \<Rightarrow> pystr"
  password_hasher :: hasher
  sha256 :: "bytes \<Rightarrow> bytes"
  dummy_password_hash :: pystr

record call_inputs =
  clock :: clock_reading
  fails :: "nat \<Rightarrow> bool"
  locked :: "uuid \<Rightarrow> bool"
  meanwhile :: "identity_db \<Rightarrow> identity_db"
  new_user_id :: uuid
  new_session_id :: uuid
  new_bearer :: bytes
  new_csrf :: bytes
  new_salt :: bytes

record user_reference =
  ref_user_id :: uuid
  ref_email :: pystr
  ref_created_at :: instant
  ref_updated_at :: instant

record session_material =
  material_row :: session_row
  material_bearer :: pystr
  material_csrf :: pystr

record session_issuance =
  issued_user :: user_reference
  issued_session_id :: uuid
  issued_bearer :: pystr
  issued_csrf :: pystr
  issued_expires_at :: instant

record authenticated_context =
  context_user :: user_reference
  context_session_id :: uuid
  context_csrf :: bytes
  context_expires_at :: instant

text \<open>The service's constructor hashes a random password for the comparisons that must fail.\<close>

definition init_identity_service ::
  "(pystr \<Rightarrow> pystr) \<Rightarrow> hasher \<Rightarrow> (bytes \<Rightarrow> bytes) \<Rightarrow> bytes \<Rightarrow> bytes \<Rightarrow> identity_exc + identity_env" where
  "init_identity_service nf hs sha raw salt =
     bind_result (map_sum TokenError id (encode_token raw)) (\<lambda>dummy_password.
     bind_result (map_sum PasswordError id (password_hash nf hs salt dummy_password)) (\<lambda>h.
       Inr \<lparr>nfc = nf, password_hasher = hs, sha256 = sha, dummy_password_hash = h\<rparr>))"

definition fault :: "call_inputs \<Rightarrow> nat \<Rightarrow> identity_exc option" where
  "fault c n = (if fails c n then Some DatabaseError else None)"

fun validate_time :: "clock_reading \<Rightarrow> identity_exc + instant" where
  "validate_time NaiveTime = Inl ClockIsNaive"
| "validate_time (AwareTime t) = Inr t"

definition classify_session :: "session_row \<Rightarrow> instant \<Rightarrow> session_state" where
  "classify_session s now =
     (if revoked_at s \<noteq> None then REVOKED
      else if absolute_expires_at s \<le> now then ABSOLUTE_EXPIRED
      else if last_seen_at s \<le> now - IDLE_TIMEOUT then IDLE_EXPIRED
      else ACTIVE)"

definition issue_session ::
  "identity_env \<Rightarrow> call_inputs \<Rightarrow> uuid \<Rightarrow> instant \<Rightarrow> identity_exc + session_material" where
  "issue_session env c uid now =
     bind_result (map_sum TokenError id (hash_session_token (sha256 env) (new_bearer c))) (\<lambda>h.
     bind_result (map_sum TokenError id (encode_token (new_bearer c))) (\<lambda>bearer.
     bind_result (map_sum TokenError id (encode_token (new_csrf c))) (\<lambda>csrf.
       Inr \<lparr>material_row =
             \<lparr>session_id = new_session_id c, session_user_id = uid, token_hash = h,
              csrf_token = new_csrf c, session_created_at = now, last_seen_at = now,
              absolute_expires_at = now + ABSOLUTE_TIMEOUT, revoked_at = None\<rparr>,
            material_bearer = bearer, material_csrf = csrf\<rparr>)))"

definition user_reference_of :: "user_row \<Rightarrow> user_reference" where
  "user_reference_of u =
     \<lparr>ref_user_id = user_id u, ref_email = user_email u, ref_created_at = user_created_at u,
      ref_updated_at = user_updated_at u\<rparr>"

definition issuance_of :: "user_row \<Rightarrow> session_material \<Rightarrow> session_issuance" where
  "issuance_of u m =
     \<lparr>issued_user = user_reference_of u, issued_session_id = session_id (material_row m),
      issued_bearer = material_bearer m, issued_csrf = material_csrf m,
      issued_expires_at = absolute_expires_at (material_row m)\<rparr>"

section \<open>Cleanup\<close>

definition delete_inactive :: "call_inputs \<Rightarrow> instant \<Rightarrow> identity_db \<Rightarrow> identity_exc + nat \<times> identity_db" where
  "delete_inactive c now db =
     (let (n, ss) = delete_inactive_batch (locked c) now IDLE_TIMEOUT CLEANUP_BATCH_SIZE (sessions db)
      in Inr (n, db\<lparr>sessions := ss\<rparr>))"

definition cleanup_inactive_sessions ::
  "call_inputs \<Rightarrow> nat \<Rightarrow> clock_reading option \<Rightarrow> identity_db \<Rightarrow> (identity_exc + nat) \<times> identity_db" where
  "cleanup_inactive_sessions c n given db =
     (case validate_time (case given of Some t \<Rightarrow> t | None \<Rightarrow> clock c) of
        Inl e \<Rightarrow> (Inl e, db)
      | Inr now \<Rightarrow> transaction (fault c n) db (delete_inactive c now))"

text \<open>Best effort: a failure of the database is swallowed.\<close>

definition cleanup_after_success :: "call_inputs \<Rightarrow> nat \<Rightarrow> instant \<Rightarrow> identity_db \<Rightarrow> identity_db" where
  "cleanup_after_success c n now db = snd (cleanup_inactive_sessions c n (Some (AwareTime now)) db)"

section \<open>Registration\<close>

definition prepare_registration ::
  "identity_env \<Rightarrow> call_inputs \<Rightarrow> pystr \<Rightarrow> pystr \<Rightarrow>
     identity_exc + user_row \<times> session_material \<times> instant" where
  "prepare_registration env c address password =
     bind_result (map_sum EmailPolicyError id (canonicalize_email address)) (\<lambda>ce.
     bind_result (map_sum PasswordError id (normalize_and_validate (nfc env) password)) (\<lambda>pw.
     bind_result (map_sum PasswordError id (password_hash (nfc env) (password_hasher env) (new_salt c) pw)) (\<lambda>h.
     bind_result (validate_time (clock c)) (\<lambda>now.
     bind_result (issue_session env c (new_user_id c) now) (\<lambda>m.
       Inr (\<lparr>user_id = new_user_id c, user_email = email ce,
             user_email_normalized = email_normalized ce, user_password_hash = h,
             user_created_at = now, user_updated_at = now\<rparr>, m, now))))))"

definition add_session :: "session_row \<Rightarrow> identity_db \<Rightarrow> identity_exc + identity_db" where
  "add_session s db =
     (case insert_session (users db) s (sessions db) of
        Inl name \<Rightarrow> Inl (IntegrityError name)
      | Inr ss \<Rightarrow> Inr (db\<lparr>sessions := ss\<rparr>))"

definition add_user :: "user_row \<Rightarrow> identity_db \<Rightarrow> identity_exc + identity_db" where
  "add_user u db =
     (case insert_user u (users db) of
        Inl name \<Rightarrow> Inl (IntegrityError name)
      | Inr us \<Rightarrow> Inr (db\<lparr>users := us\<rparr>))"

definition register_commit ::
  "user_row \<Rightarrow> session_material \<Rightarrow> identity_db \<Rightarrow> identity_exc + unit \<times> identity_db" where
  "register_commit u m db =
     bind_result (add_user u db) (\<lambda>db1.
     bind_result (add_session (material_row m) db1) (\<lambda>db2. Inr ((), db2)))"

definition as_duplicate :: "identity_exc \<Rightarrow> identity_exc" where
  "as_duplicate e =
     (if e = IntegrityError ''uq_users_email_normalized'' then DuplicateIdentity else e)"

definition register ::
  "identity_env \<Rightarrow> call_inputs \<Rightarrow> pystr \<Rightarrow> pystr \<Rightarrow> identity_db \<Rightarrow>
     (identity_exc + session_issuance) \<times> identity_db" where
  "register env c address password db =
     (case prepare_registration env c address password of
        Inl e \<Rightarrow> (Inl e, db)
      | Inr (u, m, now) \<Rightarrow>
          (case transaction (fault c 0) db (register_commit u m) of
             (Inl e, db1) \<Rightarrow> (Inl (as_duplicate e), db1)
           | (Inr _, db1) \<Rightarrow> (Inr (issuance_of u m), cleanup_after_success c 1 now db1)))"

section \<open>Login\<close>

definition verify_dummy :: "identity_env \<Rightarrow> pystr \<Rightarrow> identity_exc + unit" where
  "verify_dummy env pw =
     bind_result (map_sum PasswordError id
         (password_verify (nfc env) (password_hasher env) (dummy_password_hash env) pw))
       (\<lambda>_. Inr ())"

definition reject_login :: "identity_env \<Rightarrow> pystr \<Rightarrow> identity_exc + 'a" where
  "reject_login env pw = bind_result (verify_dummy env pw) (\<lambda>_. Inl InvalidCredentials)"

definition find_credentials ::
  "pystr \<Rightarrow> identity_db \<Rightarrow> identity_exc + (uuid \<times> pystr) option \<times> identity_db" where
  "find_credentials normalized db =
     (case get_credentials_by_email (users db) normalized of
        None \<Rightarrow> Inl MultipleResultsFound
      | Some snapshot \<Rightarrow> Inr (snapshot, db))"

text \<open>Between the transactions: the password is checked and a replacement hash made if due.\<close>

definition check_password ::
  "identity_env \<Rightarrow> call_inputs \<Rightarrow> pystr \<Rightarrow> pystr \<Rightarrow> identity_exc + pystr option" where
  "check_password env c pw stored =
     bind_result (map_sum PasswordError id (password_verify (nfc env) (password_hasher env) stored pw)) (\<lambda>v.
       if v = MISMATCH then Inl InvalidCredentials
       else if v = MALFORMED then reject_login env pw
       else bind_result (map_sum PasswordError id (check_needs_rehash (password_hasher env) stored)) (\<lambda>due.
         if due
         then bind_result (map_sum PasswordError id
                (password_hash (nfc env) (password_hasher env) (new_salt c) pw)) (\<lambda>h. Inr (Some h))
         else Inr None))"

definition update_user :: "user_row \<Rightarrow> identity_db \<Rightarrow> identity_exc + identity_db" where
  "update_user u db =
     (case first_violated (user_row_checks u) of
        Some name \<Rightarrow> Inl (IntegrityError name)
      | None \<Rightarrow> Inr (db\<lparr>users := update_rows (\<lambda>r. user_id r = user_id u) (\<lambda>_. u) (users db)\<rparr>))"

definition login_commit ::
  "uuid \<times> pystr \<Rightarrow> pystr option \<Rightarrow> instant \<Rightarrow> session_material \<Rightarrow> identity_db \<Rightarrow>
     identity_exc + user_row \<times> identity_db" where
  "login_commit snapshot replacement now m db =
     (case get_user (users db) (fst snapshot) of
        None \<Rightarrow> Inl MultipleResultsFound
      | Some None \<Rightarrow> Inl InvalidCredentials
      | Some (Some u) \<Rightarrow>
          if user_password_hash u \<noteq> snd snapshot then Inl InvalidCredentials
          else
            let u' = (case replacement of
                 None \<Rightarrow> u
               | Some h \<Rightarrow> u\<lparr>user_password_hash := h, user_updated_at := now\<rparr>)
            in bind_result (if replacement = None then Inr db else update_user u' db) (\<lambda>db1.
               bind_result (add_session (material_row m) db1) (\<lambda>db2. Inr (u', db2))))"

definition finish_login ::
  "identity_env \<Rightarrow> call_inputs \<Rightarrow> pystr \<Rightarrow> uuid \<times> pystr \<Rightarrow> identity_db \<Rightarrow>
     (identity_exc + session_issuance) \<times> identity_db" where
  "finish_login env c pw snapshot db =
     (case bind_result (check_password env c pw (snd snapshot)) (\<lambda>replacement.
           bind_result (validate_time (clock c)) (\<lambda>now.
           bind_result (issue_session env c (fst snapshot) now) (\<lambda>m. Inr (replacement, now, m)))) of
        Inl e \<Rightarrow> (Inl e, db)
      | Inr (replacement, now, m) \<Rightarrow>
          (case transaction (fault c 1) (meanwhile c db) (login_commit snapshot replacement now m) of
             (Inl e, db2) \<Rightarrow> (Inl e, db2)
           | (Inr u, db2) \<Rightarrow> (Inr (issuance_of u m), cleanup_after_success c 2 now db2)))"

definition login ::
  "identity_env \<Rightarrow> call_inputs \<Rightarrow> pystr \<Rightarrow> pystr \<Rightarrow> identity_db \<Rightarrow>
     (identity_exc + session_issuance) \<times> identity_db" where
  "login env c address password db =
     (case normalize_and_validate (nfc env) password of
        Inl e \<Rightarrow> (Inl (PasswordError e), db)
      | Inr pw \<Rightarrow>
          (case canonicalize_email address of
             Inl _ \<Rightarrow> (reject_login env pw, db)
           | Inr ce \<Rightarrow>
               (case transaction (fault c 0) db (find_credentials (email_normalized ce)) of
                  (Inl e, db1) \<Rightarrow> (Inl e, db1)
                | (Inr None, db1) \<Rightarrow> (reject_login env pw, db1)
                | (Inr (Some snapshot), db1) \<Rightarrow> finish_login env c pw snapshot db1)))"

section \<open>Authentication and logout\<close>

definition bearer_hash :: "identity_env \<Rightarrow> pystr option \<Rightarrow> token_error + bytes" where
  "bearer_hash env bearer =
     (case bearer of
        None \<Rightarrow> Inl TokenEncodingError
      | Some text \<Rightarrow> bind_result (decode_token text) (hash_session_token (sha256 env)))"

definition authenticate_body ::
  "bytes \<Rightarrow> instant \<Rightarrow> identity_db \<Rightarrow> identity_exc + authenticated_context \<times> identity_db" where
  "authenticate_body h now db =
     (case authenticate_and_touch h now IDLE_TIMEOUT (sessions db) of
        (None, _) \<Rightarrow> Inl MultipleResultsFound
      | (Some None, _) \<Rightarrow> Inl AuthenticationRequired
      | (Some (Some s), ss) \<Rightarrow>
          (case get_user (users db) (session_user_id s) of
             None \<Rightarrow> Inl MultipleResultsFound
           | Some None \<Rightarrow> Inl AuthenticationRequired
           | Some (Some u) \<Rightarrow>
               Inr (\<lparr>context_user = user_reference_of u, context_session_id = session_id s,
                     context_csrf = csrf_token s, context_expires_at = absolute_expires_at s\<rparr>,
                    db\<lparr>sessions := ss\<rparr>)))"

definition authenticate ::
  "identity_env \<Rightarrow> call_inputs \<Rightarrow> pystr option \<Rightarrow> identity_db \<Rightarrow>
     (identity_exc + authenticated_context) \<times> identity_db" where
  "authenticate env c bearer db =
     (case bearer_hash env bearer of
        Inl _ \<Rightarrow> (Inl AuthenticationRequired, db)
      | Inr h \<Rightarrow>
          (case validate_time (clock c) of
             Inl e \<Rightarrow> (Inl e, db)
           | Inr now \<Rightarrow> transaction (fault c 0) db (authenticate_body h now)))"

definition update_session :: "session_row \<Rightarrow> identity_db \<Rightarrow> identity_exc + identity_db" where
  "update_session s db =
     (case first_violated (session_row_checks s) of
        Some name \<Rightarrow> Inl (IntegrityError name)
      | None \<Rightarrow> Inr (db\<lparr>sessions := update_rows (\<lambda>r. session_id r = session_id s) (\<lambda>_. s) (sessions db)\<rparr>))"

definition logout_body ::
  "bytes \<Rightarrow> bytes option \<Rightarrow> instant \<Rightarrow> identity_db \<Rightarrow> identity_exc + logout_result \<times> identity_db" where
  "logout_body h supplied now db =
     (case get_session_by_token_hash (sessions db) h of
        None \<Rightarrow> Inl MultipleResultsFound
      | Some None \<Rightarrow> Inr (AlreadyInactive, db)
      | Some (Some s) \<Rightarrow>
          if classify_session s now \<noteq> ACTIVE then Inr (AlreadyInactive, db)
          else if (case supplied of None \<Rightarrow> True | Some t \<Rightarrow> \<not> csrf_tokens_match (csrf_token s) t)
          then Inl InvalidCsrf
          else bind_result (update_session (s\<lparr>revoked_at := Some now\<rparr>) db)
                 (\<lambda>db1. Inr (LogoutRevoked, db1)))"

definition logout ::
  "identity_env \<Rightarrow> call_inputs \<Rightarrow> pystr option \<Rightarrow> bytes option \<Rightarrow> identity_db \<Rightarrow>
     (identity_exc + logout_result) \<times> identity_db" where
  "logout env c bearer supplied db =
     (case bearer_hash env bearer of
        Inl _ \<Rightarrow> (Inr AlreadyInactive, db)
      | Inr h \<Rightarrow>
          (case validate_time (clock c) of
             Inl e \<Rightarrow> (Inl e, db)
           | Inr now \<Rightarrow> transaction (fault c 0) db (logout_body h supplied now)))"

end
