(* ===== verification/IdentityLifecycle.thy ===== *)
theory IdentityLifecycle
  imports IdentityService
begin

text \<open>
  The lifecycle of accounts and sessions: the tables stay consistent under every call, a bearer
  authenticates exactly while its session is active, and a session that has ended never comes
  back. The transactions of all calls are the steps of one relation, so that the lifecycle
  covers any interleaving of calls at the granularity of the code's transactions.
\<close>

section \<open>Every transaction keeps the tables consistent\<close>

lemma add_user_ok:
  assumes "identity_ok db" and "add_user u db = Inr db'"
  shows "identity_ok db'"
proof -
  obtain us where us: "insert_user u (users db) = Inr us" and db': "db' = db\<lparr>users := us\<rparr>"
    using assms(2) by (auto simp: add_user_def split: sum.splits)
  then have "us = users db @ [u]" using users_by_id.ins_appends by blast
  then show ?thesis
    using assms(1) us users_by_id.ins_table_ok users_by_email.ins_table_ok
    by (auto simp: identity_ok_def db')
qed

lemma add_session_ok:
  assumes "identity_ok db" and "add_session s db = Inr db'"
  shows "identity_ok db'"
proof -
  obtain ss where ss: "insert_session (users db) s (sessions db) = Inr ss" and db': "db' = db\<lparr>sessions := ss\<rparr>"
    using assms(2) by (auto simp: add_session_def split: sum.splits)
  then have "ss = sessions db @ [s]" "session_user_id s \<in> user_id ` set (users db)"
    by (auto simp: insert_session_def insert_row_Inr session_constraints_def)
  then show ?thesis
    using assms(1) ss sessions_by_id.ins_table_ok sessions_by_token.ins_table_ok
    by (auto simp: identity_ok_def db')
qed

lemma add_session_db:
  "add_session s db = Inr db' \<Longrightarrow> users db' = users db \<and> sessions db' = sessions db @ [s]"
  by (auto simp: add_session_def insert_session_def insert_row_Inr split: sum.splits)

lemma add_user_db:
  "add_user u db = Inr db' \<Longrightarrow> users db' = users db @ [u] \<and> sessions db' = sessions db"
  by (auto simp: add_user_def insert_user_def insert_row_Inr split: sum.splits)

lemma register_commit_ok:
  "identity_ok db \<Longrightarrow> register_commit u m db = Inr (x, db') \<Longrightarrow> identity_ok db'"
  by (auto simp: register_commit_def result_simps intro: add_user_ok add_session_ok)

text \<open>Replacing a row by one with the same keys.\<close>

lemma update_user_ok:
  assumes ok: "identity_ok db" and u: "u \<in> set (users db)" "user_id u' = user_id u"
    "user_email_normalized u' = user_email_normalized u" and upd: "update_user u' db = Inr db'"
  shows "identity_ok db'"
proof -
  let ?c = "\<lambda>r. user_id r = user_id u'"
  have row: "user_row_ok u'" and db': "db' = db\<lparr>users := update_rows ?c (\<lambda>_. u') (users db)\<rparr>"
    using upd first_violated_None [of "user_row_checks u'"]
    by (auto simp: update_user_def user_row_ok_def split: option.splits)
  have same: "r = u" if "r \<in> set (users db)" "?c r" for r
    using that u ok by (auto simp: identity_ok_def intro: users_by_id.key_unique)
  have ids: "map user_id (update_rows ?c (\<lambda>_. u') (users db)) = map user_id (users db)"
    by (rule map_update_rows) simp
  have emails: "map user_email_normalized (update_rows ?c (\<lambda>_. u') (users db)) =
      map user_email_normalized (users db)"
    using same u(3) by (auto simp: update_rows_def)
  have rows: "list_all user_row_ok (update_rows ?c (\<lambda>_. u') (users db))"
    using ok row by (auto simp: identity_ok_def users_by_id.table_ok_def list_all_iff set_update_rows)
  have idset: "user_id ` set (update_rows ?c (\<lambda>_. u') (users db)) = user_id ` set (users db)"
    using arg_cong [OF ids, of set] by simp
  show ?thesis
    using ok ids emails rows idset
    by (simp add: identity_ok_def db' users_by_id.table_ok_def users_by_email.table_ok_def)
qed

lemma update_session_ok:
  assumes ok: "identity_ok db" and s: "s \<in> set (sessions db)" "session_id s' = session_id s"
    "token_hash s' = token_hash s" "session_user_id s' = session_user_id s"
    and upd: "update_session s' db = Inr db'"
  shows "identity_ok db'"
proof -
  let ?c = "\<lambda>r. session_id r = session_id s'"
  have row: "session_row_ok s'" and db': "db' = db\<lparr>sessions := update_rows ?c (\<lambda>_. s') (sessions db)\<rparr>"
    using upd first_violated_None [of "session_row_checks s'"]
    by (auto simp: update_session_def session_row_ok_def split: option.splits)
  have same: "r = s" if "r \<in> set (sessions db)" "?c r" for r
    using that s ok by (auto simp: identity_ok_def intro: sessions_by_id.key_unique)
  have ids: "map session_id (update_rows ?c (\<lambda>_. s') (sessions db)) = map session_id (sessions db)"
    by (rule map_update_rows) simp
  have toks: "map token_hash (update_rows ?c (\<lambda>_. s') (sessions db)) = map token_hash (sessions db)"
    using same s(3) by (auto simp: update_rows_def)
  have rows: "list_all session_row_ok (update_rows ?c (\<lambda>_. s') (sessions db))"
    using ok row by (auto simp: identity_ok_def sessions_by_id.table_ok_def list_all_iff set_update_rows)
  have "\<forall>r \<in> set (update_rows ?c (\<lambda>_. s') (sessions db)). session_user_id r \<in> user_id ` set (users db)"
    using ok s by (auto simp: identity_ok_def set_update_rows)
  then show ?thesis
    using ok ids toks rows
    by (simp add: identity_ok_def db' sessions_by_id.table_ok_def sessions_by_token.table_ok_def)
qed

lemma login_commit_ok:
  assumes ok: "identity_ok db" and commit: "login_commit snapshot replacement now m db = Inr (u', db')"
  shows "identity_ok db'"
proof -
  from commit obtain u where u: "get_user (users db) (fst snapshot) = Some (Some u)"
    by (auto simp: login_commit_def split: option.splits)
  then have mem: "u \<in> set (users db)" using get_user_iff [OF ok] by blast
  show ?thesis
  proof (cases replacement)
    case None
    then show ?thesis using commit u ok
      by (auto simp: login_commit_def Let_def result_simps split: if_splits intro: add_session_ok)
  next
    case (Some h)
    then obtain db1 where upd: "update_user (u\<lparr>user_password_hash := h, user_updated_at := now\<rparr>) db = Inr db1"
      and add: "add_session (material_row m) db1 = Inr db'"
      using commit u by (auto simp: login_commit_def Let_def result_simps split: if_splits)
    have "identity_ok db1" by (rule update_user_ok [OF ok mem _ _ upd]) simp_all
    then show ?thesis using add by (rule add_session_ok)
  qed
qed

lemma authenticate_body_Inr:
  assumes "identity_ok db"
  shows "authenticate_body h now db = Inr (ctx, db') \<longleftrightarrow>
    (\<exists>s \<in> set (sessions db). \<exists>u \<in> set (users db).
       touchable h now IDLE_TIMEOUT s \<and> user_id u = session_user_id s \<and>
       ctx = \<lparr>context_user = user_reference_of u, context_session_id = session_id s,
         context_csrf = csrf_token s, context_expires_at = absolute_expires_at s\<rparr> \<and>
       db' = db\<lparr>sessions := update_rows (touchable h now IDLE_TIMEOUT) (touch now) (sessions db)\<rparr>)"
proof -
  let ?a = "authenticate_and_touch h now IDLE_TIMEOUT (sessions db)"
  have snd: "snd ?a = update_rows (touchable h now IDLE_TIMEOUT) (touch now) (sessions db)"
    by (simp add: authenticate_and_touch_def)
  obtain r ss where a: "?a = (r, ss)" by (cases ?a)
  consider (none) "r = Some None" | (one) s' where "r = Some (Some s')"
    using authenticate_and_touch_iff(3) [OF assms, of h now IDLE_TIMEOUT] a by (cases r) force+
  then show ?thesis
  proof cases
    case none
    then have "\<forall>s \<in> set (sessions db). \<not> touchable h now IDLE_TIMEOUT s"
      using authenticate_and_touch_iff(2) [OF assms, of h now IDLE_TIMEOUT] a by simp
    then show ?thesis using a none by (auto simp: authenticate_body_def)
  next
    case (one s')
    then obtain s where s: "s \<in> set (sessions db)" "touchable h now IDLE_TIMEOUT s" "s' = touch now s"
      using authenticate_and_touch_iff(1) [OF assms, of h now IDLE_TIMEOUT s'] a by auto
    have uniq: "q = s" if "q \<in> set (sessions db)" "touchable h now IDLE_TIMEOUT q" for q
      using that s assms by (auto simp: identity_ok_def touchable_def intro: sessions_by_token.key_unique)
    have "session_user_id s \<in> user_id ` set (users db)" using assms s by (auto simp: identity_ok_def)
    then obtain u where u: "get_user (users db) (session_user_id s) = Some (Some u)"
      "u \<in> set (users db)" "user_id u = session_user_id s"
      using get_user_iff(1) [OF assms] by auto
    have uu: "v = u" if "v \<in> set (users db)" "user_id v = session_user_id s" for v
      using that u assms by (auto simp: identity_ok_def intro: users_by_id.key_unique)
    have ss: "ss = update_rows (touchable h now IDLE_TIMEOUT) (touch now) (sessions db)"
      using snd a by simp
    have eval: "authenticate_body h now db =
      Inr (\<lparr>context_user = user_reference_of u, context_session_id = session_id s,
          context_csrf = csrf_token s, context_expires_at = absolute_expires_at s\<rparr>,
        db\<lparr>sessions := update_rows (touchable h now IDLE_TIMEOUT) (touch now) (sessions db)\<rparr>)"
      unfolding authenticate_body_def a one ss by (simp add: s(3) u(1))
    show ?thesis (is "_ \<longleftrightarrow> ?found")
    proof
      assume "authenticate_body h now db = Inr (ctx, db')"
      then show ?found
        using eval s(2) u(3) by (intro bexI [OF _ s(1)] bexI [OF _ u(2)]) simp
    next
      assume ?found
      then obtain q v where qv: "q \<in> set (sessions db)" "touchable h now IDLE_TIMEOUT q"
        "v \<in> set (users db)" "user_id v = session_user_id q"
        and res: "ctx = \<lparr>context_user = user_reference_of v, context_session_id = session_id q,
          context_csrf = csrf_token q, context_expires_at = absolute_expires_at q\<rparr>"
          "db' = db\<lparr>sessions := update_rows (touchable h now IDLE_TIMEOUT) (touch now) (sessions db)\<rparr>"
        by blast
      from qv(1,2) have "q = s" by (rule uniq)
      moreover from this have "v = u" using uu qv(3,4) by blast
      ultimately show "authenticate_body h now db = Inr (ctx, db')" using eval res by simp
    qed
  qed
qed

lemma authenticate_body_ok:
  assumes "identity_ok db" and "authenticate_body h now db = Inr (ctx, db')"
  shows "identity_ok db'"
proof -
  let ?ss = "update_rows (touchable h now IDLE_TIMEOUT) (touch now) (sessions db)"
  have db': "db' = db\<lparr>sessions := ?ss\<rparr>" using assms authenticate_body_Inr by blast
  have row: "session_row_ok (touch now s)" if "s \<in> set (sessions db)" "touchable h now IDLE_TIMEOUT s" for s
    using that assms(1) by (intro touch_row_ok)
      (auto simp: identity_ok_def sessions_by_id.table_ok_def list_all_iff)
  have "sessions_by_id.table_ok ?ss"
    by (rule sessions_by_id.update_table_ok) (use assms(1) row in \<open>auto simp: identity_ok_def\<close>)
  moreover have "sessions_by_token.table_ok ?ss"
    by (rule sessions_by_token.update_table_ok) (use assms(1) row in \<open>auto simp: identity_ok_def\<close>)
  moreover have "\<forall>r \<in> set ?ss. session_user_id r \<in> user_id ` set (users db)"
    using assms(1) by (auto simp: identity_ok_def set_update_rows)
  ultimately show ?thesis using assms(1) by (simp add: identity_ok_def db')
qed

lemma logout_body_ok:
  assumes "identity_ok db" and "logout_body h supplied now db = Inr (r, db')"
  shows "identity_ok db'"
proof (cases "db' = db")
  case False
  then obtain s where s: "get_session_by_token_hash (sessions db) h = Some (Some s)"
    "update_session (s\<lparr>revoked_at := Some now\<rparr>) db = Inr db'"
    using assms(2) by (auto simp: logout_body_def result_simps split: option.splits if_splits)
  then have "s \<in> set (sessions db)" using get_session_iff [OF assms(1)] by blast
  then show ?thesis using update_session_ok [OF assms(1) _ _ _ _ s(2)] by simp
qed (use assms in simp)

lemma delete_inactive_ok:
  "identity_ok db \<Longrightarrow> delete_inactive c now db = Inr (n, db') \<Longrightarrow> identity_ok db'"
  by (auto simp: delete_inactive_def delete_inactive_batch_def Let_def identity_ok_def
      intro: sessions_by_id.filter_table_ok sessions_by_token.filter_table_ok)

section \<open>Every call keeps the tables consistent\<close>

lemma transaction_ok:
  assumes "identity_ok db" and "\<And>x d. body db = Inr (x, d) \<Longrightarrow> identity_ok d"
  shows "identity_ok (snd (transaction f db body))"
  using assms by (auto simp: transaction_def split: sum.splits option.splits)

lemma cleanup_ok: "identity_ok db \<Longrightarrow> identity_ok (snd (cleanup_inactive_sessions c n given db))"
  by (auto simp: cleanup_inactive_sessions_def split: sum.splits
      intro!: transaction_ok intro: delete_inactive_ok)

lemma cleanup_after_success_ok: "identity_ok db \<Longrightarrow> identity_ok (cleanup_after_success c n now db)"
  by (simp add: cleanup_after_success_def cleanup_ok)

lemma register_ok:
  assumes "identity_ok db"
  shows "identity_ok (snd (register env c address password db))"
proof (cases "prepare_registration env c address password")
  case (Inr p)
  obtain u m now where p: "p = (u, m, now)" by (cases p)
  obtain r db1 where t: "transaction (fault c 0) db (register_commit u m) = (r, db1)"
    by (cases "transaction (fault c 0) db (register_commit u m)")
  have "identity_ok (snd (transaction (fault c 0) db (register_commit u m)))"
    using assms by (rule transaction_ok) (use assms register_commit_ok in blast)
  then have "identity_ok db1" using t by simp
  then show ?thesis
    using Inr p t by (cases r) (auto simp: register_def cleanup_after_success_ok)
qed (use assms in \<open>simp add: register_def\<close>)

lemma find_credentials_db: "find_credentials e db = Inr (x, db') \<Longrightarrow> db' = db"
  by (auto simp: find_credentials_def split: option.splits)

lemma transaction_find_credentials:
  "transaction f db (find_credentials e) = (r, db') \<Longrightarrow> db' = db"
  by (auto simp: transaction_def dest: find_credentials_db split: sum.splits option.splits)

lemma finish_login_ok:
  assumes "identity_ok (meanwhile c db)" and "identity_ok db"
  shows "identity_ok (snd (finish_login env c pw snapshot db))"
proof (cases "bind_result (check_password env c pw (snd snapshot)) (\<lambda>replacement.
           bind_result (validate_time (clock c)) (\<lambda>now.
           bind_result (issue_session env c (fst snapshot) now) (\<lambda>m. Inr (replacement, now, m))))")
  case (Inr x)
  obtain replacement now m where x: "x = (replacement, now, m)" by (cases x)
  obtain r db2 where t: "transaction (fault c 1) (meanwhile c db) (login_commit snapshot replacement now m) = (r, db2)"
    by (cases "transaction (fault c 1) (meanwhile c db) (login_commit snapshot replacement now m)")
  have "identity_ok (snd (transaction (fault c 1) (meanwhile c db) (login_commit snapshot replacement now m)))"
    using assms(1) by (rule transaction_ok) (use assms(1) login_commit_ok in blast)
  then have "identity_ok db2" using t by simp
  then show ?thesis
    using Inr x t by (cases r) (auto simp: finish_login_def cleanup_after_success_ok)
qed (use assms in \<open>simp add: finish_login_def\<close>)

lemma login_ok:
  assumes "\<And>d. identity_ok d \<Longrightarrow> identity_ok (meanwhile c d)" and "identity_ok db"
  shows "identity_ok (snd (login env c address password db))"
  using assms by (auto simp: login_def intro!: finish_login_ok
      dest!: transaction_find_credentials split: sum.splits prod.splits option.splits)

lemma authenticate_ok: "identity_ok db \<Longrightarrow> identity_ok (snd (authenticate env c bearer db))"
  by (auto simp: authenticate_def split: sum.splits
      intro!: transaction_ok intro: authenticate_body_ok)

lemma logout_ok: "identity_ok db \<Longrightarrow> identity_ok (snd (logout env c bearer supplied db))"
  by (auto simp: logout_def split: sum.splits intro!: transaction_ok intro: logout_body_ok)

section \<open>Steps\<close>

text \<open>
  \<open>identity_step now issued db db'\<close>: a transaction of some call at \<open>now\<close> takes \<open>db\<close> to \<open>db'\<close>;
  \<open>issued\<close> is the token hash of the session it creates, if any. Transactions that change
  nothing are not steps.
\<close>

inductive identity_step :: "instant \<Rightarrow> bytes option \<Rightarrow> identity_db \<Rightarrow> identity_db \<Rightarrow> bool" where
  step_register: "register_commit u m db = Inr (x, db') \<Longrightarrow>
    identity_step now (Some (token_hash (material_row m))) db db'"
| step_login: "login_commit snapshot replacement now m db = Inr (u, db') \<Longrightarrow>
    identity_step now (Some (token_hash (material_row m))) db db'"
| step_authenticate: "authenticate_body h now db = Inr (ctx, db') \<Longrightarrow> identity_step now None db db'"
| step_logout: "logout_body h supplied now db = Inr (r, db') \<Longrightarrow> identity_step now None db db'"
| step_cleanup: "delete_inactive c now db = Inr (n, db') \<Longrightarrow> identity_step now None db db'"

inductive_cases identity_stepE: "identity_step now issued db db'"

text \<open>Runs in which time does not go back and no session with the token hash \<open>h\<close> is created.\<close>

inductive identity_run :: "bytes \<Rightarrow> instant \<Rightarrow> identity_db \<Rightarrow> instant \<Rightarrow> identity_db \<Rightarrow> bool"
  for h t db where
  run_start: "identity_run h t db t db"
| run_step: "identity_run h t db t1 db1 \<Longrightarrow> identity_step t2 issued db1 db2 \<Longrightarrow> t1 \<le> t2 \<Longrightarrow>
    issued \<noteq> Some h \<Longrightarrow> identity_run h t db t2 db2"

lemma identity_step_ok: "identity_step now issued db db' \<Longrightarrow> identity_ok db \<Longrightarrow> identity_ok db'"
  by (erule identity_stepE)
    (auto intro: register_commit_ok login_commit_ok authenticate_body_ok logout_body_ok delete_inactive_ok)

lemma identity_run_ok: "identity_run h t db t' db' \<Longrightarrow> identity_ok db \<Longrightarrow> identity_ok db'"
  by (induction rule: identity_run.induct) (auto intro: identity_step_ok)

text \<open>\<open>usable db h now\<close>: a bearer whose token hashes to \<open>h\<close> has an active session.\<close>

definition usable :: "identity_db \<Rightarrow> bytes \<Rightarrow> instant \<Rightarrow> bool" where
  "usable db h now \<longleftrightarrow> (\<exists>s \<in> set (sessions db). token_hash s = h \<and> classify_session s now = ACTIVE)"

lemma touchable_iff: "touchable h now IDLE_TIMEOUT s \<longleftrightarrow> token_hash s = h \<and> classify_session s now = ACTIVE"
  by (auto simp: touchable_def classify_session_def)

lemma inactive_iff: "inactive now IDLE_TIMEOUT s \<longleftrightarrow> classify_session s now \<noteq> ACTIVE"
  by (auto simp: inactive_def classify_session_def)

lemma active_earlier: "classify_session s t' = ACTIVE \<Longrightarrow> t \<le> t' \<Longrightarrow> classify_session s t = ACTIVE"
  by (auto simp: classify_session_def split: if_splits)

lemma usable_earlier: "usable db h t' \<Longrightarrow> t \<le> t' \<Longrightarrow> usable db h t"
  using active_earlier by (auto simp: usable_def)

text \<open>A step makes no bearer usable, except the one it issues.\<close>

lemma identity_step_usable:
  assumes step: "identity_step now issued db db'" and "issued \<noteq> Some h" and ok: "identity_ok db"
    and use: "usable db' h t" and t: "now \<le> t"
  shows "usable db h now"
proof -
  from use obtain s' where s': "s' \<in> set (sessions db')" "token_hash s' = h"
    "classify_session s' t = ACTIVE" by (auto simp: usable_def)
  have now: "classify_session s' now = ACTIVE" using s'(3) t by (rule active_earlier)
  from step show ?thesis
  proof cases
    case (step_register u m)
    then have "sessions db' = sessions db @ [material_row m]"
      by (auto simp: register_commit_def result_simps dest!: add_user_db add_session_db)
    then show ?thesis using s' now step_register assms(2) by (auto simp: usable_def)
  next
    case (step_login snapshot replacement m u)
    then have "sessions db' = sessions db @ [material_row m]"
      by (auto simp: login_commit_def update_user_def Let_def result_simps
          dest!: add_session_db split: option.splits if_splits)
    then show ?thesis using s' now step_login assms(2) by (auto simp: usable_def)
  next
    case (step_authenticate k ctx)
    then have "sessions db' = update_rows (touchable k now IDLE_TIMEOUT) (touch now) (sessions db)"
      using authenticate_body_Inr [OF ok] by auto
    with s'(1) consider "s' \<in> set (sessions db)"
      | s where "s \<in> set (sessions db)" "touchable k now IDLE_TIMEOUT s" "s' = touch now s"
      by (auto simp: set_update_rows)
    then show ?thesis using s' now by cases (auto simp: usable_def touchable_iff)
  next
    case (step_logout k supplied r)
    show ?thesis
    proof (cases "s' \<in> set (sessions db)")
      case False
      then have "revoked_at s' = Some now"
        using step_logout s'(1) by (auto simp: logout_body_def update_session_def result_simps set_update_rows
            split: option.splits if_splits)
      then show ?thesis using now by (simp add: classify_session_def)
    qed (use s' now in \<open>auto simp: usable_def\<close>)
  next
    case (step_cleanup c n)
    then have "s' \<in> set (sessions db)"
      using s'(1) by (auto simp: delete_inactive_def delete_inactive_batch_def Let_def)
    then show ?thesis using s' now by (auto simp: usable_def)
  qed
qed

lemma identity_run_time: "identity_run h t db t' db' \<Longrightarrow> t \<le> t'"
  by (induction rule: identity_run.induct) auto

lemma dead_stays_dead:
  assumes "identity_run h t db t' db'" and "identity_ok db" and "\<not> usable db h t"
  shows "\<not> usable db' h t'"
  using assms
proof (induction rule: identity_run.induct)
  case (run_step t1 db1 t2 issued db2)
  then have "identity_ok db1" "\<not> usable db1 h t1" using identity_run_ok by auto
  then have "\<not> usable db1 h t2" using usable_earlier run_step by blast
  then show ?case using identity_step_usable [OF run_step(2) _ \<open>identity_ok db1\<close>] run_step by blast
qed

section \<open>What a call achieves\<close>

lemma hash_session_token_Inr [result_simps]:
  "hash_session_token sha raw = Inr h \<longleftrightarrow> length raw = 32 \<and> h = sha raw"
  by (auto simp: hash_session_token_def TOKEN_BYTES_def)

lemma bearer_hash_Inr:
  "bearer_hash env bearer = Inr h \<longleftrightarrow>
     (\<exists>text raw. bearer = Some text \<and> decode_token text = Inr raw \<and> h = sha256 env raw)"
  by (auto simp: bearer_hash_def result_simps session_token.dec_valid [unfolded TOKEN_BYTES_def]
      split: option.splits)

lemma authenticate_eval:
  assumes "decode_token text = Inr raw" and "clock c = AwareTime now" and "\<not> fails c 0"
  shows "authenticate env c (Some text) db =
    (case authenticate_body (sha256 env raw) now db of Inl e \<Rightarrow> (Inl e, db) | Inr (x, d) \<Rightarrow> (Inr x, d))"
proof -
  have "bearer_hash env (Some text) = Inr (sha256 env raw)" using assms(1) by (simp add: bearer_hash_Inr)
  then show ?thesis
    using assms(2,3) by (auto simp: authenticate_def fault_def transaction_def split: sum.splits prod.splits)
qed

lemma authenticate_body_dead:
  assumes "identity_ok db" and "\<not> usable db h now"
  shows "authenticate_body h now db = Inl AuthenticationRequired"
proof -
  have "\<forall>s \<in> set (sessions db). \<not> touchable h now IDLE_TIMEOUT s"
    using assms(2) by (auto simp: usable_def touchable_iff)
  then have "fst (authenticate_and_touch h now IDLE_TIMEOUT (sessions db)) = Some None"
    using authenticate_and_touch_iff(2) [OF assms(1)] by blast
  then show ?thesis
    by (cases "authenticate_and_touch h now IDLE_TIMEOUT (sessions db)") (simp add: authenticate_body_def)
qed

lemma authenticate_body_usable:
  assumes "identity_ok db" and "usable db h now"
  shows "\<exists>ctx db'. authenticate_body h now db = Inr (ctx, db')"
proof -
  from assms(2) obtain s where s: "s \<in> set (sessions db)" "touchable h now IDLE_TIMEOUT s"
    by (auto simp: usable_def touchable_iff)
  moreover obtain u where "u \<in> set (users db)" "user_id u = session_user_id s"
    using assms(1) s(1) by (auto simp: identity_ok_def)
  ultimately show ?thesis using authenticate_body_Inr [OF assms(1), of h now] by blast
qed

lemma context_of_session:
  assumes ok: "identity_ok db" and body: "authenticate_body h now db = Inr (ctx, db')"
  shows "\<exists>s \<in> set (sessions db). token_hash s = h \<and> classify_session s now = ACTIVE \<and>
    context_session_id ctx = session_id s \<and> context_csrf ctx = csrf_token s \<and>
    ref_user_id (context_user ctx) = session_user_id s \<and>
    now < session_created_at s + hours 12 \<and> now < last_seen_at s + hours 2"
proof -
  from body obtain s u where s: "s \<in> set (sessions db)" "touchable h now IDLE_TIMEOUT s"
    "user_id u = session_user_id s"
    and ctx: "ctx = \<lparr>context_user = user_reference_of u, context_session_id = session_id s,
         context_csrf = csrf_token s, context_expires_at = absolute_expires_at s\<rparr>"
    using authenticate_body_Inr [OF ok] by blast
  have "session_row_ok s" using ok s(1) by (auto simp: identity_ok_def sessions_by_id.table_ok_def list_all_iff)
  then have "now < session_created_at s + hours 12" "now < last_seen_at s + hours 2"
    using s(2) by (auto simp: session_row_ok_iff touchable_def IDLE_TIMEOUT_def)
  moreover have "classify_session s now = ACTIVE" "token_hash s = h" using s(2) by (simp_all add: touchable_iff)
  ultimately show ?thesis using s ctx by (auto simp: user_reference_of_def)
qed

lemma logout_revokes:
  assumes ok: "identity_ok db" and out: "logout_body h supplied now db = Inr (LogoutRevoked, db')"
  shows "usable db h now \<and> \<not> usable db' h now \<and>
    (\<exists>s \<in> set (sessions db). token_hash s = h \<and> supplied = Some (csrf_token s) \<and>
       sessions db' = update_rows (\<lambda>r. r = s) (\<lambda>r. r\<lparr>revoked_at := Some now\<rparr>) (sessions db))"
proof -
  from out obtain s where s: "get_session_by_token_hash (sessions db) h = Some (Some s)"
    and active: "classify_session s now = ACTIVE" and csrf: "supplied = Some (csrf_token s)"
    and upd: "update_session (s\<lparr>revoked_at := Some now\<rparr>) db = Inr db'"
    by (auto simp: logout_body_def csrf_tokens_match_def result_simps split: option.splits if_splits)
  from s have mem: "s \<in> set (sessions db)" "token_hash s = h" using get_session_iff [OF ok] by auto
  have only: "session_id r = session_id s \<longleftrightarrow> r = s" if "r \<in> set (sessions db)" for r
    using that mem ok by (auto simp: identity_ok_def intro: sessions_by_id.key_unique)
  have same: "r = s" if "r \<in> set (sessions db)" "token_hash r = h" for r
    using that mem ok by (auto simp: identity_ok_def intro: sessions_by_token.key_unique)
  have "sessions db' = update_rows (\<lambda>r. session_id r = session_id s)
      (\<lambda>_. s\<lparr>revoked_at := Some now\<rparr>) (sessions db)"
    using upd by (auto simp: update_session_def split: option.splits)
  also have "\<dots> = update_rows (\<lambda>r. r = s) (\<lambda>r. r\<lparr>revoked_at := Some now\<rparr>) (sessions db)"
    unfolding update_rows_def by (rule map_cong) (use only in auto)
  finally have ss: "sessions db' = update_rows (\<lambda>r. r = s) (\<lambda>r. r\<lparr>revoked_at := Some now\<rparr>) (sessions db)" .
  have "\<not> usable db' h now"
    using same by (auto simp: usable_def ss set_update_rows classify_session_def)
  moreover have "usable db h now" using mem active by (auto simp: usable_def)
  ultimately show ?thesis using mem csrf ss by blast
qed

lemma issue_session_Inr:
  "issue_session env c uid now = Inr m \<longleftrightarrow>
     length (new_bearer c) = 32 \<and> length (new_csrf c) = 32 \<and>
     (\<exists>b t. encode_token (new_bearer c) = Inr b \<and> encode_token (new_csrf c) = Inr t \<and>
        m = \<lparr>material_row =
             \<lparr>session_id = new_session_id c, session_user_id = uid,
              token_hash = sha256 env (new_bearer c), csrf_token = new_csrf c,
              session_created_at = now, last_seen_at = now,
              absolute_expires_at = now + ABSOLUTE_TIMEOUT, revoked_at = None\<rparr>,
            material_bearer = b, material_csrf = t\<rparr>)"
  using session_token.enc_valid [of "new_bearer c"] session_token.enc_valid [of "new_csrf c"]
  by (cases "encode_token (new_bearer c)"; cases "encode_token (new_csrf c)")
    (auto simp: issue_session_def hash_session_token_def TOKEN_BYTES_def result_simps)

text \<open>Registration, unpacked.\<close>

lemma prepare_registration_Inr:
  assumes "prepare_registration env c address password = Inr (u, m, now)"
  obtains ce pw h where "canonicalize_email address = Inr ce"
    "normalize_and_validate (nfc env) password = Inr pw"
    "password_hash (nfc env) (password_hasher env) (new_salt c) pw = Inr h"
    "clock c = AwareTime now" "issue_session env c (new_user_id c) now = Inr m"
    "u = \<lparr>user_id = new_user_id c, user_email = email ce,
      user_email_normalized = email_normalized ce, user_password_hash = h,
      user_created_at = now, user_updated_at = now\<rparr>"
  using assms
  by (cases "clock c") (auto simp: prepare_registration_def result_simps map_sum_def split: sum.splits)

lemma cleanup_users [simp]: "users (cleanup_after_success c n now db) = users db"
  by (auto simp: cleanup_after_success_def cleanup_inactive_sessions_def transaction_def
      delete_inactive_def split: sum.splits prod.splits option.splits)

lemma register_Inr:
  assumes "register env c address password db = (Inr iss, db')"
  obtains u m now db1 where "prepare_registration env c address password = Inr (u, m, now)"
    "register_commit u m db = Inr ((), db1)" "iss = issuance_of u m"
    "db' = cleanup_after_success c 1 now db1"
  using assms by (auto simp: register_def result_simps split: sum.splits prod.splits)

lemma register_commit_users: "register_commit u m db = Inr ((), db1) \<Longrightarrow> users db1 = users db @ [u]"
  by (auto simp: register_commit_def result_simps dest!: add_user_db add_session_db)

text \<open>A session for a known user, with fresh identifier and token, is accepted.\<close>

lemma add_session_fresh:
  assumes "issue_session env c uid now = Inr m" and "uid \<in> user_id ` set (users db)"
    and "length (sha256 env (new_bearer c)) = 32"
    and "new_session_id c \<notin> session_id ` set (sessions db)"
    and "sha256 env (new_bearer c) \<notin> token_hash ` set (sessions db)"
  shows "\<exists>db'. add_session (material_row m) db = Inr db'"
proof -
  have "list_all snd (session_constraints (users db) (sessions db) (material_row m))"
    using assms by (auto simp: issue_session_Inr session_constraints_def session_row_checks_def
        ABSOLUTE_TIMEOUT_def hours_def seconds_def)
  then have "insert_session (users db) (material_row m) (sessions db) = Inr (sessions db @ [material_row m])"
    by (simp add: insert_session_def insert_row_Inr)
  then show ?thesis by (simp add: add_session_def)
qed

lemma login_commit_total:
  assumes ok: "identity_ok db" and u: "u \<in> set (users db)" "user_created_at u \<le> now"
    and m: "issue_session env c (user_id u) now = Inr m" "length (sha256 env (new_bearer c)) = 32"
      "new_session_id c \<notin> session_id ` set (sessions db)"
      "sha256 env (new_bearer c) \<notin> token_hash ` set (sessions db)"
  shows "\<exists>u' db'. login_commit (user_id u, user_password_hash u) replacement now m db = Inr (u', db') \<and>
    user_id u' = user_id u"
proof -
  have get: "get_user (users db) (user_id u) = Some (Some u)" using get_user_iff(1) [OF ok] u(1) by simp
  have row: "user_row_ok u" using ok u(1) by (auto simp: identity_ok_def users_by_id.table_ok_def list_all_iff)
  let ?u' = "case replacement of None \<Rightarrow> u | Some h \<Rightarrow> u\<lparr>user_password_hash := h, user_updated_at := now\<rparr>"
  have "user_row_ok ?u'"
    using row u(2) by (auto simp: user_row_ok_def user_row_checks_def split: option.splits)
  then have "first_violated (user_row_checks ?u') = None"
    by (simp add: first_violated_None user_row_ok_def)
  then obtain db1 where db1: "(if replacement = None then Inr db else update_user ?u' db) = Inr db1"
    "sessions db1 = sessions db" "user_id u \<in> user_id ` set (users db1)"
    using u(1) image_update_rows [of "\<lambda>r. user_id r = user_id u" user_id "\<lambda>_. ?u'" "users db"]
    by (cases replacement) (auto simp: update_user_def)
  obtain db' where "add_session (material_row m) db1 = Inr db'"
    using add_session_fresh [OF m(1) db1(3) m(2)] m(3,4) db1(2) by auto
  then show ?thesis
    using get db1(1) by (cases replacement) (auto simp: login_commit_def Let_def)
qed

lemma login_after_registration:
  assumes laws: "nfc_law (nfc env)" "hasher_law (password_hasher env)"
      "\<And>salt p. hash_password (password_hasher env) salt p \<noteq> None"
      "\<And>raw. length (sha256 env raw) = 32"
    and ok: "identity_ok db" and reg: "register env c address password db = (Inr iss, db1)"
    and same: "map ascii_lower address' = map ascii_lower address" "nfc env password' = nfc env password"
    and c': "clock c' = AwareTime now'" "ref_created_at (issued_user iss) \<le> now'"
      "\<And>n. \<not> fails c' n" "\<And>d. meanwhile c' d = d"
      "length (new_bearer c') = 32" "length (new_csrf c') = 32"
      "new_session_id c' \<notin> session_id ` set (sessions db1)"
      "sha256 env (new_bearer c') \<notin> token_hash ` set (sessions db1)"
  shows "\<exists>iss' db2. login env c' address' password' db1 = (Inr iss', db2) \<and>
    ref_user_id (issued_user iss') = ref_user_id (issued_user iss)"
proof -
  from reg obtain u m now d where prep: "prepare_registration env c address password = Inr (u, m, now)"
    and commit: "register_commit u m db = Inr ((), d)" and iss: "iss = issuance_of u m"
    and db1: "db1 = cleanup_after_success c 1 now d" by (rule register_Inr)
  from prep obtain ce pw h where ce: "canonicalize_email address = Inr ce"
    and pw: "normalize_and_validate (nfc env) password = Inr pw"
    and h: "password_hash (nfc env) (password_hasher env) (new_salt c) pw = Inr h"
    and u: "user_email_normalized u = email_normalized ce" "user_password_hash u = h"
    by (rule prepare_registration_Inr) simp
  have mem: "u \<in> set (users db1)" using register_commit_users [OF commit] db1 by simp
  have ok1: "identity_ok db1" using register_ok [OF ok, of env c address password] reg by simp
  have pw': "normalize_and_validate (nfc env) password' = Inr pw"
    using pw same(2) by (simp add: normalize_and_validate_iff)
  have npw: "nfc env pw = pw" "normalize_and_validate (nfc env) pw = Inr pw"
    using pw laws(1) normalize_twice by (auto simp: normalize_and_validate_iff nfc_law_def)
  obtain ce' where ce': "canonicalize_email address' = Inr ce'" "email_normalized ce' = email_normalized ce"
    using login_identity_case [OF ce same(1)] by blast
  have "get_credentials_by_email (users db1) (email_normalized ce') = Some (Some (user_id u, h))"
    using get_credentials_iff(1) [OF ok1] mem u ce'(2) by fastforce
  then have find: "transaction (fault c' 0) db1 (find_credentials (email_normalized ce'))
      = (Inr (Some (user_id u, h)), db1)"
    using c'(3) by (simp add: transaction_def find_credentials_def fault_def)
  have "password_verify (nfc env) (password_hasher env) h pw = Inr MATCH"
    using verify_own_hash [OF laws(1,2) h npw(2)] by simp
  moreover have "needs_rehash (password_hasher env) h \<noteq> None"
    using laws(2) h npw(2) by (auto simp: hasher_law_def password_hash_def split: option.splits)
  moreover have "\<exists>h'. password_hash (nfc env) (password_hasher env) (new_salt c') pw = Inr h'"
    using laws(3) [of "new_salt c'" pw] npw by (auto simp: password_hash_def)
  ultimately have "\<exists>replacement. check_password env c' pw h = Inr replacement"
    by (cases "the (needs_rehash (password_hasher env) h)")
      (auto simp: check_password_def check_needs_rehash_def)
  then obtain replacement where check: "check_password env c' pw h = Inr replacement" ..
  obtain b t where tokens: "encode_token (new_bearer c') = Inr b" "encode_token (new_csrf c') = Inr t"
    using session_token.enc_total c'(5,6) by (metis TOKEN_BYTES_def)
  then obtain m' where m': "issue_session env c' (user_id u) now' = Inr m'"
    using c'(5,6) by (auto simp: issue_session_Inr)
  have "user_created_at u \<le> now'" using c'(2) iss by (simp add: issuance_of_def user_reference_of_def)
  then obtain u' db2 where "login_commit (user_id u, h) replacement now' m' db1 = Inr (u', db2)"
    "user_id u' = user_id u"
    using login_commit_total [OF ok1 mem _ m' laws(4) c'(7,8), of replacement] u(2) by blast
  then have "login env c' address' password' db1 = (Inr (issuance_of u' m'), cleanup_after_success c' 2 now' db2)
      \<and> user_id u' = user_id u"
    using pw' ce' find check m' c'(1,3,4)
    by (simp add: login_def finish_login_def transaction_def fault_def)
  then show ?thesis using iss by (auto simp: issuance_of_def user_reference_of_def)
qed

lemma login_sound:
  assumes ok: "identity_ok db" and log: "login env c address password db = (Inr iss, db')"
  shows "\<exists>ce pw u v. canonicalize_email address = Inr ce \<and>
    normalize_and_validate (nfc env) password = Inr pw \<and>
    u \<in> set (users db) \<and> user_email_normalized u = email_normalized ce \<and>
    v \<in> set (users (meanwhile c db)) \<and> user_id v = user_id u \<and>
    user_password_hash v = user_password_hash u \<and>
    ref_user_id (issued_user iss) = user_id u \<and>
    password_verify (nfc env) (password_hasher env) (user_password_hash u) pw = Inr MATCH"
proof -
  from log obtain pw ce where pw: "normalize_and_validate (nfc env) password = Inr pw"
    and ce: "canonicalize_email address = Inr ce"
    by (auto simp: login_def reject_login_def result_simps split: sum.splits)
  have reject: "reject_login env pw \<noteq> Inr x" for x :: session_issuance
    by (auto simp: reject_login_def result_simps)
  obtain r db1 where t: "transaction (fault c 0) db (find_credentials (email_normalized ce)) = (r, db1)"
    by (cases "transaction (fault c 0) db (find_credentials (email_normalized ce))")
  then have db1: "db1 = db" by (rule transaction_find_credentials)
  from log pw ce t reject obtain snapshot where snap: "r = Inr (Some snapshot)"
    and fin: "finish_login env c pw snapshot db = (Inr iss, db')"
    by (auto simp: login_def db1 split: sum.splits option.splits)
  from t snap have "get_credentials_by_email (users db) (email_normalized ce) = Some (Some snapshot)"
    by (auto simp: find_credentials_def result_simps split: option.splits)
  then obtain u where u: "u \<in> set (users db)" "user_email_normalized u = email_normalized ce"
    "snapshot = (user_id u, user_password_hash u)"
    using get_credentials_iff(1) [OF ok, of "email_normalized ce" "fst snapshot" "snd snapshot"] by auto
  from fin obtain replacement now m v db2 where check: "check_password env c pw (snd snapshot) = Inr replacement"
    and commit: "login_commit snapshot replacement now m (meanwhile c db) = Inr (v, db2)"
    and iss: "iss = issuance_of v m"
    by (auto simp: finish_login_def result_simps split: sum.splits prod.splits)
  have match: "password_verify (nfc env) (password_hasher env) (user_password_hash u) pw = Inr MATCH"
    using check u(3)
    by (cases "password_verify (nfc env) (password_hasher env) (user_password_hash u) pw")
      (auto simp: check_password_def reject_login_def result_simps split: if_splits
        intro: password_verification.exhaust)
  from commit obtain w where w: "get_user (users (meanwhile c db)) (fst snapshot) = Some (Some w)"
    "user_password_hash w = snd snapshot" "user_id v = user_id w"
    by (auto simp: login_commit_def Let_def result_simps split: option.splits if_splits)
  have "w \<in> set (users (meanwhile c db)) \<and> user_id w = fst snapshot"
    using w(1) by (auto simp: get_user_def dest!: one_or_none_SomeD)
  then show ?thesis
    using pw ce u match w iss by (intro exI [where x = ce] exI [where x = pw] exI [where x = u] exI [where x = w])
      (simp add: issuance_of_def user_reference_of_def)
qed

lemma registration_outcome:
  assumes len: "\<And>raw. length (sha256 env raw) = 32"
    and prep: "prepare_registration env c address password = Inr (u, m, now)"
    and c: "\<not> fails c 0" "new_user_id c \<notin> user_id ` set (users db)"
      "new_session_id c \<notin> session_id ` set (sessions db)"
      "sha256 env (new_bearer c) \<notin> token_hash ` set (sessions db)"
  shows "register env c address password db =
    (if user_email_normalized u \<in> user_email_normalized ` set (users db)
     then (Inl DuplicateIdentity, db)
     else (Inr (issuance_of u m),
       cleanup_after_success c 1 now
         (db\<lparr>users := users db @ [u], sessions := sessions db @ [material_row m]\<rparr>)))"
proof -
  obtain ce where ce: "canonicalize_email address = Inr ce" and m: "issue_session env c (new_user_id c) now = Inr m"
    and u: "user_id u = new_user_id c" "user_email u = email ce" "user_email_normalized u = email_normalized ce"
      "user_created_at u = user_updated_at u"
    using prep by (rule prepare_registration_Inr) simp
  have row: "list_all snd (user_row_checks u)"
    using canonical_forms [OF ce] u by (simp add: user_row_checks_def)
  show ?thesis
  proof (cases "user_email_normalized u \<in> user_email_normalized ` set (users db)")
    case True
    have "first_violated (user_constraints (users db) u) = Some ''uq_users_email_normalized''"
      using row u(1) c(2) True by (simp add: user_constraints_def first_violated_append)
    then have "register_commit u m db = Inl (IntegrityError ''uq_users_email_normalized'')"
      by (simp add: register_commit_def add_user_def insert_user_def insert_row_def)
    then show ?thesis
      using prep c(1) True by (simp add: register_def transaction_def fault_def as_duplicate_def)
  next
    case False
    have "insert_user u (users db) = Inr (users db @ [u])"
      using row u(1) c(2) False by (simp add: insert_user_def insert_row_Inr user_constraints_def)
    then have add: "add_user u db = Inr (db\<lparr>users := users db @ [u]\<rparr>)" by (simp add: add_user_def)
    have "list_all snd (session_constraints (users db @ [u]) (sessions db) (material_row m))"
      using m len u(1) c(3,4) by (auto simp: issue_session_Inr session_constraints_def session_row_checks_def
        ABSOLUTE_TIMEOUT_def hours_def seconds_def)
    then have "insert_session (users db @ [u]) (material_row m) (sessions db) =
        Inr (sessions db @ [material_row m])"
      by (simp add: insert_session_def insert_row_Inr)
    then have "add_session (material_row m) (db\<lparr>users := users db @ [u]\<rparr>) =
        Inr (db\<lparr>users := users db @ [u], sessions := sessions db @ [material_row m]\<rparr>)"
      by (simp add: add_session_def)
    with add show ?thesis
      using prep c(1) False by (simp add: register_def register_commit_def transaction_def fault_def)
  qed
qed

end
