(* ===== verification/IdentityProperties.thy ===== *)
theory IdentityProperties
  imports IdentityLifecycle
begin

text \<open>
  The properties of the identity component, with a small database on which each is evaluated.
\<close>

section \<open>A concrete service\<close>

definition sample_env :: identity_env where
  "sample_env = \<lparr>nfc = (\<lambda>s. s), password_hasher = shifting_hasher,
     sha256 = (\<lambda>raw. take 32 (raw @ replicate 32 0)), dummy_password_hash = []\<rparr>"

definition sample_call :: "instant \<Rightarrow> nat \<Rightarrow> byte \<Rightarrow> call_inputs" where
  "sample_call now n b =
     \<lparr>clock = AwareTime now, fails = (\<lambda>_. False), locked = (\<lambda>_. False), meanwhile = (\<lambda>db. db),
      new_user_id = Uuid n, new_session_id = Uuid n, new_bearer = replicate 32 b,
      new_csrf = replicate 32 b, new_salt = []\<rparr>"

definition empty_db :: identity_db where
  "empty_db = \<lparr>users = [], sessions = []\<rparr>"

definition sample_password :: pystr where
  "sample_password = replicate 15 112"

definition sample_user :: user_row where
  "sample_user = \<lparr>user_id = Uuid 1, user_email = lit ''A@b.co'',
     user_email_normalized = lit ''a@b.co'', user_password_hash = sample_password,
     user_created_at = 0, user_updated_at = 0\<rparr>"

definition sample_session :: session_row where
  "sample_session = \<lparr>session_id = Uuid 1, session_user_id = Uuid 1, token_hash = replicate 32 7,
     csrf_token = replicate 32 7, session_created_at = 0, last_seen_at = 0,
     absolute_expires_at = ABSOLUTE_TIMEOUT, revoked_at = None\<rparr>"

definition sample_db :: identity_db where
  "sample_db = \<lparr>users = [sample_user], sessions = [sample_session]\<rparr>"

lemma empty_db_ok: "identity_ok empty_db"
  by (simp add: identity_ok_def empty_db_def users_by_id.table_ok_def users_by_email.table_ok_def
      sessions_by_id.table_ok_def sessions_by_token.table_ok_def)

lemma sample_db_ok: "identity_ok sample_db"
  by (simp add: identity_ok_def sample_db_def users_by_id.table_ok_def users_by_email.table_ok_def
      sessions_by_id.table_ok_def sessions_by_token.table_ok_def user_row_ok_def user_row_checks_def
      session_row_ok_iff sample_user_def sample_session_def ABSOLUTE_TIMEOUT_def hours_def seconds_def
      ascii_lower_def)

lemma sample_sha_length: "length (sha256 sample_env raw) = 32"
  by (simp add: sample_env_def)

lemma sample_sha: "sha256 sample_env (replicate 32 b) = replicate 32 b"
  by (simp add: sample_env_def)

lemma sample_laws: "nfc_law (nfc sample_env)" "hasher_law (password_hasher sample_env)"
  "hash_password (password_hasher sample_env) salt p \<noteq> None"
  by (simp_all add: sample_env_def nfc_law_id shifting_hasher_law) (simp add: shifting_hasher_def)

lemma sample_prepare:
  "\<exists>u m. prepare_registration sample_env (sample_call now n b) (lit ''A@b.Co'') sample_password =
     Inr (u, m, now) \<and> user_email_normalized u = lit ''a@b.co'' \<and> user_created_at u = now"
proof -
  obtain t where "encode_token (replicate 32 b) = Inr t"
    using session_token.enc_total [of "replicate 32 b"] by (auto simp: TOKEN_BYTES_def)
  then show ?thesis
    unfolding prepare_registration_def short_address
    by (simp add: Let_def list_ex_iff sample_call_def sample_env_def normalize_and_validate_def password_hash_def
        shifting_hasher_def sample_password_def is_surrogate_def MIN_PASSWORD_LENGTH_def
        MAX_PASSWORD_LENGTH_def issue_session_def hash_session_token_def TOKEN_BYTES_def)
qed

lemma sample_bearer: "\<exists>t. decode_token t = Inr (replicate 32 b)"
  using session_token.enc_total [of "replicate 32 b"] session_token.dec_enc by (auto simp: TOKEN_BYTES_def)

text \<open>An account registered in the empty database can log in with another spelling.\<close>

lemma sample_registration:
  obtains iss db1 where
    "register sample_env (sample_call 0 2 9) (lit ''A@b.Co'') sample_password empty_db = (Inr iss, db1)"
    "ref_created_at (issued_user iss) = 0" "identity_ok db1"
    "session_id ` set (sessions db1) \<subseteq> {Uuid 2}" "token_hash ` set (sessions db1) \<subseteq> {replicate 32 9}"
proof -
  obtain u m where p: "prepare_registration sample_env (sample_call 0 2 9) (lit ''A@b.Co'') sample_password =
     Inr (u, m, 0)" "user_created_at u = 0" using sample_prepare by blast
  then have m: "session_id (material_row m) = Uuid 2" "token_hash (material_row m) = replicate 32 9"
    by (auto elim!: prepare_registration_Inr simp: issue_session_Inr sample_sha sample_call_def)
  let ?db = "cleanup_after_success (sample_call 0 2 9) 1 0
       (empty_db\<lparr>users := [u], sessions := [material_row m]\<rparr>)"
  have reg: "register sample_env (sample_call 0 2 9) (lit ''A@b.Co'') sample_password empty_db =
    (Inr (issuance_of u m), ?db)"
    using registration_outcome [OF sample_sha_length p(1), of empty_db]
    by (simp add: empty_db_def sample_call_def)
  moreover have "set (sessions ?db) \<subseteq> {material_row m}"
    by (auto simp: cleanup_after_success_def cleanup_inactive_sessions_def transaction_def fault_def
        sample_call_def delete_inactive_def delete_inactive_batch_def Let_def)
  moreover have "identity_ok ?db"
    using register_ok [OF empty_db_ok, of sample_env "sample_call 0 2 9" "lit ''A@b.Co''" sample_password]
      reg by simp
  moreover have "ref_created_at (issued_user (issuance_of u m)) = 0"
    using p(2) by (simp add: issuance_of_def user_reference_of_def)
  ultimately show thesis using that m by (smt (verit) image_subset_iff insert_iff singletonD subsetD)
qed

section \<open>Properties\<close>

text \<open>
  C22. No call breaks the identity tables: whatever a registration, login, authentication, logout
  or cleanup returns or raises, and whatever consistent work other transactions do in the middle
  of a login, every row satisfies its constraints, identifiers, login identities and token
  hashes are unique, and each session belongs to a user.
\<close>

theorem calls_keep_tables_consistent:
  assumes "identity_ok db" and "\<And>d. identity_ok d \<Longrightarrow> identity_ok (meanwhile c d)"
  shows "identity_ok (snd (register env c address password db)) \<and>
    identity_ok (snd (login env c address password db)) \<and>
    identity_ok (snd (authenticate env c bearer db)) \<and>
    identity_ok (snd (logout env c bearer supplied db)) \<and>
    identity_ok (snd (cleanup_inactive_sessions c 0 given db))"
  by (intro conjI register_ok [OF assms(1)] login_ok [OF assms(2,1)] authenticate_ok [OF assms(1)]
      logout_ok [OF assms(1)] cleanup_ok [OF assms(1)])

theorem calls_keep_tables_consistent_witness:
  "identity_ok (snd (register sample_env (sample_call 0 2 9) (lit ''c@d.co'') sample_password sample_db))"
  using calls_keep_tables_consistent [OF sample_db_ok, of "sample_call 0 2 9" sample_env
      "lit ''c@d.co''" sample_password]
  by (simp add: sample_call_def)

text \<open>
  C23. A bearer authenticates exactly while its session is active. It then gets the context of
  that session and its user; the session is younger than 12 hours and was seen within the last
  2. Any other bearer is told only that authentication is required, and changes nothing.
\<close>

theorem bearer_authenticates_iff_active:
  assumes "identity_ok db" and "decode_token text = Inr raw"
    and "clock c = AwareTime now" and "\<not> fails c 0"
  shows "(usable db (sha256 env raw) now \<longrightarrow>
      (\<exists>ctx db'. authenticate env c (Some text) db = (Inr ctx, db') \<and>
        (\<exists>s \<in> set (sessions db). token_hash s = sha256 env raw \<and> classify_session s now = ACTIVE \<and>
          context_session_id ctx = session_id s \<and> context_csrf ctx = csrf_token s \<and>
          ref_user_id (context_user ctx) = session_user_id s \<and>
          now < session_created_at s + hours 12 \<and> now < last_seen_at s + hours 2))) \<and>
    (\<not> usable db (sha256 env raw) now \<longrightarrow>
      authenticate env c (Some text) db = (Inl AuthenticationRequired, db))"
proof (intro conjI impI)
  assume "usable db (sha256 env raw) now"
  then obtain ctx db' where "authenticate_body (sha256 env raw) now db = Inr (ctx, db')"
    using authenticate_body_usable [OF assms(1)] by blast
  then show "\<exists>ctx db'. authenticate env c (Some text) db = (Inr ctx, db') \<and>
        (\<exists>s \<in> set (sessions db). token_hash s = sha256 env raw \<and> classify_session s now = ACTIVE \<and>
          context_session_id ctx = session_id s \<and> context_csrf ctx = csrf_token s \<and>
          ref_user_id (context_user ctx) = session_user_id s \<and>
          now < session_created_at s + hours 12 \<and> now < last_seen_at s + hours 2)"
    using context_of_session [OF assms(1)] by (simp add: authenticate_eval [OF assms(2-4)])
qed (simp add: authenticate_eval [OF assms(2-4)] authenticate_body_dead [OF assms(1)])

theorem bearer_authenticates_iff_active_witness:
  "\<exists>t. (\<exists>ctx db'. authenticate sample_env (sample_call 5 2 9) (Some t) sample_db = (Inr ctx, db')) \<and>
     (\<exists>t'. authenticate sample_env (sample_call 5 2 9) (Some t') sample_db = (Inl AuthenticationRequired, sample_db))"
proof -
  obtain t t' where t: "decode_token t = Inr (replicate 32 7)" "decode_token t' = Inr (replicate 32 8)"
    using sample_bearer by blast
  have "usable sample_db (replicate 32 7) 5"
    by (simp add: usable_def sample_db_def sample_session_def classify_session_def
        ABSOLUTE_TIMEOUT_def IDLE_TIMEOUT_def hours_def seconds_def)
  moreover have "\<not> usable sample_db (replicate 32 8) 5"
    by (simp add: usable_def sample_db_def sample_session_def)
  moreover have "clock (sample_call 5 2 9) = AwareTime 5" "\<not> fails (sample_call 5 2 9) 0"
    by (simp_all add: sample_call_def)
  ultimately show ?thesis
    using bearer_authenticates_iff_active [OF sample_db_ok t(1), of "sample_call 5 2 9" 5 sample_env]
      bearer_authenticates_iff_active [OF sample_db_ok t(2), of "sample_call 5 2 9" 5 sample_env]
    unfolding sample_sha by blast
qed



text \<open>
  C24. A logout that reports a revocation was made with an active session's bearer and that
  session's CSRF token; it ends that session at once and leaves every other one as it was.
\<close>

theorem logout_ends_its_session:
  assumes "identity_ok db" and "decode_token text = Inr raw" and "clock c = AwareTime now"
    and "logout env c (Some text) supplied db = (Inr LogoutRevoked, db')"
  shows "usable db (sha256 env raw) now \<and> \<not> usable db' (sha256 env raw) now \<and>
    (\<exists>s \<in> set (sessions db). token_hash s = sha256 env raw \<and> supplied = Some (csrf_token s) \<and>
       sessions db' = update_rows (\<lambda>r. r = s) (\<lambda>r. r\<lparr>revoked_at := Some now\<rparr>) (sessions db))"
proof -
  have "bearer_hash env (Some text) = Inr (sha256 env raw)" using assms(2) by (simp add: bearer_hash_Inr)
  then have "logout_body (sha256 env raw) supplied now db = Inr (LogoutRevoked, db')"
    using assms(3,4) by (simp add: logout_def result_simps)
  then show ?thesis using logout_revokes [OF assms(1)] by blast
qed

lemma sample_logout:
  "logout_body (replicate 32 7) (Some (replicate 32 7)) 5 sample_db =
     Inr (LogoutRevoked, sample_db\<lparr>sessions := [sample_session\<lparr>revoked_at := Some 5\<rparr>]\<rparr>)"
  by (simp add: logout_body_def get_session_by_token_hash_def sample_db_def sample_session_def
      classify_session_def csrf_tokens_match_def TOKEN_BYTES_def update_session_def
      session_row_checks_def update_rows_def ABSOLUTE_TIMEOUT_def IDLE_TIMEOUT_def
      hours_def seconds_def)

theorem logout_ends_its_session_witness:
  "\<exists>t db'. logout sample_env (sample_call 5 2 9) (Some t) (Some (replicate 32 7)) sample_db =
      (Inr LogoutRevoked, db') \<and> \<not> usable db' (replicate 32 7) 5"
proof -
  obtain t where t: "decode_token t = Inr (replicate 32 7)" using sample_bearer by blast
  have c: "clock (sample_call 5 2 9) = AwareTime 5" by (simp add: sample_call_def)
  have "bearer_hash sample_env (Some t) = Inr (replicate 32 7)"
    using t sample_sha by (simp add: bearer_hash_Inr)
  then have "logout sample_env (sample_call 5 2 9) (Some t) (Some (replicate 32 7)) sample_db =
      (Inr LogoutRevoked, sample_db\<lparr>sessions := [sample_session\<lparr>revoked_at := Some 5\<rparr>]\<rparr>)"
    using sample_logout by (simp add: logout_def transaction_def fault_def sample_call_def)
  with logout_ends_its_session [OF sample_db_ok t c this] show ?thesis
    unfolding sample_sha by blast
qed

text \<open>
  C4. A login that succeeds proves the password: the address names an account, the password
  verifies against the hash stored for it, and that hash is still the account's when the session
  is created, whatever happened in between.
\<close>

theorem login_requires_current_password:
  assumes "identity_ok db" and "login env c address password db = (Inr iss, db')"
  shows "\<exists>ce pw u v. canonicalize_email address = Inr ce \<and>
    normalize_and_validate (nfc env) password = Inr pw \<and>
    u \<in> set (users db) \<and> user_email_normalized u = email_normalized ce \<and>
    v \<in> set (users (meanwhile c db)) \<and> user_id v = user_id u \<and>
    user_password_hash v = user_password_hash u \<and>
    ref_user_id (issued_user iss) = user_id u \<and>
    password_verify (nfc env) (password_hasher env) (user_password_hash u) pw = Inr MATCH"
  using assms by (rule login_sound)

theorem login_requires_current_password_witness:
  "\<exists>db1 u. u \<in> set (users db1) \<and> identity_ok db1 \<and>
     password_verify (\<lambda>s. s) shifting_hasher (user_password_hash u) sample_password = Inr MATCH"
proof -
  obtain iss db1 where r:
    "register sample_env (sample_call 0 2 9) (lit ''A@b.Co'') sample_password empty_db = (Inr iss, db1)"
    "ref_created_at (issued_user iss) = 0" "identity_ok db1"
    "session_id ` set (sessions db1) \<subseteq> {Uuid 2}" "token_hash ` set (sessions db1) \<subseteq> {replicate 32 9}"
    by (rule sample_registration)
  have "\<exists>iss' db2. login sample_env (sample_call 10 3 8) (lit ''a@B.co'') sample_password db1 = (Inr iss', db2) \<and>
    ref_user_id (issued_user iss') = ref_user_id (issued_user iss)"
    by (rule login_after_registration [OF sample_laws sample_sha_length empty_db_ok r(1), of _ _ _ 10])
      (use r(2,4,5) in \<open>auto simp: sample_call_def sample_sha ascii_lower_def\<close>)
  then obtain iss' db2 where
    "login sample_env (sample_call 10 3 8) (lit ''a@B.co'') sample_password db1 = (Inr iss', db2)" by blast
  from login_requires_current_password [OF r(3) this] r(3) show ?thesis
    by (fastforce simp: sample_env_def normalize_and_validate_iff)
qed

text \<open>
  Registration is decided by the login identity: with valid input and fresh random values
  it adds exactly the account and its first session, unless the identity exists, in which case
  it reports a duplicate and changes nothing.
\<close>

theorem registration_outcome_by_identity:
  assumes "\<And>raw. length (sha256 env raw) = 32"
    and "prepare_registration env c address password = Inr (u, m, now)"
    and "\<not> fails c 0" and "new_user_id c \<notin> user_id ` set (users db)"
    and "new_session_id c \<notin> session_id ` set (sessions db)"
    and "sha256 env (new_bearer c) \<notin> token_hash ` set (sessions db)"
  shows "register env c address password db =
    (if user_email_normalized u \<in> user_email_normalized ` set (users db)
     then (Inl DuplicateIdentity, db)
     else (Inr (issuance_of u m),
       cleanup_after_success c 1 now
         (db\<lparr>users := users db @ [u], sessions := sessions db @ [material_row m]\<rparr>)))"
  using assms by (rule registration_outcome)

theorem registration_outcome_by_identity_witness:
  "register sample_env (sample_call 0 2 9) (lit ''A@b.Co'') sample_password sample_db =
     (Inl DuplicateIdentity, sample_db) \<and>
   (\<exists>iss db'. register sample_env (sample_call 0 2 9) (lit ''A@b.Co'') sample_password empty_db = (Inr iss, db'))"
proof -
  obtain u m where p: "prepare_registration sample_env (sample_call 0 2 9) (lit ''A@b.Co'') sample_password =
     Inr (u, m, 0)" and e: "user_email_normalized u = lit ''a@b.co''" using sample_prepare by blast
  have fresh: "\<not> fails (sample_call 0 2 9) 0" "new_user_id (sample_call 0 2 9) \<notin> user_id ` set (users sample_db)"
    "new_session_id (sample_call 0 2 9) \<notin> session_id ` set (sessions sample_db)"
    "sha256 sample_env (new_bearer (sample_call 0 2 9)) \<notin> token_hash ` set (sessions sample_db)"
    by (simp_all add: sample_call_def sample_db_def sample_user_def sample_session_def sample_env_def)
  have mem: "user_email_normalized u \<in> user_email_normalized ` set (users sample_db)"
    unfolding e by (simp add: sample_db_def sample_user_def)
  have "register sample_env (sample_call 0 2 9) (lit ''A@b.Co'') sample_password sample_db =
     (Inl DuplicateIdentity, sample_db)"
    using registration_outcome_by_identity [OF sample_sha_length p fresh] mem by simp
  moreover have "register sample_env (sample_call 0 2 9) (lit ''A@b.Co'') sample_password empty_db =
    (Inr (issuance_of u m), cleanup_after_success (sample_call 0 2 9) 1 0
       (empty_db\<lparr>users := [u], sessions := [material_row m]\<rparr>))"
    using registration_outcome_by_identity [OF sample_sha_length p, of empty_db] fresh(1)
    by (simp add: empty_db_def)
  ultimately show ?thesis by blast
qed

text \<open>
  C25. Registration and login agree: whoever registered can log in, with any spelling of the
  address that differs in case and any canonically equivalent spelling of the password, and is
  recognised as the same user.
\<close>

theorem registered_account_can_log_in:
  assumes "nfc_law (nfc env)" and "hasher_law (password_hasher env)"
    and "\<And>salt p. hash_password (password_hasher env) salt p \<noteq> None"
    and "\<And>raw. length (sha256 env raw) = 32"
    and "identity_ok db" and "register env c address password db = (Inr iss, db1)"
    and "map ascii_lower address' = map ascii_lower address"
    and "nfc env password' = nfc env password"
    and "clock c' = AwareTime now'" and "ref_created_at (issued_user iss) \<le> now'"
    and "\<And>n. \<not> fails c' n" and "\<And>d. meanwhile c' d = d"
    and "length (new_bearer c') = 32" and "length (new_csrf c') = 32"
    and "new_session_id c' \<notin> session_id ` set (sessions db1)"
    and "sha256 env (new_bearer c') \<notin> token_hash ` set (sessions db1)"
  shows "\<exists>iss' db2. login env c' address' password' db1 = (Inr iss', db2) \<and>
    ref_user_id (issued_user iss') = ref_user_id (issued_user iss)"
  using assms by (rule login_after_registration)

theorem registered_account_can_log_in_witness:
  "\<exists>iss db1 iss' db2.
     register sample_env (sample_call 0 2 9) (lit ''A@b.Co'') sample_password empty_db = (Inr iss, db1) \<and>
     login sample_env (sample_call 10 3 8) (lit ''a@B.co'') sample_password db1 = (Inr iss', db2)"
proof -
  obtain iss db1 where r:
    "register sample_env (sample_call 0 2 9) (lit ''A@b.Co'') sample_password empty_db = (Inr iss, db1)"
    "ref_created_at (issued_user iss) = 0"
    "session_id ` set (sessions db1) \<subseteq> {Uuid 2}" "token_hash ` set (sessions db1) \<subseteq> {replicate 32 9}"
    by (rule sample_registration)
  have "\<exists>iss' db2. login sample_env (sample_call 10 3 8) (lit ''a@B.co'') sample_password db1 = (Inr iss', db2) \<and>
    ref_user_id (issued_user iss') = ref_user_id (issued_user iss)"
    by (rule registered_account_can_log_in [OF sample_laws sample_sha_length empty_db_ok r(1), of _ _ _ 10])
      (use r(2-4) in \<open>auto simp: sample_call_def sample_sha ascii_lower_def\<close>)
  then show ?thesis using r(1) by blast
qed

lemma cleanup_batch:
  assumes ok: "identity_ok db" and del: "delete_inactive c now db = Inr (k, db')"
  shows "users db' = users db \<and> set (sessions db') \<subseteq> set (sessions db) \<and> k \<le> 100 \<and>
    (\<forall>s \<in> set (sessions db) - set (sessions db'). classify_session s now \<noteq> ACTIVE \<and> \<not> locked c (session_id s)) \<and>
    (k < 100 \<longrightarrow> (\<forall>s \<in> set (sessions db'). classify_session s now = ACTIVE \<or> locked c (session_id s)))"
proof -
  let ?dead = "filter (\<lambda>s. inactive now IDLE_TIMEOUT s \<and> \<not> locked c (session_id s)) (sessions db)"
  let ?ordered = "order_by (\<lambda>s. (absolute_expires_at s, session_id s)) ?dead"
  have k: "k = length (take 100 ?ordered)"
    and ss: "sessions db' = filter (\<lambda>s. session_id s \<notin> session_id ` set (take 100 ?ordered)) (sessions db)"
    and us: "users db' = users db"
    using del by (auto simp: delete_inactive_def delete_inactive_batch_def Let_def CLEANUP_BATCH_SIZE_def)
  have "inactive now IDLE_TIMEOUT s \<and> \<not> locked c (session_id s)"
    if "s \<in> set (sessions db)" "s \<notin> set (sessions db')" for s
    using delete_inactive_batch_kept [of "locked c" now IDLE_TIMEOUT CLEANUP_BATCH_SIZE "sessions db" k "sessions db'"]
      that del identity_ok_distinct(3) [OF ok]
    by (auto simp: delete_inactive_def split: prod.splits)
  moreover have "classify_session s now = ACTIVE \<or> locked c (session_id s)"
    if "k < 100" "s \<in> set (sessions db')" for s
  proof (rule ccontr)
    assume "\<not> ?thesis"
    then have "s \<in> set ?ordered" using that(2) ss by (auto simp: inactive_iff)
    moreover have "take 100 ?ordered = ?ordered" using that(1) k by simp
    ultimately show False using that(2) ss by auto
  qed
  moreover have "set (sessions db') \<subseteq> set (sessions db)" "k \<le> 100" using ss k by auto
  ultimately show ?thesis using us inactive_iff by auto
qed

text \<open>
  Cleanup is safe and makes progress: it deletes only sessions that have ended, so no
  bearer's standing changes, at most 100 in a batch, and a batch that is not full leaves no
  ended session behind except those another transaction holds.
\<close>

theorem cleanup_is_safe:
  assumes "identity_ok db" and "cleanup_inactive_sessions c n (Some (AwareTime now)) db = (Inr k, db')"
  shows "(\<forall>h. usable db' h now \<longleftrightarrow> usable db h now) \<and> k \<le> 100 \<and>
    (k < 100 \<longrightarrow> (\<forall>s \<in> set (sessions db'). classify_session s now = ACTIVE \<or> locked c (session_id s)))"
proof -
  have "delete_inactive c now db = Inr (k, db')"
    using assms(2) by (simp add: cleanup_inactive_sessions_def result_simps)
  from cleanup_batch [OF assms(1) this] show ?thesis by (auto simp: usable_def)
qed

theorem cleanup_is_safe_witness:
  "\<exists>k db'. cleanup_inactive_sessions (sample_call 0 2 9) 0 (Some (AwareTime (hours 3))) sample_db = (Inr k, db') \<and>
     \<not> usable db' (replicate 32 7) (hours 3)"
proof -
  obtain k db' where r: "cleanup_inactive_sessions (sample_call 0 2 9) 0 (Some (AwareTime (hours 3))) sample_db = (Inr k, db')"
    by (simp add: cleanup_inactive_sessions_def transaction_def delete_inactive_def fault_def
        sample_call_def delete_inactive_batch_def Let_def)
  have "\<not> usable sample_db (replicate 32 7) (hours 3)"
    by (simp add: usable_def sample_db_def sample_session_def classify_session_def IDLE_TIMEOUT_def
        hours_def seconds_def)
  then show ?thesis using cleanup_is_safe [OF sample_db_ok r] r by blast
qed

end
