(* ===== verification/SessionCleanup.thy ===== *)
theory SessionCleanup
  imports IdentityProperties
begin

text \<open>
  Cleanup called again and again (\<open>IdentityService.cleanup_inactive_sessions\<close>): one batch removes
  at most 100 ended sessions, so some number of calls removes them all.
\<close>

definition due :: "call_inputs \<Rightarrow> instant \<Rightarrow> session_row \<Rightarrow> bool" where
  "due c now s \<longleftrightarrow> classify_session s now \<noteq> ACTIVE \<and> \<not> locked c (session_id s)"

text \<open>\<open>m\<close> calls at the time \<open>now\<close>, with the same rows held by other transactions.\<close>

primrec cleanups :: "call_inputs \<Rightarrow> nat \<Rightarrow> instant \<Rightarrow> nat \<Rightarrow> identity_db \<Rightarrow> identity_db" where
  "cleanups c n now 0 db = db"
| "cleanups c n now (Suc m) db = cleanups c n now m (snd (cleanup_inactive_sessions c n (Some (AwareTime now)) db))"

text \<open>Removing the keys of some rows that all satisfy \<open>p\<close>.\<close>

lemma filter_keys_removed:
  assumes "distinct (map key rows)" and "set gone \<subseteq> set rows" and "distinct gone" and "\<And>r. r \<in> set gone \<Longrightarrow> p r"
  defines "kept \<equiv> filter (\<lambda>r. key r \<notin> key ` set gone) rows"
  shows "filter (\<lambda>r. \<not> p r) kept = filter (\<lambda>r. \<not> p r) rows"
    and "length (filter p kept) = length (filter p rows) - length gone"
proof -
  have inj: "key r \<in> key ` set gone \<longleftrightarrow> r \<in> set gone" if "r \<in> set rows" for r
    using assms(1,2) that by (auto simp: distinct_map inj_on_def)
  have kept: "kept = filter (\<lambda>r. r \<notin> set gone) rows" unfolding kept_def by (rule filter_cong) (simp_all add: inj)
  show "filter (\<lambda>r. \<not> p r) kept = filter (\<lambda>r. \<not> p r) rows"
    using assms(4) by (auto simp: kept intro!: filter_cong)
  have "distinct rows" using assms(1) by (simp add: distinct_map)
  then have "length (filter p kept) = card ({r \<in> set rows. p r} - set gone)"
    by (simp add: kept distinct_card [symmetric]) (rule arg_cong [where f = card], auto)
  also have "\<dots> = card {r \<in> set rows. p r} - card (set gone)"
    using assms(2,4) by (intro card_Diff_subset) auto
  finally show "length (filter p kept) = length (filter p rows) - length gone"
    using \<open>distinct rows\<close> assms(3) by (simp add: distinct_card [symmetric])
qed

lemma one_cleanup:
  fixes now :: instant
  assumes ok: "identity_ok db" and works: "\<not> fails c n"
  defines "db' \<equiv> snd (cleanup_inactive_sessions c n (Some (AwareTime now)) db)"
  shows "users db' = users db \<and> filter (\<lambda>s. \<not> due c now s) (sessions db') = filter (\<lambda>s. \<not> due c now s) (sessions db) \<and>
    length (filter (due c now) (sessions db')) = length (filter (due c now) (sessions db)) - 100"
proof -
  have due: "(\<lambda>s. inactive now IDLE_TIMEOUT s \<and> \<not> locked c (session_id s)) = due c now"
    by (rule ext) (auto simp: due_def inactive_iff)
  let ?dead = "filter (due c now) (sessions db)"
  define gone where "gone = take 100 (order_by (\<lambda>s. (absolute_expires_at s, session_id s)) ?dead)"
  have db': "db' = db\<lparr>sessions := filter (\<lambda>s. session_id s \<notin> session_id ` set gone) (sessions db)\<rparr>"
    using works by (simp add: db'_def cleanup_inactive_sessions_def transaction_def fault_def delete_inactive_def
        delete_inactive_batch_def Let_def due CLEANUP_BATCH_SIZE_def gone_def)
  have d: "distinct (map session_id (sessions db))" using identity_ok_distinct(3) [OF ok] .
  then have "distinct ?dead" by (simp add: distinct_map)
  then have "distinct gone" by (simp add: gone_def order_by_def)
  moreover have len: "length gone = min 100 (length ?dead)" by (simp add: gone_def order_by_def)
  moreover have dead: "set gone \<subseteq> set ?dead"
    unfolding gone_def by (rule subset_trans [OF set_take_subset]) simp
  then have "set gone \<subseteq> set (sessions db)" "\<And>r. r \<in> set gone \<Longrightarrow> due c now r" by auto
  ultimately have
    "filter (\<lambda>s. \<not> due c now s) (sessions db') = filter (\<lambda>s. \<not> due c now s) (sessions db)"
    "length (filter (due c now) (sessions db')) = length ?dead - length gone"
    using filter_keys_removed [OF d, of gone "due c now"] by (simp_all add: db')
  then show ?thesis using len by (simp add: db')
qed

lemma many_cleanups:
  assumes "identity_ok db" and "\<not> fails c n"
  shows "users (cleanups c n now m db) = users db \<and>
    filter (\<lambda>s. \<not> due c now s) (sessions (cleanups c n now m db)) = filter (\<lambda>s. \<not> due c now s) (sessions db) \<and>
    length (filter (due c now) (sessions (cleanups c n now m db))) = length (filter (due c now) (sessions db)) - 100 * m"
  using assms(1)
proof (induction m arbitrary: db)
  case (Suc m)
  then show ?case
    using one_cleanup [OF Suc.prems assms(2), of now] Suc.IH [OF cleanup_ok [OF Suc.prems]] by (simp add: algebra_simps)
qed simp

section \<open>Property\<close>

text \<open>
  C37. Cleanup finishes: each call that works removes 100 of the sessions that have ended and no
  other transaction holds, or all of them when there are fewer; after as many calls as there are
  hundreds, exactly these are gone, and users and all other sessions are as before, in their order.
\<close>

theorem repeated_cleanup_drains:
  assumes "identity_ok db" and "\<not> fails c n"
  shows "length (filter (due c now) (sessions (cleanups c n now m db))) = length (filter (due c now) (sessions db)) - 100 * m \<and>
    (length (filter (due c now) (sessions db)) \<le> 100 * m \<longrightarrow>
     cleanups c n now m db = db\<lparr>sessions := filter (\<lambda>s. \<not> due c now s) (sessions db)\<rparr>)"
proof -
  note drained = many_cleanups [OF assms, of now m]
  have "cleanups c n now m db = db\<lparr>sessions := filter (\<lambda>s. \<not> due c now s) (sessions db)\<rparr>"
    if "length (filter (due c now) (sessions db)) \<le> 100 * m"
  proof -
    have "filter (due c now) (sessions (cleanups c n now m db)) = []" using that drained by simp
    then have "filter (\<lambda>s. \<not> due c now s) (sessions (cleanups c n now m db)) = sessions (cleanups c n now m db)"
      by (simp add: filter_empty_conv)
    with drained show ?thesis by (cases "cleanups c n now m db"; cases db) simp
  qed
  with drained show ?thesis by blast
qed

theorem repeated_cleanup_drains_witness:
  "sessions sample_db \<noteq> [] \<and> sessions (cleanups (sample_call 0 2 9) 0 (hours 3) 1 sample_db) = []"
proof -
  have "\<not> fails (sample_call 0 2 9) 0" by (simp add: sample_call_def)
  from repeated_cleanup_drains [OF sample_db_ok this, of "hours 3" 1] show ?thesis
    by (simp add: sample_db_def sample_session_def due_def classify_session_def IDLE_TIMEOUT_def
        hours_def seconds_def sample_call_def)
qed

end
