(* ===== verification/Utf8.thy ===== *)
theory Utf8
  imports Prelude
begin

text \<open>
  UTF-8 as Python's strict \<open>utf-8\<close> and \<open>utf-8-sig\<close> codecs decode it, all at once or
  incrementally, chunk by chunk, as a text file is read. Bytes are their numbers here.
\<close>

definition cont :: "nat \<Rightarrow> bool" where
  "cont b \<longleftrightarrow> 128 \<le> b \<and> b \<le> 191"

text \<open>
  The second bytes a lead byte admits: over-long forms, surrogates and values beyond the last
  code point are excluded there.
\<close>

definition second_ok :: "nat \<Rightarrow> nat \<Rightarrow> bool" where
  "second_ok a b \<longleftrightarrow>
     (if a = 224 then 160 \<le> b \<and> b \<le> 191
      else if a = 237 then 128 \<le> b \<and> b \<le> 159
      else if a = 240 then 144 \<le> b \<and> b \<le> 191
      else if a = 244 then 128 \<le> b \<and> b \<le> 143
      else cont b)"

text \<open>How many bytes a lead byte announces; 0 for a byte that cannot lead.\<close>

definition sequence_length :: "nat \<Rightarrow> nat" where
  "sequence_length a =
     (if a < 128 then 1
      else if 194 \<le> a \<and> a \<le> 223 then 2
      else if 224 \<le> a \<and> a \<le> 239 then 3
      else if 240 \<le> a \<and> a \<le> 244 then 4
      else 0)"

text \<open>
  The first character of some bytes: \<open>Bad\<close> as soon as the bytes read cannot begin a character,
  \<open>Short\<close> when they can but do not complete one.
\<close>

datatype first_char = Bad | Short | Char code_point "nat list"

definition first_char :: "nat list \<Rightarrow> first_char" where
  "first_char bs =
     (case bs of
        [] \<Rightarrow> Short
      | a # r \<Rightarrow>
          if sequence_length a = 0 then Bad
          else if sequence_length a = 1 then Char a r
          else (case r of
              [] \<Rightarrow> Short
            | b # r \<Rightarrow>
                if \<not> second_ok a b then Bad
                else if sequence_length a = 2 then Char ((a - 192) * 64 + (b - 128)) r
                else (case r of
                    [] \<Rightarrow> Short
                  | c # r \<Rightarrow>
                      if \<not> cont c then Bad
                      else if sequence_length a = 3
                      then Char ((a - 224) * 4096 + (b - 128) * 64 + (c - 128)) r
                      else (case r of
                          [] \<Rightarrow> Short
                        | d # r \<Rightarrow>
                            if \<not> cont d then Bad
                            else Char ((a - 240) * 262144 + (b - 128) * 4096 + (c - 128) * 64 + (d - 128)) r))))"

lemma first_char_shorter: "first_char bs = Char c r \<Longrightarrow> length r < length bs"
  by (auto simp: first_char_def split: list.splits if_splits)

text \<open>
  \<open>codecs.utf_8_decode\<close> without \<open>final\<close>: the text and the bytes left over, or \<open>None\<close> for
  \<open>UnicodeDecodeError\<close>.
\<close>

function utf8_decode :: "nat list \<Rightarrow> (pystr \<times> nat list) option" where
  "utf8_decode bs =
     (case first_char bs of
        Bad \<Rightarrow> None
      | Short \<Rightarrow> Some ([], bs)
      | Char c r \<Rightarrow> map_option (\<lambda>(t, left). (c # t, left)) (utf8_decode r))"
  by auto
termination by (relation "measure length") (auto dest: first_char_shorter)

declare utf8_decode.simps [simp del]

definition utf8_encode_char :: "code_point \<Rightarrow> nat list" where
  "utf8_encode_char c =
     (if c < 128 then [c]
      else if c < 2048 then [192 + c div 64, 128 + c mod 64]
      else if c < 65536 then [224 + c div 4096, 128 + c div 64 mod 64, 128 + c mod 64]
      else [240 + c div 262144, 128 + c div 4096 mod 64, 128 + c div 64 mod 64, 128 + c mod 64])"

definition utf8_encode :: "pystr \<Rightarrow> nat list" where
  "utf8_encode s = concat (map utf8_encode_char s)"

definition is_scalar :: "code_point \<Rightarrow> bool" where
  "is_scalar c \<longleftrightarrow> c < 55296 \<or> 57344 \<le> c \<and> c < 1114112"

section \<open>Reading in chunks\<close>

definition BOM :: "nat list" where
  "BOM = [239, 187, 191]"

definition sig_body :: "nat list \<Rightarrow> nat list" where
  "sig_body bs = (if take 3 bs = BOM then drop 3 bs else bs)"

text \<open>
  One call of the incremental \<open>utf-8-sig\<close> decoder: \<open>first\<close> says that the beginning has not been
  decided yet, \<open>data\<close> is the buffered input with the new chunk. A beginning that may still become
  a byte order mark is kept even at the end of the file.
\<close>

definition sig_decode :: "bool \<Rightarrow> nat list \<Rightarrow> (pystr \<times> bool \<times> nat list) option" where
  "sig_decode first data =
     (if first \<and> length data < 3 \<and> take (length data) BOM = data then Some ([], True, data)
      else map_option (\<lambda>(t, left). (t, False, left))
        (utf8_decode (if first then sig_body data else data)))"

text \<open>What the reader gets: the text decoded until the end, or until the chunk that fails.\<close>

datatype source_end = EndOfFile | DecodeError

fun read_chunks :: "bool \<Rightarrow> nat list \<Rightarrow> nat list list \<Rightarrow> pystr \<times> source_end" where
  "read_chunks first left [] =
     (case sig_decode first left of
        None \<Rightarrow> ([], DecodeError)
      | Some (t, first', left') \<Rightarrow>
          (t, if first' \<or> left' = [] then EndOfFile else DecodeError))"
| "read_chunks first left (ch # chs) =
     (case sig_decode first (left @ ch) of
        None \<Rightarrow> ([], DecodeError)
      | Some (t, first', left') \<Rightarrow>
          let (t', e) = read_chunks first' left' chs in (t @ t', e))"

definition read_text :: "bytes list \<Rightarrow> pystr \<times> source_end" where
  "read_text chunks = read_chunks True [] (map (map unat) chunks)"

section \<open>Decoding undoes encoding\<close>

text \<open>The sextets of a number.\<close>

lemma sextets2: "(c::nat) = c div 64 * 64 + c mod 64" "c mod 64 < 64"
  by simp_all

lemma sextets3: "(c::nat) = c div 4096 * 4096 + c div 64 mod 64 * 64 + c mod 64"
proof -
  have "c div 64 = c div 64 div 64 * 64 + c div 64 mod 64" by simp
  moreover have "c div 64 div 64 = c div 4096" by (simp add: div_mult2_eq [symmetric])
  moreover have "c = c div 64 * 64 + c mod 64" by simp
  ultimately show ?thesis by linarith
qed

lemma sextets4:
  "(c::nat) = c div 262144 * 262144 + c div 4096 mod 64 * 4096 + c div 64 mod 64 * 64 + c mod 64"
proof -
  have "c div 4096 = c div 4096 div 64 * 64 + c div 4096 mod 64" by simp
  moreover have "c div 4096 div 64 = c div 262144" by (simp add: div_mult2_eq [symmetric])
  moreover note sextets3 [of c]
  ultimately show ?thesis by linarith
qed

lemma first_char2:
  assumes "128 \<le> c" "c < 2048"
  shows "first_char (utf8_encode_char c @ r) = Char c r"
proof -
  let ?x = "c div 64" and ?y = "c mod 64"
  have c: "c = ?x * 64 + ?y" by simp
  have b: "?y < 64" "?x < 32" using assms(2) by (simp_all add: less_mult_imp_div_less)
  have x: "2 \<le> ?x" using c b assms(1) by linarith
  have "second_ok (192 + ?x) (128 + ?y)" using b x by (auto simp: second_ok_def cont_def)
  moreover have "sequence_length (192 + ?x) = 2" using b x by (simp add: sequence_length_def)
  ultimately show ?thesis
    using assms c by (simp add: first_char_def utf8_encode_char_def)
qed

lemma first_char3:
  assumes "2048 \<le> c" "c < 65536" "c < 55296 \<or> 57344 \<le> c"
  shows "first_char (utf8_encode_char c @ r) = Char c r"
proof -
  let ?x = "c div 4096" and ?y = "c div 64 mod 64" and ?z = "c mod 64"
  have c: "c = ?x * 4096 + ?y * 64 + ?z" by (rule sextets3)
  have b: "?y < 64" "?z < 64" "?x < 16" using assms(2) by (simp_all add: less_mult_imp_div_less)
  have x0: "?x = 0 \<longrightarrow> 32 \<le> ?y" using c b(2) assms(1) by linarith
  have x13: "?x = 13 \<longrightarrow> ?y < 32"
  proof
    assume "?x = 13"
    then have "c < 55296" using c b assms(3) by linarith
    then show "?y < 32" using c \<open>?x = 13\<close> by linarith
  qed
  have "second_ok (224 + ?x) (128 + ?y)"
    using b x0 x13 by (auto simp: second_ok_def cont_def)
  moreover have "sequence_length (224 + ?x) = 3" using b by (simp add: sequence_length_def)
  moreover have "cont (128 + ?z)" using b by (simp add: cont_def)
  ultimately show ?thesis
    using assms(1,2) c by (simp add: first_char_def utf8_encode_char_def)
qed

lemma first_char4:
  assumes "65536 \<le> c" "c < 1114112"
  shows "first_char (utf8_encode_char c @ r) = Char c r"
proof -
  let ?w = "c div 262144" and ?x = "c div 4096 mod 64" and ?y = "c div 64 mod 64" and ?z = "c mod 64"
  have c: "c = ?w * 262144 + ?x * 4096 + ?y * 64 + ?z" by (rule sextets4)
  have b: "?x < 64" "?y < 64" "?z < 64" by simp_all
  have w: "?w < 5" using assms(2) by (simp add: less_mult_imp_div_less)
  have w0: "?w = 0 \<longrightarrow> 16 \<le> ?x" using c b assms(1) by linarith
  have w4: "?w = 4 \<longrightarrow> ?x < 16" using c assms(2) by linarith
  have "second_ok (240 + ?w) (128 + ?x)"
    using b w w0 w4 by (auto simp: second_ok_def cont_def)
  moreover have "sequence_length (240 + ?w) = 4" using w by (simp add: sequence_length_def)
  moreover have "cont (128 + ?y)" "cont (128 + ?z)" using b by (simp_all add: cont_def)
  ultimately show ?thesis
    using assms c by (simp add: first_char_def utf8_encode_char_def)
qed

lemma first_char_encode:
  assumes "is_scalar c"
  shows "first_char (utf8_encode_char c @ r) = Char c r"
proof -
  consider "c < 128" | "128 \<le> c" "c < 2048" | "2048 \<le> c" "c < 65536" | "65536 \<le> c" by linarith
  then show ?thesis
  proof cases
    case 1
    then show ?thesis by (simp add: first_char_def utf8_encode_char_def sequence_length_def)
  qed (use assms first_char2 first_char3 first_char4 in \<open>auto simp: is_scalar_def\<close>)
qed

lemma utf8_decode_Nil [simp]: "utf8_decode [] = Some ([], [])"
  by (subst utf8_decode.simps) (simp add: first_char_def)

lemma utf8_decode_encode: "list_all is_scalar s \<Longrightarrow> utf8_decode (utf8_encode s) = Some (s, [])"
proof (induction s)
  case (Cons c s)
  then show ?case
    by (subst utf8_decode.simps) (simp add: utf8_encode_def first_char_encode)
qed (simp add: utf8_encode_def)

section \<open>Chunks do not matter\<close>

lemma first_char_append:
  "first_char bs = Char c r \<Longrightarrow> first_char (bs @ ds) = Char c (r @ ds)"
  "first_char bs = Bad \<Longrightarrow> first_char (bs @ ds) = Bad"
  by (cases bs; cases "tl bs"; cases "tl (tl bs)"; cases "tl (tl (tl bs))";
      simp add: first_char_def split: if_splits)+

lemma utf8_decode_append:
  "utf8_decode (bs @ ds) =
     (case utf8_decode bs of
        None \<Rightarrow> None
      | Some (t, left) \<Rightarrow> map_option (\<lambda>(t', left'). (t @ t', left')) (utf8_decode (left @ ds)))"
proof (induction bs rule: utf8_decode.induct)
  case (1 bs)
  show ?case
  proof (cases "first_char bs")
    case Bad
    then show ?thesis
      using first_char_append(2) by (subst (1 2) utf8_decode.simps) simp
  next
    case Short
    then have "utf8_decode bs = Some ([], bs)" by (subst utf8_decode.simps) simp
    then show ?thesis by (auto simp: option.map_id case_prod_beta)
  next
    case (Char c r)
    have "utf8_decode (bs @ ds) = map_option (\<lambda>(t, left). (c # t, left)) (utf8_decode (r @ ds))"
      using first_char_append(1) [OF Char] by (subst utf8_decode.simps) simp
    moreover have "utf8_decode bs = map_option (\<lambda>(t, left). (c # t, left)) (utf8_decode r)"
      using Char by (subst utf8_decode.simps) simp
    ultimately show ?thesis
      using 1 [OF Char]
      by (cases "utf8_decode r"; cases "utf8_decode (snd (the (utf8_decode r)) @ ds)")
        (auto simp: case_prod_beta)
  qed
qed

text \<open>
  A file that decodes as a whole is read to its end in any chunks, and yields its text.
\<close>

definition sig_text :: "nat list \<Rightarrow> pystr option" where
  "sig_text bs =
     (if length bs < 3 \<and> take (length bs) BOM = bs then Some []
      else (case utf8_decode (sig_body bs) of Some (t, []) \<Rightarrow> Some t | _ \<Rightarrow> None))"

lemma read_chunks_rest:
  assumes "utf8_decode (left @ concat chs) = Some (t, [])"
  shows "read_chunks False left chs = (t, EndOfFile)"
  using assms
proof (induction chs arbitrary: left t)
  case (Cons ch chs)
  have whole: "utf8_decode ((left @ ch) @ concat chs) = Some (t, [])" using Cons.prems by simp
  then obtain t1 left1 where 1: "utf8_decode (left @ ch) = Some (t1, left1)"
    unfolding utf8_decode_append [of "left @ ch"] by (cases "utf8_decode (left @ ch)") auto
  with whole obtain t2 where 2: "utf8_decode (left1 @ concat chs) = Some (t2, [])" "t = t1 @ t2"
    unfolding utf8_decode_append [of "left @ ch"] by auto
  show ?case using 1 2 Cons.IH [OF 2(1)] by (simp add: sig_decode_def)
qed (simp add: sig_decode_def)

lemma undecided_prefix:
  "length (ds @ es) < 3 \<and> take (length (ds @ es)) BOM = ds @ es \<Longrightarrow>
   length ds < 3 \<and> take (length ds) BOM = ds"
proof -
  assume a: "length (ds @ es) < 3 \<and> take (length (ds @ es)) BOM = ds @ es"
  have "take (length ds) (take (length (ds @ es)) BOM) = take (length ds) BOM" by (simp add: min_def)
  with a show ?thesis by simp
qed

lemma decided_body:
  assumes "\<not> (length ds < 3 \<and> take (length ds) BOM = ds)"
  shows "sig_body (ds @ es) = sig_body ds @ es"
proof (cases "length ds < 3")
  case True
  with assms have ne: "take (length ds) BOM \<noteq> ds" by simp
  have "take 3 (ds @ es) \<noteq> BOM"
  proof
    assume "take 3 (ds @ es) = BOM"
    then have "take (length ds) (take 3 (ds @ es)) = take (length ds) BOM" by simp
    then show False using ne True by (simp add: min_def)
  qed
  moreover have "take 3 ds \<noteq> BOM" using True by (auto simp: BOM_def)
  ultimately show ?thesis by (simp add: sig_body_def)
qed (simp add: sig_body_def)

lemma read_chunks_whole:
  assumes "sig_text (left @ concat chs) = Some t"
    and "length left < 3 \<and> take (length left) BOM = left"
  shows "read_chunks True left chs = (t, EndOfFile)"
  using assms
proof (induction chs arbitrary: left)
  case Nil
  then show ?case by (simp add: sig_decode_def sig_text_def)
next
  case (Cons ch chs)
  show ?case
  proof (cases "length (left @ ch) < 3 \<and> take (length (left @ ch)) BOM = left @ ch")
    case True
    then show ?thesis using Cons.IH [of "left @ ch"] Cons.prems by (simp add: sig_decode_def)
  next
    case False
    let ?data = "left @ ch"
    let ?body = "sig_body ?data"
    let ?whole = "?data @ concat chs"
    have sig: "sig_decode True ?data = map_option (\<lambda>(t, left). (t, False, left)) (utf8_decode ?body)"
      by (simp only: sig_decode_def False simp_thms if_False if_True)
    have decided: "\<not> (length ?whole < 3 \<and> take (length ?whole) BOM = ?whole)"
      using False undecided_prefix [of ?data "concat chs"] by blast
    have body: "sig_body ?whole = ?body @ concat chs" using False by (rule decided_body)
    have "sig_text ?whole = Some t" using Cons.prems(1) by simp
    then have dec: "utf8_decode (?body @ concat chs) = Some (t, [])"
      unfolding sig_text_def if_not_P [OF decided] body by (auto split: option.splits list.splits)
    then obtain t1 left1 where 1: "utf8_decode ?body = Some (t1, left1)"
      unfolding utf8_decode_append [of ?body] by (cases "utf8_decode ?body") auto
    with dec obtain t2 where 2: "utf8_decode (left1 @ concat chs) = Some (t2, [])" "t = t1 @ t2"
      unfolding utf8_decode_append [of ?body] by auto
    show ?thesis using sig 1 2 read_chunks_rest [OF 2(1)] by simp
  qed
qed

end
