(* ===== verification/Csv.thy ===== *)
theory Csv
  imports Utf8
begin

text \<open>
  The structural scan of an upload (\<open>datasets/csv.py\<close>): the file is decoded in whatever chunks
  the reader gets, split into lines that keep their ends (\<open>newline=""\<close>), and parsed by
  \<open>csv.reader\<close> with \<open>strict=True\<close>, whose state machine is that of CPython's \<open>_csv.c\<close>.
\<close>

definition MAX_CSV_BYTES :: nat where
  "MAX_CSV_BYTES = 10485760"

definition MAX_UPLOAD_REQUEST_BYTES :: nat where
  "MAX_UPLOAD_REQUEST_BYTES = MAX_CSV_BYTES + 65536"

definition MAX_COLUMN_NAME_LENGTH :: nat where
  "MAX_COLUMN_NAME_LENGTH = 128"

definition MAX_COLUMNS :: nat where
  "MAX_COLUMNS = 256"

text \<open>The codes of \<open>CsvStructureError\<close>.\<close>

datatype csv_error =
    EmptyCsv
  | InvalidHeader
  | DuplicateColumns
  | InconsistentRowWidth
  | InvalidUtf8
  | MalformedCsv

record csv_structure =
  row_count :: nat
  csv_columns :: "pystr list"

section \<open>Lines\<close>

fun split_lines :: "pystr \<Rightarrow> pystr list" where
  "split_lines [] = []"
| "split_lines (c # s) =
     (if c = 10 then [10] # split_lines s
      else if c = 13 then
        (case s of
           d # t \<Rightarrow> if d = 10 then [13, 10] # split_lines t else [13] # split_lines s
         | [] \<Rightarrow> [[13]])
      else (case split_lines s of [] \<Rightarrow> [[c]] | l # ls \<Rightarrow> (c # l) # ls))"

text \<open>
  When decoding fails only the lines known to be complete have been read: a carriage return at
  the very end waits for the character after it.
\<close>

definition complete_lines :: "pystr \<Rightarrow> pystr list" where
  "complete_lines t =
     (if t = [] then [] else if last t = 10 then split_lines t else butlast (split_lines t))"

definition read_lines :: "bytes list \<Rightarrow> pystr list \<times> source_end" where
  "read_lines chunks =
     (let (t, e) = read_text chunks
      in (if e = EndOfFile then split_lines t else complete_lines t, e))"

section \<open>The reader\<close>

datatype csv_state =
    START_RECORD
  | START_FIELD
  | IN_FIELD
  | IN_QUOTED_FIELD
  | QUOTE_IN_QUOTED_FIELD
  | EAT_CRNL

record csv_parser =
  pstate :: csv_state
  pfield :: pystr
  pfields :: "pystr list"

definition parse_reset :: csv_parser where
  "parse_reset = \<lparr>pstate = START_RECORD, pfield = [], pfields = []\<rparr>"

definition save_field :: "csv_state \<Rightarrow> csv_parser \<Rightarrow> csv_parser" where
  "save_field st p = p\<lparr>pstate := st, pfields := pfields p @ [pfield p], pfield := []\<rparr>"

text \<open>\<open>None\<close> is \<open>csv.Error\<close>: the field limit is reached.\<close>

definition add_char :: "csv_state \<Rightarrow> code_point \<Rightarrow> csv_parser \<Rightarrow> csv_parser option" where
  "add_char st c p =
     (if MAX_CSV_BYTES \<le> length (pfield p) then None
      else Some (p\<lparr>pstate := st, pfield := pfield p @ [c]\<rparr>))"

definition is_newline :: "code_point \<Rightarrow> bool" where
  "is_newline c \<longleftrightarrow> c = 10 \<or> c = 13"

definition start_field_char :: "code_point \<Rightarrow> csv_parser \<Rightarrow> csv_parser option" where
  "start_field_char c p =
     (if is_newline c then Some (save_field EAT_CRNL p)
      else if c = 34 then Some (p\<lparr>pstate := IN_QUOTED_FIELD\<rparr>)
      else if c = 44 then Some (save_field START_FIELD p)
      else add_char IN_FIELD c p)"

text \<open>\<open>parse_process_char\<close>, on a character and on the end of a line.\<close>

fun parse_char :: "code_point \<Rightarrow> csv_parser \<Rightarrow> csv_parser option" where
  "parse_char c p =
     (case pstate p of
        START_RECORD \<Rightarrow>
          if is_newline c then Some (p\<lparr>pstate := EAT_CRNL\<rparr>) else start_field_char c p
      | START_FIELD \<Rightarrow> start_field_char c p
      | IN_FIELD \<Rightarrow>
          if is_newline c then Some (save_field EAT_CRNL p)
          else if c = 44 then Some (save_field START_FIELD p)
          else add_char IN_FIELD c p
      | IN_QUOTED_FIELD \<Rightarrow>
          if c = 34 then Some (p\<lparr>pstate := QUOTE_IN_QUOTED_FIELD\<rparr>)
          else add_char IN_QUOTED_FIELD c p
      | QUOTE_IN_QUOTED_FIELD \<Rightarrow>
          if c = 34 then add_char IN_QUOTED_FIELD c p
          else if c = 44 then Some (save_field START_FIELD p)
          else if is_newline c then Some (save_field EAT_CRNL p)
          else None
      | EAT_CRNL \<Rightarrow> if is_newline c then Some p else None)"

definition parse_eol :: "csv_parser \<Rightarrow> csv_parser" where
  "parse_eol p =
     (case pstate p of
        START_RECORD \<Rightarrow> p
      | START_FIELD \<Rightarrow> save_field START_RECORD p
      | IN_FIELD \<Rightarrow> save_field START_RECORD p
      | IN_QUOTED_FIELD \<Rightarrow> p
      | QUOTE_IN_QUOTED_FIELD \<Rightarrow> save_field START_RECORD p
      | EAT_CRNL \<Rightarrow> p\<lparr>pstate := START_RECORD\<rparr>)"

fun parse_line :: "pystr \<Rightarrow> csv_parser \<Rightarrow> csv_parser option" where
  "parse_line [] p = Some (parse_eol p)"
| "parse_line (c # l) p = (case parse_char c p of None \<Rightarrow> None | Some p' \<Rightarrow> parse_line l p')"

text \<open>
  \<open>next(reader)\<close>, without its reset: lines are fed until a record is complete. \<open>Inr None\<close> is
  \<open>StopIteration\<close>.
\<close>

fun next_record ::
  "source_end \<Rightarrow> csv_parser \<Rightarrow> pystr list \<Rightarrow> csv_error + (pystr list \<times> pystr list) option" where
  "next_record e p [] =
     (if e = DecodeError then Inl InvalidUtf8
      else if pfield p \<noteq> [] \<or> pstate p = IN_QUOTED_FIELD then Inl MalformedCsv
      else Inr None)"
| "next_record e p (l # ls) =
     (case parse_line l p of
        None \<Rightarrow> Inl MalformedCsv
      | Some p' \<Rightarrow>
          if pstate p' = START_RECORD then Inr (Some (pfields p', ls)) else next_record e p' ls)"

lemma next_record_shorter: "next_record e p ls = Inr (Some (row, ls')) \<Longrightarrow> length ls' < length ls"
  by (induction e p ls rule: next_record.induct) (fastforce split: option.splits if_splits)+

section \<open>The scan\<close>

definition bad_column :: "pystr \<Rightarrow> bool" where
  "bad_column column \<longleftrightarrow>
     column = [] \<or> column \<noteq> py_strip column \<or> MAX_COLUMN_NAME_LENGTH < length column \<or>
     list_ex (\<lambda>c. c < 32 \<or> c = 127) column"

definition validate_header :: "pystr list \<Rightarrow> csv_error + pystr list" where
  "validate_header header =
     (if header = [] \<or> MAX_COLUMNS < length header then Inl InvalidHeader
      else if list_ex bad_column header then Inl InvalidHeader
      else if \<not> distinct header then Inl DuplicateColumns
      else Inr header)"

function scan_rows :: "source_end \<Rightarrow> nat \<Rightarrow> nat \<Rightarrow> pystr list \<Rightarrow> csv_error + nat" where
  "scan_rows e width n ls =
     (case next_record e parse_reset ls of
        Inl err \<Rightarrow> Inl err
      | Inr None \<Rightarrow> Inr n
      | Inr (Some (row, rest)) \<Rightarrow>
          if length row \<noteq> width then Inl InconsistentRowWidth
          else scan_rows e width (n + 1) rest)"
  by auto
termination by (relation "measure (\<lambda>(e, width, n, ls). length ls)") (auto dest: next_record_shorter)

declare scan_rows.simps [simp del]

definition scan_lines :: "pystr list \<Rightarrow> source_end \<Rightarrow> csv_error + csv_structure" where
  "scan_lines ls e =
     (case next_record e parse_reset ls of
        Inl err \<Rightarrow> Inl err
      | Inr None \<Rightarrow> Inl EmptyCsv
      | Inr (Some (header, rest)) \<Rightarrow>
          bind_result (validate_header header) (\<lambda>columns.
          bind_result (scan_rows e (length columns) 0 rest) (\<lambda>n.
            Inr \<lparr>row_count = n, csv_columns = columns\<rparr>)))"

definition scan_csv :: "bytes list \<Rightarrow> csv_error + csv_structure" where
  "scan_csv chunks = (let (ls, e) = read_lines chunks in scan_lines ls e)"

section \<open>Feeding text\<close>

text \<open>
  \<open>resume\<close> goes on after a line, \<open>feed\<close> in the middle of one: the characters of \<open>s\<close> up to the next
  line end still belong to it.
\<close>

definition resume ::
  "source_end \<Rightarrow> csv_parser option \<Rightarrow> pystr list \<Rightarrow> csv_error + (pystr list \<times> pystr list) option" where
  "resume e r ls =
     (case r of
        None \<Rightarrow> Inl MalformedCsv
      | Some p \<Rightarrow> if pstate p = START_RECORD then Inr (Some (pfields p, ls)) else next_record e p ls)"

definition feed :: "source_end \<Rightarrow> csv_parser \<Rightarrow> pystr \<Rightarrow> csv_error + (pystr list \<times> pystr list) option" where
  "feed e p s =
     (case split_lines s of
        [] \<Rightarrow> resume e (Some (parse_eol p)) []
      | l # ls \<Rightarrow> resume e (parse_line l p) ls)"

lemma split_lines_Nil_iff [simp]: "split_lines s = [] \<longleftrightarrow> s = []"
  by (cases s) (auto split: list.splits)

lemma next_record_feed: "s \<noteq> [] \<Longrightarrow> next_record e p (split_lines s) = feed e p s"
  by (cases "split_lines s") (auto simp: feed_def resume_def split: option.splits)

lemma feed_char:
  assumes "\<not> is_newline c"
  shows "feed e p (c # s) = (case parse_char c p of None \<Rightarrow> Inl MalformedCsv | Some p' \<Rightarrow> feed e p' s)"
  using assms
  by (cases "split_lines s"; cases "parse_char c p")
    (auto simp del: parse_char.simps simp: feed_def is_newline_def resume_def split: option.splits)

text \<open>Inside quotes a line end is a character like any other.\<close>

lemma feed_quoted:
  assumes q: "pstate p = IN_QUOTED_FIELD" "c \<noteq> 34" "length (pfield p) < MAX_CSV_BYTES" and s: "s \<noteq> []"
  shows "feed e p (c # s) = feed e (p\<lparr>pfield := pfield p @ [c]\<rparr>) s"
proof -
  let ?p = "p\<lparr>pfield := pfield p @ [c]\<rparr>"
  have step: "parse_char c p = Some ?p" using q by (simp add: add_char_def)
  have st: "pstate ?p = IN_QUOTED_FIELD" using q by simp
  consider "\<not> is_newline c" | "c = 10" | "c = 13" "hd s \<noteq> 10" | "c = 13" "hd s = 10"
    by (auto simp: is_newline_def)
  then show ?thesis
  proof cases
    case 1
    then show ?thesis by (simp add: feed_char step del: parse_char.simps)
  next
    case 2
    then have "feed e p (c # s) = next_record e ?p (split_lines s)"
      using step st by (simp add: feed_def resume_def parse_eol_def del: parse_char.simps)
    then show ?thesis using next_record_feed [OF s] by simp
  next
    case 3
    then have "split_lines (c # s) = [13] # split_lines s" using s by (cases s) auto
    then have "feed e p (c # s) = next_record e ?p (split_lines s)"
      using step st 3 by (simp add: feed_def resume_def parse_eol_def del: parse_char.simps split_lines.simps)
    then show ?thesis using next_record_feed [OF s] by simp
  next
    case 4
    then obtain t where t: "s = 10 # t" using s by (cases s) auto
    then show ?thesis
      using 4 step by (simp add: feed_def del: parse_char.simps)
  qed
qed

end
