(* ===== verification/Storage.thy ===== *)
theory Storage
  imports Csv Regex
begin

text \<open>
  The local file store (\<open>datasets/storage.py\<close>): the files of one directory, by name. A failing
  system call is an input of the operation that makes it. SHA-256 is a parameter.
\<close>

type_synonym files = "pystr \<rightharpoonup> bytes"

datatype storage_exc = FileTooLarge | FileExists | StorageOsError | InvalidStorageKey

record candidate_file =
  candidate_name :: pystr
  candidate_size :: nat
  candidate_sha256 :: bytes

section \<open>Names\<close>

definition hex_digit :: "nat \<Rightarrow> code_point" where
  "hex_digit n = (if n < 10 then 48 + n else 87 + n)"

fun hex_digits :: "nat \<Rightarrow> nat \<Rightarrow> pystr" where
  "hex_digits 0 n = []"
| "hex_digits (Suc k) n = hex_digits k (n div 16) @ [hex_digit (n mod 16)]"

text \<open>\<open>uuid4().hex\<close>: the 128 bits as 32 digits.\<close>

definition uuid_hex :: "uuid \<Rightarrow> pystr" where
  "uuid_hex u = hex_digits 32 (uuid_value u)"

definition candidate_path :: "uuid \<Rightarrow> pystr" where
  "candidate_path u = lit ''.candidate-'' @ uuid_hex u"

definition new_storage_key :: "uuid \<Rightarrow> pystr" where
  "new_storage_key u = uuid_hex u @ lit ''.csv''"

definition hex_class :: "(nat \<times> nat) list" where
  "hex_class = [(48, 57), (97, 102)]"

definition is_storage_key :: "pystr \<Rightarrow> bool" where
  "is_storage_key k \<longleftrightarrow>
     length k = 36 \<and> list_all (in_cls hex_class) (take 32 k) \<and> drop 32 k = lit ''.csv''"

definition storage_key_pattern :: rx where
  "storage_key_pattern =
     RCat (RRep 32 (RCls hex_class)) (RSeq (map RChr (lit ''.csv'')))"

definition path_for_key :: "pystr \<Rightarrow> storage_exc + pystr" where
  "path_for_key k = (if fullmatch storage_key_pattern k then Inr k else Inl InvalidStorageKey)"

section \<open>Operations\<close>

text \<open>
  The loop of \<open>write_candidate\<close>: \<open>chunks\<close> is what the successive reads return (an empty chunk is
  the end), \<open>done\<close> what has been hashed and written so far.
\<close>

fun copy_chunks :: "bytes list \<Rightarrow> bytes \<Rightarrow> storage_exc + bytes" where
  "copy_chunks [] written = Inr written"
| "copy_chunks (chunk # chunks) written =
     (if chunk = [] then Inr written
      else if MAX_CSV_BYTES < length written + length chunk then Inl FileTooLarge
      else copy_chunks chunks (written @ chunk))"

text \<open>\<open>os_fails\<close>: opening, reading or writing fails.\<close>

definition write_candidate ::
  "(bytes \<Rightarrow> bytes) \<Rightarrow> uuid \<Rightarrow> bool \<Rightarrow> bytes list \<Rightarrow> files \<Rightarrow> (storage_exc + candidate_file) \<times> files" where
  "write_candidate sha u os_fails chunks fs =
     (let name = candidate_path u
      in if fs name \<noteq> None then (Inl FileExists, fs)
         else if os_fails then (Inl StorageOsError, fs(name := None))
         else (case copy_chunks chunks [] of
             Inl e \<Rightarrow> (Inl e, fs(name := None))
           | Inr content \<Rightarrow>
               (Inr \<lparr>candidate_name = name, candidate_size = length content,
                  candidate_sha256 = sha content\<rparr>,
                fs(name \<mapsto> content))))"

text \<open>
  \<open>install\<close>: \<open>os.replace\<close> moves the candidate, then its mode is set; either call can fail.
\<close>

definition install ::
  "bool \<Rightarrow> bool \<Rightarrow> candidate_file \<Rightarrow> pystr \<Rightarrow> files \<Rightarrow> (storage_exc + unit) \<times> files" where
  "install replace_fails chmod_fails cand k fs =
     (case path_for_key k of
        Inl e \<Rightarrow> (Inl e, fs)
      | Inr name \<Rightarrow>
          if replace_fails \<or> fs (candidate_name cand) = None then (Inl StorageOsError, fs)
          else
            let fs' = (fs(candidate_name cand := None))(name := fs (candidate_name cand))
            in if chmod_fails then (Inl StorageOsError, fs') else (Inr (), fs'))"

definition discard_candidate :: "bool \<Rightarrow> candidate_file \<Rightarrow> files \<Rightarrow> (storage_exc + unit) \<times> files" where
  "discard_candidate fails cand fs =
     (if fails then (Inl StorageOsError, fs) else (Inr (), fs(candidate_name cand := None)))"

definition remove_file :: "bool \<Rightarrow> pystr \<Rightarrow> files \<Rightarrow> (storage_exc + unit) \<times> files" where
  "remove_file fails k fs =
     (case path_for_key k of
        Inl e \<Rightarrow> (Inl e, fs)
      | Inr name \<Rightarrow>
          if fails then (Inl StorageOsError, fs) else (Inr (), fs(name := None)))"

definition open_binary :: "pystr \<Rightarrow> files \<Rightarrow> storage_exc + bytes" where
  "open_binary k fs =
     bind_result (path_for_key k) (\<lambda>name.
       case fs name of None \<Rightarrow> Inl StorageOsError | Some content \<Rightarrow> Inr content)"

section \<open>Keys\<close>

lemma storage_key_pattern_iff: "fullmatch storage_key_pattern k \<longleftrightarrow> is_storage_key k"
proof -
  have "matches (RSeq (map RChr s)) v \<longleftrightarrow> v = s" for s v
    by (induction s arbitrary: v) auto
  then have "matches storage_key_pattern k \<longleftrightarrow>
      (\<exists>u. k = u @ lit ''.csv'' \<and> length u = 32 \<and> list_all (in_cls hex_class) u)"
    by (auto simp: storage_key_pattern_def matches_RCat simp del: lit_Cons)
  also have "\<dots> \<longleftrightarrow> is_storage_key k"
    unfolding is_storage_key_def
    by (auto simp del: lit_Cons) (metis append_take_drop_id length_take min.absorb2 numeral_le_iff
        semiring_norm(69) semiring_norm(71) semiring_norm(72) semiring_norm(68))
  finally show ?thesis by (simp add: fullmatch_iff)
qed

lemma hex_digits_cls: "list_all (in_cls hex_class) (hex_digits k n)"
proof (induction k arbitrary: n)
  case (Suc k)
  have "n mod 16 < 16" by simp
  then have "in_cls hex_class (hex_digit (n mod 16))" by (auto simp: hex_class_def hex_digit_def)
  then show ?case using Suc by simp
qed simp

lemma length_hex_digits [simp]: "length (hex_digits k n) = k"
  by (induction k arbitrary: n) auto

lemma new_storage_key_valid: "is_storage_key (new_storage_key u)"
  by (simp add: is_storage_key_def new_storage_key_def uuid_hex_def hex_digits_cls)

lemma path_for_key_Inr [result_simps]: "path_for_key k = Inr n \<longleftrightarrow> n = k \<and> is_storage_key k"
  by (auto simp: path_for_key_def storage_key_pattern_iff)

lemma candidate_not_key: "is_storage_key k \<Longrightarrow> candidate_path u \<noteq> k"
proof
  assume k: "is_storage_key k" and "candidate_path u = k"
  then have "hd (take 32 k) = 46" by (auto simp: candidate_path_def)
  moreover have "take 32 k \<noteq> []" "list_all (in_cls hex_class) (take 32 k)"
    using k by (auto simp: is_storage_key_def)
  ultimately have "in_cls hex_class 46" by (cases "take 32 k") auto
  then show False by (simp add: hex_class_def)
qed

lemma candidate_path_not_key [simp]: "\<not> is_storage_key (candidate_path u)"
  using candidate_not_key by blast

section \<open>The contract of the store\<close>

text \<open>What the chunks of an upload carry, up to the first empty one.\<close>

definition upload_content :: "bytes list \<Rightarrow> bytes" where
  "upload_content chunks = concat (takeWhile (\<lambda>ch. ch \<noteq> []) chunks)"

lemma copy_chunks_eq:
  assumes "length written \<le> MAX_CSV_BYTES"
  shows "copy_chunks chunks written =
    (if length written + length (upload_content chunks) \<le> MAX_CSV_BYTES
     then Inr (written @ upload_content chunks) else Inl FileTooLarge)"
  using assms
proof (induction chunks arbitrary: written)
  case (Cons ch chunks)
  then show ?case by (auto simp: upload_content_def)
qed (simp add: upload_content_def)

text \<open>
  A store in which a key holds what was installed under it until it is removed, and nothing done
  with other names matters.
\<close>

locale file_store =
  fixes wr :: "bytes list \<Rightarrow> 'fs \<Rightarrow> (storage_exc + candidate_file) \<times> 'fs"
    and inst :: "candidate_file \<Rightarrow> pystr \<Rightarrow> 'fs \<Rightarrow> (storage_exc + unit) \<times> 'fs"
    and rmv :: "pystr \<Rightarrow> 'fs \<Rightarrow> (storage_exc + unit) \<times> 'fs"
    and discard :: "candidate_file \<Rightarrow> 'fs \<Rightarrow> (storage_exc + unit) \<times> 'fs"
    and content :: "pystr \<Rightarrow> 'fs \<Rightarrow> storage_exc + bytes"
    and is_candidate :: "candidate_file \<Rightarrow> 'fs \<Rightarrow> bytes \<Rightarrow> bool"
    and temporary :: "candidate_file \<Rightarrow> bool"
  assumes write_keeps: "snd (wr chunks fs) = fs' \<Longrightarrow> content k fs = Inr b \<Longrightarrow> content k fs' = Inr b"
    and write_candidate: "wr chunks fs = (Inr cand, fs') \<Longrightarrow>
      temporary cand \<and> is_candidate cand fs' (upload_content chunks)"
    and install_content: "inst cand k fs = (Inr (), fs') \<Longrightarrow> is_candidate cand fs b \<Longrightarrow> content k fs' = Inr b"
    and install_keeps: "temporary cand \<Longrightarrow> snd (inst cand k fs) = fs' \<Longrightarrow> k' \<noteq> k \<Longrightarrow> content k' fs = Inr b \<Longrightarrow> content k' fs' = Inr b"
    and remove_keeps: "snd (rmv k fs) = fs' \<Longrightarrow> k' \<noteq> k \<Longrightarrow> content k' fs = Inr b \<Longrightarrow> content k' fs' = Inr b"
    and discard_keeps: "temporary cand \<Longrightarrow> snd (discard cand fs) = fs' \<Longrightarrow> content k fs = Inr b \<Longrightarrow> content k fs' = Inr b"
begin

text \<open>Replacing a file: the new content is under the new key, every third key is as before.\<close>

lemma replace_file:
  assumes "wr chunks fs = (Inr cand, fs1)" and "inst cand new fs1 = (Inr (), fs2)"
    and "snd (rmv old fs2) = fs3" and "old \<noteq> new"
  shows "content new fs3 = Inr (upload_content chunks)"
    and "k \<noteq> old \<Longrightarrow> k \<noteq> new \<Longrightarrow> content k fs = Inr b \<Longrightarrow> content k fs3 = Inr b"
proof -
  have c: "temporary cand" "is_candidate cand fs1 (upload_content chunks)"
    using write_candidate [OF assms(1)] by simp_all
  have "content new fs2 = Inr (upload_content chunks)" using install_content [OF assms(2) c(2)] .
  then show "content new fs3 = Inr (upload_content chunks)" using remove_keeps assms(3,4) by metis
  show "content k fs3 = Inr b" if "k \<noteq> old" "k \<noteq> new" "content k fs = Inr b"
  proof -
    have "content k fs1 = Inr b" using write_keeps [of chunks fs fs1] assms(1) that(3) by simp
    then have "content k fs2 = Inr b" using install_keeps [OF c(1), of new fs1 fs2 k] assms(2) that(2) by simp
    then show ?thesis using remove_keeps assms(3) that(1) by metis
  qed
qed

end

lemma open_binary_Inr [result_simps]:
  "open_binary k fs = Inr b \<longleftrightarrow> is_storage_key k \<and> fs k = Some b"
  by (auto simp: open_binary_def result_simps split: option.splits)

interpretation local_store: file_store
  "write_candidate sha u os_fails" "install replace_fails chmod_fails" "remove_file remove_fails"
  "discard_candidate discard_fails" open_binary
  "\<lambda>cand fs b. fs (candidate_name cand) = Some b \<and> length b \<le> MAX_CSV_BYTES \<and>
     candidate_size cand = length b \<and> candidate_sha256 cand = sha b"
  "\<lambda>cand. \<not> is_storage_key (candidate_name cand)"
  for sha u os_fails replace_fails chmod_fails remove_fails discard_fails
  by unfold_locales
    (auto simp: write_candidate_def install_def remove_file_def discard_candidate_def copy_chunks_eq
        candidate_not_key Let_def result_simps split: if_splits sum.splits)

end
