(* ===== verification/DatasetStore.thy ===== *)
theory DatasetStore
  imports Database Storage PyValues
begin

text \<open>
  Datasets and their validation rules as the database keeps them (\<open>datasets/models.py\<close>) and the
  queries on them (\<open>datasets/repositories.py\<close>). Rule configurations are the canonical ones the
  API makes, whose keys and their order are fixed per rule type, so that equality of \<open>jsonb\<close>
  values is equality.
\<close>

type_synonym configuration = "(pystr \<times> pyval) list"

record dataset_row =
  dataset_id :: uuid
  owner_id :: uuid
  dataset_name :: pystr
  original_filename :: "pystr option"
  storage_key :: "pystr option"
  content_sha256 :: "bytes option"
  size_bytes :: "int option"
  dataset_row_count :: "int option"
  column_names :: "pystr list option"
  uploaded_at :: "instant option"
  dataset_created_at :: instant
  dataset_updated_at :: instant

record rule_row =
  rule_row_id :: uuid
  rule_dataset_id :: uuid
  rule_type :: pystr
  rule_target_column :: pystr
  rule_configuration :: configuration
  rule_created_at :: instant

text \<open>\<open>btrim\<close> of PostgreSQL removes spaces.\<close>

definition btrim_id :: "pystr \<Rightarrow> bool" where
  "btrim_id s \<longleftrightarrow> s = [] \<or> hd s \<noteq> 32 \<and> last s \<noteq> 32"

fun opt_all :: "('a \<Rightarrow> bool) \<Rightarrow> 'a option \<Rightarrow> bool" where
  "opt_all P None = True"
| "opt_all P (Some x) = P x"

section \<open>Constraints\<close>

text \<open>What \<open>jsonb\<close> takes: strings without U+0000, and numbers that JSON can write.\<close>

fun json_storable :: "pyval \<Rightarrow> bool" where
  "json_storable (VStr s) = storable_text s"
| "json_storable (VFloat f) = float_isfinite f"
| "json_storable (VList vs) = (\<forall>v \<in> set vs. json_storable v)"
| "json_storable (VDict kvs) = (\<forall>(k, v) \<in> set kvs. storable_text k \<and> json_storable v)"
| "json_storable VNone = True"
| "json_storable (VBool b) = True"
| "json_storable (VInt i) = True"
| "json_storable (VUuid u) = False"

definition configuration_storable :: "configuration \<Rightarrow> bool" where
  "configuration_storable cfg \<longleftrightarrow> list_all (\<lambda>(k, v). storable_text k \<and> json_storable v) cfg"

definition no_upload :: "dataset_row \<Rightarrow> bool" where
  "no_upload d \<longleftrightarrow> original_filename d = None \<and> storage_key d = None \<and> content_sha256 d = None \<and>
     size_bytes d = None \<and> dataset_row_count d = None \<and> column_names d = None \<and> uploaded_at d = None"

definition full_upload :: "dataset_row \<Rightarrow> bool" where
  "full_upload d \<longleftrightarrow> original_filename d \<noteq> None \<and> storage_key d \<noteq> None \<and> content_sha256 d \<noteq> None \<and>
     size_bytes d \<noteq> None \<and> dataset_row_count d \<noteq> None \<and> column_names d \<noteq> None \<and> uploaded_at d \<noteq> None"

definition dataset_row_checks :: "dataset_row \<Rightarrow> (constraint_name \<times> bool) list" where
  "dataset_row_checks d =
     [(''unstorable_value'',
        storable_text (dataset_name d) \<and> opt_all storable_text (original_filename d) \<and>
        opt_all storable_text (storage_key d) \<and> opt_all (list_all storable_text) (column_names d)),
      (''ck_datasets_column_names'',
        opt_all (\<lambda>cs. 1 \<le> length cs \<and> length cs \<le> 256) (column_names d)),
      (''ck_datasets_content_sha256_length'', opt_all (\<lambda>h. length h = 32) (content_sha256 d)),
      (''ck_datasets_name'',
        1 \<le> length (dataset_name d) \<and> length (dataset_name d) \<le> 100 \<and> btrim_id (dataset_name d)),
      (''ck_datasets_original_filename'',
        opt_all (\<lambda>n. 1 \<le> length n \<and> length n \<le> 255) (original_filename d)),
      (''ck_datasets_row_count'', opt_all (\<lambda>n. 0 \<le> n) (dataset_row_count d)),
      (''ck_datasets_size_bytes'', opt_all (\<lambda>n. 1 \<le> n \<and> n \<le> 10485760) (size_bytes d)),
      (''ck_datasets_storage_key_format'', opt_all is_storage_key (storage_key d)),
      (''ck_datasets_updated_not_before_created'', dataset_created_at d \<le> dataset_updated_at d),
      (''ck_datasets_upload_metadata_all_or_none'', no_upload d \<or> full_upload d),
      (''ck_datasets_upload_timestamps'',
        opt_all (\<lambda>t. dataset_created_at d \<le> t \<and> t \<le> dataset_updated_at d) (uploaded_at d))]"

text \<open>Several rows may have no key: \<open>UNIQUE\<close> ignores nulls.\<close>

definition storage_key_free :: "dataset_row list \<Rightarrow> dataset_row \<Rightarrow> bool" where
  "storage_key_free ds d \<longleftrightarrow>
     storage_key d = None \<or> (\<forall>e \<in> set ds. dataset_id e \<noteq> dataset_id d \<longrightarrow> storage_key e \<noteq> storage_key d)"

definition dataset_constraints ::
  "uuid set \<Rightarrow> dataset_row list \<Rightarrow> dataset_row \<Rightarrow> (constraint_name \<times> bool) list" where
  "dataset_constraints owners ds d =
     dataset_row_checks d @
     [(''pk_datasets'', dataset_id d \<notin> dataset_id ` set ds),
      (''uq_datasets_storage_key'', storage_key_free ds d),
      (''fk_datasets_owner_id_users'', owner_id d \<in> owners)]"

definition rule_types :: "pystr list" where
  "rule_types = [lit ''required'', lit ''unique'', lit ''type'', lit ''range'', lit ''regex'']"

lemma rule_types_storable: "ty \<in> set rule_types \<Longrightarrow> storable_text ty"
  by (auto simp: rule_types_def storable_text_def)

lemma storage_key_storable: "is_storage_key k \<Longrightarrow> storable_text k"
proof -
  assume k: "is_storage_key k"
  then have "list_all (in_cls hex_class) (take 32 k)" "drop 32 k = lit ''.csv''" by (simp_all add: is_storage_key_def)
  then have "0 \<notin> set (take 32 k)" "0 \<notin> set (drop 32 k)"
    by (auto simp: list_all_iff hex_class_def)
  then have "0 \<notin> set (take 32 k @ drop 32 k)" unfolding set_append by blast
  then show ?thesis by (simp add: storable_text_def)
qed

definition rule_row_checks :: "rule_row \<Rightarrow> (constraint_name \<times> bool) list" where
  "rule_row_checks r =
     [(''unstorable_value'',
        storable_text (rule_type r) \<and> storable_text (rule_target_column r) \<and>
        configuration_storable (rule_configuration r)),
      (''ck_validation_rules_target_column'',
        1 \<le> length (rule_target_column r) \<and> length (rule_target_column r) \<le> 128 \<and>
        btrim_id (rule_target_column r)),
      (''ck_validation_rules_type'', rule_type r \<in> set rule_types)]"

definition rule_definition :: "rule_row \<Rightarrow> uuid \<times> pystr \<times> pystr \<times> configuration" where
  "rule_definition r =
     (rule_dataset_id r, rule_type r, rule_target_column r, rule_configuration r)"

definition rule_constraints ::
  "dataset_row list \<Rightarrow> rule_row list \<Rightarrow> rule_row \<Rightarrow> (constraint_name \<times> bool) list" where
  "rule_constraints ds rs r =
     rule_row_checks r @
     [(''pk_validation_rules'', rule_row_id r \<notin> rule_row_id ` set rs),
      (''uq_validation_rules_definition'', rule_definition r \<notin> rule_definition ` set rs),
      (''fk_validation_rules_dataset_id_datasets'', rule_dataset_id r \<in> dataset_id ` set ds)]"

definition insert_dataset ::
  "uuid set \<Rightarrow> dataset_row \<Rightarrow> dataset_row list \<Rightarrow> constraint_name + dataset_row list" where
  "insert_dataset owners = insert_row (dataset_constraints owners)"

definition insert_rule ::
  "dataset_row list \<Rightarrow> rule_row \<Rightarrow> rule_row list \<Rightarrow> constraint_name + rule_row list" where
  "insert_rule ds = insert_row (rule_constraints ds)"

definition dataset_row_ok :: "dataset_row \<Rightarrow> bool" where
  "dataset_row_ok d \<longleftrightarrow> list_all snd (dataset_row_checks d)"

definition rule_row_ok :: "rule_row \<Rightarrow> bool" where
  "rule_row_ok r \<longleftrightarrow> list_all snd (rule_row_checks r)"

interpretation datasets_by_id: checked_table "insert_dataset owners" dataset_row_ok dataset_id for owners
  by unfold_locales
    (auto simp: insert_dataset_def insert_row_Inr dataset_constraints_def dataset_row_ok_def)

interpretation rules_by_id: checked_table "insert_rule ds" rule_row_ok rule_row_id for ds
  by unfold_locales (auto simp: insert_rule_def insert_row_Inr rule_constraints_def rule_row_ok_def)

interpretation rules_by_definition: checked_table "insert_rule ds" rule_row_ok rule_definition for ds
  by unfold_locales (auto simp: insert_rule_def insert_row_Inr rule_constraints_def rule_row_ok_def)

section \<open>Queries\<close>

definition list_for_owner :: "dataset_row list \<Rightarrow> uuid \<Rightarrow> nat \<Rightarrow> nat \<Rightarrow> dataset_row list" where
  "list_for_owner ds owner limit offset =
     page limit offset
       (order_by (\<lambda>d. (dataset_created_at d, dataset_id d)) (filter (\<lambda>d. owner_id d = owner) ds))"

text \<open>
  \<open>get_for_owner\<close> and \<open>get_for_owner_for_update\<close> select the same row; the latter also locks it,
  which makes the transactions on one dataset happen one after the other. \<open>scalar\<close> takes the
  first row.
\<close>

definition get_for_owner :: "dataset_row list \<Rightarrow> uuid \<Rightarrow> uuid \<Rightarrow> dataset_row option" where
  "get_for_owner ds did owner = find (\<lambda>d. dataset_id d = did \<and> owner_id d = owner) ds"

definition target_columns :: "rule_row list \<Rightarrow> uuid \<Rightarrow> pystr set" where
  "target_columns rs did = rule_target_column ` {r \<in> set rs. rule_dataset_id r = did}"

definition list_all_for_dataset :: "rule_row list \<Rightarrow> uuid \<Rightarrow> rule_row list" where
  "list_all_for_dataset rs did =
     order_by (\<lambda>r. (rule_created_at r, rule_row_id r)) (filter (\<lambda>r. rule_dataset_id r = did) rs)"

definition list_for_dataset :: "rule_row list \<Rightarrow> uuid \<Rightarrow> nat \<Rightarrow> nat \<Rightarrow> rule_row list" where
  "list_for_dataset rs did limit offset = page limit offset (list_all_for_dataset rs did)"

definition get_rule :: "rule_row list \<Rightarrow> uuid \<Rightarrow> uuid \<Rightarrow> rule_row option" where
  "get_rule rs did rid = find (\<lambda>r. rule_row_id r = rid \<and> rule_dataset_id r = did) rs"

lemma get_for_owner_Some:
  "get_for_owner ds did owner = Some d \<Longrightarrow> d \<in> set ds \<and> dataset_id d = did \<and> owner_id d = owner"
  by (auto simp: get_for_owner_def find_Some_iff)

lemma get_rule_Some:
  "get_rule rs did rid = Some r \<Longrightarrow> r \<in> set rs \<and> rule_row_id r = rid \<and> rule_dataset_id r = did"
  by (auto simp: get_rule_def find_Some_iff)

text \<open>Pages of a listing are parts of one ordered list of the owner's own rows.\<close>

lemma list_for_owner_own: "set (list_for_owner ds owner limit offset) \<subseteq> {d \<in> set ds. owner_id d = owner}"
  unfolding list_for_owner_def
  using set_page [of limit offset "order_by (\<lambda>d. (dataset_created_at d, dataset_id d)) (filter (\<lambda>d. owner_id d = owner) ds)"]
  by auto

end
