(* ===== verification/Policies.thy ===== *)
theory Policies
  imports Csv Rules
begin

text \<open>
  The input policies of datasets and rules (\<open>datasets/policies.py\<close>). Unicode's NFC and its
  control categories (those whose name starts with \<open>C\<close>) are parameters, as is Polars.
\<close>

definition MAX_DATASET_NAME_LENGTH :: nat where
  "MAX_DATASET_NAME_LENGTH = 100"

definition MAX_FILENAME_LENGTH :: nat where
  "MAX_FILENAME_LENGTH = 255"

definition MAX_REGEX_PATTERN_LENGTH :: nat where
  "MAX_REGEX_PATTERN_LENGTH = 256"

text \<open>The codes of \<open>DatasetPolicyError\<close>.\<close>

datatype policy_error =
    InvalidDatasetName
  | InvalidFilename
  | InvalidTargetColumn
  | InvalidRegexPattern

record unicode =
  normalize_nfc :: "pystr \<Rightarrow> pystr"
  category_C :: "code_point \<Rightarrow> bool"

definition contains_control :: "unicode \<Rightarrow> pystr \<Rightarrow> bool" where
  "contains_control uc value = list_ex (category_C uc) value"

text \<open>U+0000 is a control character (general category Cc).\<close>

definition unicode_law :: "unicode \<Rightarrow> bool" where
  "unicode_law uc \<longleftrightarrow> category_C uc 0"

definition normalize_dataset_name :: "unicode \<Rightarrow> pystr \<Rightarrow> policy_error + pystr" where
  "normalize_dataset_name uc value =
     (let normalized = py_strip (normalize_nfc uc value)
      in if \<not> (1 \<le> length normalized \<and> length normalized \<le> MAX_DATASET_NAME_LENGTH) \<or>
           contains_control uc normalized
         then Inl InvalidDatasetName
         else Inr normalized)"

text \<open>An upload may come without a filename.\<close>

definition normalize_csv_filename :: "unicode \<Rightarrow> pystr option \<Rightarrow> policy_error + pystr" where
  "normalize_csv_filename uc value =
     (case value of
        None \<Rightarrow> Inl InvalidFilename
      | Some v \<Rightarrow>
          let normalized = normalize_nfc uc v
          in if \<not> (1 \<le> length normalized \<and> length normalized \<le> MAX_FILENAME_LENGTH) \<or>
               contains_control uc normalized \<or> 47 \<in> set normalized \<or> 92 \<in> set normalized \<or>
               \<not> py_endswith (py_lower normalized) (lit ''.csv'')
             then Inl InvalidFilename
             else Inr normalized)"

definition validate_target_column :: "unicode \<Rightarrow> pystr \<Rightarrow> policy_error + pystr" where
  "validate_target_column uc value =
     (if value \<noteq> py_strip value \<or>
         \<not> (1 \<le> length value \<and> length value \<le> MAX_COLUMN_NAME_LENGTH) \<or> contains_control uc value
      then Inl InvalidTargetColumn
      else Inr value)"

definition validate_polars_regex ::
  "unicode \<Rightarrow> polars_contains \<Rightarrow> pystr \<Rightarrow> policy_error + pystr" where
  "validate_polars_regex uc contains p =
     (if \<not> (1 \<le> length p \<and> length p \<le> MAX_REGEX_PATTERN_LENGTH) \<or> contains_control uc p
      then Inl InvalidRegexPattern
      else if contains p [Some []] = None then Inl InvalidRegexPattern
      else Inr p)"

lemma normalize_dataset_name_Inr:
  "normalize_dataset_name uc v = Inr n \<Longrightarrow>
     1 \<le> length n \<and> length n \<le> 100 \<and> py_strip n = n \<and> n = py_strip (normalize_nfc uc v)"
  by (auto simp: normalize_dataset_name_def Let_def MAX_DATASET_NAME_LENGTH_def split: if_splits)

lemma normalize_csv_filename_Inr:
  "normalize_csv_filename uc v = Inr n \<Longrightarrow>
     1 \<le> length n \<and> length n \<le> 255 \<and> 47 \<notin> set n \<and> 92 \<notin> set n \<and>
     py_endswith (py_lower n) (lit ''.csv'') \<and> \<not> contains_control uc n"
  by (auto simp: normalize_csv_filename_def Let_def MAX_FILENAME_LENGTH_def
      split: if_splits option.splits)

lemma validate_target_column_Inr:
  "validate_target_column uc v = Inr n \<longleftrightarrow>
     n = v \<and> py_strip v = v \<and> 1 \<le> length v \<and> length v \<le> 128 \<and> \<not> contains_control uc v"
  by (auto simp: validate_target_column_def MAX_COLUMN_NAME_LENGTH_def)

lemma controls_unstorable: "unicode_law uc \<Longrightarrow> \<not> contains_control uc s \<Longrightarrow> storable_text s"
  by (auto simp: unicode_law_def contains_control_def storable_text_def list_ex_iff)

end
