(* ===== verification/DatasetService.thy ===== *)
theory DatasetService
  imports DatasetStore Policies
begin

text \<open>
  The dataset use cases (\<open>datasets/service.py\<close>): the consistency boundary between the database
  and the file store. A transaction that fails restores the database but not the files, so the
  order of the file operations and the cleanup of a failed upload are modelled step by step, with
  every system call and every transaction free to fail.
\<close>

record world =
  owners :: "uuid set"
  datasets :: "dataset_row list"
  rules :: "rule_row list"
  files :: files

datatype dataset_exc =
    DatasetPolicyError policy_error
  | DatasetNotFound
  | DatasetNotReady
  | UnknownColumn
  | DuplicateRule
  | IncompatibleUpload
  | CsvStructureError csv_error
  | StorageError storage_exc
  | DatasetIntegrityError constraint_name
  | DatasetDatabaseError
  | DatasetClockIsNaive
  | AssertionFailed

text \<open>\<open>split_file\<close> is how a file's bytes reach the decoder when it is read.\<close>

record dataset_env =
  unicode_db :: unicode
  file_sha256 :: "bytes \<Rightarrow> bytes"
  split_file :: "bytes \<Rightarrow> bytes list"

record 'w dataset_call =
  service_clock :: clock_reading
  txn_fails :: "nat \<Rightarrow> bool"
  new_row_id :: uuid
  candidate_uuid :: uuid
  key_uuid :: uuid
  write_fails :: bool
  replace_fails :: bool
  chmod_fails :: bool
  discard_fails :: bool
  undo_fails :: bool
  remove_fails :: bool
  in_between :: "'w \<Rightarrow> 'w"

record upload_reference =
  upload_filename :: pystr
  upload_size :: int
  upload_rows :: int
  upload_columns :: "pystr list"
  upload_sha256 :: bytes
  upload_time :: instant

record dataset_reference =
  ref_dataset_id :: uuid
  ref_name :: pystr
  ref_dataset_created_at :: instant
  ref_dataset_updated_at :: instant
  ref_upload :: "upload_reference option"

record rule_reference =
  ref_rule_id :: uuid
  ref_rule_dataset_id :: uuid
  ref_rule_type :: pystr
  ref_target_column :: pystr
  ref_configuration :: configuration
  ref_rule_created_at :: instant

fun service_now :: "clock_reading \<Rightarrow> dataset_exc + instant" where
  "service_now NaiveTime = Inl DatasetClockIsNaive"
| "service_now (AwareTime t) = Inr t"

definition dataset_reference_of :: "dataset_row \<Rightarrow> dataset_exc + dataset_reference" where
  "dataset_reference_of d =
     bind_result
       (if storage_key d = None then Inr None
        else if \<not> full_upload d then Inl AssertionFailed
        else Inr (Some
          \<lparr>upload_filename = the (original_filename d), upload_size = the (size_bytes d),
           upload_rows = the (dataset_row_count d), upload_columns = the (column_names d),
           upload_sha256 = the (content_sha256 d), upload_time = the (uploaded_at d)\<rparr>))
       (\<lambda>up. Inr \<lparr>ref_dataset_id = dataset_id d, ref_name = dataset_name d,
          ref_dataset_created_at = dataset_created_at d,
          ref_dataset_updated_at = dataset_updated_at d, ref_upload = up\<rparr>)"

definition rule_reference_of :: "rule_row \<Rightarrow> rule_reference" where
  "rule_reference_of r =
     \<lparr>ref_rule_id = rule_row_id r, ref_rule_dataset_id = rule_dataset_id r,
      ref_rule_type = rule_type r, ref_target_column = rule_target_column r,
      ref_configuration = rule_configuration r, ref_rule_created_at = rule_created_at r\<rparr>"

section \<open>Transactions over database and files\<close>

definition txn_fault :: "('a world_scheme) dataset_call \<Rightarrow> nat \<Rightarrow> dataset_exc option" where
  "txn_fault c n = (if txn_fails c n then Some DatasetDatabaseError else None)"

definition db_transaction ::
  "dataset_exc option \<Rightarrow> 'a world_scheme \<Rightarrow> ('a world_scheme \<Rightarrow> (dataset_exc + 'b) \<times> 'a world_scheme) \<Rightarrow>
     (dataset_exc + 'b) \<times> 'a world_scheme" where
  "db_transaction fault w body =
     (case body w of
        (Inl e, w') \<Rightarrow> (Inl e, w\<lparr>files := files w'\<rparr>)
      | (Inr x, w') \<Rightarrow>
          (case fault of None \<Rightarrow> (Inr x, w') | Some e \<Rightarrow> (Inl e, w\<lparr>files := files w'\<rparr>)))"

definition reading :: "('a world_scheme \<Rightarrow> dataset_exc + 'b) \<Rightarrow> 'a world_scheme \<Rightarrow> (dataset_exc + 'b) \<times> 'a world_scheme" where
  "reading f w = (f w, w)"

section \<open>Datasets\<close>

definition create_dataset ::
  "dataset_env \<Rightarrow> ('a world_scheme) dataset_call \<Rightarrow> uuid \<Rightarrow> pystr \<Rightarrow> 'a world_scheme \<Rightarrow>
     (dataset_exc + dataset_reference) \<times> 'a world_scheme" where
  "create_dataset env c owner name w =
     (case bind_result (map_sum DatasetPolicyError id (normalize_dataset_name (unicode_db env) name))
         (\<lambda>n. bind_result (service_now (service_clock c)) (\<lambda>now. Inr (n, now))) of
        Inl e \<Rightarrow> (Inl e, w)
      | Inr (n, now) \<Rightarrow>
          let d = \<lparr>dataset_id = new_row_id c, owner_id = owner, dataset_name = n,
             original_filename = None, storage_key = None, content_sha256 = None, size_bytes = None,
             dataset_row_count = None, column_names = None, uploaded_at = None,
             dataset_created_at = now, dataset_updated_at = now\<rparr>
          in (case db_transaction (txn_fault c 0) w (\<lambda>w.
                case insert_dataset (owners w) d (datasets w) of
                  Inl constraint \<Rightarrow> (Inl (DatasetIntegrityError constraint), w)
                | Inr ds \<Rightarrow> (Inr (), w\<lparr>datasets := ds\<rparr>)) of
              (Inl e, w') \<Rightarrow> (Inl e, w')
            | (Inr _, w') \<Rightarrow> (dataset_reference_of d, w')))"

definition list_datasets ::
  "('a world_scheme) dataset_call \<Rightarrow> uuid \<Rightarrow> nat \<Rightarrow> nat \<Rightarrow> 'a world_scheme \<Rightarrow>
     (dataset_exc + dataset_reference list) \<times> 'a world_scheme" where
  "list_datasets c owner limit offset w =
     db_transaction (txn_fault c 0) w
       (reading (\<lambda>w. map_results dataset_reference_of (list_for_owner (datasets w) owner limit offset)))"

definition require_dataset :: "uuid \<Rightarrow> uuid \<Rightarrow> 'a world_scheme \<Rightarrow> dataset_exc + dataset_row" where
  "require_dataset did owner w =
     (case get_for_owner (datasets w) did owner of None \<Rightarrow> Inl DatasetNotFound | Some d \<Rightarrow> Inr d)"

definition get_dataset ::
  "('a world_scheme) dataset_call \<Rightarrow> uuid \<Rightarrow> uuid \<Rightarrow> 'a world_scheme \<Rightarrow>
     (dataset_exc + dataset_reference) \<times> 'a world_scheme" where
  "get_dataset c owner did w =
     db_transaction (txn_fault c 0) w
       (reading (\<lambda>w. bind_result (require_dataset did owner w) dataset_reference_of))"

section \<open>Uploads\<close>

definition uploaded ::
  "dataset_row \<Rightarrow> pystr \<Rightarrow> pystr \<Rightarrow> candidate_file \<Rightarrow> csv_structure \<Rightarrow> instant \<Rightarrow> dataset_row" where
  "uploaded d filename key cand st now =
     d\<lparr>original_filename := Some filename, storage_key := Some key,
       content_sha256 := Some (candidate_sha256 cand), size_bytes := Some (int (candidate_size cand)),
       dataset_row_count := Some (int (row_count st)), column_names := Some (csv_columns st),
       uploaded_at := Some now, dataset_updated_at := now\<rparr>"

text \<open>
  The body of the second transaction. It also reports whether the key counts as installed when it
  raises, which the code notes just before the file operation.
\<close>

definition upload_body ::
  "('a world_scheme) dataset_call \<Rightarrow> uuid \<Rightarrow> uuid \<Rightarrow> pystr \<Rightarrow> pystr \<Rightarrow> candidate_file \<Rightarrow> csv_structure \<Rightarrow>
     instant \<Rightarrow> 'a world_scheme \<Rightarrow>
     (bool \<times> dataset_exc + dataset_reference \<times> pystr option) \<times> 'a world_scheme" where
  "upload_body c owner did filename key cand st now w =
     (case get_for_owner (datasets w) did owner of
        None \<Rightarrow> (Inl (False, DatasetNotFound), w)
      | Some d \<Rightarrow>
          if \<not> target_columns (rules w) (dataset_id d) \<subseteq> set (csv_columns st)
          then (Inl (False, IncompatibleUpload), w)
          else (case install (replace_fails c) (chmod_fails c) cand key (files w) of
              (Inl e, fs) \<Rightarrow> (Inl (True, StorageError e), w\<lparr>files := fs\<rparr>)
            | (Inr _, fs) \<Rightarrow>
                let d' = uploaded d filename key cand st now
                in (case first_violated (dataset_row_checks d' @
                      [(''uq_datasets_storage_key'', storage_key_free (datasets w) d')]) of
                    Some constraint \<Rightarrow> (Inl (True, DatasetIntegrityError constraint), w\<lparr>files := fs\<rparr>)
                  | None \<Rightarrow>
                      (case dataset_reference_of d' of
                         Inl e \<Rightarrow> (Inl (True, e), w\<lparr>files := fs\<rparr>)
                       | Inr ref \<Rightarrow>
                           (Inr (ref, storage_key d),
                            w\<lparr>files := fs, datasets :=
                              update_rows (\<lambda>r. dataset_id r = dataset_id d) (\<lambda>_. d') (datasets w)\<rparr>)))))"

text \<open>A commit that fails comes after the installation.\<close>

definition upload_transaction ::
  "('a world_scheme) dataset_call \<Rightarrow> uuid \<Rightarrow> uuid \<Rightarrow> pystr \<Rightarrow> pystr \<Rightarrow> candidate_file \<Rightarrow> csv_structure \<Rightarrow>
     instant \<Rightarrow> 'a world_scheme \<Rightarrow>
     (bool \<times> dataset_exc + dataset_reference \<times> pystr option) \<times> 'a world_scheme" where
  "upload_transaction c owner did filename key cand st now w =
     (case upload_body c owner did filename key cand st now w of
        (Inl e, w') \<Rightarrow> (Inl e, w\<lparr>files := files w'\<rparr>)
      | (Inr x, w') \<Rightarrow>
          if txn_fails c 1 then (Inl (True, DatasetDatabaseError), w\<lparr>files := files w'\<rparr>)
          else (Inr x, w'))"

text \<open>The \<open>except BaseException\<close> block.\<close>

definition undo_upload ::
  "('a world_scheme) dataset_call \<Rightarrow> candidate_file \<Rightarrow> bool \<Rightarrow> pystr \<Rightarrow> dataset_exc \<Rightarrow> 'a world_scheme \<Rightarrow>
     (dataset_exc + dataset_reference) \<times> 'a world_scheme" where
  "undo_upload c cand installed key e w =
     (case discard_candidate (discard_fails c) cand (files w) of
        (Inl e', fs) \<Rightarrow> (Inl (StorageError e'), w\<lparr>files := fs\<rparr>)
      | (Inr _, fs) \<Rightarrow>
          if installed
          then (case remove_file (undo_fails c) key fs of
              (Inl InvalidStorageKey, fs') \<Rightarrow> (Inl (StorageError InvalidStorageKey), w\<lparr>files := fs'\<rparr>)
            | (_, fs') \<Rightarrow> (Inl e, w\<lparr>files := fs'\<rparr>))
          else (Inl e, w\<lparr>files := fs\<rparr>))"

text \<open>After the commit the superseded file is removed; a failure leaves an orphan only.\<close>

definition remove_superseded ::
  "('a world_scheme) dataset_call \<Rightarrow> pystr \<Rightarrow> dataset_reference \<Rightarrow> pystr option \<Rightarrow> 'a world_scheme \<Rightarrow>
     (dataset_exc + dataset_reference) \<times> 'a world_scheme" where
  "remove_superseded c key ref old w =
     (case old of
        None \<Rightarrow> (Inr ref, w)
      | Some k \<Rightarrow>
          if k = key then (Inr ref, w)
          else (case remove_file (remove_fails c) k (files w) of
              (Inl InvalidStorageKey, fs) \<Rightarrow> (Inl (StorageError InvalidStorageKey), w\<lparr>files := fs\<rparr>)
            | (_, fs) \<Rightarrow> (Inr ref, w\<lparr>files := fs\<rparr>)))"

text \<open>From the written candidate on.\<close>

definition activate_candidate ::
  "dataset_env \<Rightarrow> ('a world_scheme) dataset_call \<Rightarrow> uuid \<Rightarrow> uuid \<Rightarrow> pystr \<Rightarrow> candidate_file \<Rightarrow>
     'a world_scheme \<Rightarrow> (dataset_exc + dataset_reference) \<times> 'a world_scheme" where
  "activate_candidate env c owner did filename cand w =
     (let key = new_storage_key (key_uuid c)
      in case
          (case files w (candidate_name cand) of
             None \<Rightarrow> Inl (StorageError StorageOsError)
           | Some content \<Rightarrow>
               bind_result (map_sum CsvStructureError id (scan_csv (split_file env content))) (\<lambda>st.
               bind_result (service_now (service_clock c)) (\<lambda>now. Inr (st, now)))) of
        Inl e \<Rightarrow> undo_upload c cand False key e w
      | Inr (st, now) \<Rightarrow>
          (case upload_transaction c owner did filename key cand st now (in_between c w) of
             (Inl (installed, e), w') \<Rightarrow> undo_upload c cand installed key e w'
           | (Inr (ref, old), w') \<Rightarrow> remove_superseded c key ref old w'))"

definition upload_csv ::
  "dataset_env \<Rightarrow> ('a world_scheme) dataset_call \<Rightarrow> uuid \<Rightarrow> uuid \<Rightarrow> pystr option \<Rightarrow> bytes list \<Rightarrow>
     'a world_scheme \<Rightarrow> (dataset_exc + dataset_reference) \<times> 'a world_scheme" where
  "upload_csv env c owner did filename source w =
     (case normalize_csv_filename (unicode_db env) filename of
        Inl e \<Rightarrow> (Inl (DatasetPolicyError e), w)
      | Inr safe_filename \<Rightarrow>
          (case db_transaction (txn_fault c 0) w (reading (require_dataset did owner)) of
             (Inl e, w1) \<Rightarrow> (Inl e, w1)
           | (Inr _, w1) \<Rightarrow>
               (case write_candidate (file_sha256 env) (candidate_uuid c) (write_fails c) source (files w1) of
                  (Inl e, fs) \<Rightarrow> (Inl (StorageError e), w1\<lparr>files := fs\<rparr>)
                | (Inr cand, fs) \<Rightarrow>
                    activate_candidate env c owner did safe_filename cand (w1\<lparr>files := fs\<rparr>))))"

section \<open>Rules\<close>

definition as_duplicate_rule :: "dataset_exc \<Rightarrow> dataset_exc" where
  "as_duplicate_rule e =
     (if e = DatasetIntegrityError ''uq_validation_rules_definition'' then DuplicateRule else e)"

definition create_rule_body ::
  "uuid \<Rightarrow> rule_row \<Rightarrow> 'a world_scheme \<Rightarrow> (dataset_exc + unit) \<times> 'a world_scheme" where
  "create_rule_body owner r w =
     (case get_for_owner (datasets w) (rule_dataset_id r) owner of
        None \<Rightarrow> (Inl DatasetNotFound, w)
      | Some d \<Rightarrow>
          (case column_names d of
             None \<Rightarrow> (Inl DatasetNotReady, w)
           | Some cols \<Rightarrow>
               if rule_target_column r \<notin> set cols then (Inl UnknownColumn, w)
               else (case insert_rule (datasets w) r (rules w) of
                   Inl constraint \<Rightarrow> (Inl (DatasetIntegrityError constraint), w)
                 | Inr rs \<Rightarrow> (Inr (), w\<lparr>rules := rs\<rparr>))))"

definition create_rule ::
  "dataset_env \<Rightarrow> ('a world_scheme) dataset_call \<Rightarrow> uuid \<Rightarrow> uuid \<Rightarrow> pystr \<Rightarrow> pystr \<Rightarrow> configuration \<Rightarrow>
     'a world_scheme \<Rightarrow> (dataset_exc + rule_reference) \<times> 'a world_scheme" where
  "create_rule env c owner did ty column config w =
     (case bind_result (map_sum DatasetPolicyError id (validate_target_column (unicode_db env) column))
         (\<lambda>col. bind_result (service_now (service_clock c)) (\<lambda>now. Inr (col, now))) of
        Inl e \<Rightarrow> (Inl e, w)
      | Inr (col, now) \<Rightarrow>
          let r = \<lparr>rule_row_id = new_row_id c, rule_dataset_id = did, rule_type = ty,
             rule_target_column = col, rule_configuration = config, rule_created_at = now\<rparr>
          in (case db_transaction (txn_fault c 0) w (create_rule_body owner r) of
              (Inl e, w') \<Rightarrow> (Inl (as_duplicate_rule e), w')
            | (Inr _, w') \<Rightarrow> (Inr (rule_reference_of r), w')))"

definition list_rules ::
  "('a world_scheme) dataset_call \<Rightarrow> uuid \<Rightarrow> uuid \<Rightarrow> nat \<Rightarrow> nat \<Rightarrow> 'a world_scheme \<Rightarrow>
     (dataset_exc + rule_reference list) \<times> 'a world_scheme" where
  "list_rules c owner did limit offset w =
     db_transaction (txn_fault c 0) w
       (reading (\<lambda>w. bind_result (require_dataset did owner w) (\<lambda>_.
          Inr (map rule_reference_of (list_for_dataset (rules w) did limit offset)))))"

definition delete_rule ::
  "('a world_scheme) dataset_call \<Rightarrow> uuid \<Rightarrow> uuid \<Rightarrow> uuid \<Rightarrow> 'a world_scheme \<Rightarrow>
     (dataset_exc + unit) \<times> 'a world_scheme" where
  "delete_rule c owner did rid w =
     db_transaction (txn_fault c 0) w (\<lambda>w.
       case require_dataset did owner w of
         Inl e \<Rightarrow> (Inl e, w)
       | Inr _ \<Rightarrow>
           (case get_rule (rules w) did rid of
              None \<Rightarrow> (Inl DatasetNotFound, w)
            | Some r \<Rightarrow> (Inr (), w\<lparr>rules := filter (\<lambda>q. rule_row_id q \<noteq> rule_row_id r) (rules w)\<rparr>)))"

section \<open>What the service keeps true\<close>

text \<open>
  A dataset's record of its upload is the truth about the file under its key: its size, its hash,
  and the structure a scan of it finds.
\<close>

definition upload_ok :: "dataset_env \<Rightarrow> files \<Rightarrow> dataset_row \<Rightarrow> bool" where
  "upload_ok env fs d \<longleftrightarrow>
     (\<forall>k. storage_key d = Some k \<longrightarrow>
       (\<exists>b n cs. open_binary k fs = Inr b \<and> length b \<le> MAX_CSV_BYTES \<and>
         size_bytes d = Some (int (length b)) \<and> content_sha256 d = Some (file_sha256 env b) \<and>
         scan_csv (split_file env b) = Inr \<lparr>row_count = n, csv_columns = cs\<rparr> \<and>
         dataset_row_count d = Some (int n) \<and> column_names d = Some cs))"

definition rule_fits :: "dataset_row list \<Rightarrow> rule_row \<Rightarrow> bool" where
  "rule_fits ds r \<longleftrightarrow>
     (\<exists>d \<in> set ds. dataset_id d = rule_dataset_id r \<and>
        (\<exists>cs. column_names d = Some cs \<and> rule_target_column r \<in> set cs))"

definition world_ok :: "dataset_env \<Rightarrow> 'a world_scheme \<Rightarrow> bool" where
  "world_ok env w \<longleftrightarrow>
     datasets_by_id.table_ok (datasets w) \<and>
     (\<forall>d \<in> set (datasets w). storage_key_free (datasets w) d) \<and>
     rules_by_id.table_ok (rules w) \<and> rules_by_definition.table_ok (rules w) \<and>
     (\<forall>d \<in> set (datasets w). upload_ok env (files w) d) \<and>
     (\<forall>r \<in> set (rules w). rule_fits (datasets w) r)"

end
