(* ===== verification/DatasetConsistency.thy ===== *)
theory DatasetConsistency
  imports DatasetService
begin

text \<open>
  Database and files stay consistent under every call of the dataset service, whatever fails.
\<close>

section \<open>Changes of the files alone\<close>

definition keeps_active :: "'a world_scheme \<Rightarrow> files \<Rightarrow> bool" where
  "keeps_active w fs \<longleftrightarrow>
     (\<forall>d \<in> set (datasets w). \<forall>k b. storage_key d = Some k \<longrightarrow>
        open_binary k (files w) = Inr b \<longrightarrow> open_binary k fs = Inr b)"

lemma upload_ok_files:
  assumes "upload_ok env fs d"
    and "\<And>k b. storage_key d = Some k \<Longrightarrow> open_binary k fs = Inr b \<Longrightarrow> open_binary k fs' = Inr b"
  shows "upload_ok env fs' d"
  using assms unfolding upload_ok_def by blast

lemma world_ok_files: "world_ok env w \<Longrightarrow> keeps_active w fs \<Longrightarrow> world_ok env (w\<lparr>files := fs\<rparr>)"
  by (auto simp: world_ok_def keeps_active_def intro: upload_ok_files)

definition unused_key :: "pystr \<Rightarrow> 'a world_scheme \<Rightarrow> bool" where
  "unused_key k w \<longleftrightarrow> (\<forall>d \<in> set (datasets w). storage_key d \<noteq> Some k)"

lemma keeps_active_write:
  "write_candidate sha u fails chunks (files w) = (r, fs) \<Longrightarrow> keeps_active w fs"
  using local_store.write_keeps [of sha u fails chunks "files w" fs] by (auto simp: keeps_active_def)

lemma keeps_active_install:
  "\<not> is_storage_key (candidate_name cand) \<Longrightarrow> unused_key k w \<Longrightarrow>
   install f g cand k (files w) = (r, fs) \<Longrightarrow> keeps_active w fs"
  using local_store.install_keeps [of cand f g k "files w" fs] by (auto simp: keeps_active_def unused_key_def)

lemma keeps_active_remove: "unused_key k w \<Longrightarrow> remove_file f k (files w) = (r, fs) \<Longrightarrow> keeps_active w fs"
  using local_store.remove_keeps [of f k "files w" fs] by (auto simp: keeps_active_def unused_key_def)

lemma keeps_active_discard:
  "\<not> is_storage_key (candidate_name cand) \<Longrightarrow> discard_candidate f cand (files w) = (r, fs) \<Longrightarrow>
   keeps_active w fs"
  using local_store.discard_keeps [of cand f "files w" fs] by (auto simp: keeps_active_def)

lemma undo_upload_ok:
  assumes "world_ok env w" and cand: "\<not> is_storage_key (candidate_name cand)" and key: "unused_key key w"
  shows "world_ok env (snd (undo_upload c cand installed key e w))"
proof -
  obtain r fs where d: "discard_candidate (discard_fails c) cand (files w) = (r, fs)"
    by (cases "discard_candidate (discard_fails c) cand (files w)")
  then have ok: "world_ok env (w\<lparr>files := fs\<rparr>)"
    using world_ok_files [OF assms(1)] keeps_active_discard [OF cand d] by blast
  obtain q fs' where rm: "remove_file (undo_fails c) key fs = (q, fs')"
    by (cases "remove_file (undo_fails c) key fs")
  have "keeps_active (w\<lparr>files := fs\<rparr>) fs'"
    using keeps_active_remove [of key "w\<lparr>files := fs\<rparr>"] key rm by (simp add: unused_key_def)
  then have "world_ok env (w\<lparr>files := fs'\<rparr>)" using world_ok_files [OF ok] by simp
  then show ?thesis
    using ok d rm by (auto simp: undo_upload_def split: sum.splits storage_exc.splits)
qed

section \<open>The new upload\<close>

lemma upload_body_error:
  assumes ok: "world_ok env w" and cand: "\<not> is_storage_key (candidate_name cand)" and key: "unused_key key w"
    and body: "upload_body c owner did fn key cand st now w = (Inl e, w')"
  shows "keeps_active w (files w')"
proof (cases "files w' = files w")
  case False
  then obtain r fs where "install (replace_fails c) (chmod_fails c) cand key (files w) = (r, fs)" "files w' = fs"
    using body by (auto simp: upload_body_def Let_def split: option.splits if_splits sum.splits prod.splits)
  then show ?thesis using keeps_active_install [OF cand key] by blast
qed (simp add: keeps_active_def)

text \<open>The old key of the dataset belongs to no other dataset, and the new one differs from it.\<close>

lemma upload_body_ok:
  assumes ok: "world_ok env w" and key: "unused_key key w"
    and cand: "\<not> is_storage_key (candidate_name cand)" "files w (candidate_name cand) = Some b"
      "length b \<le> MAX_CSV_BYTES" "candidate_size cand = length b" "candidate_sha256 cand = file_sha256 env b"
    and st: "scan_csv (split_file env b) = Inr st"
    and body: "upload_body c owner did fn key cand st now w = (Inr (ref, old), w')"
  shows "world_ok env w' \<and> (\<forall>k. old = Some k \<longrightarrow> unused_key k w')"
proof -
  from body obtain d fs where d: "get_for_owner (datasets w) did owner = Some d"
    and sub: "target_columns (rules w) (dataset_id d) \<subseteq> set (csv_columns st)"
    and inst: "install (replace_fails c) (chmod_fails c) cand key (files w) = (Inr (), fs)"
    and chk: "first_violated (dataset_row_checks (uploaded d fn key cand st now) @
        [(''uq_datasets_storage_key'', storage_key_free (datasets w) (uploaded d fn key cand st now))]) = None"
    and old: "old = storage_key d"
    and w': "w' = w\<lparr>files := fs, datasets :=
        update_rows (\<lambda>r. dataset_id r = dataset_id d) (\<lambda>_. uploaded d fn key cand st now) (datasets w)\<rparr>"
    by (auto simp: upload_body_def Let_def split: option.splits if_splits sum.splits prod.splits)
  let ?d' = "uploaded d fn key cand st now"
  let ?ds = "update_rows (\<lambda>r. dataset_id r = dataset_id d) (\<lambda>_. ?d') (datasets w)"
  have mem: "d \<in> set (datasets w)" using get_for_owner_Some [OF d] by simp
  have id: "dataset_id ?d' = dataset_id d" by (simp add: uploaded_def)
  have only: "r = d" if "r \<in> set (datasets w)" "dataset_id r = dataset_id d" for r
    using that mem ok by (auto simp: world_ok_def intro: datasets_by_id.key_unique)
  have row: "dataset_row_ok ?d'" using chk by (simp add: first_violated_None dataset_row_ok_def)
  have elem: "r \<in> set ?ds \<longleftrightarrow> (r \<in> set (datasets w) \<and> r \<noteq> d) \<or> r = ?d'" for r
    using only mem by (auto simp: set_update_rows)
  have tab: "datasets_by_id.table_ok ?ds"
    by (rule datasets_by_id.update_table_ok) (use ok row in \<open>auto simp: world_ok_def uploaded_def\<close>)
  have opened: "open_binary key fs = Inr b"
    using local_store.install_content [OF inst, of b "file_sha256 env"] cand by simp
  have keep: "keeps_active w fs" using keeps_active_install [OF cand(1) key inst] .
  have up': "upload_ok env fs ?d'"
    using opened cand(3-5) st unfolding upload_ok_def by (cases st) (auto simp: uploaded_def)
  have ups: "upload_ok env fs r" if "r \<in> set (datasets w)" for r
    using that ok keep by (auto simp: world_ok_def keeps_active_def intro: upload_ok_files)
  have old_free: "storage_key r \<noteq> storage_key e"
    if "r \<in> set (datasets w)" "e \<in> set (datasets w)" "dataset_id e \<noteq> dataset_id r" "storage_key r \<noteq> None" for r e
    using that ok by (auto simp: world_ok_def storage_key_free_def)
  have free: "storage_key_free ?ds r" if r: "r \<in> set ?ds" for r
    unfolding storage_key_free_def
  proof (cases "storage_key r = None", simp, intro disjI2 ballI impI)
    fix e assume e: "e \<in> set ?ds" and ne: "dataset_id e \<noteq> dataset_id r" and some: "storage_key r \<noteq> None"
    consider "r = ?d'" "e \<in> set (datasets w)" | "e = ?d'" "r \<in> set (datasets w)"
      | "r \<in> set (datasets w)" "e \<in> set (datasets w)"
      using r e ne elem by blast
    then show "storage_key e \<noteq> storage_key r"
    proof cases
      case 3
      then show ?thesis using old_free [OF 3 ne some] by simp
    qed (use key in \<open>auto simp: unused_key_def uploaded_def\<close>)
  qed
  have fits: "rule_fits ?ds r" if "r \<in> set (rules w)" for r
  proof -
    from ok that obtain e cs where e: "e \<in> set (datasets w)" "dataset_id e = rule_dataset_id r"
      "column_names e = Some cs" "rule_target_column r \<in> set cs"
      by (auto simp: world_ok_def rule_fits_def)
    show ?thesis
    proof (cases "e = d")
      case True
      then have "rule_target_column r \<in> set (csv_columns st)" using sub that e by (auto simp: target_columns_def)
      then show ?thesis unfolding rule_fits_def using True e id elem
        by (intro bexI [where x = ?d']) (auto simp: uploaded_def)
    next
      case False
      then show ?thesis unfolding rule_fits_def using e elem by blast
    qed
  qed
  have "world_ok env w'"
    using ok tab free up' ups fits elem by (auto simp: world_ok_def w')
  moreover have "unused_key k w'" if "old = Some k" for k
  proof -
    have "storage_key r \<noteq> Some k" if "r \<in> set (datasets w)" "r \<noteq> d" for r
      using that only [of r] old_free [OF mem, of r] old [symmetric] \<open>old = Some k\<close>
      by (cases "dataset_id r = dataset_id d") auto
    moreover have "key \<noteq> k" using key mem old that by (auto simp: unused_key_def)
    ultimately show ?thesis using elem by (auto simp: unused_key_def w' uploaded_def)
  qed
  ultimately show ?thesis by blast
qed

section \<open>Every call\<close>

text \<open>
  What happens between the transactions of an upload keeps the database consistent, leaves the
  candidate alone (its name is random) and does not draw the same key.
\<close>

definition others_polite :: "dataset_env \<Rightarrow> ('a world_scheme) dataset_call \<Rightarrow> bool" where
  "others_polite env c \<longleftrightarrow>
     (\<forall>w. world_ok env w \<longrightarrow> world_ok env (in_between c w)) \<and>
     (\<forall>w. files (in_between c w) (candidate_path (candidate_uuid c)) = files w (candidate_path (candidate_uuid c))) \<and>
     (\<forall>w. unused_key (new_storage_key (key_uuid c)) w \<longrightarrow> unused_key (new_storage_key (key_uuid c)) (in_between c w))"

lemma unused_key_files [simp]: "unused_key k (w\<lparr>files := fs\<rparr>) = unused_key k w"
  by (simp add: unused_key_def)

lemma upload_transaction_error:
  assumes "upload_transaction c owner did fn key cand st now w = (Inl e, w')" and "world_ok env w"
    and "\<not> is_storage_key (candidate_name cand)" and "unused_key key w"
  shows "world_ok env w' \<and> unused_key key w' \<and> datasets w' = datasets w \<and> rules w' = rules w \<and> owners w' = owners w"
proof -
  obtain r w1 where body: "upload_body c owner did fn key cand st now w = (r, w1)"
    by (cases "upload_body c owner did fn key cand st now w")
  have "w' = w\<lparr>files := files w1\<rparr>" using assms(1) body by (auto simp: upload_transaction_def split: sum.splits if_splits)
  moreover have "keeps_active w (files w1)"
  proof (cases r)
    case (Inl e)
    then show ?thesis using upload_body_error [OF assms(2-4)] body by simp
  next
    case (Inr x)
    then obtain fs where "install (replace_fails c) (chmod_fails c) cand key (files w) = (Inr (), fs)" "files w1 = fs"
      using body by (auto simp: upload_body_def Let_def split: option.splits if_splits sum.splits prod.splits)
    then show ?thesis using keeps_active_install [OF assms(3,4)] by blast
  qed
  ultimately show ?thesis using world_ok_files [OF assms(2)] assms(4) by simp
qed

lemma upload_transaction_Inr:
  "upload_transaction c owner did fn key cand st now w = (Inr x, w') \<longleftrightarrow>
     upload_body c owner did fn key cand st now w = (Inr x, w') \<and> \<not> txn_fails c 1"
  by (auto simp: upload_transaction_def split: prod.splits sum.splits)

lemma remove_superseded_ok:
  assumes "world_ok env w" and "\<And>k. old = Some k \<Longrightarrow> unused_key k w"
  shows "world_ok env (snd (remove_superseded c key ref old w))"
proof (cases old)
  case (Some k)
  obtain q fs where rm: "remove_file (remove_fails c) k (files w) = (q, fs)"
    by (cases "remove_file (remove_fails c) k (files w)")
  have "world_ok env (w\<lparr>files := fs\<rparr>)"
    using world_ok_files [OF assms(1)] keeps_active_remove [OF assms(2) [OF Some] rm] by blast
  then show ?thesis using Some rm assms(1)
    by (auto simp: remove_superseded_def split: sum.splits storage_exc.splits)
qed (simp add: remove_superseded_def assms)

lemma activate_candidate_ok:
  assumes ok: "world_ok env w" and c: "others_polite env c" and key: "unused_key (new_storage_key (key_uuid c)) w"
    and name: "candidate_name cand = candidate_path (candidate_uuid c)"
    and cf: "\<And>b. files w (candidate_name cand) = Some b \<Longrightarrow> length b \<le> MAX_CSV_BYTES \<and>
      candidate_size cand = length b \<and> candidate_sha256 cand = file_sha256 env b"
  shows "world_ok env (snd (activate_candidate env c owner did fn cand w))"
proof -
  let ?key = "new_storage_key (key_uuid c)" and ?w = "in_between c w"
  have nk: "\<not> is_storage_key (candidate_name cand)" by (simp add: name)
  have ok': "world_ok env ?w" and key': "unused_key ?key ?w"
    and same: "files ?w (candidate_name cand) = files w (candidate_name cand)"
    using ok c key by (auto simp: others_polite_def name)
  have undo: "world_ok env (snd (undo_upload c cand i ?key e v))" if "world_ok env v" "unused_key ?key v" for i e v
    using undo_upload_ok [OF that(1) nk that(2)] .
  show ?thesis
  proof (cases "files w (candidate_name cand)")
    case None
    then show ?thesis using undo [OF ok key] by (simp add: activate_candidate_def)
  next
    case (Some b)
    show ?thesis
    proof (cases "scan_csv (split_file env b)")
      case (Inl e)
      then show ?thesis using undo [OF ok key] Some by (simp add: activate_candidate_def)
    next
      case st: (Inr st)
      show ?thesis
      proof (cases "service_now (service_clock c)")
        case (Inl e)
        then show ?thesis using undo [OF ok key] Some st by (simp add: activate_candidate_def)
      next
        case now: (Inr now)
        obtain r w' where t: "upload_transaction c owner did fn ?key cand st now ?w = (r, w')"
          by (cases "upload_transaction c owner did fn ?key cand st now ?w")
        show ?thesis
        proof (cases r)
          case (Inl e)
          then show ?thesis using upload_transaction_error [of c owner did fn ?key cand st now ?w e w' env] t ok' key' nk
              undo [of w'] Some st now by (cases e) (simp add: activate_candidate_def)
        next
          case (Inr x)
          then obtain ref old where x: "r = Inr (ref, old)" by (cases x) simp
          have "world_ok env w' \<and> (\<forall>k. old = Some k \<longrightarrow> unused_key k w')"
            by (rule upload_body_ok [OF ok' key' nk, of b st c owner did fn now ref])
              (use same Some cf [OF Some] st t x in \<open>simp_all add: upload_transaction_Inr\<close>)
          then show ?thesis using remove_superseded_ok [of env w' old c ?key ref] Some st now t x
            by (simp add: activate_candidate_def)
        qed
      qed
    qed
  qed
qed

lemma db_transaction_reading [simp]: "snd (db_transaction fault w (reading f)) = w"
  by (auto simp: db_transaction_def reading_def split: sum.splits option.splits)

lemma write_candidate_Inr:
  "write_candidate sha u fails chunks fs = (Inr cand, fs') \<longleftrightarrow>
     fs (candidate_path u) = None \<and> \<not> fails \<and> length (upload_content chunks) \<le> MAX_CSV_BYTES \<and>
     cand = \<lparr>candidate_name = candidate_path u, candidate_size = length (upload_content chunks),
       candidate_sha256 = sha (upload_content chunks)\<rparr> \<and>
     fs' = fs(candidate_path u \<mapsto> upload_content chunks)"
  by (auto simp: write_candidate_def copy_chunks_eq Let_def split: if_splits)

lemma upload_csv_ok:
  assumes ok: "world_ok env w" and c: "others_polite env c" and key: "unused_key (new_storage_key (key_uuid c)) w"
  shows "world_ok env (snd (upload_csv env c owner did fn source w))"
proof (cases "normalize_csv_filename (unicode_db env) fn")
  case (Inr safe)
  obtain q w1 where t: "db_transaction (txn_fault c 0) w (reading (require_dataset did owner)) = (q, w1)"
    by (cases "db_transaction (txn_fault c 0) w (reading (require_dataset did owner))")
  have w1: "w1 = w" using t db_transaction_reading [of "txn_fault c 0" w "require_dataset did owner"] by simp
  obtain r fs where wr: "write_candidate (file_sha256 env) (candidate_uuid c) (write_fails c) source (files w) = (r, fs)"
    by (cases "write_candidate (file_sha256 env) (candidate_uuid c) (write_fails c) source (files w)")
  have ok': "world_ok env (w\<lparr>files := fs\<rparr>)"
    using world_ok_files [OF ok keeps_active_write [OF wr]] .
  show ?thesis
  proof (cases r)
    case (Inl e)
    then show ?thesis using Inr t w1 wr ok ok' by (simp add: upload_csv_def split: sum.split)
  next
    case r: (Inr cand)
    have "world_ok env (snd (activate_candidate env c owner did safe cand (w\<lparr>files := fs\<rparr>)))"
      by (rule activate_candidate_ok [OF ok' c]) (use key wr r in \<open>auto simp: write_candidate_Inr\<close>)
    then show ?thesis using Inr t w1 wr r ok by (simp add: upload_csv_def split: sum.split)
  qed
qed (simp add: upload_csv_def ok)

lemma insert_dataset_Inr:
  "insert_dataset os d ds = Inr ds' \<longleftrightarrow>
     ds' = ds @ [d] \<and> dataset_row_ok d \<and> dataset_id d \<notin> dataset_id ` set ds \<and> storage_key_free ds d \<and> owner_id d \<in> os"
  by (auto simp: insert_dataset_def insert_row_Inr dataset_constraints_def dataset_row_ok_def)

lemma insert_rule_Inr:
  "insert_rule ds r rs = Inr rs' \<longleftrightarrow>
     rs' = rs @ [r] \<and> rule_row_ok r \<and> rule_row_id r \<notin> rule_row_id ` set rs \<and>
     rule_definition r \<notin> rule_definition ` set rs \<and> rule_dataset_id r \<in> dataset_id ` set ds"
  by (auto simp: insert_rule_def insert_row_Inr rule_constraints_def rule_row_ok_def)

lemma create_dataset_cases:
  obtains (same) e where "create_dataset env c owner name w = (Inl e, w)"
  | (added) ref d where "insert_dataset (owners w) d (datasets w) = Inr (datasets w @ [d])" "no_upload d"
      "create_dataset env c owner name w = (Inr ref, w\<lparr>datasets := datasets w @ [d]\<rparr>)" "owner_id d = owner"
      "normalize_dataset_name (unicode_db env) name = Inr (dataset_name d)"
proof -
  show ?thesis
  proof (cases "bind_result (map_sum DatasetPolicyError id (normalize_dataset_name (unicode_db env) name))
         (\<lambda>n. bind_result (service_now (service_clock c)) (\<lambda>now. Inr (n, now)))")
    case (Inl e)
    then show ?thesis using same by (simp add: create_dataset_def)
  next
    case (Inr p)
    then obtain n now where p: "p = (n, now)" by (cases p)
    define d where "d = \<lparr>dataset_id = new_row_id c, owner_id = owner, dataset_name = n,
             original_filename = None, storage_key = None, content_sha256 = None, size_bytes = None,
             dataset_row_count = None, column_names = None, uploaded_at = None,
             dataset_created_at = now, dataset_updated_at = now\<rparr>"
    have d: "no_upload d" "owner_id d = owner" "normalize_dataset_name (unicode_db env) name = Inr (dataset_name d)"
      using Inr p by (cases "normalize_dataset_name (unicode_db env) name"; auto simp: d_def no_upload_def bind_result_Inr_iff)+
    show ?thesis
    proof (cases "insert_dataset (owners w) d (datasets w)")
      case (Inl e)
      then show ?thesis using same Inr p by (simp add: create_dataset_def d_def [symmetric] db_transaction_def)
    next
      case i: (Inr ds)
      then have ds: "ds = datasets w @ [d]" by (simp add: insert_dataset_Inr)
      obtain ref where "dataset_reference_of d = Inr ref" by (simp add: dataset_reference_of_def d_def)
      then show ?thesis using same added [of d ref] i ds d Inr p
        by (cases "txn_fault c 0") (simp_all add: create_dataset_def d_def [symmetric] db_transaction_def)
    qed
  qed
qed

lemma create_dataset_ok:
  assumes ok: "world_ok env w" shows "world_ok env (snd (create_dataset env c owner name w))"
proof (cases rule: create_dataset_cases [of env c owner name w])
  case (added ref d)
  have "datasets_by_id.table_ok (datasets w @ [d])"
    using datasets_by_id.ins_table_ok [OF _ added(1)] ok by (simp add: world_ok_def)
  moreover have "storage_key_free (datasets w @ [d]) e" if "e \<in> set (datasets w @ [d])" for e
    using that ok added(2) by (auto simp: world_ok_def storage_key_free_def no_upload_def)
  ultimately show ?thesis using ok added(2,3)
    by (auto simp: world_ok_def rule_fits_def upload_ok_def no_upload_def)
qed (use ok in simp)

lemma create_rule_cases:
  obtains (same) e where "create_rule env c owner did ty column config w = (Inl e, w)"
  | (added) r d cs where "create_rule env c owner did ty column config w =
        (Inr (rule_reference_of r), w\<lparr>rules := rules w @ [r]\<rparr>)"
      "insert_rule (datasets w) r (rules w) = Inr (rules w @ [r])"
      "get_for_owner (datasets w) did owner = Some d" "column_names d = Some cs"
      "rule_target_column r \<in> set cs" "rule_dataset_id r = did" "rule_type r = ty"
      "rule_target_column r = column" "rule_configuration r = config" "rule_row_id r = new_row_id c"
proof -
  show ?thesis
  proof (cases "bind_result (map_sum DatasetPolicyError id (validate_target_column (unicode_db env) column))
         (\<lambda>col. bind_result (service_now (service_clock c)) (\<lambda>now. Inr (col, now)))")
    case (Inl e)
    then show ?thesis using same by (simp add: create_rule_def)
  next
    case (Inr p)
    then obtain now where p: "p = (column, now)"
      by (cases p) (auto simp: result_simps validate_target_column_def split: if_splits)
    define r where "r = \<lparr>rule_row_id = new_row_id c, rule_dataset_id = did, rule_type = ty,
             rule_target_column = column, rule_configuration = config, rule_created_at = now\<rparr>"
    obtain q w' where b: "create_rule_body owner r w = (q, w')" by (cases "create_rule_body owner r w")
    show ?thesis
    proof (cases q)
      case (Inl e)
      then have "w' = w" using b by (auto simp: create_rule_body_def split: option.splits if_splits sum.splits)
      then show ?thesis using same Inr p b Inl by (simp add: create_rule_def r_def [symmetric] db_transaction_def)
    next
      case q: (Inr u)
      then obtain d cs rs where b': "get_for_owner (datasets w) did owner = Some d" "column_names d = Some cs"
        "rule_target_column r \<in> set cs" "insert_rule (datasets w) r (rules w) = Inr rs" "w' = w\<lparr>rules := rs\<rparr>"
        using b by (auto simp: create_rule_body_def r_def split: option.splits if_splits sum.splits)
      then have rs: "rs = rules w @ [r]" by (simp add: insert_rule_Inr)
      show ?thesis
      proof (cases "txn_fault c 0")
        case None
        then show ?thesis using added [of r d cs] Inr p b q b' rs
          by (simp add: create_rule_def r_def [symmetric] db_transaction_def) (simp add: r_def)
      next
        case (Some e)
        then show ?thesis using same Inr p b q b' by (simp add: create_rule_def r_def [symmetric] db_transaction_def)
      qed
    qed
  qed
qed

lemma create_rule_ok:
  assumes ok: "world_ok env w" shows "world_ok env (snd (create_rule env c owner did ty column config w))"
proof (cases rule: create_rule_cases [of env c owner did ty column config w])
  case (added r d cs)
  have "rules_by_id.table_ok (rules w @ [r])" "rules_by_definition.table_ok (rules w @ [r])"
    using rules_by_id.ins_table_ok [OF _ added(2)] rules_by_definition.ins_table_ok [OF _ added(2)] ok
    by (simp_all add: world_ok_def)
  moreover have "rule_fits (datasets w) r"
    using get_for_owner_Some [OF added(3)] added(4-6) by (auto simp: rule_fits_def)
  ultimately show ?thesis using ok added(1) by (auto simp: world_ok_def)
qed (use ok in simp)

lemma delete_rule_cases:
  obtains (same) e where "delete_rule c owner did rid w = (Inl e, w)"
  | (removed) r where "delete_rule c owner did rid w =
        (Inr (), w\<lparr>rules := filter (\<lambda>q. rule_row_id q \<noteq> rid) (rules w)\<rparr>)"
      "get_rule (rules w) did rid = Some r"
      "\<exists>d. get_for_owner (datasets w) did owner = Some d"
proof (cases "get_for_owner (datasets w) did owner")
  case None
  then show ?thesis using same by (simp add: delete_rule_def db_transaction_def require_dataset_def)
next
  case (Some d)
  note found = this
  show ?thesis
  proof (cases "get_rule (rules w) did rid")
    case None
    then show ?thesis using same found by (simp add: delete_rule_def db_transaction_def require_dataset_def)
  next
    case (Some r)
    then have "rule_row_id r = rid" using get_rule_Some by blast
    then show ?thesis using same removed [OF _ Some] found Some
      by (cases "txn_fault c 0") (simp_all add: delete_rule_def db_transaction_def require_dataset_def)
  qed
qed

lemma delete_rule_ok:
  assumes ok: "world_ok env w" shows "world_ok env (snd (delete_rule c owner did rid w))"
proof (cases rule: delete_rule_cases [of c owner did rid w])
  case (removed r)
  then show ?thesis using ok rules_by_id.filter_table_ok rules_by_definition.filter_table_ok
    by (auto simp: world_ok_def)
qed (use ok in simp)

lemma reads_change_nothing [simp]:
  "snd (list_datasets c owner limit offset w) = w" "snd (get_dataset c owner did w) = w"
  "snd (list_rules c owner did limit offset w) = w"
  by (simp_all add: list_datasets_def get_dataset_def list_rules_def)

end
