(* ===== verification/CsvProperties.thy ===== *)
theory CsvProperties
  imports Csv
begin

text \<open>
  What the scan accepts. \<open>rows_text\<close> describes the files that present a table: fields quoted or,
  where possible, bare; commas; line ends of any of the three kinds, in any mixture; the last one
  optional. The scan finds the table in each of them, however the file is read.
\<close>

section \<open>The text of a table\<close>

definition escaped :: "pystr \<Rightarrow> pystr" where
  "escaped w = concat (map (\<lambda>c. if c = 34 then [34, 34] else [c]) w)"

definition quoted :: "pystr \<Rightarrow> pystr" where
  "quoted w = 34 # escaped w @ [34]"

definition bare_char :: "code_point \<Rightarrow> bool" where
  "bare_char c \<longleftrightarrow> c \<noteq> 34 \<and> c \<noteq> 44 \<and> \<not> is_newline c"

definition field_text :: "pystr \<Rightarrow> pystr \<Rightarrow> bool" where
  "field_text w t \<longleftrightarrow> length w \<le> MAX_CSV_BYTES \<and> (t = quoted w \<or> t = w \<and> list_all bare_char w)"

text \<open>A record of one bare empty field would be a blank line, which is no record.\<close>

fun fields_text :: "pystr list \<Rightarrow> pystr \<Rightarrow> bool" where
  "fields_text [] s = False"
| "fields_text [w] s = field_text w s"
| "fields_text (w # v # ws) s = (\<exists>t u. s = t @ 44 # u \<and> field_text w t \<and> fields_text (v # ws) u)"

definition row_text :: "pystr list \<Rightarrow> pystr \<Rightarrow> bool" where
  "row_text row t \<longleftrightarrow> t \<noteq> [] \<and> fields_text row t"

definition line_end :: "pystr \<Rightarrow> bool" where
  "line_end s \<longleftrightarrow> s = [10] \<or> s = [13] \<or> s = [13, 10]"

inductive rows_text :: "pystr list list \<Rightarrow> pystr \<Rightarrow> bool" where
  rows_none: "rows_text [] []"
| rows_last: "row_text row t \<Longrightarrow> rows_text [row] t"
| rows_more: "row_text row t \<Longrightarrow> line_end e \<Longrightarrow> rows_text rows s \<Longrightarrow> rows_text (row # rows) (t @ e @ s)"

section \<open>One field\<close>

lemma feed_escaped:
  assumes "pstate p = IN_QUOTED_FIELD" and "length (pfield p) + length w \<le> MAX_CSV_BYTES"
  shows "feed e p (escaped w @ 34 # s) =
    feed e (p\<lparr>pstate := QUOTE_IN_QUOTED_FIELD, pfield := pfield p @ w\<rparr>) s"
  using assms
proof (induction w arbitrary: p)
  case Nil
  then show ?case by (simp add: escaped_def feed_char is_newline_def)
next
  case (Cons c w)
  let ?p = "p\<lparr>pfield := pfield p @ [c]\<rparr>"
  have IH: "feed e ?p (escaped w @ 34 # s) =
      feed e (p\<lparr>pstate := QUOTE_IN_QUOTED_FIELD, pfield := pfield p @ c # w\<rparr>) s"
    using Cons.IH [of ?p] Cons.prems by simp
  show ?case
  proof (cases "c = 34")
    case True
    then show ?thesis
      using Cons.prems IH by (simp add: escaped_def feed_char is_newline_def add_char_def)
        (metis (no_types, lifting) Cons.prems(1) csv_parser.surjective csv_parser.update_convs(1))
  next
    case False
    then have "feed e p (escaped (c # w) @ 34 # s) = feed e ?p (escaped w @ 34 # s)"
      using Cons.prems feed_quoted [of p c "escaped w @ 34 # s" e] by (simp add: escaped_def)
    with IH show ?thesis by simp
  qed
qed

lemma feed_bare:
  assumes "pstate p = IN_FIELD" and "length (pfield p) + length w \<le> MAX_CSV_BYTES"
    and "list_all bare_char w"
  shows "feed e p (w @ s) = feed e (p\<lparr>pfield := pfield p @ w\<rparr>) s"
  using assms
proof (induction w arbitrary: p)
  case (Cons c w)
  let ?p = "p\<lparr>pfield := pfield p @ [c]\<rparr>"
  have "parse_char c p = Some ?p" using Cons.prems by (simp add: bare_char_def add_char_def)
  then have "feed e p (c # w @ s) = feed e ?p (w @ s)"
    using Cons.prems by (simp add: feed_char bare_char_def del: parse_char.simps)
  then show ?case using Cons.IH [of ?p] Cons.prems by simp
qed simp

text \<open>After a field, a parser that will save it.\<close>

definition holds_field :: "csv_parser \<Rightarrow> pystr \<Rightarrow> csv_parser \<Rightarrow> bool" where
  "holds_field p w q \<longleftrightarrow> pfield q = w \<and> pfields q = pfields p \<and>
     (pstate q = IN_FIELD \<or> pstate q = QUOTE_IN_QUOTED_FIELD \<or> pstate q = START_FIELD)"

lemma feed_field:
  assumes p: "pstate p = START_FIELD \<or> pstate p = START_RECORD \<and> t \<noteq> []" "pfield p = []"
    and w: "field_text w t"
  shows "\<exists>q. feed e p (t @ s) = feed e q s \<and> holds_field p w q"
proof -
  consider "t = quoted w" | "t = w" "list_all bare_char w" "w = []" | c v where "t = w" "list_all bare_char w" "w = c # v"
    using w by (cases w) (auto simp: field_text_def)
  then show ?thesis
  proof cases
    case 1
    let ?p = "p\<lparr>pstate := IN_QUOTED_FIELD\<rparr>"
    have "feed e p (t @ s) = feed e ?p (escaped w @ 34 # s)"
      using p 1 by (auto simp: quoted_def feed_char is_newline_def start_field_char_def)
    then show ?thesis
      using feed_escaped [of ?p w e s] p w by (auto simp: field_text_def holds_field_def)
  next
    case 2
    then show ?thesis using p by (auto simp: holds_field_def)
  next
    case 3
    let ?p = "p\<lparr>pstate := IN_FIELD, pfield := [c]\<rparr>"
    have "parse_char c p = Some ?p"
      using p 3 w by (auto simp: bare_char_def start_field_char_def add_char_def MAX_CSV_BYTES_def)
    then have "feed e p (t @ s) = feed e ?p (v @ s)"
      using 3 by (simp add: feed_char bare_char_def del: parse_char.simps)
    then show ?thesis
      using feed_bare [of ?p v e s] 3 w by (auto simp: field_text_def holds_field_def)
  qed
qed

lemma feed_comma:
  assumes "holds_field p w q"
  shows "feed e q (44 # s) = feed e \<lparr>pstate = START_FIELD, pfield = [], pfields = pfields p @ [w]\<rparr> s"
  using assms
  by (cases q) (auto simp: holds_field_def feed_char is_newline_def start_field_char_def save_field_def)

text \<open>A line end, or the end of the file, completes the record.\<close>

lemma split_lines_end:
  assumes "line_end r" and "s = [] \<or> hd s \<noteq> 10"
  shows "split_lines (r @ s) = r # split_lines s"
  using assms by (cases s) (auto simp: line_end_def)

lemma feed_end:
  assumes q: "holds_field p w q" and r: "line_end r" and s: "s = [] \<or> hd s \<noteq> 10"
  shows "feed e q (r @ s) = Inr (Some (pfields p @ [w], split_lines s))"
    and "feed e q [] = Inr (Some (pfields p @ [w], []))"
  using q r split_lines_end [OF r s]
  by (auto simp: feed_def resume_def line_end_def holds_field_def is_newline_def
      start_field_char_def save_field_def parse_eol_def)

section \<open>Records and tables\<close>

lemma feed_fields:
  assumes "pstate p = START_FIELD \<or> pstate p = START_RECORD \<and> t \<noteq> []" and "pfield p = []"
    and "fields_text ws t"
  shows "\<exists>q w. feed e p (t @ s) = feed e q s \<and>
    holds_field (p\<lparr>pfields := pfields p @ butlast ws\<rparr>) w q \<and> ws = butlast ws @ [w]"
  using assms
proof (induction ws t arbitrary: p rule: fields_text.induct)
  case (2 w x)
  then show ?case using feed_field [of p x w e s] by (auto simp: holds_field_def)
next
  case (3 w v ws x)
  then obtain t1 u where t: "x = t1 @ 44 # u" "field_text w t1" "fields_text (v # ws) u" by auto
  let ?p = "\<lparr>pstate = START_FIELD, pfield = [], pfields = pfields p @ [w]\<rparr>"
  have "feed e p (x @ s) = feed e ?p (u @ s)"
  proof (cases "pstate p = START_RECORD \<and> t1 = []")
    case True
    then have "w = []" using t(2) by (auto simp: field_text_def quoted_def)
    then show ?thesis
      using True t(1) "3.prems"(2)
      by (cases p) (simp add: feed_char is_newline_def start_field_char_def save_field_def)
  next
    case False
    then obtain q where "feed e p (t1 @ 44 # u @ s) = feed e q (44 # u @ s)" "holds_field p w q"
      using feed_field [of p t1 w e "44 # u @ s"] "3.prems" t(2) by auto
    then show ?thesis using feed_comma t(1) by simp
  qed
  moreover obtain q y where "feed e ?p (u @ s) = feed e q s"
    "holds_field (?p\<lparr>pfields := pfields ?p @ butlast (v # ws)\<rparr>) y q" "v # ws = butlast (v # ws) @ [y]"
    using "3.IH" [of ?p u] t(3) by auto
  ultimately show ?case by (intro exI [where x = q] exI [where x = y]) (auto simp: holds_field_def)
qed simp

lemma first_of_field: "field_text w t \<Longrightarrow> t \<noteq> [] \<Longrightarrow> hd t \<noteq> 10"
  by (cases t) (auto simp: field_text_def quoted_def bare_char_def is_newline_def)

lemma first_of_row: "row_text row t \<Longrightarrow> hd t \<noteq> 10"
proof -
  assume "row_text row t"
  then show ?thesis
    unfolding row_text_def
  proof (induction row t rule: fields_text.induct)
    case (3 w v ws s)
    then obtain t u where "s = t @ 44 # u" "field_text w t" by auto
    then show ?case by (cases "t = []") (auto simp: first_of_field)
  qed (auto simp: first_of_field)
qed

lemma first_of_rows: "rows_text rows s \<Longrightarrow> s = [] \<or> hd s \<noteq> 10"
  by (induction rule: rows_text.induct) (auto simp: hd_append first_of_row row_text_def dest: first_of_row)

lemma next_record_row:
  assumes "row_text row t" and "s = [] \<or> hd s \<noteq> 10"
  shows "line_end r \<Longrightarrow> next_record e parse_reset (split_lines (t @ r @ s)) = Inr (Some (row, split_lines s))"
    and "next_record e parse_reset (split_lines t) = Inr (Some (row, []))"
proof -
  have t: "t \<noteq> []" "fields_text row t" using assms(1) by (auto simp: row_text_def)
  have go: "\<exists>q w. feed e parse_reset (t @ u) = feed e q u \<and>
      holds_field (parse_reset\<lparr>pfields := butlast row\<rparr>) w q \<and> row = butlast row @ [w]" for u
    using feed_fields [of parse_reset t row e u] t by (simp add: parse_reset_def)
  show "next_record e parse_reset (split_lines (t @ r @ s)) = Inr (Some (row, split_lines s))" if "line_end r"
  proof -
    obtain q w where "feed e parse_reset (t @ r @ s) = feed e q (r @ s)"
      "holds_field (parse_reset\<lparr>pfields := butlast row\<rparr>) w q" "row = butlast row @ [w]"
      using go [of "r @ s"] by blast
    then show ?thesis
      using feed_end(1) [OF _ that assms(2)] t next_record_feed [of "t @ r @ s" e parse_reset] by simp
  qed
  obtain q w where "feed e parse_reset (t @ []) = feed e q []"
      "holds_field (parse_reset\<lparr>pfields := butlast row\<rparr>) w q" "row = butlast row @ [w]"
    using go [of "[]"] by blast
  then show "next_record e parse_reset (split_lines t) = Inr (Some (row, []))"
    using feed_end(2) [of "parse_reset\<lparr>pfields := butlast row\<rparr>" w q "[10]" "[]"] t
      next_record_feed [of t e parse_reset] by (simp add: line_end_def)
qed

lemma scan_rows_text:
  assumes "rows_text rows s" and "list_all (\<lambda>row. length row = width) rows"
  shows "scan_rows EndOfFile width n (split_lines s) = Inr (n + length rows)"
  using assms
proof (induction arbitrary: n rule: rows_text.induct)
  case rows_none
  show ?case by (subst scan_rows.simps) (simp add: parse_reset_def)
next
  case (rows_last row t)
  then show ?case
    using next_record_row(2) [of row t "[]" EndOfFile]
    by (subst scan_rows.simps) (simp, subst scan_rows.simps, simp add: parse_reset_def)
next
  case (rows_more row t r rows s)
  then show ?case
    using next_record_row(1) [of row t s r EndOfFile] first_of_rows [of rows s]
    by (subst scan_rows.simps) simp
qed

lemma scan_lines_text:
  assumes "rows_text (header # rows) s" and "validate_header header = Inr header"
    and "list_all (\<lambda>row. length row = length header) rows"
  shows "scan_lines (split_lines s) EndOfFile = Inr \<lparr>row_count = length rows, csv_columns = header\<rparr>"
  using assms(1)
proof cases
  case rows_last
  then show ?thesis
    using next_record_row(2) [of header s "[]" EndOfFile] assms(2)
    by (simp add: scan_lines_def) (subst scan_rows.simps, simp add: parse_reset_def)
next
  case (rows_more t r s')
  then show ?thesis
    using next_record_row(1) [of header t s' r EndOfFile] first_of_rows [of rows s'] assms(2,3)
      scan_rows_text [of rows s' "length header" 0] by (simp add: scan_lines_def)
qed

lemma read_lines_whole:
  assumes "sig_text (map unat (concat chunks)) = Some text"
  shows "read_lines chunks = (split_lines text, EndOfFile)"
proof -
  have "read_chunks True [] (map (map unat) chunks) = (text, EndOfFile)"
    by (rule read_chunks_whole) (use assms in \<open>simp_all add: map_concat\<close>)
  then show ?thesis by (simp add: read_lines_def read_text_def)
qed

section \<open>Accepted files\<close>

definition valid_columns :: "pystr list \<Rightarrow> bool" where
  "valid_columns cs \<longleftrightarrow> 1 \<le> length cs \<and> length cs \<le> 256 \<and> distinct cs \<and>
     (\<forall>c \<in> set cs. c \<noteq> [] \<and> py_strip c = c \<and> length c \<le> 128 \<and> (\<forall>x \<in> set c. 32 \<le> x \<and> x \<noteq> 127))"

lemma validate_header_iff: "validate_header h = Inr cs \<longleftrightarrow> cs = h \<and> valid_columns h"
proof -
  have "\<not> bad_column c \<longleftrightarrow> c \<noteq> [] \<and> py_strip c = c \<and> length c \<le> 128 \<and> (\<forall>x \<in> set c. 32 \<le> x \<and> x \<noteq> 127)" for c
    by (auto simp: bad_column_def list_ex_iff MAX_COLUMN_NAME_LENGTH_def not_less)
  moreover have "1 \<le> length h \<longleftrightarrow> h \<noteq> []" by (cases h) auto
  ultimately show ?thesis
    by (auto simp: validate_header_def valid_columns_def list_ex_iff MAX_COLUMNS_def not_less)
qed

text \<open>The records of a whole file, by repeated \<open>next\<close>.\<close>

inductive records :: "pystr list \<Rightarrow> pystr list list \<Rightarrow> bool" where
  records_end: "next_record EndOfFile parse_reset ls = Inr None \<Longrightarrow> records ls []"
| records_next: "next_record EndOfFile parse_reset ls = Inr (Some (row, rest)) \<Longrightarrow> records rest rows \<Longrightarrow>
    records ls (row # rows)"

lemma next_record_decode_error: "next_record DecodeError p ls \<noteq> Inr None"
  by (induction DecodeError p ls rule: next_record.induct) (auto split: option.splits)

lemma next_record_eof: "next_record e p ls = Inr None \<Longrightarrow> e = EndOfFile"
  using next_record_decode_error by (cases e) auto

lemma scan_rows_end: "scan_rows e width n ls = Inr m \<Longrightarrow> e = EndOfFile"
  by (induction e width n ls rule: scan_rows.induct)
    (subst (asm) scan_rows.simps, auto dest: next_record_eof split: sum.splits option.splits if_splits)

lemma scan_rows_records:
  "scan_rows e width n ls = Inr m \<Longrightarrow>
   \<exists>rows. records ls rows \<and> list_all (\<lambda>row. length row = width) rows \<and> m = n + length rows"
proof (induction e width n ls rule: scan_rows.induct)
  case (1 e width n ls)
  have e: "e = EndOfFile" using scan_rows_end [OF 1(2)] .
  from 1(2) consider "next_record e parse_reset ls = Inr None" "m = n"
    | row rest where "next_record e parse_reset ls = Inr (Some (row, rest))" "length row = width"
        "scan_rows e width (n + 1) rest = Inr m"
    by (subst (asm) scan_rows.simps) (auto split: sum.splits option.splits if_splits)
  then show ?case
  proof cases
    case 1
    then show ?thesis using records_end e by (intro exI [where x = "[]"]) simp
  next
    case (2 row rest)
    then obtain rows where "records rest rows" "list_all (\<lambda>row. length row = width) rows"
      "m = n + 1 + length rows" using "1.IH" [of "Some (row, rest)" "(row, rest)" row rest] by auto
    then show ?thesis using records_next 2 e by (intro exI [where x = "row # rows"]) auto
  qed
qed

lemma scan_csv_sound:
  assumes "scan_csv chunks = Inr st"
  shows "valid_columns (csv_columns st) \<and>
    (\<exists>text rows. read_text chunks = (text, EndOfFile) \<and>
       records (split_lines text) (csv_columns st # rows) \<and> row_count st = length rows \<and>
       list_all (\<lambda>row. length row = length (csv_columns st)) rows)"
proof -
  obtain ls e where ls: "read_lines chunks = (ls, e)" by (cases "read_lines chunks")
  with assms obtain header rest n where h: "next_record e parse_reset ls = Inr (Some (header, rest))"
    "valid_columns header" "scan_rows e (length header) 0 rest = Inr n"
    and st: "st = \<lparr>row_count = n, csv_columns = header\<rparr>"
    by (auto simp: scan_csv_def scan_lines_def result_simps validate_header_iff
        split: sum.splits option.splits)
  have e: "e = EndOfFile" using scan_rows_end [OF h(3)] .
  obtain rows where rows: "records rest rows" "list_all (\<lambda>row. length row = length header) rows"
    "n = length rows" using scan_rows_records [OF h(3)] by auto
  have "records ls (header # rows)" using h(1) rows(1) e by (auto intro: records_next)
  moreover obtain t where "read_text chunks = (t, EndOfFile)" "ls = split_lines t"
    using ls e by (cases "read_text chunks") (auto simp: read_lines_def)
  ultimately show ?thesis using st h(2) rows by auto
qed

section \<open>Properties\<close>

text \<open>
  C26. Every file that presents a table is accepted as that table: if the bytes, with or without a
  byte order mark, decode to a text whose fields are quoted or bare in any mixture, with any line
  ends and an optional last one, the scan reports the header and the number of records, in
  whatever chunks the file is read.
\<close>

theorem table_files_are_accepted:
  assumes "sig_text (map unat (concat chunks)) = Some text" and "rows_text (header # rows) text"
    and "valid_columns header" and "list_all (\<lambda>row. length row = length header) rows"
  shows "scan_csv chunks = Inr \<lparr>row_count = length rows, csv_columns = header\<rparr>"
proof -
  have "validate_header header = Inr header" using assms(3) by (simp add: validate_header_iff)
  then show ?thesis
    using scan_lines_text [OF assms(2)] assms(4) read_lines_whole [OF assms(1)]
    by (simp add: scan_csv_def)
qed

text \<open>
  C27. Conversely an accepted file is one: it decodes to its end, its first record is the reported
  header, which has 1 to 256 distinct, stripped, non-empty names of at most 128 characters without
  control characters, and all its other records, as many as reported, have the header's width.
\<close>

theorem accepted_files_are_tables:
  assumes "scan_csv chunks = Inr st"
  shows "valid_columns (csv_columns st) \<and>
    (\<exists>text rows. read_text chunks = (text, EndOfFile) \<and>
       records (split_lines text) (csv_columns st # rows) \<and> row_count st = length rows \<and>
       list_all (\<lambda>row. length row = length (csv_columns st)) rows)"
  using assms by (rule scan_csv_sound)

text \<open>A file of one column \<open>a\<close> with the record \<open>"x,<newline>"\<close>, read in two chunks.\<close>

definition sample_chunks :: "bytes list" where
  "sample_chunks = [[97, 13], [10, 34, 120, 44, 10, 34]]"

lemma sample_text: "sig_text (map unat (concat sample_chunks)) = Some [97, 13, 10, 34, 120, 44, 10, 34]"
  by (simp add: sample_chunks_def sig_text_def sig_body_def BOM_def utf8_decode.simps first_char_def
      sequence_length_def)

lemma sample_rows: "rows_text [[[97]], [[120, 44, 10]]] [97, 13, 10, 34, 120, 44, 10, 34]"
proof -
  have "rows_text [[[97]], [[120, 44, 10]]] ([97] @ [13, 10] @ [34, 120, 44, 10, 34])"
    by (rule rows_more, simp_all add: line_end_def row_text_def field_text_def bare_char_def
        is_newline_def MAX_CSV_BYTES_def)
      (rule rows_last, simp add: row_text_def field_text_def quoted_def escaped_def MAX_CSV_BYTES_def)
  then show ?thesis by simp
qed

theorem table_files_are_accepted_witness:
  "scan_csv sample_chunks = Inr \<lparr>row_count = 1, csv_columns = [[97]]\<rparr>"
  using table_files_are_accepted [OF sample_text sample_rows]
  by (simp add: valid_columns_def py_strip_def py_isspace_def)

theorem accepted_files_are_tables_witness: "valid_columns [[97]]"
proof -
  have "scan_csv sample_chunks = Inr \<lparr>row_count = 1, csv_columns = [[97]]\<rparr>"
    using scan_lines_text [OF sample_rows] read_lines_whole [OF sample_text]
    by (simp add: scan_csv_def validate_header_def bad_column_def py_strip_def py_isspace_def
        MAX_COLUMN_NAME_LENGTH_def MAX_COLUMNS_def)
  from accepted_files_are_tables [OF this] show ?thesis by simp
qed

end
