(* ===== verification/DatasetOutcomes.thy ===== *)
theory DatasetOutcomes
  imports DatasetConsistency CsvProperties
begin

text \<open>
  Exactly when an upload succeeds, and what every upload leaves behind.
\<close>

section \<open>Successful steps\<close>

lemma install_Inr:
  "install rf cf cand k fs = (Inr (), fs') \<longleftrightarrow> is_storage_key k \<and> \<not> rf \<and> \<not> cf \<and>
     (\<exists>b. fs (candidate_name cand) = Some b \<and> fs' = (fs(candidate_name cand := None))(k \<mapsto> b))"
  by (auto simp: install_def Let_def result_simps split: sum.splits if_splits)
    (auto simp: path_for_key_def storage_key_pattern_iff)

lemma undo_upload_Inl: "undo_upload c cand i key e w \<noteq> (Inr ref, w')"
  by (auto simp: undo_upload_def split: prod.splits sum.splits storage_exc.splits if_splits)

definition reference_after_upload ::
  "dataset_row \<Rightarrow> pystr \<Rightarrow> bytes \<Rightarrow> bytes \<Rightarrow> csv_structure \<Rightarrow> instant \<Rightarrow> dataset_reference" where
  "reference_after_upload d filename content sha st now =
     \<lparr>ref_dataset_id = dataset_id d, ref_name = dataset_name d,
      ref_dataset_created_at = dataset_created_at d, ref_dataset_updated_at = now,
      ref_upload = Some
        \<lparr>upload_filename = filename, upload_size = int (length content),
         upload_rows = int (row_count st), upload_columns = csv_columns st,
         upload_sha256 = sha, upload_time = now\<rparr>\<rparr>"

lemma reference_uploaded:
  assumes "candidate_size cand = length content"
  shows "dataset_reference_of (uploaded d fn key cand st now) =
    Inr (reference_after_upload d fn content (candidate_sha256 cand) st now)"
  using assms by (simp add: dataset_reference_of_def full_upload_def uploaded_def reference_after_upload_def)

lemma upload_body_Inr:
  "upload_body c owner did fn key cand st now w = (Inr (ref, old), w') \<longleftrightarrow>
    (\<exists>d fs. get_for_owner (datasets w) did owner = Some d \<and>
       target_columns (rules w) (dataset_id d) \<subseteq> set (csv_columns st) \<and>
       install (replace_fails c) (chmod_fails c) cand key (files w) = (Inr (), fs) \<and>
       dataset_row_ok (uploaded d fn key cand st now) \<and>
       storage_key_free (datasets w) (uploaded d fn key cand st now) \<and>
       dataset_reference_of (uploaded d fn key cand st now) = Inr ref \<and> old = storage_key d \<and>
       w' = w\<lparr>files := fs, datasets := update_rows (\<lambda>r. dataset_id r = dataset_id d)
         (\<lambda>_. uploaded d fn key cand st now) (datasets w)\<rparr>)" (is "?l = ?r")
proof -
  have chk: "first_violated (dataset_row_checks d' @ [(''uq_datasets_storage_key'', storage_key_free ds d')]) = None
      \<longleftrightarrow> dataset_row_ok d' \<and> storage_key_free ds d'" for d' ds
    by (simp add: first_violated_None dataset_row_ok_def)
  show ?thesis
  proof
    assume ?l then show ?r
      by (auto simp: upload_body_def Let_def chk split: option.splits if_splits sum.splits prod.splits)
  next
    have chk': "first_violated (dataset_row_checks d' @ [(n, True)]) = None" if "dataset_row_ok d'" for d' n
      using that by (simp add: first_violated_None dataset_row_ok_def)
    assume ?r then show ?l by (auto simp: upload_body_def Let_def chk')
  qed
qed

lemma activate_candidate_Inr:
  "activate_candidate env c owner did fn cand w = (Inr ref, w') \<longleftrightarrow>
    (\<exists>b st now w1 old. files w (candidate_name cand) = Some b \<and> scan_csv (split_file env b) = Inr st \<and>
       service_clock c = AwareTime now \<and> \<not> txn_fails c 1 \<and>
       upload_body c owner did fn (new_storage_key (key_uuid c)) cand st now (in_between c w) = (Inr (ref, old), w1) \<and>
       remove_superseded c (new_storage_key (key_uuid c)) ref old w1 = (Inr ref, w'))" (is "?l = ?r")
proof
  have sup: "remove_superseded c k x old v = (Inr y, v') \<Longrightarrow> x = y" for k x y old v v'
    by (auto simp: remove_superseded_def split: option.splits if_splits prod.splits sum.splits storage_exc.splits)
  assume l: ?l
  show ?r
  proof (cases "files w (candidate_name cand)")
    case None
    then show ?thesis using l by (simp add: activate_candidate_def undo_upload_Inl)
  next
    case b: (Some b)
    show ?thesis
    proof (cases "scan_csv (split_file env b)")
      case (Inl e)
      then show ?thesis using l b by (simp add: activate_candidate_def undo_upload_Inl)
    next
      case st: (Inr st)
      show ?thesis
      proof (cases "service_clock c")
        case NaiveTime
        then show ?thesis using l b st by (simp add: activate_candidate_def undo_upload_Inl)
      next
        case (AwareTime now)
        then show ?thesis using l b st sup
          by (auto simp: activate_candidate_def undo_upload_Inl upload_transaction_Inr Let_def
              split: prod.splits sum.splits) (blast dest: sup)+
      qed
    qed
  qed
next
  assume ?r
  then obtain b st now w1 old where r: "files w (candidate_name cand) = Some b" "scan_csv (split_file env b) = Inr st"
     "service_clock c = AwareTime now" "\<not> txn_fails c 1"
     "upload_body c owner did fn (new_storage_key (key_uuid c)) cand st now (in_between c w) = (Inr (ref, old), w1)"
     "remove_superseded c (new_storage_key (key_uuid c)) ref old w1 = (Inr ref, w')" by blast
  then have "upload_transaction c owner did fn (new_storage_key (key_uuid c)) cand st now (in_between c w) = (Inr (ref, old), w1)"
    by (simp add: upload_transaction_Inr)
  then show ?l using r by (simp add: activate_candidate_def)
qed

lemma upload_csv_Inr:
  "upload_csv env c owner did fn source w = (Inr ref, w') \<longleftrightarrow>
    (\<exists>safe d. normalize_csv_filename (unicode_db env) fn = Inr safe \<and>
       get_for_owner (datasets w) did owner = Some d \<and> \<not> txn_fails c 0 \<and>
       (\<exists>cand fs. write_candidate (file_sha256 env) (candidate_uuid c) (write_fails c) source (files w) = (Inr cand, fs) \<and>
          activate_candidate env c owner did safe cand (w\<lparr>files := fs\<rparr>) = (Inr ref, w')))"
proof (cases "normalize_csv_filename (unicode_db env) fn")
  case (Inr safe)
  obtain q fs where wr: "write_candidate (file_sha256 env) (candidate_uuid c) (write_fails c) source (files w) = (q, fs)"
    by (cases "write_candidate (file_sha256 env) (candidate_uuid c) (write_fails c) source (files w)")
  show ?thesis using Inr wr
    by (cases "get_for_owner (datasets w) did owner"; cases q)
      (auto simp: upload_csv_def db_transaction_def reading_def require_dataset_def txn_fault_def)
qed (simp add: upload_csv_def)

section \<open>The outcome as a whole\<close>

text \<open>What has to hold for an upload to be accepted, apart from the system working.\<close>

definition acceptable_upload ::
  "dataset_env \<Rightarrow> ('a world_scheme) dataset_call \<Rightarrow> pystr option \<Rightarrow> bytes \<Rightarrow> 'a world_scheme \<Rightarrow> dataset_row \<Rightarrow>
     pystr \<Rightarrow> csv_structure \<Rightarrow> bool" where
  "acceptable_upload env c fn content w d safe st \<longleftrightarrow>
     normalize_csv_filename (unicode_db env) fn = Inr safe \<and> length content \<le> MAX_CSV_BYTES \<and>
     scan_csv (split_file env content) = Inr st \<and>
     target_columns (rules w) (dataset_id d) \<subseteq> set (csv_columns st)"

definition system_works :: "('a world_scheme) dataset_call \<Rightarrow> bool" where
  "system_works c \<longleftrightarrow> \<not> txn_fails c 0 \<and> \<not> txn_fails c 1 \<and> \<not> write_fails c \<and> \<not> replace_fails c \<and> \<not> chmod_fails c"

definition files_after_upload ::
  "('a world_scheme) dataset_call \<Rightarrow> bytes \<Rightarrow> pystr option \<Rightarrow> files \<Rightarrow> files" where
  "files_after_upload c content old fs =
     (let fs' = fs(new_storage_key (key_uuid c) \<mapsto> content)
      in case old of None \<Rightarrow> fs' | Some k \<Rightarrow> if remove_fails c then fs' else fs'(k := None))"

definition written :: "dataset_env \<Rightarrow> ('a world_scheme) dataset_call \<Rightarrow> bytes \<Rightarrow> candidate_file" where
  "written env c content =
     \<lparr>candidate_name = candidate_path (candidate_uuid c), candidate_size = length content,
      candidate_sha256 = file_sha256 env content\<rparr>"

definition world_after_upload ::
  "dataset_env \<Rightarrow> ('a world_scheme) dataset_call \<Rightarrow> pystr \<Rightarrow> bytes \<Rightarrow> csv_structure \<Rightarrow> instant \<Rightarrow> dataset_row \<Rightarrow>
     'a world_scheme \<Rightarrow> 'a world_scheme" where
  "world_after_upload env c safe content st now d w =
     w\<lparr>files := files_after_upload c content (storage_key d) (files w),
       datasets := update_rows (\<lambda>r. dataset_id r = dataset_id d)
         (\<lambda>_. uploaded d safe (new_storage_key (key_uuid c)) (written env c content) st now) (datasets w)\<rparr>"

lemma remove_superseded_Inr:
  assumes "\<And>k. old = Some k \<Longrightarrow> is_storage_key k \<and> k \<noteq> key"
  shows "remove_superseded c key ref old w = (Inr ref,
    w\<lparr>files := (case old of None \<Rightarrow> files w | Some k \<Rightarrow> if remove_fails c then files w else (files w)(k := None))\<rparr>)"
proof (cases old)
  case (Some k)
  then have "path_for_key k = Inr k" "k \<noteq> key" using assms by (simp_all add: result_simps)
  then show ?thesis using Some by (simp add: remove_superseded_def remove_file_def)
qed (simp add: remove_superseded_def)

lemma valid_key_of:
  assumes "world_ok env w" and "d \<in> set (datasets w)" and "storage_key d = Some k"
  shows "is_storage_key k"
  using assms by (auto simp: world_ok_def datasets_by_id.table_ok_def list_all_iff dataset_row_ok_def dataset_row_checks_def)

lemma upload_outcome:
  assumes alone: "in_between c = (\<lambda>w. w)" and ok: "world_ok env w" and key: "unused_key (new_storage_key (key_uuid c)) w"
  shows "upload_csv env c owner did fn source w = (Inr ref, w') \<longleftrightarrow>
    system_works c \<and> files w (candidate_path (candidate_uuid c)) = None \<and>
    (\<exists>d safe st now. get_for_owner (datasets w) did owner = Some d \<and> service_clock c = AwareTime now \<and>
       acceptable_upload env c fn (upload_content source) w d safe st \<and>
       dataset_row_ok (uploaded d safe (new_storage_key (key_uuid c)) (written env c (upload_content source)) st now) \<and>
       ref = reference_after_upload d safe (upload_content source) (file_sha256 env (upload_content source)) st now \<and>
       w' = world_after_upload env c safe (upload_content source) st now d w)" (is "?l = ?r")
proof -
  let ?key = "new_storage_key (key_uuid c)" and ?p = "candidate_path (candidate_uuid c)"
    and ?content = "upload_content source"
  let ?cand = "written env c ?content"
  have body: "upload_body c owner did safe ?key ?cand st now (w\<lparr>files := (files w)(?p \<mapsto> ?content)\<rparr>) = (Inr (ref, old), w1) \<longleftrightarrow>
      (\<exists>d. get_for_owner (datasets w) did owner = Some d \<and> target_columns (rules w) (dataset_id d) \<subseteq> set (csv_columns st) \<and>
        \<not> replace_fails c \<and> \<not> chmod_fails c \<and> dataset_row_ok (uploaded d safe ?key ?cand st now) \<and>
        ref = reference_after_upload d safe ?content (file_sha256 env ?content) st now \<and> old = storage_key d \<and>
        w1 = w\<lparr>files := (files w)(?p := None, ?key \<mapsto> ?content), datasets := update_rows (\<lambda>r. dataset_id r = dataset_id d)
         (\<lambda>_. uploaded d safe ?key ?cand st now) (datasets w)\<rparr>)" for safe st now old w1
  proof -
    have "storage_key_free (datasets w) (uploaded d safe ?key ?cand st now)" for d
      using key by (auto simp: storage_key_free_def unused_key_def uploaded_def)
    moreover have "dataset_reference_of (uploaded d safe ?key ?cand st now) =
        Inr (reference_after_upload d safe ?content (file_sha256 env ?content) st now)" for d
      by (subst reference_uploaded) (simp_all add: written_def)
    moreover have "candidate_name ?cand = ?p" by (simp add: written_def)
    ultimately show ?thesis
      by (auto simp: upload_body_Inr install_Inr new_storage_key_valid)
  qed
  have sup: "remove_superseded c ?key r (storage_key d) v = (Inr r, v\<lparr>files := (case storage_key d of
      None \<Rightarrow> files v | Some k \<Rightarrow> if remove_fails c then files v else (files v)(k := None))\<rparr>)"
    if "get_for_owner (datasets w) did owner = Some d" for d r v
  proof (rule remove_superseded_Inr)
    have "d \<in> set (datasets w)" using get_for_owner_Some [OF that] by simp
    then show "is_storage_key k \<and> k \<noteq> ?key" if "storage_key d = Some k" for k
      using that valid_key_of [OF ok] key by (auto simp: unused_key_def)
  qed
  have cand: "candidate_name ?cand = ?p" by (simp add: written_def)
  have wr: "write_candidate (file_sha256 env) (candidate_uuid c) (write_fails c) source (files w) = (Inr cand, fs) \<longleftrightarrow>
      files w ?p = None \<and> \<not> write_fails c \<and> length ?content \<le> MAX_CSV_BYTES \<and> cand = ?cand \<and> fs = (files w)(?p \<mapsto> ?content)"
    for cand fs by (auto simp: write_candidate_Inr written_def)
  show ?thesis
  proof
    assume ?l
    then obtain safe d cand fs where 1: "normalize_csv_filename (unicode_db env) fn = Inr safe"
      "get_for_owner (datasets w) did owner = Some d" "\<not> txn_fails c 0"
      "write_candidate (file_sha256 env) (candidate_uuid c) (write_fails c) source (files w) = (Inr cand, fs)"
      "activate_candidate env c owner did safe cand (w\<lparr>files := fs\<rparr>) = (Inr ref, w')"
      unfolding upload_csv_Inr by blast
    have 2: "files w ?p = None" "\<not> write_fails c" "length ?content \<le> MAX_CSV_BYTES" "cand = ?cand"
      "fs = (files w)(?p \<mapsto> ?content)" using 1(4) unfolding wr by simp_all
    from 1(5) obtain st now w1 old where 3: "scan_csv (split_file env ?content) = Inr st" "service_clock c = AwareTime now"
      "\<not> txn_fails c 1" "upload_body c owner did safe ?key ?cand st now (w\<lparr>files := (files w)(?p \<mapsto> ?content)\<rparr>) = (Inr (ref, old), w1)"
      "remove_superseded c ?key ref old w1 = (Inr ref, w')"
      unfolding activate_candidate_Inr 2(4,5) cand by (auto simp: alone)
    from 3(4) 1(2) have 4: "target_columns (rules w) (dataset_id d) \<subseteq> set (csv_columns st)"
        "\<not> replace_fails c" "\<not> chmod_fails c" "dataset_row_ok (uploaded d safe ?key ?cand st now)"
        "ref = reference_after_upload d safe ?content (file_sha256 env ?content) st now" "old = storage_key d"
        "w1 = w\<lparr>files := (files w)(?p := None, ?key \<mapsto> ?content), datasets := update_rows (\<lambda>r. dataset_id r = dataset_id d)
         (\<lambda>_. uploaded d safe ?key ?cand st now) (datasets w)\<rparr>" unfolding body by auto
    have idle: "(files w)(?p := None) = files w" using 2(1) by (simp add: fun_upd_idem)
    have "w' = world_after_upload env c safe ?content st now d w"
      using 3(5) unfolding 4(6) sup [OF 1(2)] by (auto simp: 4(7) idle world_after_upload_def files_after_upload_def split: option.splits)
    then show ?r using 1 2 3 4 unfolding system_works_def acceptable_upload_def by blast
  next
    assume ?r
    then obtain d safe st now where r: "get_for_owner (datasets w) did owner = Some d" "service_clock c = AwareTime now"
       "acceptable_upload env c fn ?content w d safe st"
       "dataset_row_ok (uploaded d safe ?key ?cand st now)"
       "ref = reference_after_upload d safe ?content (file_sha256 env ?content) st now"
       "w' = world_after_upload env c safe ?content st now d w" "system_works c" "files w ?p = None" by blast
    let ?w1 = "w\<lparr>files := (files w)(?p := None, ?key \<mapsto> ?content), datasets := update_rows (\<lambda>r. dataset_id r = dataset_id d)
         (\<lambda>_. uploaded d safe ?key ?cand st now) (datasets w)\<rparr>"
    have idle: "(files w)(?p := None) = files w" using r(8) by (simp add: fun_upd_idem)
    have b: "upload_body c owner did safe ?key ?cand st now (w\<lparr>files := (files w)(?p \<mapsto> ?content)\<rparr>) = (Inr (ref, storage_key d), ?w1)"
      unfolding body using r(1,3-5,7) by (intro exI [where x = d]) (simp_all add: acceptable_upload_def system_works_def)
    have s: "remove_superseded c ?key ref (storage_key d) ?w1 = (Inr ref, w')"
      unfolding sup [OF r(1)] r(6) by (auto simp: idle world_after_upload_def files_after_upload_def split: option.splits)
    have "activate_candidate env c owner did safe ?cand (w\<lparr>files := (files w)(?p \<mapsto> ?content)\<rparr>) = (Inr ref, w')"
      unfolding activate_candidate_Inr
      by (intro exI [where x = ?content] exI [where x = st] exI [where x = now] exI [where x = ?w1] exI [where x = "storage_key d"])
        (use b s r(2,3,7) in \<open>simp add: alone cand acceptable_upload_def system_works_def\<close>)
    then show ?l unfolding upload_csv_Inr wr
      using r(1,3,7,8) unfolding acceptable_upload_def system_works_def by blast
  qed
qed

section \<open>Failed uploads\<close>

lemma undo_upload_clean:
  assumes "\<not> discard_fails c" "\<not> undo_fails c" "is_storage_key key"
  shows "undo_upload c cand i key e w = (Inl e, w\<lparr>files :=
    (if i then (files w)(candidate_name cand := None, key := None) else (files w)(candidate_name cand := None))\<rparr>)"
  using assms by (simp add: undo_upload_def discard_candidate_def remove_file_def path_for_key_def storage_key_pattern_iff)

lemma undo_upload_database:
  "undo_upload c cand i key e w = (r, w') \<Longrightarrow> \<exists>fs. w' = w\<lparr>files := fs\<rparr>"
  by (auto simp: undo_upload_def split: prod.splits sum.splits storage_exc.splits if_splits)

lemma upload_body_files:
  assumes "upload_body c owner did fn key cand st now w = (r, w')"
  shows "files w' = files w \<or>
    (files w' = (files w)(candidate_name cand := None, key := files w (candidate_name cand)) \<and> (\<forall>i e. r = Inl (i, e) \<longrightarrow> i))"
proof (cases "files w' = files w")
  case False
  then obtain q where "install (replace_fails c) (chmod_fails c) cand key (files w) = (q, files w')" "\<forall>i e. r = Inl (i, e) \<longrightarrow> i"
    using assms by (auto simp: upload_body_def Let_def split: option.splits if_splits sum.splits prod.splits)
  then show ?thesis by (auto simp: install_def Let_def path_for_key_def split: sum.splits if_splits)
qed simp

lemma upload_transaction_error_files:
  assumes "upload_transaction c owner did fn key cand st now w = (Inl (i, e), w')"
  shows "\<exists>fs. w' = w\<lparr>files := fs\<rparr> \<and> (fs = files w \<or>
    (fs = (files w)(candidate_name cand := None, key := files w (candidate_name cand)) \<and> i))"
proof -
  obtain r w1 where b: "upload_body c owner did fn key cand st now w = (r, w1)"
    by (cases "upload_body c owner did fn key cand st now w")
  show ?thesis using upload_body_files [OF b] assms b
    by (cases r) (auto simp: upload_transaction_def split: if_splits)
qed

text \<open>An upload that fails from the candidate on was undone from a world with the same database.\<close>

lemma activate_candidate_Inl:
  assumes act: "activate_candidate env c owner did fn cand w = (Inl e, w')" and alone: "in_between c = (\<lambda>w. w)"
    and ok: "world_ok env w" and key: "unused_key (new_storage_key (key_uuid c)) w"
  obtains fs i e' where "undo_upload c cand i (new_storage_key (key_uuid c)) e' (w\<lparr>files := fs\<rparr>) = (Inl e, w')"
    "fs = files w \<or> (fs = (files w)(candidate_name cand := None, new_storage_key (key_uuid c) := files w (candidate_name cand)) \<and> i)"
proof -
  let ?key = "new_storage_key (key_uuid c)"
  have idle: "w\<lparr>files := files w\<rparr> = w" by simp
  note reached = that
  have early: thesis if "undo_upload c cand False ?key e' w = (Inl e, w')" for e'
    using reached [of False e' "files w"] \<open>undo_upload c cand False ?key e' w = (Inl e, w')\<close> by simp
  show thesis
  proof (cases "files w (candidate_name cand)")
    case None
    then show thesis using early act by (simp add: activate_candidate_def)
  next
    case b: (Some b)
    show thesis
    proof (cases "scan_csv (split_file env b)")
      case (Inl e)
      then show thesis using early act b by (simp add: activate_candidate_def)
    next
      case st: (Inr st)
      show thesis
      proof (cases "service_now (service_clock c)")
        case (Inl e)
        then show thesis using early act b st by (simp add: activate_candidate_def)
      next
        case now: (Inr now)
        obtain r w1 where t: "upload_transaction c owner did fn ?key cand st now w = (r, w1)"
          by (cases "upload_transaction c owner did fn ?key cand st now w")
        show thesis
        proof (cases r)
          case (Inl p)
          then obtain i e' where r: "r = Inl (i, e')" by (cases p) simp
          then show thesis using upload_transaction_error_files [of c owner did fn ?key cand st now w i e' w1] t act b st now that
            by (auto simp: activate_candidate_def alone)
        next
          case (Inr x)
          then obtain ref old where r: "r = Inr (ref, old)" by (cases x) simp
          then obtain d where d: "get_for_owner (datasets w) did owner = Some d" "old = storage_key d"
            using t by (auto simp: upload_transaction_Inr upload_body_Inr)
          then have "is_storage_key k \<and> k \<noteq> ?key" if "old = Some k" for k
            using that valid_key_of [OF ok] key get_for_owner_Some [OF d(1)] by (auto simp: unused_key_def)
          then show thesis using remove_superseded_Inr [of old ?key c ref w1] t act b st now r
            by (auto simp: activate_candidate_def alone)
        qed
      qed
    qed
  qed
qed

lemma undo_upload_files:
  assumes "undo_upload c cand i key e w = (r, w')" "\<not> is_storage_key (candidate_name cand)" "is_storage_key k" "k \<noteq> key"
  shows "files w' k = files w k"
proof -
  have "k \<noteq> candidate_name cand" using assms(2,3) by blast
  then show ?thesis using assms(1,4)
    by (auto simp: undo_upload_def discard_candidate_def remove_file_def path_for_key_def
        split: prod.splits sum.splits storage_exc.splits if_splits)
qed

lemma activate_candidate_failure:
  assumes act: "activate_candidate env c owner did fn cand w = (Inl e, w')" and alone: "in_between c = (\<lambda>w. w)"
    and ok: "world_ok env w" and key: "unused_key (new_storage_key (key_uuid c)) w"
    and cand: "\<not> is_storage_key (candidate_name cand)"
  shows "\<exists>fs. w' = w\<lparr>files := fs\<rparr> \<and>
      (\<forall>k. is_storage_key k \<longrightarrow> k \<noteq> new_storage_key (key_uuid c) \<longrightarrow> fs k = files w k) \<and>
      (\<not> discard_fails c \<longrightarrow> \<not> undo_fails c \<longrightarrow> files w (new_storage_key (key_uuid c)) = None \<longrightarrow>
        fs = (files w)(candidate_name cand := None))"
proof -
  let ?key = "new_storage_key (key_uuid c)"
  obtain fs i e' where u: "undo_upload c cand i ?key e' (w\<lparr>files := fs\<rparr>) = (Inl e, w')"
    and fs: "fs = files w \<or> (fs = (files w)(candidate_name cand := None, ?key := files w (candidate_name cand)) \<and> i)"
    using activate_candidate_Inl [OF act alone ok key] by blast
  obtain fs' where w': "w' = w\<lparr>files := fs'\<rparr>" using undo_upload_database [OF u] by auto
  have "fs' k = files w k" if k: "is_storage_key k" "k \<noteq> ?key" for k
  proof -
    have "k \<noteq> candidate_name cand" using k(1) cand by blast
    then show ?thesis using undo_upload_files [OF u cand k] fs k(2) by (auto simp: w')
  qed
  moreover have "fs' = (files w)(candidate_name cand := None)"
    if "\<not> discard_fails c" "\<not> undo_fails c" "files w ?key = None"
  proof -
    have "w' = w\<lparr>files := (if i then fs(candidate_name cand := None, ?key := None) else fs(candidate_name cand := None))\<rparr>"
      using undo_upload_clean [OF that(1,2) new_storage_key_valid [of "key_uuid c"], of cand i e' "w\<lparr>files := fs\<rparr>"] u by simp
    then have "files w' = (if i then fs(candidate_name cand := None, ?key := None) else fs(candidate_name cand := None))"
      by simp
    then show ?thesis using fs that(3) by (auto simp: fun_eq_iff w')
  qed
  ultimately show ?thesis using w' by (intro exI [where x = fs']) simp
qed

lemma upload_csv_failure:
  assumes up: "upload_csv env c owner did fn source w = (Inl e, w')" and alone: "in_between c = (\<lambda>w. w)"
    and ok: "world_ok env w" and key: "unused_key (new_storage_key (key_uuid c)) w"
  shows "\<exists>fs. w' = w\<lparr>files := fs\<rparr> \<and>
      (\<forall>k. is_storage_key k \<longrightarrow> k \<noteq> new_storage_key (key_uuid c) \<longrightarrow> fs k = files w k) \<and>
      (\<not> discard_fails c \<longrightarrow> \<not> undo_fails c \<longrightarrow> files w (new_storage_key (key_uuid c)) = None \<longrightarrow> fs = files w)"
proof -
  let ?P = "\<lambda>v. \<exists>fs. v = w\<lparr>files := fs\<rparr> \<and>
      (\<forall>k. is_storage_key k \<longrightarrow> k \<noteq> new_storage_key (key_uuid c) \<longrightarrow> fs k = files w k) \<and>
      (\<not> discard_fails c \<longrightarrow> \<not> undo_fails c \<longrightarrow> files w (new_storage_key (key_uuid c)) = None \<longrightarrow> fs = files w)"
  have same: "?P w" by (intro exI [where x = "files w"]) simp
  show ?thesis
  proof (cases "normalize_csv_filename (unicode_db env) fn")
    case (Inl e)
    then show ?thesis using up same by (simp add: upload_csv_def)
  next
    case fn: (Inr safe)
    obtain q w1 where t: "db_transaction (txn_fault c 0) w (reading (require_dataset did owner)) = (q, w1)"
      by (cases "db_transaction (txn_fault c 0) w (reading (require_dataset did owner))")
    have w1: "w1 = w" using t db_transaction_reading [of "txn_fault c 0" w "require_dataset did owner"] by simp
    obtain r fs where wr: "write_candidate (file_sha256 env) (candidate_uuid c) (write_fails c) source (files w) = (r, fs)"
      by (cases "write_candidate (file_sha256 env) (candidate_uuid c) (write_fails c) source (files w)")
    consider (denied) "w' = w" | (unwritten) "w' = w\<lparr>files := fs\<rparr>" "\<exists>e. r = Inl e"
      | (active) cand where "r = Inr cand" "activate_candidate env c owner did safe cand (w\<lparr>files := fs\<rparr>) = (Inl e, w')"
      using up fn t w1 wr by (auto simp: upload_csv_def split: sum.splits)
    then show ?thesis
    proof cases
      case unwritten
      then have "fs = files w" using wr
        by (auto simp: write_candidate_def Let_def fun_upd_idem split: if_splits sum.splits)
      then show ?thesis using same unwritten(1) by simp
    next
      case (active cand)
      then have c: "candidate_name cand = candidate_path (candidate_uuid c)" "files w (candidate_name cand) = None"
        "fs = (files w)(candidate_name cand \<mapsto> upload_content source)" using wr by (auto simp: write_candidate_Inr)
      have "world_ok env (w\<lparr>files := fs\<rparr>)" using world_ok_files [OF ok keeps_active_write [OF wr]] .
      from activate_candidate_failure [OF active(2) alone this] key c(1) obtain fs' where fs': "w' = w\<lparr>files := fs'\<rparr>"
         "\<forall>k. is_storage_key k \<longrightarrow> k \<noteq> new_storage_key (key_uuid c) \<longrightarrow> fs' k = fs k"
         "\<not> discard_fails c \<longrightarrow> \<not> undo_fails c \<longrightarrow> fs (new_storage_key (key_uuid c)) = None \<longrightarrow> fs' = fs(candidate_name cand := None)"
        by auto
      have "fs k = files w k" if "is_storage_key k" for k using that c by (auto simp: fun_upd_def)
      moreover have "fs(candidate_name cand := None) = files w" using c(2,3) by (simp add: fun_upd_idem)
      ultimately show ?thesis using fs' new_storage_key_valid by (intro exI [where x = fs']) auto
    qed (use same in simp)
  qed
qed

end
