(* ===== verification/DatasetProperties.thy ===== *)
theory DatasetProperties
  imports DatasetOutcomes
begin

text \<open>
  The properties of the dataset component, with a small world on which each is evaluated.
\<close>

section \<open>Runs\<close>

inductive dataset_step :: "dataset_env \<Rightarrow> 'a world_scheme \<Rightarrow> 'a world_scheme \<Rightarrow> bool" for env where
  step_create: "dataset_step env w (snd (create_dataset env c owner name w))"
| step_upload: "others_polite env c \<Longrightarrow> unused_key (new_storage_key (key_uuid c)) w \<Longrightarrow>
     dataset_step env w (snd (upload_csv env c owner did filename source w))"
| step_create_rule: "dataset_step env w (snd (create_rule env c owner did ty column config w))"
| step_delete_rule: "dataset_step env w (snd (delete_rule c owner did rid w))"
| step_list: "dataset_step env w (snd (list_datasets c owner limit offset w))"
| step_get: "dataset_step env w (snd (get_dataset c owner did w))"
| step_list_rules: "dataset_step env w (snd (list_rules c owner did limit offset w))"

inductive dataset_run :: "dataset_env \<Rightarrow> 'a world_scheme \<Rightarrow> 'a world_scheme \<Rightarrow> bool" for env where
  run_none: "dataset_run env w w"
| run_more: "dataset_run env w v \<Longrightarrow> dataset_step env v u \<Longrightarrow> dataset_run env w u"

lemma dataset_step_ok: "dataset_step env w w' \<Longrightarrow> world_ok env w \<Longrightarrow> world_ok env w'"
  by (induction rule: dataset_step.induct)
    (simp_all add: create_dataset_ok upload_csv_ok create_rule_ok delete_rule_ok)

lemma dataset_run_ok: "dataset_run env w w' \<Longrightarrow> world_ok env w \<Longrightarrow> world_ok env w'"
  by (induction rule: dataset_run.induct) (auto intro: dataset_step_ok)

section \<open>Acceptance\<close>

lemma scan_not_empty:
  assumes "scan_csv chunks = Inr st" shows "concat chunks \<noteq> []"
proof
  assume e: "concat chunks = []"
  have "read_lines chunks = (split_lines [], EndOfFile)"
    by (rule read_lines_whole) (simp add: e sig_text_def sig_body_def BOM_def utf8_decode.simps)
  then show False using assms by (simp add: scan_csv_def scan_lines_def parse_reset_def)
qed

lemma uploaded_row_ok:
  assumes ok: "world_ok env w" and d: "d \<in> set (datasets w)"
    and acc: "acceptable_upload env c fn content w d safe st" and now: "dataset_created_at d \<le> now"
    and sha: "\<And>b. length (file_sha256 env b) = 32" and chunks: "\<And>b. concat (split_file env b) = b"
    and law: "unicode_law (unicode_db env)"
  shows "dataset_row_ok (uploaded d safe (new_storage_key (key_uuid c)) (written env c content) st now)"
proof -
  have st: "scan_csv (split_file env content) = Inr st" and len: "length content \<le> MAX_CSV_BYTES"
    and safe: "normalize_csv_filename (unicode_db env) fn = Inr safe"
    using acc by (simp_all add: acceptable_upload_def)
  have "1 \<le> length content" using scan_not_empty [OF st] chunks [of content] by (cases content) auto
  moreover have "1 \<le> length (csv_columns st)" "length (csv_columns st) \<le> 256"
    using scan_csv_sound [OF st] by (auto simp: valid_columns_def Suc_le_eq)
  moreover have "dataset_row_ok d" using ok d by (simp add: world_ok_def datasets_by_id.table_ok_def list_all_iff)
  moreover have "list_all storable_text (csv_columns st)"
    using scan_csv_sound [OF st] by (fastforce simp: valid_columns_def list_all_iff storable_text_def)
  moreover have "storable_text safe" using normalize_csv_filename_Inr [OF safe] controls_unstorable [OF law] by blast
  ultimately show ?thesis
    using normalize_csv_filename_Inr [OF safe] len sha new_storage_key_valid storage_key_storable now
    by (simp add: dataset_row_ok_def dataset_row_checks_def uploaded_def written_def full_upload_def MAX_CSV_BYTES_def)
qed

section \<open>Listings\<close>

lemma dataset_reference_total:
  assumes "world_ok env w" and "d \<in> set (datasets w)"
  shows "\<exists>ref. dataset_reference_of d = Inr ref \<and> ref_dataset_id ref = dataset_id d \<and>
    ref_dataset_created_at ref = dataset_created_at d"
proof -
  have "dataset_row_ok d" using assms by (simp add: world_ok_def datasets_by_id.table_ok_def list_all_iff)
  then have "no_upload d \<or> full_upload d" by (simp add: dataset_row_ok_def dataset_row_checks_def)
  then show ?thesis by (auto simp: dataset_reference_of_def no_upload_def full_upload_def)
qed

definition the_reference :: "dataset_row \<Rightarrow> dataset_reference" where
  "the_reference d = (case dataset_reference_of d of Inl e \<Rightarrow> undefined | Inr ref \<Rightarrow> ref)"

definition reference_key :: "dataset_reference \<Rightarrow> instant \<times> uuid" where
  "reference_key r = (ref_dataset_created_at r, ref_dataset_id r)"

definition own_listing :: "'a world_scheme \<Rightarrow> uuid \<Rightarrow> dataset_reference list" where
  "own_listing w owner = map the_reference
     (order_by (\<lambda>d. (dataset_created_at d, dataset_id d)) (filter (\<lambda>d. owner_id d = owner) (datasets w)))"

lemma the_reference_ok:
  assumes "world_ok env w" and "d \<in> set (datasets w)"
  shows "dataset_reference_of d = Inr (the_reference d)" "ref_dataset_id (the_reference d) = dataset_id d"
    "reference_key (the_reference d) = (dataset_created_at d, dataset_id d)"
  using dataset_reference_total [OF assms] by (auto simp: the_reference_def reference_key_def)

lemma page_map: "page n off (map f xs) = map f (page n off xs)"
  by (simp add: page_def drop_map take_map)

lemma list_datasets_page:
  assumes ok: "world_ok env w" and "\<not> txn_fails c 0"
  shows "list_datasets c owner limit offset w = (Inr (page limit offset (own_listing w owner)), w)"
proof -
  let ?rows = "order_by (\<lambda>d. (dataset_created_at d, dataset_id d)) (filter (\<lambda>d. owner_id d = owner) (datasets w))"
  have "map_results dataset_reference_of (page limit offset ?rows) = Inr (map the_reference (page limit offset ?rows))"
  proof (rule map_results_total, rule ballI)
    fix d assume "d \<in> set (page limit offset ?rows)"
    then have "d \<in> set (datasets w)" using set_page [of limit offset ?rows] by auto
    then show "dataset_reference_of d = Inr (the_reference d)" by (rule the_reference_ok [OF ok])
  qed
  then show ?thesis using assms(2)
    by (simp add: list_datasets_def db_transaction_def reading_def txn_fault_def list_for_owner_def own_listing_def page_map)
qed

lemma own_listing_ids:
  assumes ok: "world_ok env w"
  shows "set (map ref_dataset_id (own_listing w owner)) = {dataset_id d | d. d \<in> set (datasets w) \<and> owner_id d = owner}"
    and "sorted_wrt (<) (map reference_key (own_listing w owner))"
proof -
  let ?k = "\<lambda>d. (dataset_created_at d, dataset_id d)"
  let ?rows = "order_by ?k (filter (\<lambda>d. owner_id d = owner) (datasets w))"
  have mem: "d \<in> set (datasets w)" if "d \<in> set ?rows" for d using that by simp
  then have ids: "map ref_dataset_id (own_listing w owner) = map dataset_id ?rows"
    and keys: "map reference_key (own_listing w owner) = map ?k ?rows"
    using the_reference_ok [OF ok] by (auto simp: own_listing_def)
  show "set (map ref_dataset_id (own_listing w owner)) = {dataset_id d | d. d \<in> set (datasets w) \<and> owner_id d = owner}"
    unfolding ids by auto
  have "distinct (map dataset_id (filter (\<lambda>d. owner_id d = owner) (datasets w)))"
    using ok by (simp add: world_ok_def datasets_by_id.table_ok_def distinct_map_filterI)
  moreover have "mset (map dataset_id ?rows) = mset (map dataset_id (filter (\<lambda>d. owner_id d = owner) (datasets w)))"
    by simp
  ultimately have "distinct (map dataset_id ?rows)" using mset_eq_imp_distinct_iff by blast
  then have "distinct (map ?k ?rows)" by (auto simp: distinct_map inj_on_def)
  then show "sorted_wrt (<) (map reference_key (own_listing w owner))"
    unfolding keys using sorted_order_by [of ?k] by (simp add: strict_sorted_iff del: map_map)
qed

section \<open>A concrete world\<close>

definition plain_unicode :: unicode where
  "plain_unicode = \<lparr>normalize_nfc = (\<lambda>s. s), category_C = (\<lambda>c. c < 32)\<rparr>"

definition sample_files_env :: dataset_env where
  "sample_files_env = \<lparr>unicode_db = plain_unicode, file_sha256 = (\<lambda>b. replicate 32 7), split_file = (\<lambda>b. [b])\<rparr>"

definition sample_dataset :: dataset_row where
  "sample_dataset = \<lparr>dataset_id = Uuid 5, owner_id = Uuid 1, dataset_name = [100],
     original_filename = None, storage_key = None, content_sha256 = None, size_bytes = None,
     dataset_row_count = None, column_names = None, uploaded_at = None,
     dataset_created_at = 0, dataset_updated_at = 0\<rparr>"

definition sample_world :: world where
  "sample_world = \<lparr>owners = {Uuid 1}, datasets = [sample_dataset], rules = [], files = (\<lambda>_. None)\<rparr>"

definition sample_dataset_call :: "world dataset_call" where
  "sample_dataset_call = \<lparr>service_clock = AwareTime 9, txn_fails = (\<lambda>_. False), new_row_id = Uuid 8,
     candidate_uuid = Uuid 3, key_uuid = Uuid 4, write_fails = False, replace_fails = False,
     chmod_fails = False, discard_fails = False, undo_fails = False, remove_fails = False,
     in_between = (\<lambda>w. w)\<rparr>"

lemma sample_world_ok: "world_ok sample_files_env sample_world"
  by (simp add: world_ok_def sample_world_def sample_dataset_def datasets_by_id.table_ok_def
      storable_text_def rules_by_id.table_ok_def rules_by_definition.table_ok_def dataset_row_ok_def dataset_row_checks_def
      btrim_id_def no_upload_def storage_key_free_def upload_ok_def)

lemma sample_found: "get_for_owner (datasets sample_world) (Uuid 5) (Uuid 1) = Some sample_dataset"
  by (simp add: get_for_owner_def sample_world_def sample_dataset_def)

lemma sample_unused: "unused_key k sample_world"
  by (simp add: unused_key_def sample_world_def sample_dataset_def)

lemma sample_scan: "scan_csv [concat sample_chunks] = Inr \<lparr>row_count = 1, csv_columns = [[97]]\<rparr>"
  using scan_lines_text [OF sample_rows] read_lines_whole [of "[concat sample_chunks]"] sample_text
  by (simp add: scan_csv_def validate_header_def bad_column_def py_strip_def py_isspace_def
      MAX_COLUMN_NAME_LENGTH_def MAX_COLUMNS_def)

lemma sample_acceptable:
  "acceptable_upload sample_files_env sample_dataset_call (Some (lit ''t.CSV'')) (concat sample_chunks)
     sample_world sample_dataset (lit ''t.CSV'') \<lparr>row_count = 1, csv_columns = [[97]]\<rparr>"
proof -
  have "normalize_csv_filename plain_unicode (Some (lit ''t.CSV'')) = Inr (lit ''t.CSV'')"
    by (simp add: normalize_csv_filename_def plain_unicode_def contains_control_def MAX_FILENAME_LENGTH_def
        py_endswith_def py_lower_def lower_char_def ascii_lower_def)
  then show ?thesis using sample_scan
    by (simp add: acceptable_upload_def sample_files_env_def sample_world_def target_columns_def
        sample_chunks_def MAX_CSV_BYTES_def del: lit_Cons)
qed

lemma upload_replaces:
  assumes up: "upload_csv env c owner did filename source w = (Inr ref, w')" and alone: "in_between c = (\<lambda>w. w)"
    and ok: "world_ok env w" and key: "unused_key (new_storage_key (key_uuid c)) w"
  shows "\<exists>d k up st. d \<in> set (datasets w') \<and> dataset_id d = did \<and> owner_id d = owner \<and> storage_key d = Some k \<and>
    dataset_reference_of d = Inr ref \<and> ref_upload ref = Some up \<and>
    open_binary k (files w') = Inr (upload_content source) \<and>
    upload_size up = int (length (upload_content source)) \<and>
    upload_sha256 up = file_sha256 env (upload_content source) \<and>
    scan_csv (split_file env (upload_content source)) = Inr st \<and>
    upload_rows up = int (row_count st) \<and> upload_columns up = csv_columns st \<and>
    (\<forall>e \<in> set (datasets w). dataset_id e \<noteq> did \<longrightarrow> e \<in> set (datasets w') \<and>
       (\<forall>k b. storage_key e = Some k \<longrightarrow> open_binary k (files w) = Inr b \<longrightarrow> open_binary k (files w') = Inr b)) \<and>
    (\<forall>e \<in> set (datasets w). dataset_id e = did \<longrightarrow> \<not> remove_fails c \<longrightarrow>
       (\<forall>k. storage_key e = Some k \<longrightarrow> files w' k = None))"
proof -
  let ?key = "new_storage_key (key_uuid c)" and ?content = "upload_content source"
  obtain d safe st now where 1: "get_for_owner (datasets w) did owner = Some d" "acceptable_upload env c filename ?content w d safe st"
    "ref = reference_after_upload d safe ?content (file_sha256 env ?content) st now"
    "w' = world_after_upload env c safe ?content st now d w"
    using up unfolding upload_outcome [OF alone ok key] by blast
  let ?d = "uploaded d safe ?key (written env c ?content) st now"
  have d: "d \<in> set (datasets w)" "dataset_id d = did" "owner_id d = owner" using get_for_owner_Some [OF 1(1)] by simp_all
  have old: "k \<noteq> ?key" if "e \<in> set (datasets w)" "storage_key e = Some k" for e k using that key by (auto simp: unused_key_def)
  have other: "storage_key e \<noteq> storage_key d" if "e \<in> set (datasets w)" "dataset_id e \<noteq> did" "storage_key d \<noteq> None" for e
    using that ok d by (auto simp: world_ok_def storage_key_free_def)
  have same: "e = d" if "e \<in> set (datasets w)" "dataset_id e = did" for e
    using datasets_by_id.key_unique [of "datasets w" e d] that d ok by (simp add: world_ok_def)
  have fs: "files w' = files_after_upload c ?content (storage_key d) (files w)" by (simp add: 1(4) world_after_upload_def)
  have content: "open_binary ?key (files w') = Inr ?content"
    using old [OF d(1)] by (auto simp: fs files_after_upload_def Let_def open_binary_Inr new_storage_key_valid split: option.splits)
  have keep: "files w' k = files w k" if "e \<in> set (datasets w)" "dataset_id e \<noteq> did" "storage_key e = Some k" for e k
    using old [OF that(1,3)] other [OF that(1,2)] that(3) by (auto simp: fs files_after_upload_def Let_def split: option.splits)
  have gone: "files w' k = None" if "storage_key d = Some k" "\<not> remove_fails c" for k
    using that by (simp add: fs files_after_upload_def)
  have mem: "?d \<in> set (datasets w')" and rest: "\<And>e. e \<in> set (datasets w) \<Longrightarrow> dataset_id e \<noteq> did \<Longrightarrow> e \<in> set (datasets w')"
    using d by (auto simp: 1(4) world_after_upload_def set_update_rows)
  have ref: "dataset_reference_of ?d = Inr ref"
    unfolding 1(3) by (subst reference_uploaded) (simp_all add: written_def)
  have scan: "scan_csv (split_file env ?content) = Inr st" using 1(2) by (simp add: acceptable_upload_def)
  obtain up where u: "ref_upload ref = Some up" "upload_size up = int (length ?content)"
    "upload_sha256 up = file_sha256 env ?content" "upload_rows up = int (row_count st)" "upload_columns up = csv_columns st"
    by (simp add: 1(3) reference_after_upload_def)
  have id: "dataset_id ?d = did" "owner_id ?d = owner" "storage_key ?d = Some ?key" using d by (simp_all add: uploaded_def)
  show ?thesis
    by (intro exI [where x = ?d] exI [where x = ?key] exI [where x = up] exI [where x = st])
      (use mem id ref u content scan rest keep gone same in \<open>auto simp: open_binary_Inr\<close>)
qed

text \<open>An upload that is acceptable to a working system succeeds.\<close>

lemma upload_succeeds:
  assumes found: "get_for_owner (datasets w) did owner = Some d"
    and acc: "acceptable_upload env c filename (upload_content source) w d safe st"
    and works: "system_works c" "service_clock c = AwareTime now" "files w (candidate_path (candidate_uuid c)) = None"
    and now: "dataset_created_at d \<le> now"
    and env: "\<And>b. length (file_sha256 env b) = 32" "\<And>b. concat (split_file env b) = b" "unicode_law (unicode_db env)"
    and alone: "in_between c = (\<lambda>w. w)" and ok: "world_ok env w"
    and key: "unused_key (new_storage_key (key_uuid c)) w"
  shows "\<exists>ref w'. upload_csv env c owner did filename source w = (Inr ref, w')"
proof -
  have "d \<in> set (datasets w)" using get_for_owner_Some [OF found] by simp
  then have "dataset_row_ok (uploaded d safe (new_storage_key (key_uuid c)) (written env c (upload_content source)) st now)"
    using uploaded_row_ok [OF ok _ acc now env] by simp
  then show ?thesis
    unfolding upload_outcome [OF alone ok key] using found acc works by blast
qed

lemma sample_upload:
  "\<exists>ref w'. upload_csv sample_files_env sample_dataset_call (Uuid 1) (Uuid 5) (Some (lit ''t.CSV''))
     [concat sample_chunks] sample_world = (Inr ref, w')"
  by (rule upload_succeeds [OF sample_found, where safe = "lit ''t.CSV''" and st = "\<lparr>row_count = 1, csv_columns = [[97]]\<rparr>" and now = 9])
    (use sample_acceptable sample_world_ok sample_unused in
      \<open>simp_all add: upload_content_def sample_chunks_def system_works_def sample_dataset_call_def
        sample_world_def sample_dataset_def sample_files_env_def unicode_law_def plain_unicode_def\<close>)

section \<open>Foreign datasets, and new rules\<close>

lemma not_owned:
  assumes "\<forall>d \<in> set (datasets w). dataset_id d = did \<longrightarrow> owner_id d \<noteq> owner"
  shows "get_for_owner (datasets w) did owner = None"
  using assms by (auto simp: get_for_owner_def find_None_iff)

lemma not_found_calls:
  assumes "get_for_owner (datasets w) did owner = None"
  shows "get_dataset c owner did w = (Inl DatasetNotFound, w)"
    and "list_rules c owner did limit offset w = (Inl DatasetNotFound, w)"
    and "delete_rule c owner did rid w = (Inl DatasetNotFound, w)"
    and "\<exists>e. upload_csv env c owner did filename source w = (Inl e, w) \<and>
      (e = DatasetNotFound \<or> (\<exists>p. e = DatasetPolicyError p))"
    and "\<exists>e. create_rule env c owner did ty column config w = (Inl e, w) \<and>
      (e = DatasetNotFound \<or> e = DatasetClockIsNaive \<or> (\<exists>p. e = DatasetPolicyError p))"
proof -
  show "get_dataset c owner did w = (Inl DatasetNotFound, w)"
    "list_rules c owner did limit offset w = (Inl DatasetNotFound, w)"
    "delete_rule c owner did rid w = (Inl DatasetNotFound, w)"
    using assms by (simp_all add: get_dataset_def list_rules_def delete_rule_def db_transaction_def reading_def require_dataset_def)
  show "\<exists>e. upload_csv env c owner did filename source w = (Inl e, w) \<and>
      (e = DatasetNotFound \<or> (\<exists>p. e = DatasetPolicyError p))"
    using assms by (cases "normalize_csv_filename (unicode_db env) filename")
      (simp_all add: upload_csv_def db_transaction_def reading_def require_dataset_def)
  show "\<exists>e. create_rule env c owner did ty column config w = (Inl e, w) \<and>
      (e = DatasetNotFound \<or> e = DatasetClockIsNaive \<or> (\<exists>p. e = DatasetPolicyError p))"
    using assms by (cases "validate_target_column (unicode_db env) column"; cases "service_clock c")
      (simp_all add: create_rule_def db_transaction_def create_rule_body_def as_duplicate_rule_def)
qed

text \<open>A valid column name satisfies the check of the table.\<close>

lemma space_32: "py_isspace 32"
  by (simp add: py_isspace_def)

lemma valid_column_btrim: "py_strip s = s \<Longrightarrow> btrim_id s"
  unfolding py_strip_id_iff btrim_id_def using space_32 by metis

lemma create_rule_outcome:
  assumes works: "\<not> txn_fails c 0" "service_clock c = AwareTime now" and ty: "ty \<in> set rule_types"
    and fresh: "new_row_id c \<notin> rule_row_id ` set (rules w)"
    and storable: "unicode_law (unicode_db env)" "configuration_storable config"
  shows "create_rule env c owner did ty column config w =
    (case validate_target_column (unicode_db env) column of
       Inl e \<Rightarrow> (Inl (DatasetPolicyError e), w)
     | Inr _ \<Rightarrow>
         (case get_for_owner (datasets w) did owner of
            None \<Rightarrow> (Inl DatasetNotFound, w)
          | Some d \<Rightarrow>
              if column_names d = None then (Inl DatasetNotReady, w)
              else if column \<notin> set (the (column_names d)) then (Inl UnknownColumn, w)
              else if (did, ty, column, config) \<in> rule_definition ` set (rules w) then (Inl DuplicateRule, w)
              else
                let r = \<lparr>rule_row_id = new_row_id c, rule_dataset_id = did, rule_type = ty,
                   rule_target_column = column, rule_configuration = config, rule_created_at = now\<rparr>
                in (Inr (rule_reference_of r), w\<lparr>rules := rules w @ [r]\<rparr>)))"
proof (cases "validate_target_column (unicode_db env) column")
  case (Inr col)
  then have col: "col = column" and len: "1 \<le> length column" "length column \<le> 128" "py_strip column = column"
    and sendable: "storable_text column"
    using controls_unstorable [OF storable(1)] by (auto simp: validate_target_column_Inr)
  define r where "r = \<lparr>rule_row_id = new_row_id c, rule_dataset_id = did, rule_type = ty,
      rule_target_column = column, rule_configuration = config, rule_created_at = now\<rparr>"
  show ?thesis
  proof (cases "get_for_owner (datasets w) did owner")
    case (Some d)
    then have own: "did \<in> dataset_id ` set (datasets w)" using get_for_owner_Some by force
    have "insert_rule (datasets w) r (rules w) =
      (if rule_definition r \<in> rule_definition ` set (rules w) then Inl ''uq_validation_rules_definition'' else Inr (rules w @ [r]))"
      using own fresh ty len sendable storable(2) rule_types_storable [OF ty] valid_column_btrim [of column]
      by (simp add: insert_rule_def insert_row_def rule_constraints_def rule_row_checks_def r_def)
    then show ?thesis
      using Inr col Some works
      by (simp add: create_rule_def db_transaction_def create_rule_body_def as_duplicate_rule_def txn_fault_def
          r_def [symmetric] Let_def split: option.splits)
        (simp add: r_def rule_definition_def split: option.splits)
  qed (use Inr col works in \<open>simp add: create_rule_def db_transaction_def create_rule_body_def as_duplicate_rule_def\<close>)
qed (simp add: create_rule_def)

section \<open>Properties\<close>

text \<open>
  Database and files stay consistent whatever is called in whatever order and whatever fails on
  the way: every row satisfies its constraints and keys stay unique; the file of every active
  upload exists and has the recorded size, hash, row count and columns; every rule targets a column
  of its dataset's active upload. Concurrent calls are those of the same kind.
\<close>

theorem calls_keep_files_consistent:
  assumes "dataset_run env w w'" and "world_ok env w"
  shows "world_ok env w'"
  using assms by (rule dataset_run_ok)

theorem calls_keep_files_consistent_witness:
  "world_ok sample_files_env (snd (create_rule sample_files_env sample_dataset_call (Uuid 1) (Uuid 5) (lit ''unique'') [97] []
     (snd (upload_csv sample_files_env sample_dataset_call (Uuid 1) (Uuid 5) (Some (lit ''t.CSV'')) [concat sample_chunks]
       sample_world))))"
proof -
  have "others_polite sample_files_env sample_dataset_call"
    by (simp add: others_polite_def sample_dataset_call_def)
  note step = step_upload [OF this sample_unused, of "Uuid 1" "Uuid 5" "Some (lit ''t.CSV'')" "[concat sample_chunks]"]
  show ?thesis
    by (rule calls_keep_files_consistent [OF run_more [OF run_more [OF run_none step] step_create_rule] sample_world_ok])
qed



text \<open>
  C28. A successful upload replaces the active one: afterwards the uploaded bytes are the content of
  the dataset's file, the returned reference gives their length, hash, row count and columns, the
  files of all other active uploads are untouched, and the superseded file is gone when its removal
  works.
\<close>

theorem successful_upload_replaces_file:
  assumes "upload_csv env c owner did filename source w = (Inr ref, w')" and "in_between c = (\<lambda>w. w)"
    and "world_ok env w" and "unused_key (new_storage_key (key_uuid c)) w"
  shows "\<exists>d k up st. d \<in> set (datasets w') \<and> dataset_id d = did \<and> owner_id d = owner \<and> storage_key d = Some k \<and>
    dataset_reference_of d = Inr ref \<and> ref_upload ref = Some up \<and>
    open_binary k (files w') = Inr (upload_content source) \<and>
    upload_size up = int (length (upload_content source)) \<and>
    upload_sha256 up = file_sha256 env (upload_content source) \<and>
    scan_csv (split_file env (upload_content source)) = Inr st \<and>
    upload_rows up = int (row_count st) \<and> upload_columns up = csv_columns st \<and>
    (\<forall>e \<in> set (datasets w). dataset_id e \<noteq> did \<longrightarrow> e \<in> set (datasets w') \<and>
       (\<forall>k b. storage_key e = Some k \<longrightarrow> open_binary k (files w) = Inr b \<longrightarrow> open_binary k (files w') = Inr b)) \<and>
    (\<forall>e \<in> set (datasets w). dataset_id e = did \<longrightarrow> \<not> remove_fails c \<longrightarrow>
       (\<forall>k. storage_key e = Some k \<longrightarrow> files w' k = None))"
  by (rule upload_replaces [OF assms])

theorem successful_upload_replaces_file_witness:
  "\<exists>w' :: world. \<exists>d k. d \<in> set (datasets w') \<and> dataset_id d = Uuid 5 \<and> storage_key d = Some k \<and>
     open_binary k (files w') = Inr (concat sample_chunks)"
proof -
  obtain ref w' where u: "upload_csv sample_files_env sample_dataset_call (Uuid 1) (Uuid 5) (Some (lit ''t.CSV''))
     [concat sample_chunks] sample_world = (Inr ref, w')" using sample_upload by blast
  have alone: "in_between sample_dataset_call = (\<lambda>w. w)" by (simp add: sample_dataset_call_def)
  have content: "upload_content [concat sample_chunks] = concat sample_chunks" by (simp add: upload_content_def sample_chunks_def)
  have "\<exists>d k. d \<in> set (datasets w') \<and> dataset_id d = Uuid 5 \<and> storage_key d = Some k \<and>
     open_binary k (files w') = Inr (upload_content [concat sample_chunks])"
    using successful_upload_replaces_file [OF u alone sample_world_ok sample_unused] by (elim exE conjE) (intro exI conjI)
  then show ?thesis unfolding content by (rule exI)
qed

text \<open>
  C29. A valid upload is accepted: a CSV filename, at most 10 MiB, a well-formed table that keeps
  the columns the rules target, to a dataset of the caller, on a working system whose clock has not
  gone back. No database constraint can reject it.
\<close>

theorem valid_upload_is_accepted:
  assumes "get_for_owner (datasets w) did owner = Some d"
    and "acceptable_upload env c filename (upload_content source) w d safe st"
    and "system_works c" and "service_clock c = AwareTime now" and "files w (candidate_path (candidate_uuid c)) = None"
    and "dataset_created_at d \<le> now"
    and "\<And>b. length (file_sha256 env b) = 32" and "\<And>b. concat (split_file env b) = b" and "unicode_law (unicode_db env)"
    and "in_between c = (\<lambda>w. w)" and "world_ok env w" and "unused_key (new_storage_key (key_uuid c)) w"
  shows "\<exists>ref w'. upload_csv env c owner did filename source w = (Inr ref, w')"
  using assms by (rule upload_succeeds)

theorem valid_upload_is_accepted_witness:
  "\<exists>ref w'. upload_csv sample_files_env sample_dataset_call (Uuid 1) (Uuid 5) (Some (lit ''t.CSV''))
     [concat sample_chunks] sample_world = (Inr ref, w')"
  by (rule valid_upload_is_accepted [OF sample_found, where safe = "lit ''t.CSV''" and st = "\<lparr>row_count = 1, csv_columns = [[97]]\<rparr>" and now = 9])
    (use sample_acceptable sample_world_ok sample_unused in
      \<open>simp_all add: upload_content_def sample_chunks_def system_works_def sample_dataset_call_def
        sample_world_def sample_dataset_def sample_files_env_def unicode_law_def plain_unicode_def\<close>)

text \<open>
  C11. A user reaches only the own datasets: every call that names a dataset of somebody else, or
  one that does not exist, changes nothing and, unless its arguments are already refused, answers
  that the dataset was not found.
\<close>

theorem datasets_are_private:
  assumes "\<forall>d \<in> set (datasets w). dataset_id d = did \<longrightarrow> owner_id d \<noteq> owner"
  shows "get_dataset c owner did w = (Inl DatasetNotFound, w) \<and>
    list_rules c owner did limit offset w = (Inl DatasetNotFound, w) \<and>
    delete_rule c owner did rid w = (Inl DatasetNotFound, w) \<and>
    (\<exists>e. upload_csv env c owner did filename source w = (Inl e, w) \<and>
      (e = DatasetNotFound \<or> (\<exists>p. e = DatasetPolicyError p))) \<and>
    (\<exists>e. create_rule env c owner did ty column config w = (Inl e, w) \<and>
      (e = DatasetNotFound \<or> e = DatasetClockIsNaive \<or> (\<exists>p. e = DatasetPolicyError p)))"
  using not_found_calls [OF not_owned [OF assms]] by blast

theorem datasets_are_private_witness:
  "get_dataset sample_dataset_call (Uuid 2) (Uuid 5) sample_world = (Inl DatasetNotFound, sample_world)"
  using datasets_are_private [of sample_world "Uuid 5" "Uuid 2" sample_dataset_call]
  by (simp add: sample_world_def sample_dataset_def)

text \<open>
  A listing is a window into one list: the caller's own datasets, each exactly once, strictly
  ordered by creation time and identifier. So consecutive pages neither repeat nor skip a dataset.
\<close>

theorem pages_are_windows_of_own_datasets:
  assumes "world_ok env w"
  shows "\<exists>all. (\<forall>c limit offset. \<not> txn_fails c 0 \<longrightarrow>
        list_datasets c owner limit offset w = (Inr (take limit (drop offset all)), w)) \<and>
      set (map ref_dataset_id all) = {dataset_id d | d. d \<in> set (datasets w) \<and> owner_id d = owner} \<and>
      sorted_wrt (<) (map (\<lambda>r. (ref_dataset_created_at r, ref_dataset_id r)) all)"
  using list_datasets_page [OF assms] own_listing_ids [OF assms, of owner]
  unfolding page_def reference_key_def by (intro exI [where x = "own_listing w owner"]) blast

theorem pages_are_windows_of_own_datasets_witness:
  "\<exists>all. list_datasets sample_dataset_call (Uuid 1) 100 0 sample_world = (Inr (take 100 (drop 0 all)), sample_world) \<and>
     set (map ref_dataset_id all) = {Uuid 5}"
proof -
  have "{dataset_id d | d. d \<in> set (datasets sample_world) \<and> owner_id d = Uuid 1} = {Uuid 5}"
    by (auto simp: sample_world_def sample_dataset_def)
  then show ?thesis
    using pages_are_windows_of_own_datasets [OF sample_world_ok, of "Uuid 1"]
    by (auto simp: sample_dataset_call_def)
qed

text \<open>
  The outcome of creating a rule, by cases: an invalid column name, a foreign dataset, one
  without an upload, an unknown column, a rule defined already; in all other cases the rule is added.
\<close>

theorem rule_creation_outcome:
  assumes "\<not> txn_fails c 0" and "service_clock c = AwareTime now" and "ty \<in> set rule_types"
    and "new_row_id c \<notin> rule_row_id ` set (rules w)"
    and "unicode_law (unicode_db env)" and "configuration_storable config"
  shows "create_rule env c owner did ty column config w =
    (case validate_target_column (unicode_db env) column of
       Inl e \<Rightarrow> (Inl (DatasetPolicyError e), w)
     | Inr _ \<Rightarrow>
         (case get_for_owner (datasets w) did owner of
            None \<Rightarrow> (Inl DatasetNotFound, w)
          | Some d \<Rightarrow>
              if column_names d = None then (Inl DatasetNotReady, w)
              else if column \<notin> set (the (column_names d)) then (Inl UnknownColumn, w)
              else if (did, ty, column, config) \<in> rule_definition ` set (rules w) then (Inl DuplicateRule, w)
              else
                let r = \<lparr>rule_row_id = new_row_id c, rule_dataset_id = did, rule_type = ty,
                   rule_target_column = column, rule_configuration = config, rule_created_at = now\<rparr>
                in (Inr (rule_reference_of r), w\<lparr>rules := rules w @ [r]\<rparr>)))"
  using assms by (rule create_rule_outcome)

theorem rule_creation_outcome_witness:
  "create_rule sample_files_env sample_dataset_call (Uuid 1) (Uuid 5) (lit ''unique'') [97] [] sample_world =
     (Inl DatasetNotReady, sample_world)"
proof -
  have "validate_target_column (unicode_db sample_files_env) [97] = Inr [97]"
    by (simp add: validate_target_column_Inr sample_files_env_def plain_unicode_def contains_control_def
        py_strip_def py_isspace_def)
  then show ?thesis
    using rule_creation_outcome [of sample_dataset_call 9 "lit ''unique''" sample_world sample_files_env "[]" "Uuid 1" "Uuid 5" "[97]"]
      sample_found
    by (simp add: sample_dataset_call_def rule_types_def sample_files_env_def plain_unicode_def unicode_law_def
        configuration_storable_def)
      (simp add: sample_world_def sample_dataset_def)
qed

end
