(* ===== verification/RuleConfig.thy ===== *)
theory RuleConfig
  imports Policies DatasetStore Engine
begin

text \<open>
  Rule definitions as requests carry them (\<open>datasets/schemas.py\<close>) and as the analysis reads them
  back (\<open>analysis/adapters.py\<close>). JSON objects are lists of fields. \<open>finite_float\<close> stands for
  Pydantic's \<open>FiniteFloat\<close>.
\<close>

record schema_env =
  schema_unicode :: unicode
  polars :: polars_contains
  finite_float :: "pyval \<Rightarrow> pyfloat option"

text \<open>
  The documented behaviour of \<open>FiniteFloat\<close> on numbers: floats that are not finite and integers
  beyond the floats are refused, other integers are converted.
\<close>

definition finite_float_law :: "(pyval \<Rightarrow> pyfloat option) \<Rightarrow> bool" where
  "finite_float_law ff \<longleftrightarrow>
     (\<forall>f. ff (VFloat f) = (if float_isfinite f then Some f else None)) \<and>
     (\<forall>i. ff (VInt i) =
        (if float_isfinite (round_double (of_int i)) then Some (round_double (of_int i)) else None))"

section \<open>Configurations\<close>

datatype rule_configuration =
    EmptyRuleConfiguration
  | TypeRuleConfiguration pystr
  | RangeRuleConfiguration "pyfloat option" "pyfloat option"
  | RegexRuleConfiguration pystr

text \<open>Pydantic's \<open>ValidationError\<close>, whose contents the modelled code never reads.\<close>

datatype schema_error = SchemaError

text \<open>\<open>extra="forbid"\<close>\<close>

definition only_fields :: "string list \<Rightarrow> configuration \<Rightarrow> bool" where
  "only_fields names cfg \<longleftrightarrow> fst ` set cfg \<subseteq> lit ` set names"

definition validate_empty :: "configuration \<Rightarrow> schema_error + rule_configuration" where
  "validate_empty cfg = (if only_fields [] cfg then Inr EmptyRuleConfiguration else Inl SchemaError)"

definition validate_type :: "configuration \<Rightarrow> schema_error + rule_configuration" where
  "validate_type cfg =
     (case map_of cfg (lit ''expected_type'') of
        Some (VStr t) \<Rightarrow>
          if t \<in> set expected_types \<and> only_fields [''expected_type''] cfg
          then Inr (TypeRuleConfiguration t) else Inl SchemaError
      | _ \<Rightarrow> Inl SchemaError)"

text \<open>A boundary: the \<open>before\<close> validator, then the declared type.\<close>

definition validate_boundary ::
  "(pyval \<Rightarrow> pyfloat option) \<Rightarrow> pyval option \<Rightarrow> schema_error + pyfloat option" where
  "validate_boundary ff given =
     (case given of
        None \<Rightarrow> Inr None
      | Some v \<Rightarrow>
          if v = VNone then Inr None
          else if \<not> is_number v then Inl SchemaError
          else (case ff v of None \<Rightarrow> Inl SchemaError | Some f \<Rightarrow> Inr (Some f)))"

definition validate_bounds :: "pyfloat option \<Rightarrow> pyfloat option \<Rightarrow> schema_error + rule_configuration" where
  "validate_bounds lo hi =
     (if lo = None \<and> hi = None then Inl SchemaError
      else if lo \<noteq> None \<and> hi \<noteq> None \<and> float_less (the hi) (the lo) then Inl SchemaError
      else Inr (RangeRuleConfiguration lo hi))"

definition validate_range_configuration ::
  "(pyval \<Rightarrow> pyfloat option) \<Rightarrow> configuration \<Rightarrow> schema_error + rule_configuration" where
  "validate_range_configuration ff cfg =
     (if \<not> only_fields [''minimum'', ''maximum''] cfg then Inl SchemaError
      else bind_result (validate_boundary ff (map_of cfg (lit ''minimum''))) (\<lambda>lo.
           bind_result (validate_boundary ff (map_of cfg (lit ''maximum''))) (\<lambda>hi.
           validate_bounds lo hi)))"

definition validate_regex :: "schema_env \<Rightarrow> configuration \<Rightarrow> schema_error + rule_configuration" where
  "validate_regex env cfg =
     (case map_of cfg (lit ''pattern'') of
        Some (VStr p) \<Rightarrow>
          if \<not> only_fields [''pattern''] cfg \<or> \<not> (1 \<le> length p \<and> length p \<le> 256) then Inl SchemaError
          else (case validate_polars_regex (schema_unicode env) (polars env) p of
              Inl _ \<Rightarrow> Inl SchemaError
            | Inr q \<Rightarrow> Inr (RegexRuleConfiguration q))
      | _ \<Rightarrow> Inl SchemaError)"

text \<open>\<open>model_dump(mode="json")\<close>\<close>

definition dump_boundary :: "pyfloat option \<Rightarrow> pyval" where
  "dump_boundary b = (case b of None \<Rightarrow> VNone | Some f \<Rightarrow> VFloat f)"

fun model_dump :: "rule_configuration \<Rightarrow> configuration" where
  "model_dump EmptyRuleConfiguration = []"
| "model_dump (TypeRuleConfiguration t) = [(lit ''expected_type'', VStr t)]"
| "model_dump (RangeRuleConfiguration lo hi) =
     [(lit ''minimum'', dump_boundary lo), (lit ''maximum'', dump_boundary hi)]"
| "model_dump (RegexRuleConfiguration p) = [(lit ''pattern'', VStr p)]"

section \<open>Requests\<close>

text \<open>The discriminated union: the \<open>type\<close> field selects the configuration's model.\<close>

definition validate_configuration ::
  "schema_env \<Rightarrow> pystr \<Rightarrow> configuration \<Rightarrow> schema_error + rule_configuration" where
  "validate_configuration env ty cfg =
     (if ty = lit ''required'' then validate_empty cfg
      else if ty = lit ''unique'' then validate_empty cfg
      else if ty = lit ''type'' then validate_type cfg
      else if ty = lit ''range'' then validate_range_configuration (finite_float env) cfg
      else if ty = lit ''regex'' then validate_regex env cfg
      else Inl SchemaError)"

record rule_request =
  request_type :: pystr
  request_target_column :: pystr
  request_configuration :: rule_configuration

definition rule_create_request :: "schema_env \<Rightarrow> configuration \<Rightarrow> schema_error + rule_request" where
  "rule_create_request env body =
     (case (map_of body (lit ''type''), map_of body (lit ''target_column''), map_of body (lit ''configuration'')) of
        (Some (VStr ty), Some (VStr column), Some (VDict cfg)) \<Rightarrow>
          if \<not> only_fields [''type'', ''target_column'', ''configuration''] body then Inl SchemaError
          else bind_result (validate_configuration env ty cfg) (\<lambda>parsed.
            Inr \<lparr>request_type = ty, request_target_column = column, request_configuration = parsed\<rparr>)
      | _ \<Rightarrow> Inl SchemaError)"

fun canonical_rule_configuration :: "rule_configuration \<Rightarrow> configuration" where
  "canonical_rule_configuration EmptyRuleConfiguration = []"
| "canonical_rule_configuration payload = model_dump payload"

section \<open>Adapting stored rules\<close>

record persisted_rule =
  persisted_id :: uuid
  persisted_type :: pystr
  persisted_column :: pystr
  persisted_configuration :: configuration

record adapted_rule =
  adapted_id :: uuid
  adapted_type :: pystr
  adapted_column :: pystr
  adapted_configuration :: configuration
  adapted_spec :: rule_spec

text \<open>\<open>ValidationError\<close> or the error for an unknown type; both end as an integrity error.\<close>

datatype adapt_exc = PersistedRuleInvalid schema_error | PersistedTypeUnsupported

text \<open>The specification made of a parsed configuration.\<close>

definition spec_boundary :: "pyfloat option \<Rightarrow> pyval" where
  "spec_boundary b = (case b of None \<Rightarrow> VNone | Some f \<Rightarrow> VFloat f)"

definition parsed :: "schema_error + rule_configuration \<Rightarrow> adapt_exc + rule_configuration" where
  "parsed r = map_sum PersistedRuleInvalid id r"

definition adapt_rule :: "schema_env \<Rightarrow> persisted_rule \<Rightarrow> adapt_exc + adapted_rule" where
  "adapt_rule env rule =
     (let i = VUuid (persisted_id rule); c = VStr (persisted_column rule);
          ty = persisted_type rule; cfg = persisted_configuration rule
      in bind_result
        (if ty = lit ''required''
         then bind_result (parsed (validate_empty cfg)) (\<lambda>p. Inr (model_dump p, RequiredRuleSpec i c))
         else if ty = lit ''unique''
         then bind_result (parsed (validate_empty cfg)) (\<lambda>p. Inr (model_dump p, UniqueRuleSpec i c))
         else if ty = lit ''type''
         then bind_result (parsed (validate_type cfg)) (\<lambda>p. Inr (model_dump p,
           case p of TypeRuleConfiguration t \<Rightarrow> TypeRuleSpec i c (VStr t) | _ \<Rightarrow> NotARuleSpec))
         else if ty = lit ''range''
         then bind_result (parsed (validate_range_configuration (finite_float env) cfg)) (\<lambda>p. Inr (model_dump p,
           case p of RangeRuleConfiguration lo hi \<Rightarrow> RangeRuleSpec i c (spec_boundary lo) (spec_boundary hi)
           | _ \<Rightarrow> NotARuleSpec))
         else if ty = lit ''regex''
         then bind_result (parsed (validate_regex env cfg)) (\<lambda>p. Inr (model_dump p,
           case p of RegexRuleConfiguration r \<Rightarrow> RegexRuleSpec i c (VStr r) | _ \<Rightarrow> NotARuleSpec))
         else Inl PersistedTypeUnsupported)
        (\<lambda>(configuration, spec). Inr
          \<lparr>adapted_id = persisted_id rule, adapted_type = ty, adapted_column = persisted_column rule,
           adapted_configuration = configuration, adapted_spec = spec\<rparr>))"

section \<open>Configurations survive storage\<close>

text \<open>
  What \<open>jsonb\<close> may give back for a value: PostgreSQL keeps numbers as decimals, so a float with
  an integral value can come back as an integer.
\<close>

definition jsonb_image :: "pyval \<Rightarrow> pyval \<Rightarrow> bool" where
  "jsonb_image v v' \<longleftrightarrow> v' = v \<or> (\<exists>i. v = VFloat (FFin (of_int i)) \<and> v' = VInt i)"

definition stored_as :: "configuration \<Rightarrow> configuration \<Rightarrow> bool" where
  "stored_as cfg cfg' \<longleftrightarrow> list_all2 (\<lambda>(k, v) (k', v'). k' = k \<and> jsonb_image v v') cfg cfg'"

lemma jsonb_image_str [simp]: "jsonb_image (VStr s) v \<longleftrightarrow> v = VStr s"
  by (auto simp: jsonb_image_def)

lemma jsonb_image_none [simp]: "jsonb_image VNone v \<longleftrightarrow> v = VNone"
  by (auto simp: jsonb_image_def)

lemma list_all2_single: "list_all2 P [x] ys \<longleftrightarrow> (\<exists>y. ys = [y] \<and> P x y)"
  by (auto simp: list_all2_Cons1)

text \<open>Boundaries a schema accepts are finite floats, and it accepts their stored image as the same.\<close>

definition good_boundary :: "pyfloat option \<Rightarrow> bool" where
  "good_boundary b \<longleftrightarrow> (\<forall>f. b = Some f \<longrightarrow> float_isfinite f \<and> is_float f)"

definition floats_ok :: "configuration \<Rightarrow> bool" where
  "floats_ok cfg \<longleftrightarrow> (\<forall>k f. (k, VFloat f) \<in> set cfg \<longrightarrow> is_float f)"

lemma validate_boundary_good:
  assumes "finite_float_law ff" and "validate_boundary ff (map_of cfg k) = Inr b" and "floats_ok cfg"
  shows "good_boundary b"
proof (cases "map_of cfg k")
  case (Some v)
  then have "(k, v) \<in> set cfg" by (rule map_of_SomeD)
  then have "is_float f" if "v = VFloat f" for f using assms(3) that by (auto simp: floats_ok_def)
  then show ?thesis using assms(1,2) Some round_double_is_float
    by (cases v) (auto simp: validate_boundary_def finite_float_law_def good_boundary_def split: if_splits option.splits)
qed (use assms in \<open>auto simp: validate_boundary_def good_boundary_def\<close>)

lemma validate_boundary_image:
  assumes law: "finite_float_law ff" and good: "good_boundary b" and image: "jsonb_image (dump_boundary b) v"
  shows "validate_boundary ff (Some v) = Inr b"
proof (cases b)
  case (Some f)
  then have f: "float_isfinite f" "is_float f" using good by (auto simp: good_boundary_def)
  from image Some consider "v = VFloat f" | i where "f = FFin (of_int i)" "v = VInt i"
    by (auto simp: jsonb_image_def dump_boundary_def)
  then show ?thesis
  proof cases
    case 1
    then show ?thesis using law f Some by (simp add: validate_boundary_def finite_float_law_def)
  next
    case (2 i)
    then have "round_double (of_int i) = FFin (of_int i)" using f by (simp add: is_float_def)
    then show ?thesis using law 2 Some by (simp add: validate_boundary_def finite_float_law_def)
  qed
qed (use image in \<open>simp add: validate_boundary_def dump_boundary_def\<close>)

text \<open>What the schemas accept, by family.\<close>

definition good_configuration :: "schema_env \<Rightarrow> pystr \<Rightarrow> rule_configuration \<Rightarrow> bool" where
  "good_configuration env ty p \<longleftrightarrow>
     (case p of
        EmptyRuleConfiguration \<Rightarrow> ty = lit ''required'' \<or> ty = lit ''unique''
      | TypeRuleConfiguration t \<Rightarrow> ty = lit ''type'' \<and> t \<in> set expected_types
      | RangeRuleConfiguration lo hi \<Rightarrow> ty = lit ''range'' \<and> good_boundary lo \<and> good_boundary hi \<and>
          validate_bounds lo hi = Inr p
      | RegexRuleConfiguration r \<Rightarrow> ty = lit ''regex'' \<and> 1 \<le> length r \<and> length r \<le> 256 \<and>
          validate_polars_regex (schema_unicode env) (polars env) r = Inr r)"

lemma validate_polars_regex_Inr:
  "validate_polars_regex uc contains p = Inr q \<Longrightarrow> q = p \<and> contains p [Some []] \<noteq> None"
  by (auto simp: validate_polars_regex_def split: if_splits)

lemma validate_configuration_good:
  assumes law: "finite_float_law (finite_float env)" and cfg: "floats_ok cfg"
    and ok: "validate_configuration env ty cfg = Inr p"
  shows "good_configuration env ty p"
proof -
  consider "ty = lit ''required'' \<or> ty = lit ''unique''" "validate_empty cfg = Inr p"
    | "ty = lit ''type''" "validate_type cfg = Inr p"
    | "ty = lit ''range''" "validate_range_configuration (finite_float env) cfg = Inr p"
    | "ty = lit ''regex''" "validate_regex env cfg = Inr p"
    using ok unfolding validate_configuration_def by (metis Inl_Inr_False)
  then show ?thesis
  proof cases
    case 1
    then show ?thesis by (auto simp: validate_empty_def good_configuration_def split: if_splits)
  next
    case 2
    then show ?thesis
      by (auto simp: validate_type_def good_configuration_def split: option.splits pyval.splits if_splits)
  next
    case 3
    then obtain lo hi where b: "validate_boundary (finite_float env) (map_of cfg (lit ''minimum'')) = Inr lo"
      "validate_boundary (finite_float env) (map_of cfg (lit ''maximum'')) = Inr hi" "validate_bounds lo hi = Inr p"
      unfolding validate_range_configuration_def by (auto simp: result_simps simp del: lit_Cons split: if_splits)
    moreover from b(3) have "p = RangeRuleConfiguration lo hi" by (auto simp: validate_bounds_def split: if_splits)
    ultimately show ?thesis using 3(1) validate_boundary_good [OF law _ cfg]
      unfolding good_configuration_def by auto
  next
    case 4
    then obtain r q where "validate_polars_regex (schema_unicode env) (polars env) r = Inr q"
      "1 \<le> length r" "length r \<le> 256" "p = RegexRuleConfiguration q"
      unfolding validate_regex_def by (auto split: option.splits pyval.splits if_splits sum.splits)
    moreover from this have "q = r" using validate_polars_regex_Inr by blast
    ultimately show ?thesis using 4(1) unfolding good_configuration_def by simp
  qed
qed

text \<open>The specification that belongs to a configuration.\<close>

fun spec_for :: "pystr \<Rightarrow> uuid \<Rightarrow> pystr \<Rightarrow> rule_configuration \<Rightarrow> rule_spec" where
  "spec_for ty i c EmptyRuleConfiguration =
     (if ty = lit ''required'' then RequiredRuleSpec (VUuid i) (VStr c) else UniqueRuleSpec (VUuid i) (VStr c))"
| "spec_for ty i c (TypeRuleConfiguration t) = TypeRuleSpec (VUuid i) (VStr c) (VStr t)"
| "spec_for ty i c (RangeRuleConfiguration lo hi) =
     RangeRuleSpec (VUuid i) (VStr c) (spec_boundary lo) (spec_boundary hi)"
| "spec_for ty i c (RegexRuleConfiguration r) = RegexRuleSpec (VUuid i) (VStr c) (VStr r)"

lemma spec_for_fields [simp]:
  "rule_id (spec_for ty i c p) = VUuid i" "target_column (spec_for ty i c p) = VStr c"
  "spec_for ty i c p \<noteq> NotARuleSpec"
  by (cases p; simp)+

lemma good_boundary_spec:
  "good_boundary b \<Longrightarrow> spec_boundary b = VNone \<or> (\<exists>q. spec_boundary b = VFloat (FFin q) \<and> b = Some (FFin q))"
  by (cases b) (auto simp: good_boundary_def spec_boundary_def elim: float_isfinite.elims)

lemma good_configuration_valid:
  assumes "good_configuration env ty p"
  shows "valid_parameters (polars env) (spec_for ty i c p)"
proof (cases p)
  case EmptyRuleConfiguration
  then show ?thesis by (simp add: valid_parameters_def)
next
  case (TypeRuleConfiguration t)
  then show ?thesis using assms by (simp add: valid_parameters_def good_configuration_def)
next
  case (RangeRuleConfiguration lo hi)
  then have g: "good_boundary lo" "good_boundary hi" "lo \<noteq> None \<or> hi \<noteq> None"
    "lo \<noteq> None \<Longrightarrow> hi \<noteq> None \<Longrightarrow> \<not> float_less (the hi) (the lo)"
    using assms by (auto simp: good_configuration_def validate_bounds_def split: if_splits)
  have "valid_range (spec_boundary lo) (spec_boundary hi)"
    using g good_boundary_spec [OF g(1)] good_boundary_spec [OF g(2)]
    by (auto simp: valid_range_def finite_number_def spec_boundary_def split: option.splits)
  then show ?thesis using RangeRuleConfiguration by (simp add: valid_parameters_def)
next
  case (RegexRuleConfiguration r)
  then have "r \<noteq> []" "polars env r [Some []] \<noteq> None"
    using assms validate_polars_regex_Inr by (auto simp: good_configuration_def)
  then show ?thesis using RegexRuleConfiguration by (simp add: valid_parameters_def)
qed

lemma canonical_is_dump: "canonical_rule_configuration p = model_dump p"
  by (cases p) simp_all

lemma stored_range:
  assumes "stored_as (model_dump (RangeRuleConfiguration lo hi)) cfg"
  obtains v w where "cfg = [(lit ''minimum'', v), (lit ''maximum'', w)]"
    "jsonb_image (dump_boundary lo) v" "jsonb_image (dump_boundary hi) w"
  using assms unfolding stored_as_def by (auto simp: list_all2_Cons1 simp del: lit_Cons)

lemma adapt_stored:
  assumes law: "finite_float_law (finite_float env)" and good: "good_configuration env ty p"
    and stored: "stored_as (canonical_rule_configuration p) cfg"
  shows "adapt_rule env \<lparr>persisted_id = i, persisted_type = ty, persisted_column = c, persisted_configuration = cfg\<rparr> =
    Inr \<lparr>adapted_id = i, adapted_type = ty, adapted_column = c,
         adapted_configuration = canonical_rule_configuration p, adapted_spec = spec_for ty i c p\<rparr>"
proof (cases p)
  case EmptyRuleConfiguration
  then have "cfg = []" "ty = lit ''required'' \<or> ty = lit ''unique''"
    using stored good by (auto simp: stored_as_def good_configuration_def)
  then show ?thesis using EmptyRuleConfiguration
    by (auto simp: adapt_rule_def Let_def parsed_def validate_empty_def only_fields_def)
next
  case (TypeRuleConfiguration t)
  then have "cfg = [(lit ''expected_type'', VStr t)]" "ty = lit ''type''" "t \<in> set expected_types"
    using stored good by (auto simp: stored_as_def good_configuration_def list_all2_single)
  then show ?thesis using TypeRuleConfiguration
    by (simp add: adapt_rule_def Let_def parsed_def validate_type_def only_fields_def)
next
  case (RangeRuleConfiguration lo hi)
  then obtain v w where cfg: "cfg = [(lit ''minimum'', v), (lit ''maximum'', w)]"
    "jsonb_image (dump_boundary lo) v" "jsonb_image (dump_boundary hi) w"
    using stored stored_range unfolding canonical_is_dump by blast
  have g: "ty = lit ''range''" "good_boundary lo" "good_boundary hi" "validate_bounds lo hi = Inr p"
    using good RangeRuleConfiguration by (auto simp: good_configuration_def)
  have "validate_range_configuration (finite_float env) cfg = Inr p"
    using cfg g validate_boundary_image [OF law] by (simp add: validate_range_configuration_def only_fields_def)
  then show ?thesis using RangeRuleConfiguration g(1) by (simp add: adapt_rule_def Let_def parsed_def)
next
  case (RegexRuleConfiguration r)
  then have "cfg = [(lit ''pattern'', VStr r)]" "ty = lit ''regex''" "1 \<le> length r" "length r \<le> 256"
    "validate_polars_regex (schema_unicode env) (polars env) r = Inr r"
    using stored good by (auto simp: stored_as_def good_configuration_def list_all2_single)
  then show ?thesis using RegexRuleConfiguration
    by (simp add: adapt_rule_def Let_def parsed_def validate_regex_def only_fields_def)
qed

section \<open>Properties\<close>

lemma rule_create_request_good:
  assumes law: "finite_float_law (finite_float env)"
    and req: "rule_create_request env body = Inr r"
    and floats: "\<forall>cfg. map_of body (lit ''configuration'') = Some (VDict cfg) \<longrightarrow> floats_ok cfg"
  shows "good_configuration env (request_type r) (request_configuration r)"
proof -
  from req obtain cfg p where "map_of body (lit ''configuration'') = Some (VDict cfg)"
    "validate_configuration env (request_type r) cfg = Inr p" "request_configuration r = p"
    unfolding rule_create_request_def
    by (auto simp: result_simps simp del: lit_Cons split: option.splits pyval.splits if_splits)
  then show ?thesis using validate_configuration_good [OF law] floats by simp
qed

text \<open>
  C30. A rule that a request defines can be analysed: its configuration, stored in canonical form and
  read back as \<open>jsonb\<close> gives it, even with integral floats turned into integers, is adapted without
  an error to the same configuration and to a specification the engine accepts, for the same
  column and identifier.
\<close>

theorem requested_rule_is_analysable:
  assumes "finite_float_law (finite_float env)"
    and "rule_create_request env body = Inr r"
    and "\<forall>cfg. map_of body (lit ''configuration'') = Some (VDict cfg) \<longrightarrow> floats_ok cfg"
    and "stored_as (canonical_rule_configuration (request_configuration r)) cfg'"
  shows "\<exists>a. adapt_rule env \<lparr>persisted_id = i, persisted_type = request_type r, persisted_column = c,
        persisted_configuration = cfg'\<rparr> = Inr a \<and>
      adapted_configuration a = canonical_rule_configuration (request_configuration r) \<and>
      adapted_id a = i \<and> adapted_type a = request_type r \<and> adapted_column a = c \<and>
      rule_id (adapted_spec a) = VUuid i \<and> target_column (adapted_spec a) = VStr c \<and>
      valid_parameters (polars env) (adapted_spec a)"
proof -
  have good: "good_configuration env (request_type r) (request_configuration r)"
    using rule_create_request_good [OF assms(1-3)] .
  show ?thesis
    using adapt_stored [OF assms(1) good assms(4)] good_configuration_valid [OF good] by simp
qed

definition sample_finite_float :: "pyval \<Rightarrow> pyfloat option" where
  "sample_finite_float v =
     (case v of
        VFloat f \<Rightarrow> if float_isfinite f then Some f else None
      | VInt i \<Rightarrow> if float_isfinite (round_double (of_int i)) then Some (round_double (of_int i)) else None
      | _ \<Rightarrow> None)"

definition sample_schema_env :: schema_env where
  "sample_schema_env =
     \<lparr>schema_unicode = \<lparr>normalize_nfc = (\<lambda>s. s), category_C = (\<lambda>c. c < 32)\<rparr>, polars = prefix_contains,
      finite_float = sample_finite_float\<rparr>"

definition sample_body :: configuration where
  "sample_body = [(lit ''type'', VStr (lit ''range'')), (lit ''target_column'', VStr (lit ''age'')),
     (lit ''configuration'', VDict [(lit ''maximum'', VInt 7)])]"

lemma sample_finite_float_law: "finite_float_law (finite_float sample_schema_env)"
  by (simp add: finite_float_law_def sample_schema_env_def sample_finite_float_def)

lemma round_double_7: "round_double 7 = FFin 7"
  using round_double_of_int [of 7] by simp

lemma sample_request: "rule_create_request sample_schema_env sample_body =
    Inr \<lparr>request_type = lit ''range'', request_target_column = lit ''age'',
         request_configuration = RangeRuleConfiguration None (Some (FFin 7))\<rparr>"
  by (simp add: rule_create_request_def sample_body_def only_fields_def validate_configuration_def Let_def
      validate_range_configuration_def validate_boundary_def validate_bounds_def sample_schema_env_def
      sample_finite_float_def round_double_7)

theorem requested_rule_is_analysable_witness:
  "\<exists>a. adapt_rule sample_schema_env \<lparr>persisted_id = Uuid 1, persisted_type = lit ''range'',
      persisted_column = lit ''age'',
      persisted_configuration = [(lit ''minimum'', VNone), (lit ''maximum'', VInt 7)]\<rparr> = Inr a \<and>
    adapted_configuration a = [(lit ''minimum'', VNone), (lit ''maximum'', VFloat (FFin 7))]"
proof -
  have "stored_as (canonical_rule_configuration (RangeRuleConfiguration None (Some (FFin 7))))
      [(lit ''minimum'', VNone), (lit ''maximum'', VInt 7)]"
    by (simp add: stored_as_def dump_boundary_def jsonb_image_def)
  moreover have "\<forall>cfg. map_of sample_body (lit ''configuration'') = Some (VDict cfg) \<longrightarrow> floats_ok cfg"
    by (simp add: sample_body_def floats_ok_def)
  ultimately show ?thesis
    using requested_rule_is_analysable [OF sample_finite_float_law sample_request, of _ "Uuid 1" "lit ''age''"]
    by (auto simp: dump_boundary_def simp del: lit_Cons)
qed

end
