(* ===== verification/AnalysisStore.thy ===== *)
theory AnalysisStore
  imports RuleConfig DatasetService Score
begin

text \<open>
  The history of analyses as the database keeps it (\<open>analysis/models.py\<close>) and the queries on it
  (\<open>analysis/repositories.py\<close>). The \<open>source_\<close> columns of an analysis are grouped in the record
  the service reads and writes them through.
\<close>

record source_snapshot =
  source_filename :: pystr
  source_sha256 :: bytes
  source_size :: int
  source_rows :: int
  source_columns :: "pystr list"
  source_uploaded_at :: instant

record analysis_row =
  analysis_id :: uuid
  analysis_dataset_id :: uuid
  analysis_source :: source_snapshot
  analysis_violations :: int
  analysis_score :: "rat option"
  analysis_created_at :: instant

record result_row =
  row_analysis_id :: uuid
  row_position :: int
  row_rule_id :: uuid
  row_rule_type :: pystr
  row_column :: pystr
  row_configuration :: configuration
  row_evaluated :: int
  row_passed :: int
  row_violations :: int
  row_skipped :: int
  row_samples :: "configuration list"

record analysis_world = world +
  analyses :: "analysis_row list"
  results :: "result_row list"

section \<open>Constraints\<close>

definition analysis_row_checks :: "analysis_row \<Rightarrow> (constraint_name \<times> bool) list" where
  "analysis_row_checks a =
     (let s = analysis_source a in
     [(''unstorable_value'', storable_text (source_filename s) \<and> list_all storable_text (source_columns s)),
      (''ck_analyses_quality_score'', opt_all (\<lambda>q. 0 \<le> q \<and> q \<le> 100) (analysis_score a)),
      (''ck_analyses_source_column_names'', 1 \<le> length (source_columns s) \<and> length (source_columns s) \<le> 256),
      (''ck_analyses_source_content_sha256_length'', length (source_sha256 s) = 32),
      (''ck_analyses_source_row_count'', 0 \<le> source_rows s),
      (''ck_analyses_source_size_bytes'', 1 \<le> source_size s \<and> source_size s \<le> 10485760),
      (''ck_analyses_total_violation_count'', 0 \<le> analysis_violations a)])"

definition analysis_constraints ::
  "dataset_row list \<Rightarrow> analysis_row list \<Rightarrow> analysis_row \<Rightarrow> (constraint_name \<times> bool) list" where
  "analysis_constraints ds as a =
     analysis_row_checks a @
     [(''pk_analyses'', analysis_id a \<notin> analysis_id ` set as),
      (''fk_analyses_dataset_id_datasets'', analysis_dataset_id a \<in> dataset_id ` set ds)]"

definition result_row_checks :: "result_row \<Rightarrow> (constraint_name \<times> bool) list" where
  "result_row_checks r =
     [(''unstorable_value'',
        storable_text (row_rule_type r) \<and> storable_text (row_column r) \<and>
        configuration_storable (row_configuration r) \<and> list_all configuration_storable (row_samples r)),
      (''ck_validation_results_count_balance'', row_evaluated r = row_passed r + row_violations r),
      (''ck_validation_results_nonnegative_counts'',
        0 \<le> row_evaluated r \<and> 0 \<le> row_passed r \<and> 0 \<le> row_violations r \<and> 0 \<le> row_skipped r),
      (''ck_validation_results_rule_position'', 0 \<le> row_position r),
      (''ck_validation_results_rule_type'', row_rule_type r \<in> set rule_types),
      (''ck_validation_results_target_column'',
        1 \<le> length (row_column r) \<and> length (row_column r) \<le> 128 \<and> btrim_id (row_column r)),
      (''ck_validation_results_violation_samples'', length (row_samples r) \<le> 20)]"

definition position_key :: "result_row \<Rightarrow> uuid \<times> int" where
  "position_key r = (row_analysis_id r, row_position r)"

definition rule_key :: "result_row \<Rightarrow> uuid \<times> uuid" where
  "rule_key r = (row_analysis_id r, row_rule_id r)"

definition result_constraints ::
  "analysis_row list \<Rightarrow> result_row list \<Rightarrow> result_row \<Rightarrow> (constraint_name \<times> bool) list" where
  "result_constraints as rs r =
     result_row_checks r @
     [(''pk_validation_results'', position_key r \<notin> position_key ` set rs),
      (''uq_validation_results_analysis_source_rule'', rule_key r \<notin> rule_key ` set rs),
      (''fk_validation_results_analysis_id_analyses'', row_analysis_id r \<in> analysis_id ` set as)]"

definition insert_analysis ::
  "dataset_row list \<Rightarrow> analysis_row \<Rightarrow> analysis_row list \<Rightarrow> constraint_name + analysis_row list" where
  "insert_analysis ds = insert_row (analysis_constraints ds)"

definition insert_result ::
  "analysis_row list \<Rightarrow> result_row \<Rightarrow> result_row list \<Rightarrow> constraint_name + result_row list" where
  "insert_result as = insert_row (result_constraints as)"

definition analysis_row_ok :: "analysis_row \<Rightarrow> bool" where
  "analysis_row_ok a \<longleftrightarrow> list_all snd (analysis_row_checks a)"

definition result_row_ok :: "result_row \<Rightarrow> bool" where
  "result_row_ok r \<longleftrightarrow> list_all snd (result_row_checks r)"

lemma insert_analysis_Inr:
  "insert_analysis ds a as = Inr as' \<longleftrightarrow>
     as' = as @ [a] \<and> analysis_row_ok a \<and> analysis_id a \<notin> analysis_id ` set as \<and>
     analysis_dataset_id a \<in> dataset_id ` set ds"
  by (auto simp: insert_analysis_def insert_row_Inr analysis_constraints_def analysis_row_ok_def)

lemma insert_result_Inr:
  "insert_result as r rs = Inr rs' \<longleftrightarrow>
     rs' = rs @ [r] \<and> result_row_ok r \<and> position_key r \<notin> position_key ` set rs \<and>
     rule_key r \<notin> rule_key ` set rs \<and> row_analysis_id r \<in> analysis_id ` set as"
  by (auto simp: insert_result_def insert_row_Inr result_constraints_def result_row_ok_def)

interpretation analyses_by_id: checked_table "insert_analysis ds" analysis_row_ok analysis_id for ds
  by unfold_locales (auto simp: insert_analysis_Inr)

interpretation results_by_position: checked_table "insert_result as" result_row_ok position_key for as
  by unfold_locales (auto simp: insert_result_Inr)

interpretation results_by_rule: checked_table "insert_result as" result_row_ok rule_key for as
  by unfold_locales (auto simp: insert_result_Inr)

text \<open>\<open>add_all\<close>: the rows are inserted one by one.\<close>

fun insert_results ::
  "analysis_row list \<Rightarrow> result_row list \<Rightarrow> result_row list \<Rightarrow> constraint_name + result_row list" where
  "insert_results as [] rs = Inr rs"
| "insert_results as (r # new) rs = bind_result (insert_result as r rs) (insert_results as new)"

lemma insert_results_Inr:
  "insert_results as new rs = Inr rs' \<Longrightarrow> rs' = rs @ new \<and> list_all result_row_ok new \<and>
     (\<forall>r \<in> set new. row_analysis_id r \<in> analysis_id ` set as)"
proof (induction as new rs rule: insert_results.induct)
  case (2 as r new rs)
  then obtain rs1 where r: "insert_result as r rs = Inr rs1" "insert_results as new rs1 = Inr rs'"
    by (auto simp: result_simps)
  then show ?case using 2(1) [OF r(2)] by (auto simp: insert_result_Inr)
qed simp

lemma insert_results_table:
  assumes "insert_results as new rs = Inr rs'" and "results_by_position.table_ok rs" and "results_by_rule.table_ok rs"
  shows "results_by_position.table_ok rs' \<and> results_by_rule.table_ok rs'"
  using assms
proof (induction as new rs rule: insert_results.induct)
  case (2 as r new rs)
  then obtain rs1 where r: "insert_result as r rs = Inr rs1" "insert_results as new rs1 = Inr rs'"
    by (auto simp: result_simps)
  then show ?case
    using 2 results_by_position.ins_table_ok [OF _ r(1)] results_by_rule.ins_table_ok [OF _ r(1)] by blast
qed simp

text \<open>When no constraint can be violated, all rows are inserted.\<close>

lemma insert_results_ok:
  assumes "list_all result_row_ok new" and "\<forall>r \<in> set new. row_analysis_id r \<in> analysis_id ` set as"
    and "distinct (map position_key (rs @ new))" and "distinct (map rule_key (rs @ new))"
  shows "insert_results as new rs = Inr (rs @ new)"
  using assms
proof (induction new arbitrary: rs)
  case (Cons r new)
  then have "insert_result as r rs = Inr (rs @ [r])" by (auto simp: insert_result_Inr)
  then show ?case using Cons.IH [of "rs @ [r]"] Cons.prems by simp
qed simp

section \<open>Queries\<close>

definition owns :: "dataset_row list \<Rightarrow> uuid \<Rightarrow> uuid \<Rightarrow> bool" where
  "owns ds did owner \<longleftrightarrow> (\<exists>d \<in> set ds. dataset_id d = did \<and> owner_id d = owner)"

text \<open>
  \<open>list_for_dataset_owner\<close>, newest first. The join with the dataset, whose identifier is unique,
  keeps a row at most once.
\<close>

definition list_for_dataset_owner ::
  "dataset_row list \<Rightarrow> analysis_row list \<Rightarrow> uuid \<Rightarrow> uuid \<Rightarrow> nat \<Rightarrow> nat \<Rightarrow> analysis_row list" where
  "list_for_dataset_owner ds as did owner limit offset =
     page limit offset
       (rev (order_by (\<lambda>a. (analysis_created_at a, analysis_id a))
          (filter (\<lambda>a. analysis_dataset_id a = did \<and> owns ds did owner) as)))"

definition get_for_dataset_owner ::
  "dataset_row list \<Rightarrow> analysis_row list \<Rightarrow> uuid \<Rightarrow> uuid \<Rightarrow> uuid \<Rightarrow> analysis_row option" where
  "get_for_dataset_owner ds as aid did owner =
     find (\<lambda>a. analysis_id a = aid \<and> analysis_dataset_id a = did \<and> owns ds did owner) as"

definition list_for_analysis :: "result_row list \<Rightarrow> uuid \<Rightarrow> result_row list" where
  "list_for_analysis rs aid = order_by row_position (filter (\<lambda>r. row_analysis_id r = aid) rs)"

lemma get_for_dataset_owner_Some:
  "get_for_dataset_owner ds as aid did owner = Some a \<Longrightarrow>
     a \<in> set as \<and> analysis_id a = aid \<and> analysis_dataset_id a = did \<and> owns ds did owner"
  by (auto simp: get_for_dataset_owner_def find_Some_iff)

end
