(* ===== verification/AnalysisService.thy ===== *)
theory AnalysisService
  imports AnalysisStore
begin

text \<open>
  The analysis use cases (\<open>analysis/service.py\<close>, with the loading and adapting of
  \<open>analysis/adapters.py\<close>): a snapshot of the source, the rules and the content is taken in one
  transaction, the engine runs on it outside of any transaction, and the result is stored in
  another one, whatever happened to the dataset in between. Polars' CSV reader is the parameter
  \<open>read_csv\<close>; it gives a frame or raises.
\<close>

record analysis_env =
  schemas :: schema_env
  analysis_sha256 :: "bytes \<Rightarrow> bytes"
  read_csv :: "bytes \<Rightarrow> frame option"

record 'w analysis_call =
  analysis_clock :: clock_reading
  analysis_txn_fails :: "nat \<Rightarrow> bool"
  file_read_fails :: bool
  new_analysis_id :: uuid
  while_analysing :: "'w \<Rightarrow> 'w"

datatype analysis_exc =
    AnalysisDataIntegrityError
  | AnalysisRequiresRules
  | AnalysisDatasetNotFound
  | AnalysisDatasetNotReady
  | AnalysisDatabaseError
  | AnalysisIntegrityError constraint_name
  | AnalysisClockIsNaive
  | EngineError engine_exc
  | ScoreError decimal_exc

record sample_reference =
  sample_row_number :: int
  sample_preview :: "pystr option"
  sample_truncated :: bool

record result_reference =
  ref_position :: int
  ref_source_rule_id :: uuid
  ref_result_type :: pystr
  ref_result_column :: pystr
  ref_result_configuration :: configuration
  ref_evaluated :: int
  ref_passed :: int
  ref_violations :: int
  ref_skipped :: int
  ref_samples :: "sample_reference list"

record analysis_summary =
  summary_id :: uuid
  summary_dataset_id :: uuid
  summary_score :: "rat option"
  summary_rows :: int
  summary_violations :: int
  summary_created_at :: instant

record analysis_detail = analysis_summary +
  detail_source :: source_snapshot
  detail_results :: "result_reference list"

definition analysis_fault :: "'w analysis_call \<Rightarrow> nat \<Rightarrow> analysis_exc option" where
  "analysis_fault c n = (if analysis_txn_fails c n then Some AnalysisDatabaseError else None)"

fun analysis_now :: "clock_reading \<Rightarrow> analysis_exc + instant" where
  "analysis_now NaiveTime = Inl AnalysisClockIsNaive"
| "analysis_now (AwareTime t) = Inr t"

section \<open>Reading the source\<close>

definition READ_CHUNK_BYTES :: nat where
  "READ_CHUNK_BYTES = 65536"

text \<open>The loop of \<open>_read_verified_content\<close>: what has been read, and what is left of the file.\<close>

function read_content :: "bytes \<Rightarrow> bytes \<Rightarrow> analysis_exc + bytes" where
  "read_content content rest =
     (let chunk = take READ_CHUNK_BYTES rest
      in if chunk = [] then Inr content
         else if MAX_CSV_BYTES < length (content @ chunk) then Inl AnalysisDataIntegrityError
         else read_content (content @ chunk) (drop READ_CHUNK_BYTES rest))"
  by auto
termination
  by (relation "measure (\<lambda>(content, rest). length rest)") (auto simp: READ_CHUNK_BYTES_def)

declare read_content.simps [simp del]

definition read_verified_content ::
  "analysis_env \<Rightarrow> bool \<Rightarrow> pystr \<Rightarrow> source_snapshot \<Rightarrow> files \<Rightarrow> analysis_exc + bytes" where
  "read_verified_content env read_fails key source fs =
     (case open_binary key fs of
        Inl _ \<Rightarrow> Inl AnalysisDataIntegrityError
      | Inr stored \<Rightarrow>
          if read_fails then Inl AnalysisDataIntegrityError
          else bind_result (read_content [] stored) (\<lambda>content.
            if int (length content) \<noteq> source_size source then Inl AnalysisDataIntegrityError
            else if analysis_sha256 env content \<noteq> source_sha256 source then Inl AnalysisDataIntegrityError
            else Inr content))"

definition persisted_rule_of :: "rule_row \<Rightarrow> persisted_rule" where
  "persisted_rule_of r =
     \<lparr>persisted_id = rule_row_id r, persisted_type = rule_type r, persisted_column = rule_target_column r,
      persisted_configuration = rule_configuration r\<rparr>"

definition source_of :: "dataset_row \<Rightarrow> source_snapshot" where
  "source_of d =
     \<lparr>source_filename = the (original_filename d), source_sha256 = the (content_sha256 d),
      source_size = the (size_bytes d), source_rows = the (dataset_row_count d),
      source_columns = the (DatasetStore.column_names d), source_uploaded_at = the (uploaded_at d)\<rparr>"

definition capture_snapshot ::
  "analysis_env \<Rightarrow> ('a world_scheme) analysis_call \<Rightarrow> uuid \<Rightarrow> uuid \<Rightarrow> 'a world_scheme \<Rightarrow>
     analysis_exc + source_snapshot \<times> persisted_rule list \<times> bytes" where
  "capture_snapshot env c owner did w =
     (case get_for_owner (datasets w) did owner of
        None \<Rightarrow> Inl AnalysisDatasetNotFound
      | Some d \<Rightarrow>
          if \<not> full_upload d then Inl AnalysisDatasetNotReady
          else
            let rows = list_all_for_dataset (rules w) (dataset_id d)
            in if rows = [] then Inl AnalysisRequiresRules
               else bind_result
                 (read_verified_content env (file_read_fails c) (the (storage_key d)) (source_of d) (files w))
                 (\<lambda>content. Inr (source_of d, map persisted_rule_of rows, content)))"

definition load_textual_csv :: "analysis_env \<Rightarrow> bytes \<Rightarrow> pystr list \<Rightarrow> int \<Rightarrow> analysis_exc + frame" where
  "load_textual_csv env content expected_columns expected_row_count =
     (case read_csv env content of
        None \<Rightarrow> Inl AnalysisDataIntegrityError
      | Some f \<Rightarrow>
          if Engine.column_names f \<noteq> expected_columns then Inl AnalysisDataIntegrityError
          else if int (height f) \<noteq> expected_row_count then Inl AnalysisDataIntegrityError
          else if list_ex (\<lambda>col. col_dtype col \<noteq> DString) (columns f) then Inl AnalysisDataIntegrityError
          else Inr f)"

definition adapt_rules :: "analysis_env \<Rightarrow> persisted_rule list \<Rightarrow> analysis_exc + adapted_rule list" where
  "adapt_rules env rs =
     (case map_results (adapt_rule (schemas env)) rs of
        Inl _ \<Rightarrow> Inl AnalysisDataIntegrityError
      | Inr adapted \<Rightarrow> Inr adapted)"

text \<open>\<open>ValidationInputError\<close> becomes an integrity error, any other exception passes.\<close>

definition run_engine :: "analysis_env \<Rightarrow> frame \<Rightarrow> adapted_rule list \<Rightarrow> analysis_exc + engine_result" where
  "run_engine env f adapted =
     (case validate (polars (schemas env)) (Frame f) (map adapted_spec adapted) of
        Inl (ValidationInputError _) \<Rightarrow> Inl AnalysisDataIntegrityError
      | Inl e \<Rightarrow> Inl (EngineError e)
      | Inr res \<Rightarrow> Inr res)"

section \<open>Storing the result\<close>

definition sample_json :: "violation_sample \<Rightarrow> configuration" where
  "sample_json s =
     [(lit ''row_number'', VInt (row_number s)),
      (lit ''value_preview'', case value_preview s of None \<Rightarrow> VNone | Some p \<Rightarrow> VStr p),
      (lit ''truncated'', VBool (truncated s))]"

text \<open>\<open>enumerate(zip(..., strict=True))\<close>\<close>

fun result_models ::
  "uuid \<Rightarrow> source_snapshot \<Rightarrow> int \<Rightarrow> adapted_rule list \<Rightarrow> rule_result list \<Rightarrow> analysis_exc + result_row list" where
  "result_models aid source position [] [] = Inr []"
| "result_models aid source position (a # as) (r # rs) =
     (if result_rule r \<noteq> adapted_spec a then Inl AnalysisDataIntegrityError
      else if evaluated_count r + skipped_count r \<noteq> source_rows source then Inl AnalysisDataIntegrityError
      else bind_result (result_models aid source (position + 1) as rs) (\<lambda>rows. Inr (
        \<lparr>row_analysis_id = aid, row_position = position, row_rule_id = adapted_id a,
         row_rule_type = adapted_type a, row_column = adapted_column a,
         row_configuration = adapted_configuration a, row_evaluated = evaluated_count r,
         row_passed = passed_count r, row_violations = violation_count r, row_skipped = skipped_count r,
         row_samples = map sample_json (violation_samples r)\<rparr> # rows)))"
| "result_models aid source position _ _ = Inl (EngineError ZipLengthError)"

definition insert_history ::
  "analysis_row \<Rightarrow> result_row list \<Rightarrow> 'a analysis_world_scheme \<Rightarrow>
     analysis_exc + unit \<times> 'a analysis_world_scheme" where
  "insert_history a rows w =
     (case insert_analysis (datasets w) a (analyses w) of
        Inl name \<Rightarrow> Inl (AnalysisIntegrityError name)
      | Inr as \<Rightarrow>
          (case insert_results as rows (results w) of
             Inl name \<Rightarrow> Inl (AnalysisIntegrityError name)
           | Inr rs \<Rightarrow> Inr ((), w\<lparr>analyses := as, results := rs\<rparr>)))"

section \<open>References\<close>

definition summary_reference :: "analysis_row \<Rightarrow> analysis_summary" where
  "summary_reference a =
     \<lparr>summary_id = analysis_id a, summary_dataset_id = analysis_dataset_id a,
      summary_score = analysis_score a, summary_rows = source_rows (analysis_source a),
      summary_violations = analysis_violations a, summary_created_at = analysis_created_at a\<rparr>"

text \<open>\<open>sample.get\<close> gives \<open>None\<close> for a missing key.\<close>

definition get_key :: "configuration \<Rightarrow> string \<Rightarrow> pyval" where
  "get_key sample k = (case map_of sample (lit k) of None \<Rightarrow> VNone | Some v \<Rightarrow> v)"

definition sample_reference_of :: "configuration \<Rightarrow> analysis_exc + sample_reference" where
  "sample_reference_of sample =
     (case (get_key sample ''row_number'', get_key sample ''value_preview'', get_key sample ''truncated'') of
        (VInt n, preview, VBool t) \<Rightarrow>
          if n < 1 \<or> (preview \<noteq> VNone \<and> \<not> is_str preview) then Inl AnalysisDataIntegrityError
          else Inr \<lparr>sample_row_number = n,
            sample_preview = (case preview of VStr p \<Rightarrow> Some p | _ \<Rightarrow> None), sample_truncated = t\<rparr>
      | _ \<Rightarrow> Inl AnalysisDataIntegrityError)"

definition result_reference_of :: "result_row \<Rightarrow> analysis_exc + result_reference" where
  "result_reference_of r =
     bind_result (map_results sample_reference_of (row_samples r)) (\<lambda>samples. Inr
       \<lparr>ref_position = row_position r, ref_source_rule_id = row_rule_id r,
        ref_result_type = row_rule_type r, ref_result_column = row_column r,
        ref_result_configuration = row_configuration r, ref_evaluated = row_evaluated r,
        ref_passed = row_passed r, ref_violations = row_violations r, ref_skipped = row_skipped r,
        ref_samples = samples\<rparr>)"

definition detail_reference :: "analysis_row \<Rightarrow> result_row list \<Rightarrow> analysis_exc + analysis_detail" where
  "detail_reference a rows =
     bind_result (map_results result_reference_of rows) (\<lambda>refs.
       Inr (analysis_summary.extend (summary_reference a)
         \<lparr>detail_source = analysis_source a, detail_results = refs\<rparr>))"

section \<open>Use cases\<close>

definition persist_analysis ::
  "('a analysis_world_scheme) analysis_call \<Rightarrow> uuid \<Rightarrow> source_snapshot \<Rightarrow> adapted_rule list \<Rightarrow>
     engine_result \<Rightarrow> 'a analysis_world_scheme \<Rightarrow> (analysis_exc + analysis_detail) \<times> 'a analysis_world_scheme" where
  "persist_analysis c did source adapted res w =
     (if length adapted \<noteq> length (rule_results res) then (Inl AnalysisDataIntegrityError, w)
      else if total_rows res \<noteq> source_rows source then (Inl AnalysisDataIntegrityError, w)
      else
        (case bind_result (analysis_now (analysis_clock c)) (\<lambda>now.
            bind_result (map_sum ScoreError id (calculate_quality_score (rule_results res))) (\<lambda>score.
            bind_result (result_models (new_analysis_id c) source 0 adapted (rule_results res)) (\<lambda>rows.
              Inr (\<lparr>analysis_id = new_analysis_id c, analysis_dataset_id = did, analysis_source = source,
                    analysis_violations = sum_list (map violation_count (rule_results res)),
                    analysis_score = score, analysis_created_at = now\<rparr>, rows)))) of
           Inl e \<Rightarrow> (Inl e, w)
         | Inr (a, rows) \<Rightarrow>
             (case transaction (analysis_fault c 1) w (insert_history a rows) of
                (Inl e, w') \<Rightarrow> (Inl e, w')
              | (Inr _, w') \<Rightarrow> (detail_reference a rows, w'))))"

definition create_analysis ::
  "analysis_env \<Rightarrow> ('a analysis_world_scheme) analysis_call \<Rightarrow> uuid \<Rightarrow> uuid \<Rightarrow> 'a analysis_world_scheme \<Rightarrow>
     (analysis_exc + analysis_detail) \<times> 'a analysis_world_scheme" where
  "create_analysis env c owner did w =
     (case transaction (analysis_fault c 0) w
          (\<lambda>w. bind_result (capture_snapshot env c owner did w) (\<lambda>s. Inr (s, w))) of
        (Inl e, w1) \<Rightarrow> (Inl e, w1)
      | (Inr (source, rs, content), w1) \<Rightarrow>
          (case bind_result (load_textual_csv env content (source_columns source) (source_rows source)) (\<lambda>f.
              bind_result (adapt_rules env rs) (\<lambda>adapted.
              bind_result (run_engine env f adapted) (\<lambda>res. Inr (adapted, res)))) of
             Inl e \<Rightarrow> (Inl e, w1)
           | Inr (adapted, res) \<Rightarrow> persist_analysis c did source adapted res (while_analysing c w1)))"

definition list_analyses ::
  "('a analysis_world_scheme) analysis_call \<Rightarrow> uuid \<Rightarrow> uuid \<Rightarrow> nat \<Rightarrow> nat \<Rightarrow> 'a analysis_world_scheme \<Rightarrow>
     (analysis_exc + analysis_summary list) \<times> 'a analysis_world_scheme" where
  "list_analyses c owner did limit offset w =
     transaction (analysis_fault c 0) w (\<lambda>w.
       case get_for_owner (datasets w) did owner of
         None \<Rightarrow> Inl AnalysisDatasetNotFound
       | Some _ \<Rightarrow>
           Inr (map summary_reference (list_for_dataset_owner (datasets w) (analyses w) did owner limit offset), w))"

definition get_analysis ::
  "('a analysis_world_scheme) analysis_call \<Rightarrow> uuid \<Rightarrow> uuid \<Rightarrow> uuid \<Rightarrow> 'a analysis_world_scheme \<Rightarrow>
     (analysis_exc + analysis_detail) \<times> 'a analysis_world_scheme" where
  "get_analysis c owner did aid w =
     transaction (analysis_fault c 0) w (\<lambda>w.
       case get_for_dataset_owner (datasets w) (analyses w) aid did owner of
         None \<Rightarrow> Inl AnalysisDatasetNotFound
       | Some a \<Rightarrow>
           bind_result (detail_reference a (list_for_analysis (results w) (analysis_id a))) (\<lambda>d. Inr (d, w)))"

end
