(* ===== verification/AnalysisHistory.thy ===== *)
theory AnalysisHistory
  imports AnalysisService DatasetProperties
begin

text \<open>
  What the analyses store and that it stays as it is: the invariant of the history, the shape of a
  stored analysis, and the preorder in which every call only adds to the history.
\<close>

section \<open>Reading the file\<close>

lemma read_content_eq:
  assumes "length content \<le> MAX_CSV_BYTES"
  shows "read_content content rest =
    (if length content + length rest \<le> MAX_CSV_BYTES then Inr (content @ rest) else Inl AnalysisDataIntegrityError)"
  using assms
proof (induction content rest rule: read_content.induct)
  case (1 content rest)
  let ?n = READ_CHUNK_BYTES
  show ?case
  proof (cases "take ?n rest = []")
    case True
    then have "rest = []" by (auto simp: READ_CHUNK_BYTES_def)
    then show ?thesis using 1(2) by (simp add: read_content.simps [of content "[]"])
  next
    case False
    show ?thesis
    proof (cases "MAX_CSV_BYTES < length (content @ take ?n rest)")
      case True
      then have "\<not> length content + length rest \<le> MAX_CSV_BYTES" by simp
      then show ?thesis using False True by (simp add: read_content.simps [of content rest])
    next
      case inside: False
      have "length (content @ take ?n rest) + length (drop ?n rest) = length content + length rest" by simp
      then show ?thesis
        using 1(1) [OF refl False inside] inside False by (simp add: read_content.simps [of content rest])
    qed
  qed
qed

lemma read_verified_content_Inr:
  "read_verified_content env read_fails key source fs = Inr content \<longleftrightarrow>
     \<not> read_fails \<and> open_binary key fs = Inr content \<and> length content \<le> MAX_CSV_BYTES \<and>
     int (length content) = source_size source \<and> analysis_sha256 env content = source_sha256 source"
  by (cases "open_binary key fs")
    (auto simp: read_verified_content_def read_content_eq bind_result_Inr_iff split: if_splits)

section \<open>Stored results\<close>

lemma result_models_Inr:
  "result_models aid source n as rs = Inr rows \<Longrightarrow>
     length as = length rs \<and> length rows = length rs \<and>
     (\<forall>k < length rs. result_rule (rs ! k) = adapted_spec (as ! k) \<and>
        evaluated_count (rs ! k) + skipped_count (rs ! k) = source_rows source \<and>
        rows ! k = \<lparr>row_analysis_id = aid, row_position = n + int k, row_rule_id = adapted_id (as ! k),
         row_rule_type = adapted_type (as ! k), row_column = adapted_column (as ! k),
         row_configuration = adapted_configuration (as ! k), row_evaluated = evaluated_count (rs ! k),
         row_passed = passed_count (rs ! k), row_violations = violation_count (rs ! k),
         row_skipped = skipped_count (rs ! k), row_samples = map sample_json (violation_samples (rs ! k))\<rparr>)"
proof (induction aid source n as rs arbitrary: rows rule: result_models.induct)
  case (2 aid source n a as r rs)
  then obtain rows' where rows': "result_models aid source (n + 1) as rs = Inr rows'"
    and head: "result_rule r = adapted_spec a" "evaluated_count r + skipped_count r = source_rows source"
    and rows: "rows = \<lparr>row_analysis_id = aid, row_position = n, row_rule_id = adapted_id a,
         row_rule_type = adapted_type a, row_column = adapted_column a,
         row_configuration = adapted_configuration a, row_evaluated = evaluated_count r,
         row_passed = passed_count r, row_violations = violation_count r, row_skipped = skipped_count r,
         row_samples = map sample_json (violation_samples r)\<rparr> # rows'"
    by (auto simp: result_simps split: if_splits)
  note IH = 2(1) [OF _ _ rows']
  show ?case
  proof (intro conjI allI impI)
    fix k assume "k < length (r # rs)"
    then show "result_rule ((r # rs) ! k) = adapted_spec ((a # as) ! k)"
      "evaluated_count ((r # rs) ! k) + skipped_count ((r # rs) ! k) = source_rows source"
      "rows ! k = \<lparr>row_analysis_id = aid, row_position = n + int k, row_rule_id = adapted_id ((a # as) ! k),
         row_rule_type = adapted_type ((a # as) ! k), row_column = adapted_column ((a # as) ! k),
         row_configuration = adapted_configuration ((a # as) ! k), row_evaluated = evaluated_count ((r # rs) ! k),
         row_passed = passed_count ((r # rs) ! k), row_violations = violation_count ((r # rs) ! k),
         row_skipped = skipped_count ((r # rs) ! k), row_samples = map sample_json (violation_samples ((r # rs) ! k))\<rparr>"
      using IH head rows by (cases k; simp)+
  qed (use IH head rows in auto)
qed simp_all

lemma result_models_total:
  assumes "length as = length rs"
    and "\<forall>k < length rs. result_rule (rs ! k) = adapted_spec (as ! k) \<and>
        evaluated_count (rs ! k) + skipped_count (rs ! k) = source_rows source"
  shows "\<exists>rows. result_models aid source n as rs = Inr rows"
  using assms
proof (induction as rs arbitrary: n rule: list_induct2)
  case (Cons a as r rs)
  then have "\<forall>k < length rs. result_rule (rs ! k) = adapted_spec (as ! k) \<and>
        evaluated_count (rs ! k) + skipped_count (rs ! k) = source_rows source" by fastforce
  then obtain rows where "result_models aid source (n + 1) as rs = Inr rows" using Cons.IH by blast
  then show ?case using Cons.prems by fastforce
qed simp

text \<open>A stored sample is read back as it was.\<close>

definition as_reference :: "violation_sample \<Rightarrow> sample_reference" where
  "as_reference s =
     \<lparr>sample_row_number = row_number s, sample_preview = value_preview s, sample_truncated = truncated s\<rparr>"

lemma sample_reference_json:
  "1 \<le> row_number s \<Longrightarrow> sample_reference_of (sample_json s) = Inr (as_reference s)"
  by (cases "value_preview s")
    (simp_all add: sample_reference_of_def get_key_def sample_json_def as_reference_def)

lemma samples_reference_json:
  "\<forall>s \<in> set ss. 1 \<le> row_number s \<Longrightarrow>
     map_results sample_reference_of (map sample_json ss) = Inr (map as_reference ss)"
  by (induction ss) (simp_all add: sample_reference_json)

section \<open>What the engine delivers\<close>

definition result_ok :: "rule_result \<Rightarrow> bool" where
  "result_ok r \<longleftrightarrow> counts_ok r \<and> 0 \<le> skipped_count r \<and> length (violation_samples r) \<le> 20 \<and>
     (\<forall>s \<in> set (violation_samples r). 1 \<le> row_number s)"

lemma evaluate_rule_ok:
  assumes "evaluate_rule contains vs rule = Inr r"
  shows "result_ok r"
proof -
  obtain skip bad where r: "r = spec_result rule vs skip bad" using assms by (rule evaluate_rule_shape)
  have "\<forall>s \<in> set (violation_samples r). 1 \<le> row_number s"
    by (auto simp: r spec_result_def make_sample_def dest!: in_set_takeD split: option.splits)
  then show ?thesis using rule_counts_balanced [OF assms] by (auto simp: result_ok_def counts_ok_def)
qed

lemma evaluate_on_ok: "evaluate_on contains f rule = Inr r \<Longrightarrow> result_ok r \<and> result_rule r = rule"
  using rule_counts_balanced evaluate_rule_ok
  by (auto simp: evaluate_on_def bind_result_Inr_iff)

lemma run_engine_Inr:
  assumes "run_engine env f adapted = Inr res"
  shows "validate (polars (schemas env)) (Frame f) (map adapted_spec adapted) = Inr res"
    and "list_all result_ok (rule_results res)"
    and "list_all2 (\<lambda>a r. evaluate_on (polars (schemas env)) f (adapted_spec a) = Inr r) adapted (rule_results res)"
    and "total_rows res = int (height f)"
proof -
  show v: "validate (polars (schemas env)) (Frame f) (map adapted_spec adapted) = Inr res"
    using assms by (auto simp: run_engine_def split: sum.splits engine_exc.splits)
  then have "list_all2 (\<lambda>rule r. evaluate_on (polars (schemas env)) f rule = Inr r) (map adapted_spec adapted) (rule_results res)"
    and rows: "res = \<lparr>total_rows = int (height f), rule_results = rule_results res\<rparr>"
    by (simp_all add: validate_Inr)
  then show all2: "list_all2 (\<lambda>a r. evaluate_on (polars (schemas env)) f (adapted_spec a) = Inr r) adapted (rule_results res)"
    by (simp add: list_all2_map1)
  then show "list_all result_ok (rule_results res)"
    by (induction rule: list_all2_induct) (auto dest: evaluate_on_ok)
  show "total_rows res = int (height f)" using rows by (metis engine_result.select_convs(1))
qed

section \<open>A successful analysis\<close>

lemma create_analysis_Inr:
  assumes "create_analysis env c owner did w = (Inr detail, w')"
  obtains d content f adapted res where
    "get_for_owner (datasets w) did owner = Some d" "full_upload d"
    "list_all_for_dataset (rules w) did \<noteq> []"
    "read_verified_content env (file_read_fails c) (the (storage_key d)) (source_of d) (files w) = Inr content"
    "load_textual_csv env content (source_columns (source_of d)) (source_rows (source_of d)) = Inr f"
    "adapt_rules env (map persisted_rule_of (list_all_for_dataset (rules w) did)) = Inr adapted"
    "run_engine env f adapted = Inr res"
    "persist_analysis c did (source_of d) adapted res (while_analysing c w) = (Inr detail, w')"
proof -
  obtain r w1 where t: "transaction (analysis_fault c 0) w
      (\<lambda>w. bind_result (capture_snapshot env c owner did w) (\<lambda>s. Inr (s, w))) = (r, w1)"
    by (cases "transaction (analysis_fault c 0) w (\<lambda>w. bind_result (capture_snapshot env c owner did w) (\<lambda>s. Inr (s, w)))")
  show thesis
  proof (cases r)
    case (Inl e)
    then show thesis using assms t by (simp add: create_analysis_def)
  next
    case (Inr s)
    then obtain source rs content where s: "s = (source, rs, content)" by (cases s)
    have cap: "capture_snapshot env c owner did w = Inr (source, rs, content)" and w1: "w1 = w"
      using t Inr s by (auto simp: transaction_Inr bind_result_Inr_iff)
    from cap obtain d where d: "get_for_owner (datasets w) did owner = Some d" "full_upload d"
      "list_all_for_dataset (rules w) (dataset_id d) \<noteq> []" "source = source_of d"
      "rs = map persisted_rule_of (list_all_for_dataset (rules w) (dataset_id d))"
      "read_verified_content env (file_read_fails c) (the (storage_key d)) (source_of d) (files w) = Inr content"
      unfolding capture_snapshot_def by (auto simp: Let_def bind_result_Inr_iff split: option.splits if_splits)
    have did: "dataset_id d = did" using get_for_owner_Some [OF d(1)] by simp
    from assms t Inr s w1 obtain f adapted res where
      "load_textual_csv env content (source_columns source) (source_rows source) = Inr f"
      "adapt_rules env rs = Inr adapted" "run_engine env f adapted = Inr res"
      "persist_analysis c did source adapted res (while_analysing c w) = (Inr detail, w')"
      by (auto simp: create_analysis_def bind_result_Inr_iff bind_result_Inl_iff split: sum.splits prod.splits)
    then show thesis using that d did by metis
  qed
qed

lemma persist_analysis_Inr:
  assumes "persist_analysis c did source adapted res w = (Inr detail, w')"
  obtains now score rows a where
    "length adapted = length (rule_results res)" "total_rows res = source_rows source"
    "analysis_clock c = AwareTime now" "calculate_quality_score (rule_results res) = Inr score"
    "result_models (new_analysis_id c) source 0 adapted (rule_results res) = Inr rows"
    "a = \<lparr>analysis_id = new_analysis_id c, analysis_dataset_id = did, analysis_source = source,
       analysis_violations = sum_list (map violation_count (rule_results res)),
       analysis_score = score, analysis_created_at = now\<rparr>"
    "insert_analysis (datasets w) a (analyses w) = Inr (analyses w @ [a])"
    "insert_results (analyses w @ [a]) rows (results w) = Inr (results w @ rows)"
    "w' = w\<lparr>analyses := analyses w @ [a], results := results w @ rows\<rparr>"
    "detail_reference a rows = Inr detail"
proof -
  have now: "analysis_now x = Inr t \<longleftrightarrow> x = AwareTime t" for x t by (cases x) auto
  have ms: "map_sum ScoreError id x = Inr y \<longleftrightarrow> x = Inr y" for x :: "decimal_exc + rat option" and y by (cases x) auto
  from assms obtain a rows w1 where p: "length adapted = length (rule_results res)" "total_rows res = source_rows source"
    "bind_result (analysis_now (analysis_clock c)) (\<lambda>now.
            bind_result (map_sum ScoreError id (calculate_quality_score (rule_results res))) (\<lambda>score.
            bind_result (result_models (new_analysis_id c) source 0 adapted (rule_results res)) (\<lambda>rows.
              Inr (\<lparr>analysis_id = new_analysis_id c, analysis_dataset_id = did, analysis_source = source,
                    analysis_violations = sum_list (map violation_count (rule_results res)),
                    analysis_score = score, analysis_created_at = now\<rparr>, rows)))) = Inr (a, rows)"
    "transaction (analysis_fault c 1) w (insert_history a rows) = (Inr (), w')" "detail_reference a rows = Inr detail"
    unfolding persist_analysis_def by (auto split: if_splits sum.splits prod.splits)
  from p(3) obtain now score where q: "analysis_clock c = AwareTime now" "calculate_quality_score (rule_results res) = Inr score"
    "result_models (new_analysis_id c) source 0 adapted (rule_results res) = Inr rows"
    "a = \<lparr>analysis_id = new_analysis_id c, analysis_dataset_id = did, analysis_source = source,
       analysis_violations = sum_list (map violation_count (rule_results res)),
       analysis_score = score, analysis_created_at = now\<rparr>"
    by (auto simp: bind_result_Inr_iff now ms)
  from p(4) obtain as rs where i: "insert_analysis (datasets w) a (analyses w) = Inr as"
    "insert_results as rows (results w) = Inr rs" "w' = w\<lparr>analyses := as, results := rs\<rparr>"
    by (auto simp: transaction_Inr insert_history_def split: sum.splits)
  have "as = analyses w @ [a]" using i(1) by (simp add: insert_analysis_Inr)
  moreover have "rs = results w @ rows" using insert_results_Inr [OF i(2)] by simp
  ultimately show thesis using that p(1,2,5) q i by simp
qed

section \<open>References of stored results\<close>

text \<open>The reference that belongs to an adapted rule and its result.\<close>

definition result_reference_for :: "int \<Rightarrow> adapted_rule \<Rightarrow> rule_result \<Rightarrow> result_reference" where
  "result_reference_for n a r =
     \<lparr>ref_position = n, ref_source_rule_id = adapted_id a, ref_result_type = adapted_type a,
      ref_result_column = adapted_column a, ref_result_configuration = adapted_configuration a,
      ref_evaluated = evaluated_count r, ref_passed = passed_count r, ref_violations = violation_count r,
      ref_skipped = skipped_count r, ref_samples = map as_reference (violation_samples r)\<rparr>"

lemma map_results_nth:
  assumes "length ys = length xs" and "\<And>k. k < length xs \<Longrightarrow> f (xs ! k) = Inr (ys ! k)"
  shows "map_results f xs = Inr ys"
  unfolding map_results_Inr_iff list_all2_conv_all_nth using assms by simp

lemma stored_references:
  assumes rows: "result_models aid source n as rs = Inr rows" and ok: "list_all result_ok rs"
  shows "map_results result_reference_of rows =
    Inr (map (\<lambda>k. result_reference_for (n + int k) (as ! k) (rs ! k)) [0..<length rs])"
proof (rule map_results_nth)
  note R = result_models_Inr [OF rows]
  show "length (map (\<lambda>k. result_reference_for (n + int k) (as ! k) (rs ! k)) [0..<length rs]) = length rows"
    using R by simp
  fix k assume "k < length rows"
  then have k: "k < length rs" using R by simp
  then have "result_ok (rs ! k)" using ok by (simp add: list_all_length)
  then have "map_results sample_reference_of (map sample_json (violation_samples (rs ! k))) =
      Inr (map as_reference (violation_samples (rs ! k)))"
    by (intro samples_reference_json) (simp add: result_ok_def)
  moreover have "rows ! k = \<lparr>row_analysis_id = aid, row_position = n + int k, row_rule_id = adapted_id (as ! k),
         row_rule_type = adapted_type (as ! k), row_column = adapted_column (as ! k),
         row_configuration = adapted_configuration (as ! k), row_evaluated = evaluated_count (rs ! k),
         row_passed = passed_count (rs ! k), row_violations = violation_count (rs ! k),
         row_skipped = skipped_count (rs ! k), row_samples = map sample_json (violation_samples (rs ! k))\<rparr>"
    using R k by blast
  ultimately show "result_reference_of (rows ! k) =
      Inr (map (\<lambda>k. result_reference_for (n + int k) (as ! k) (rs ! k)) [0..<length rs] ! k)"
    using k by (simp add: result_reference_of_def result_reference_for_def)
qed

text \<open>A failed analysis stores nothing: what remains is what the others did meanwhile.\<close>

lemma persist_analysis_Inl:
  assumes "persist_analysis c did source adapted res w = (Inl e, w')" and "list_all result_ok (rule_results res)"
  shows "w' = w"
proof (rule ccontr)
  assume ne: "w' \<noteq> w"
  have ms: "map_sum ScoreError id x = Inr y \<longleftrightarrow> x = Inr y" for x :: "decimal_exc + rat option" and y by (cases x) auto
  from assms(1) ne obtain a rows u where
    "bind_result (analysis_now (analysis_clock c)) (\<lambda>now.
            bind_result (map_sum ScoreError id (calculate_quality_score (rule_results res))) (\<lambda>score.
            bind_result (result_models (new_analysis_id c) source 0 adapted (rule_results res)) (\<lambda>rows.
              Inr (\<lparr>analysis_id = new_analysis_id c, analysis_dataset_id = did, analysis_source = source,
                    analysis_violations = sum_list (map violation_count (rule_results res)),
                    analysis_score = score, analysis_created_at = now\<rparr>, rows)))) = Inr (a, rows)"
    "detail_reference a rows = Inl e"
    unfolding persist_analysis_def
    by (auto split: if_splits sum.splits prod.splits dest: transaction_Inl)
  then have "result_models (new_analysis_id c) source 0 adapted (rule_results res) = Inr rows" "detail_reference a rows = Inl e"
    by (auto simp: bind_result_Inr_iff)
  then show False using stored_references [OF _ assms(2)] by (fastforce simp: detail_reference_def)
qed

lemma create_analysis_Inl:
  assumes "create_analysis env c owner did w = (Inl e, w')"
  shows "w' = w \<or> w' = while_analysing c w"
proof -
  obtain r w1 where t: "transaction (analysis_fault c 0) w
      (\<lambda>w. bind_result (capture_snapshot env c owner did w) (\<lambda>s. Inr (s, w))) = (r, w1)"
    by (cases "transaction (analysis_fault c 0) w (\<lambda>w. bind_result (capture_snapshot env c owner did w) (\<lambda>s. Inr (s, w)))")
  then have w1: "w1 = w"
    by (cases r) (auto dest: transaction_Inl simp: transaction_Inr bind_result_Inr_iff)
  show ?thesis
  proof (cases r)
    case (Inl e)
    then show ?thesis using assms t w1 by (simp add: create_analysis_def)
  next
    case (Inr s)
    then obtain source rs content where s: "s = (source, rs, content)" by (cases s)
    show ?thesis
    proof (cases "bind_result (load_textual_csv env content (source_columns source) (source_rows source)) (\<lambda>f.
              bind_result (adapt_rules env rs) (\<lambda>adapted.
              bind_result (run_engine env f adapted) (\<lambda>res. Inr (adapted, res))))")
      case (Inl e)
      then show ?thesis using assms t w1 Inr s by (simp add: create_analysis_def \<open>r = Inr s\<close>)
    next
      case x: (Inr x)
      then obtain adapted res where x': "x = (adapted, res)" by (cases x)
      obtain f where "run_engine env f adapted = Inr res" using x x' by (auto simp: bind_result_Inr_iff)
      then have "list_all result_ok (rule_results res)" by (rule run_engine_Inr(2))
      moreover have "persist_analysis c did source adapted res (while_analysing c w) = (Inl e, w')"
        using assms t w1 \<open>r = Inr s\<close> s x x' by (simp add: create_analysis_def)
      ultimately show ?thesis using persist_analysis_Inl by blast
    qed
  qed
qed

end
