(* ===== verification/AnalysisRuns.thy ===== *)
theory AnalysisRuns
  imports AnalysisHistory
begin

text \<open>
  The history under all calls of the dataset and analysis services: what is stored stays
  consistent, and it is only ever added to.
\<close>

section \<open>Uploads, seen from outside\<close>

text \<open>What the database goes through during an upload: what others do happens right after the candidate is written.\<close>

lemma upload_csv_between:
  assumes start: "P w" and fs: "\<And>v fs. P v \<Longrightarrow> P (v\<lparr>files := fs\<rparr>)"
    and between: "\<And>r fs. write_candidate (file_sha256 env) (candidate_uuid c) (write_fails c) source (files w) = (r, fs) \<Longrightarrow>
      P (in_between c (w\<lparr>files := fs\<rparr>))"
    and row: "\<And>v d safe cand st now. P v \<Longrightarrow> d \<in> set (datasets v) \<Longrightarrow>
      P (v\<lparr>datasets := update_rows (\<lambda>r. dataset_id r = dataset_id d)
        (\<lambda>_. uploaded d safe (new_storage_key (key_uuid c)) cand st now) (datasets v)\<rparr>)"
  shows "P (snd (upload_csv env c owner did fn source w))"
proof -
  let ?key = "new_storage_key (key_uuid c)"
  have undo: "P (snd (undo_upload c cand i key e v))" if "P v" for cand i key e v
  proof -
    obtain r v' where u: "undo_upload c cand i key e v = (r, v')" by (cases "undo_upload c cand i key e v")
    then show ?thesis using undo_upload_database [OF u] fs [OF that] by auto
  qed
  have remove: "P (snd (remove_superseded c key ref old v))" if "P v" for key ref old v
    using that fs [OF that]
    by (auto simp: remove_superseded_def split: option.split sum.split prod.split storage_exc.split)
  have body: "P v'" if pv: "P v" and b: "upload_body c owner did safe ?key cand st now v = (Inr x, v')" for safe cand st now v x v'
  proof -
    obtain ref old where x: "x = (ref, old)" by (cases x)
    from b [unfolded x upload_body_Inr] obtain d fs' where d: "get_for_owner (datasets v) did owner = Some d"
      and v': "v' = v\<lparr>files := fs', datasets := update_rows (\<lambda>r. dataset_id r = dataset_id d)
         (\<lambda>_. uploaded d safe ?key cand st now) (datasets v)\<rparr>"
      by blast
    have "d \<in> set (datasets v)" using get_for_owner_Some [OF d] by simp
    then show ?thesis using row [OF fs [OF pv, of fs'], of d safe cand st now] by (simp add: v')
  qed
  have activate: "P (snd (activate_candidate env c owner did safe cand v))" if "P v" "P (in_between c v)" for safe cand v
  proof -
    have trans: "P v'" if "upload_transaction c owner did safe ?key cand st now (in_between c v) = (r, v')" for st now r v'
      using that body [OF \<open>P (in_between c v)\<close>] fs [OF \<open>P (in_between c v)\<close>]
      by (auto simp: upload_transaction_def split: prod.splits sum.splits if_splits)
    show ?thesis
      unfolding activate_candidate_def Let_def
      by (auto split: option.split sum.split prod.split intro: undo remove trans that)
  qed
  obtain q w1 where t: "db_transaction (txn_fault c 0) w (reading (require_dataset did owner)) = (q, w1)"
    by (cases "db_transaction (txn_fault c 0) w (reading (require_dataset did owner))")
  have w1: "w1 = w" using t db_transaction_reading [of "txn_fault c 0" w "require_dataset did owner"] by simp
  show ?thesis
    unfolding upload_csv_def t w1
    by (auto split: sum.split prod.split intro: start activate fs between)
qed

lemma upload_csv_preserves:
  assumes "P w" and "\<And>v fs. P v \<Longrightarrow> P (v\<lparr>files := fs\<rparr>)" and "\<And>v. P v \<Longrightarrow> P (in_between c v)"
    and "\<And>v d safe cand st now. P v \<Longrightarrow> d \<in> set (datasets v) \<Longrightarrow>
      P (v\<lparr>datasets := update_rows (\<lambda>r. dataset_id r = dataset_id d)
        (\<lambda>_. uploaded d safe (new_storage_key (key_uuid c)) cand st now) (datasets v)\<rparr>)"
  shows "P (snd (upload_csv env c owner did fn source w))"
  by (rule upload_csv_between) (use assms in auto)

section \<open>Only adding\<close>

definition extends :: "'a analysis_world_scheme \<Rightarrow> 'a analysis_world_scheme \<Rightarrow> bool" where
  "extends w w' \<longleftrightarrow>
     (\<exists>as rs. analyses w' = analyses w @ as \<and> results w' = results w @ rs \<and>
        (\<forall>r \<in> set rs. row_analysis_id r \<notin> analysis_id ` set (analyses w))) \<and>
     (distinct (map dataset_id (datasets w)) \<longrightarrow> distinct (map dataset_id (datasets w')) \<and>
        (\<forall>did owner. owns (datasets w) did owner \<longrightarrow> owns (datasets w') did owner))"

lemma extends_refl [simp]: "extends w w"
  by (simp add: extends_def)

lemma extends_trans: "extends u v \<Longrightarrow> extends v w \<Longrightarrow> extends u w"
  by (fastforce simp: extends_def)

lemma extends_files [simp]: "extends w (v\<lparr>files := fs\<rparr>) = extends w v"
  by (simp add: extends_def)

lemma extends_rules [simp]: "extends w (v\<lparr>rules := rs\<rparr>) = extends w v"
  by (simp add: extends_def)

lemma owns_update:
  assumes "d \<in> set ds" and "distinct (map dataset_id ds)" and "owns ds did owner"
    and "dataset_id d' = dataset_id d" and "owner_id d' = owner_id d"
  shows "owns (update_rows (\<lambda>r. dataset_id r = dataset_id d) (\<lambda>_. d') ds) did owner"
proof -
  obtain e where e: "e \<in> set ds" "dataset_id e = did" "owner_id e = owner" using assms(3) by (auto simp: owns_def)
  show ?thesis
  proof (cases "dataset_id e = dataset_id d")
    case True
    then have "e = d" using e(1) assms(1,2) by (auto simp: distinct_map inj_on_def)
    moreover have "d' \<in> set (update_rows (\<lambda>r. dataset_id r = dataset_id d) (\<lambda>_. d') ds)"
      unfolding set_update_rows using assms(1) by blast
    ultimately show ?thesis using assms(4,5) e unfolding owns_def by metis
  next
    case False
    then show ?thesis using e by (auto simp: owns_def set_update_rows intro!: bexI [where x = e])
  qed
qed

lemma extends_row:
  assumes "extends w v" and "d \<in> set (datasets v)"
  shows "extends w (v\<lparr>datasets := update_rows (\<lambda>r. dataset_id r = dataset_id d)
     (\<lambda>_. uploaded d safe key cand st now) (datasets v)\<rparr>)"
proof -
  have "map dataset_id (update_rows (\<lambda>r. dataset_id r = dataset_id d) (\<lambda>_. uploaded d safe key cand st now) (datasets v)) =
      map dataset_id (datasets v)"
    by (rule map_update_rows) (simp add: uploaded_def)
  then show ?thesis
    using assms owns_update [OF assms(2), of _ _ "uploaded d safe key cand st now"]
    by (auto simp: extends_def uploaded_def)
qed

lemma extends_upload: "(\<And>v. extends v (in_between c v)) \<Longrightarrow> extends w (snd (upload_csv env c owner did fn source w))"
  by (rule upload_csv_preserves) (auto intro: extends_trans extends_row)

lemma extends_create_dataset: "extends w (snd (create_dataset env c owner name w))"
proof (cases rule: create_dataset_cases [of env c owner name w])
  case (added ref d)
  then have "dataset_id d \<notin> dataset_id ` set (datasets w)" by (simp add: insert_dataset_Inr)
  then show ?thesis by (auto simp: added(3) extends_def owns_def)
qed simp

lemma extends_create_rule: "extends w (snd (create_rule env c owner did ty column config w))"
  by (cases rule: create_rule_cases [of env c owner did ty column config w]) simp_all

lemma extends_delete_rule: "extends w (snd (delete_rule c owner did rid w))"
  by (cases rule: delete_rule_cases [of c owner did rid w]) simp_all

section \<open>Analyses\<close>

lemma adapt_rules_Inr:
  "adapt_rules env rs = Inr adapted \<longleftrightarrow> list_all2 (\<lambda>r a. adapt_rule (schemas env) r = Inr a) rs adapted"
  by (auto simp: adapt_rules_def map_results_Inr_iff [symmetric] split: sum.splits)

text \<open>What a successful analysis adds.\<close>

lemma create_analysis_adds:
  assumes "create_analysis env c owner did w = (Inr detail, w')"
  obtains d content f adapted res now score rows a where
    "get_for_owner (datasets w) did owner = Some d" "full_upload d"
    "read_verified_content env (file_read_fails c) (the (storage_key d)) (source_of d) (files w) = Inr content"
    "load_textual_csv env content (source_columns (source_of d)) (source_rows (source_of d)) = Inr f"
    "list_all2 (\<lambda>r x. adapt_rule (schemas env) (persisted_rule_of r) = Inr x) (list_all_for_dataset (rules w) did) adapted"
    "run_engine env f adapted = Inr res"
    "calculate_quality_score (rule_results res) = Inr score"
    "result_models (new_analysis_id c) (source_of d) 0 adapted (rule_results res) = Inr rows"
    "rows \<noteq> []"
    "a = \<lparr>analysis_id = new_analysis_id c, analysis_dataset_id = did, analysis_source = source_of d,
       analysis_violations = sum_list (map violation_count (rule_results res)),
       analysis_score = score, analysis_created_at = now\<rparr>"
    "insert_analysis (datasets (while_analysing c w)) a (analyses (while_analysing c w)) = Inr (analyses (while_analysing c w) @ [a])"
    "insert_results (analyses (while_analysing c w) @ [a]) rows (results (while_analysing c w)) = Inr (results (while_analysing c w) @ rows)"
    "w' = (while_analysing c w)\<lparr>analyses := analyses (while_analysing c w) @ [a], results := results (while_analysing c w) @ rows\<rparr>"
    "detail_reference a rows = Inr detail"
proof -
  from create_analysis_Inr [OF assms] obtain d content f adapted res where 1:
    "get_for_owner (datasets w) did owner = Some d" "full_upload d"
    "list_all_for_dataset (rules w) did \<noteq> []"
    "read_verified_content env (file_read_fails c) (the (storage_key d)) (source_of d) (files w) = Inr content"
    "load_textual_csv env content (source_columns (source_of d)) (source_rows (source_of d)) = Inr f"
    "adapt_rules env (map persisted_rule_of (list_all_for_dataset (rules w) did)) = Inr adapted"
    "run_engine env f adapted = Inr res"
    "persist_analysis c did (source_of d) adapted res (while_analysing c w) = (Inr detail, w')"
    by metis
  have all2: "list_all2 (\<lambda>r x. adapt_rule (schemas env) (persisted_rule_of r) = Inr x) (list_all_for_dataset (rules w) did) adapted"
    using 1(6) by (simp add: adapt_rules_Inr list_all2_map1)
  from persist_analysis_Inr [OF 1(8)] obtain now score rows a where 2:
    "length adapted = length (rule_results res)"
    "calculate_quality_score (rule_results res) = Inr score"
    "result_models (new_analysis_id c) (source_of d) 0 adapted (rule_results res) = Inr rows"
    "a = \<lparr>analysis_id = new_analysis_id c, analysis_dataset_id = did, analysis_source = source_of d,
       analysis_violations = sum_list (map violation_count (rule_results res)),
       analysis_score = score, analysis_created_at = now\<rparr>"
    "insert_analysis (datasets (while_analysing c w)) a (analyses (while_analysing c w)) = Inr (analyses (while_analysing c w) @ [a])"
    "insert_results (analyses (while_analysing c w) @ [a]) rows (results (while_analysing c w)) = Inr (results (while_analysing c w) @ rows)"
    "w' = (while_analysing c w)\<lparr>analyses := analyses (while_analysing c w) @ [a], results := results (while_analysing c w) @ rows\<rparr>"
    "detail_reference a rows = Inr detail"
    by metis
  have "rows \<noteq> []" using result_models_Inr [OF 2(3)] 2(1) 1(3) list_all2_lengthD [OF all2] by force
  then show thesis using that 1 2 all2 by blast
qed

lemma result_models_analysis:
  "result_models aid source n as rs = Inr rows \<Longrightarrow> r \<in> set rows \<Longrightarrow> row_analysis_id r = aid"
  using result_models_Inr [of aid source n as rs rows] by (auto simp: in_set_conv_nth)

lemma extends_create_analysis:
  assumes "extends w (while_analysing c w)"
  shows "extends w (snd (create_analysis env c owner did w))"
proof -
  obtain r w' where r: "create_analysis env c owner did w = (r, w')" by (cases "create_analysis env c owner did w")
  show ?thesis
  proof (cases r)
    case (Inl e)
    then show ?thesis using create_analysis_Inl [of env c owner did w e w'] r assms by auto
  next
    case (Inr detail)
    show ?thesis
    proof (rule create_analysis_adds [of env c owner did w detail w'], goal_cases)
      case 1
      then show ?case using r Inr by simp
    next
      case (2 d content f adapted res now score rows a)
      let ?v = "while_analysing c w"
      have "analysis_id a \<notin> analysis_id ` set (analyses ?v)" using 2(11) by (simp add: insert_analysis_Inr)
      then have "extends ?v w'"
        using result_models_analysis [OF 2(8)] by (auto simp: 2(10,13) extends_def)
      then show ?case using extends_trans [OF assms] r by simp
    qed
  qed
qed

section \<open>The invariant of the history\<close>

definition analysis_consistent :: "analysis_row \<Rightarrow> result_row list \<Rightarrow> bool" where
  "analysis_consistent a rows \<longleftrightarrow> rows \<noteq> [] \<and> map row_position rows = map int [0..<length rows] \<and>
     (\<forall>r \<in> set rows. row_evaluated r + row_skipped r = source_rows (analysis_source a)) \<and>
     analysis_violations a = sum_list (map row_violations rows) \<and>
     (\<exists>refs. map_results result_reference_of rows = Inr refs)"

definition history_ok :: "'a analysis_world_scheme \<Rightarrow> bool" where
  "history_ok w \<longleftrightarrow> analyses_by_id.table_ok (analyses w) \<and>
     results_by_position.table_ok (results w) \<and> results_by_rule.table_ok (results w) \<and>
     (\<forall>r \<in> set (results w). row_analysis_id r \<in> analysis_id ` set (analyses w)) \<and>
     (\<forall>a \<in> set (analyses w). analysis_dataset_id a \<in> dataset_id ` set (datasets w) \<and>
        analysis_consistent a (list_for_analysis (results w) (analysis_id a)))"

lemma list_for_analysis_other:
  "\<forall>r \<in> set rs. row_analysis_id r \<noteq> aid \<Longrightarrow> list_for_analysis (old @ rs) aid = list_for_analysis old aid"
  by (simp add: list_for_analysis_def filter_empty_conv)

lemma list_for_analysis_new:
  assumes "\<forall>r \<in> set old. row_analysis_id r \<noteq> aid" and "\<forall>r \<in> set rows. row_analysis_id r = aid"
    and "map row_position rows = map int [0..<length rows]"
  shows "list_for_analysis (old @ rows) aid = rows"
proof -
  have "filter (\<lambda>r. row_analysis_id r = aid) (old @ rows) = rows"
    using assms(1,2) by (simp add: filter_empty_conv filter_id_conv)
  moreover have "sorted (map row_position rows)" unfolding assms(3) sorted_map
    by (auto simp: sorted_wrt_iff_nth_less)
  ultimately show ?thesis by (simp add: list_for_analysis_def order_by_def sort_key_id_if_sorted)
qed

lemma stored_analysis_consistent:
  assumes rows: "result_models aid source 0 adapted rs = Inr rows" and ok: "list_all result_ok rs"
    and ne: "rows \<noteq> []" and a: "analysis_source a = source" "analysis_violations a = sum_list (map violation_count rs)"
  shows "analysis_consistent a rows"
proof -
  note R = result_models_Inr [OF rows]
  have "map row_position rows = map int [0..<length rows]" by (rule nth_equalityI) (use R in simp_all)
  moreover have "map row_violations rows = map violation_count rs" by (rule nth_equalityI) (use R in simp_all)
  moreover have "row_evaluated r + row_skipped r = source_rows source" if "r \<in> set rows" for r
  proof -
    from that obtain k where "k < length rs" "r = rows ! k" using R by (auto simp: in_set_conv_nth)
    then show ?thesis using R by simp
  qed
  ultimately show ?thesis
    using ne a stored_references [OF rows ok] by (simp add: analysis_consistent_def)
qed

lemma history_ok_create:
  assumes ok: "history_ok w" and between: "history_ok (while_analysing c w)"
  shows "history_ok (snd (create_analysis env c owner did w))"
proof -
  obtain r w' where r: "create_analysis env c owner did w = (r, w')" by (cases "create_analysis env c owner did w")
  show ?thesis
  proof (cases r)
    case (Inl e)
    then show ?thesis using create_analysis_Inl [of env c owner did w e w'] r ok between by auto
  next
    case (Inr detail)
    show ?thesis
    proof (rule create_analysis_adds [of env c owner did w detail w'], goal_cases)
      case 1
      then show ?case using r Inr by simp
    next
      case (2 d content f adapted res now score rows a)
      let ?v = "while_analysing c w"
      have aid: "analysis_id a = new_analysis_id c" "analysis_source a = source_of d"
        "analysis_violations a = sum_list (map violation_count (rule_results res))" by (simp_all add: 2(10))
      have fresh: "analysis_id a \<notin> analysis_id ` set (analyses ?v)" "analysis_dataset_id a \<in> dataset_id ` set (datasets ?v)"
        using 2(11) by (simp_all add: insert_analysis_Inr)
      have mine: "row_analysis_id r = analysis_id a" if "r \<in> set rows" for r
        using result_models_analysis [OF 2(8) that] aid by simp
      have consistent: "analysis_consistent a rows"
        using stored_analysis_consistent [OF 2(8) run_engine_Inr(2) [OF 2(6)] 2(9)] aid by simp
      have "\<forall>r \<in> set (results ?v). row_analysis_id r \<in> analysis_id ` set (analyses ?v)"
        using between by (simp add: history_ok_def)
      then have "\<forall>r \<in> set (results ?v). row_analysis_id r \<noteq> analysis_id a" using fresh(1) by metis
      then have "list_for_analysis (results ?v @ rows) (analysis_id a) = rows"
        by (rule list_for_analysis_new) (use mine consistent in \<open>simp_all add: analysis_consistent_def\<close>)
      moreover have "list_for_analysis (results ?v @ rows) (analysis_id b) = list_for_analysis (results ?v) (analysis_id b)"
        if "b \<in> set (analyses ?v)" for b
        by (rule list_for_analysis_other) (use mine fresh that in \<open>auto simp: image_iff\<close>)
      moreover have "analyses_by_id.table_ok (analyses ?v @ [a])"
        using analyses_by_id.ins_table_ok [OF _ 2(11)] between by (simp add: history_ok_def)
      moreover have "results_by_position.table_ok (results ?v @ rows) \<and> results_by_rule.table_ok (results ?v @ rows)"
        using insert_results_table [OF 2(12)] between by (simp add: history_ok_def)
      ultimately show ?case
        using between fresh mine consistent r by (auto simp: history_ok_def 2(13))
    qed
  qed
qed

lemma history_ok_same:
  assumes "history_ok w" and "analyses w' = analyses w" and "results w' = results w"
    and "dataset_id ` set (datasets w) \<subseteq> dataset_id ` set (datasets w')"
  shows "history_ok w'"
  using assms unfolding history_ok_def by auto

lemma history_ok_files [simp]: "history_ok (w\<lparr>files := fs\<rparr>) = history_ok w"
  by (simp add: history_ok_def)

lemma history_ok_rules [simp]: "history_ok (w\<lparr>rules := rs\<rparr>) = history_ok w"
  by (simp add: history_ok_def)

lemma history_ok_upload:
  assumes "history_ok w" and "\<And>v. history_ok v \<Longrightarrow> history_ok (in_between c v)"
  shows "history_ok (snd (upload_csv env c owner did fn source w))"
proof (rule upload_csv_preserves)
  fix v d safe cand st now
  assume "history_ok v" "d \<in> set (datasets v)"
  moreover have "dataset_id ` set (update_rows (\<lambda>r. dataset_id r = dataset_id d)
        (\<lambda>_. uploaded d safe (new_storage_key (key_uuid c)) cand st now) (datasets v)) = dataset_id ` set (datasets v)"
    by (rule image_update_rows) (simp add: uploaded_def)
  ultimately show "history_ok (v\<lparr>datasets := update_rows (\<lambda>r. dataset_id r = dataset_id d)
        (\<lambda>_. uploaded d safe (new_storage_key (key_uuid c)) cand st now) (datasets v)\<rparr>)"
    by (elim history_ok_same) simp_all
next
  show "history_ok w" by fact
qed (simp, rule assms(2))

lemma history_ok_create_dataset: "history_ok w \<Longrightarrow> history_ok (snd (create_dataset env c owner name w))"
  by (cases rule: create_dataset_cases [of env c owner name w]) (auto intro: history_ok_same [of w])

lemma history_ok_create_rule: "history_ok w \<Longrightarrow> history_ok (snd (create_rule env c owner did ty column config w))"
  by (cases rule: create_rule_cases [of env c owner did ty column config w]) simp_all

lemma history_ok_delete_rule: "history_ok w \<Longrightarrow> history_ok (snd (delete_rule c owner did rid w))"
  by (cases rule: delete_rule_cases [of c owner did rid w]) simp_all

lemma world_ok_create_analysis:
  assumes "world_ok denv w" and "world_ok denv (while_analysing c w)"
  shows "world_ok denv (snd (create_analysis env c owner did w))"
proof -
  obtain r w' where r: "create_analysis env c owner did w = (r, w')" by (cases "create_analysis env c owner did w")
  show ?thesis
  proof (cases r)
    case (Inl e)
    then show ?thesis using create_analysis_Inl [of env c owner did w e w'] r assms by auto
  next
    case (Inr detail)
    show ?thesis
    proof (rule create_analysis_adds [of env c owner did w detail w'], goal_cases)
      case 1
      then show ?case using r Inr by simp
    next
      case 2
      then show ?case using r assms(2) by (simp add: world_ok_def)
    qed
  qed
qed

section \<open>Runs of the services\<close>

text \<open>What happens in the middle of a call is made of such calls, so it keeps what they keep.\<close>

definition keeps_history :: "('a analysis_world_scheme \<Rightarrow> 'a analysis_world_scheme) \<Rightarrow> bool" where
  "keeps_history f \<longleftrightarrow> (\<forall>v. extends v (f v)) \<and> (\<forall>v. history_ok v \<longrightarrow> history_ok (f v))"

inductive service_step ::
  "dataset_env \<Rightarrow> analysis_env \<Rightarrow> 'a analysis_world_scheme \<Rightarrow> 'a analysis_world_scheme \<Rightarrow> bool" for denv aenv where
  service_create: "service_step denv aenv w (snd (create_dataset denv c owner name w))"
| service_upload: "others_polite denv c \<Longrightarrow> keeps_history (in_between c) \<Longrightarrow>
     unused_key (new_storage_key (key_uuid c)) w \<Longrightarrow>
     service_step denv aenv w (snd (upload_csv denv c owner did filename source w))"
| service_create_rule: "service_step denv aenv w (snd (create_rule denv c owner did ty column config w))"
| service_delete_rule: "service_step denv aenv w (snd (delete_rule c owner did rid w))"
| service_analysis: "keeps_history (while_analysing ac) \<Longrightarrow>
     (\<And>v. world_ok denv v \<Longrightarrow> world_ok denv (while_analysing ac v)) \<Longrightarrow>
     service_step denv aenv w (snd (create_analysis aenv ac owner did w))"

inductive service_run ::
  "dataset_env \<Rightarrow> analysis_env \<Rightarrow> 'a analysis_world_scheme \<Rightarrow> 'a analysis_world_scheme \<Rightarrow> bool" for denv aenv where
  service_none: "service_run denv aenv w w"
| service_more: "service_run denv aenv w v \<Longrightarrow> service_step denv aenv v u \<Longrightarrow> service_run denv aenv w u"

lemma service_step_extends: "service_step denv aenv w w' \<Longrightarrow> extends w w'"
  by (induction rule: service_step.induct)
    (auto simp: keeps_history_def intro: extends_create_dataset extends_upload extends_create_rule
      extends_delete_rule extends_create_analysis)

lemma service_run_extends: "service_run denv aenv w w' \<Longrightarrow> extends w w'"
  by (induction rule: service_run.induct) (auto intro: extends_trans service_step_extends)

lemma service_step_history: "service_step denv aenv w w' \<Longrightarrow> history_ok w \<Longrightarrow> history_ok w'"
  by (induction rule: service_step.induct)
    (auto simp: keeps_history_def intro: history_ok_create_dataset history_ok_upload history_ok_create_rule
      history_ok_delete_rule history_ok_create)

lemma service_step_world: "service_step denv aenv w w' \<Longrightarrow> world_ok denv w \<Longrightarrow> world_ok denv w'"
  by (induction rule: service_step.induct)
    (auto intro: create_dataset_ok upload_csv_ok create_rule_ok delete_rule_ok world_ok_create_analysis)

lemma service_run_ok:
  "service_run denv aenv w w' \<Longrightarrow> world_ok denv w \<and> history_ok w \<Longrightarrow> world_ok denv w' \<and> history_ok w'"
  by (induction rule: service_run.induct) (auto intro: service_step_history service_step_world)

section \<open>Reading the history\<close>

lemma get_analysis_Inr:
  "get_analysis c owner did aid w = (Inr d, w') \<longleftrightarrow> \<not> analysis_txn_fails c 0 \<and> w' = w \<and>
     (\<exists>a. get_for_dataset_owner (datasets w) (analyses w) aid did owner = Some a \<and>
        detail_reference a (list_for_analysis (results w) (analysis_id a)) = Inr d)"
  by (auto simp: get_analysis_def transaction_Inr analysis_fault_def bind_result_Inr_iff split: option.splits)

lemma find_append: "find P (xs @ ys) = (case find P xs of None \<Rightarrow> find P ys | Some x \<Rightarrow> Some x)"
  by (induction xs) auto

lemma find_weaken: "find P xs = Some x \<Longrightarrow> (\<And>y. y \<in> set xs \<Longrightarrow> P y = Q y) \<Longrightarrow> find Q xs = Some x"
  by (induction xs) (auto split: if_splits)

lemma get_analysis_extends:
  assumes got: "get_analysis c owner did aid w = (Inr d, w)" and ext: "extends w w'"
    and ids: "distinct (map dataset_id (datasets w))" and c': "\<not> analysis_txn_fails c' 0"
  shows "get_analysis c' owner did aid w' = (Inr d, w')"
proof -
  from got obtain a where a: "get_for_dataset_owner (datasets w) (analyses w) aid did owner = Some a"
    "detail_reference a (list_for_analysis (results w) (analysis_id a)) = Inr d" unfolding get_analysis_Inr by blast
  note A = get_for_dataset_owner_Some [OF a(1)]
  from ext obtain as rs where new: "analyses w' = analyses w @ as" "results w' = results w @ rs"
    "\<forall>r \<in> set rs. row_analysis_id r \<notin> analysis_id ` set (analyses w)" and own: "owns (datasets w') did owner"
    using A ids by (auto simp: extends_def)
  have "find (\<lambda>a. analysis_id a = aid \<and> analysis_dataset_id a = did \<and> owns (datasets w') did owner) (analyses w) = Some a"
    using a(1) own A unfolding get_for_dataset_owner_def by (elim find_weaken) simp
  then have "get_for_dataset_owner (datasets w') (analyses w') aid did owner = Some a"
    by (simp add: get_for_dataset_owner_def new(1) find_append)
  moreover have "list_for_analysis (results w') (analysis_id a) = list_for_analysis (results w) (analysis_id a)"
    unfolding new(2) by (rule list_for_analysis_other) (use new(3) A in force)
  ultimately show ?thesis using a(2) c' by (simp add: get_analysis_Inr)
qed

text \<open>What was just stored can be read.\<close>

lemma get_created_analysis:
  assumes created: "create_analysis env c owner did w = (Inr detail, w')" and ok: "history_ok (while_analysing c w)"
    and ext: "extends w (while_analysing c w)" and ids: "distinct (map dataset_id (datasets w))"
    and c': "\<not> analysis_txn_fails c' 0"
  shows "get_analysis c' owner did (new_analysis_id c) w' = (Inr detail, w') \<and> summary_id (analysis_summary.truncate detail) = new_analysis_id c"
proof (rule create_analysis_adds [OF created])
  fix d content f adapted res now score rows a
  let ?v = "while_analysing c w"
  assume d: "get_for_owner (datasets w) did owner = Some d"
    and run: "run_engine env f adapted = Inr res"
    and rows: "result_models (new_analysis_id c) (source_of d) 0 adapted (rule_results res) = Inr rows" "rows \<noteq> []"
    and a: "a = \<lparr>analysis_id = new_analysis_id c, analysis_dataset_id = did, analysis_source = source_of d,
       analysis_violations = sum_list (map violation_count (rule_results res)),
       analysis_score = score, analysis_created_at = now\<rparr>"
    and ins: "insert_analysis (datasets ?v) a (analyses ?v) = Inr (analyses ?v @ [a])"
    and w': "w' = ?v\<lparr>analyses := analyses ?v @ [a], results := results ?v @ rows\<rparr>"
    and detail: "detail_reference a rows = Inr detail"
  have "owns (datasets w) did owner" using get_for_owner_Some [OF d] by (auto simp: owns_def)
  then have own: "owns (datasets ?v) did owner" using ext ids by (simp add: extends_def)
  have fresh: "analysis_id a \<notin> analysis_id ` set (analyses ?v)" using ins by (simp add: insert_analysis_Inr)
  have "find (\<lambda>b. analysis_id b = new_analysis_id c \<and> analysis_dataset_id b = did \<and> owns (datasets ?v) did owner)
      (analyses ?v) = None"
    using fresh by (auto simp: find_None_iff image_iff a)
  then have "get_for_dataset_owner (datasets w') (analyses w') (new_analysis_id c) did owner = Some a"
    using own by (simp add: get_for_dataset_owner_def w' find_append) (simp add: a)
  moreover have "list_for_analysis (results w') (analysis_id a) = rows"
  proof -
    have "\<forall>r \<in> set (results ?v). row_analysis_id r \<in> analysis_id ` set (analyses ?v)"
      using ok by (simp add: history_ok_def)
    then have "\<forall>r \<in> set (results ?v). row_analysis_id r \<noteq> analysis_id a" using fresh by metis
    moreover have "\<forall>r \<in> set rows. row_analysis_id r = analysis_id a"
      using result_models_analysis [OF rows(1)] by (simp add: a)
    moreover have "map row_position rows = map int [0..<length rows]"
      using stored_analysis_consistent [OF rows(1) run_engine_Inr(2) [OF run] rows(2), of a]
      by (simp add: analysis_consistent_def a)
    ultimately have "list_for_analysis (results ?v @ rows) (analysis_id a) = rows" by (rule list_for_analysis_new)
    then show ?thesis by (simp add: w')
  qed
  moreover have "summary_id (analysis_summary.truncate detail) = new_analysis_id c"
    using detail by (auto simp: detail_reference_def bind_result_Inr_iff summary_reference_def a
        analysis_summary.defs)
  ultimately show ?thesis using detail c' by (simp add: get_analysis_Inr)
qed

end
