(* ===== verification/AnalysisLiveness.thy ===== *)
theory AnalysisLiveness
  imports AnalysisRuns
begin

text \<open>
  A dataset in good order can be analysed: none of the integrity checks of the service, of the
  engine's input validation and of the database's constraints can fail.
\<close>

section \<open>Storing\<close>

definition source_ok :: "source_snapshot \<Rightarrow> bool" where
  "source_ok s \<longleftrightarrow> storable_text (source_filename s) \<and> list_all storable_text (source_columns s) \<and>
     1 \<le> length (source_columns s) \<and> length (source_columns s) \<le> 256 \<and>
     length (source_sha256 s) = 32 \<and> 0 \<le> source_rows s \<and> 1 \<le> source_size s \<and> source_size s \<le> 10485760"

definition adapted_ok :: "adapted_rule \<Rightarrow> bool" where
  "adapted_ok a \<longleftrightarrow> storable_text (adapted_column a) \<and> configuration_storable (adapted_configuration a) \<and>
     adapted_type a \<in> set rule_types \<and> 1 \<le> length (adapted_column a) \<and>
     length (adapted_column a) \<le> 128 \<and> btrim_id (adapted_column a)"

text \<open>A sample can be stored when its preview can.\<close>

definition sample_storable :: "violation_sample \<Rightarrow> bool" where
  "sample_storable s \<longleftrightarrow> opt_all storable_text (value_preview s)"

lemma sample_json_storable: "configuration_storable (sample_json s) \<longleftrightarrow> sample_storable s"
  by (cases "value_preview s")
    (simp_all add: configuration_storable_def sample_json_def sample_storable_def storable_text_def)

text \<open>What \<open>jsonb\<close> holds was storable when it was sent.\<close>

lemma jsonb_image_storable: "jsonb_image v v' \<Longrightarrow> json_storable v' \<Longrightarrow> json_storable v"
  by (auto simp: jsonb_image_def)

lemma stored_as_storable: "stored_as cfg cfg' \<Longrightarrow> configuration_storable cfg' \<Longrightarrow> configuration_storable cfg"
  unfolding stored_as_def configuration_storable_def
  by (induction rule: list_all2_induct) (auto dest: jsonb_image_storable)

text \<open>The score of balanced counts is a percentage or absent.\<close>

lemma score_in_range:
  assumes "list_all counts_ok rs" and "total_evaluated rs \<le> 10 ^ 34"
  shows "\<exists>score. calculate_quality_score rs = Inr score \<and> opt_all (\<lambda>q. 0 \<le> q \<and> q \<le> 100) score"
proof (cases "total_evaluated rs = 0")
  case True
  then show ?thesis by (simp add: calculate_quality_score_def)
next
  case False
  then have e: "0 < total_evaluated rs" using totals_bounds [OF assms(1)] by linarith
  then show ?thesis
    using score_is_exact [OF assms(1) e assms(2)] exact_score_bounds [OF totals_bounds [OF assms(1)] e] by auto
qed

lemma stored_rows_ok:
  assumes rows: "result_models aid source 0 adapted rs = Inr rows"
    and ok: "list_all result_ok rs" and adapted: "list_all adapted_ok adapted"
    and samples: "\<forall>r \<in> set rs. list_all sample_storable (violation_samples r)"
  shows "list_all result_row_ok rows"
  unfolding list_all_length
proof (intro allI impI)
  note R = result_models_Inr [OF rows]
  fix k assume "k < length rows"
  then have k: "k < length rs" "k < length adapted" using R by simp_all
  have "result_ok (rs ! k)" "adapted_ok (adapted ! k)" using ok adapted k by (simp_all add: list_all_length)
  moreover have "list_all configuration_storable (map sample_json (violation_samples (rs ! k)))"
    using samples nth_mem [OF k(1)] by (auto simp: list_all_iff sample_json_storable)
  ultimately show "result_row_ok (rows ! k)"
    using R k rule_types_storable
    by (auto simp: result_row_ok_def result_row_checks_def result_ok_def counts_ok_def adapted_ok_def)
qed

lemma stored_rows_distinct:
  assumes rows: "result_models aid source 0 adapted rs = Inr rows" and ids: "distinct (map adapted_id adapted)"
  shows "distinct (map position_key rows)" and "distinct (map rule_key rows)"
proof -
  note R = result_models_Inr [OF rows]
  have "map position_key rows = map (\<lambda>k. (aid, int k)) [0..<length rows]"
    by (rule nth_equalityI) (use R in \<open>simp_all add: position_key_def\<close>)
  then show "distinct (map position_key rows)" by (simp add: distinct_map inj_on_def)
  have "map rule_key rows = map (\<lambda>a. (aid, adapted_id a)) adapted"
    by (rule nth_equalityI) (use R in \<open>simp_all add: rule_key_def\<close>)
  then show "distinct (map rule_key rows)" using ids by (simp add: distinct_map inj_on_def)
qed

lemma persist_succeeds:
  assumes len: "length adapted = length (rule_results res)" and total: "total_rows res = source_rows source"
    and clock: "analysis_clock c = AwareTime now" and fault: "\<not> analysis_txn_fails c 1"
    and ok: "list_all result_ok (rule_results res)"
    and samples: "\<forall>r \<in> set (rule_results res). list_all sample_storable (violation_samples r)"
    and matches: "\<forall>k < length (rule_results res). result_rule (rule_results res ! k) = adapted_spec (adapted ! k) \<and>
        evaluated_count (rule_results res ! k) + skipped_count (rule_results res ! k) = source_rows source"
    and few: "total_evaluated (rule_results res) \<le> 10 ^ 34" and source: "source_ok source"
    and adapted: "list_all adapted_ok adapted" "distinct (map adapted_id adapted)"
    and fresh: "new_analysis_id c \<notin> analysis_id ` set (analyses w)" and did: "did \<in> dataset_id ` set (datasets w)"
    and hist: "history_ok w"
  shows "\<exists>detail w'. persist_analysis c did source adapted res w = (Inr detail, w')"
proof -
  let ?rs = "rule_results res"
  have counts: "list_all counts_ok ?rs" using ok by (auto simp: list_all_iff result_ok_def)
  obtain score where score: "calculate_quality_score ?rs = Inr score" "opt_all (\<lambda>q. 0 \<le> q \<and> q \<le> 100) score"
    using score_in_range [OF counts few] by blast
  obtain rows where rows: "result_models (new_analysis_id c) source 0 adapted ?rs = Inr rows"
    using result_models_total [OF len matches] by blast
  define a where "a = \<lparr>analysis_id = new_analysis_id c, analysis_dataset_id = did, analysis_source = source,
       analysis_violations = sum_list (map violation_count ?rs), analysis_score = score, analysis_created_at = now\<rparr>"
  have "0 \<le> sum_list (map violation_count ?rs)"
    by (rule sum_list_nonneg) (use counts in \<open>auto simp: list_all_iff counts_ok_def\<close>)
  then have "analysis_row_ok a"
    using score(2) source by (simp add: analysis_row_ok_def analysis_row_checks_def a_def source_ok_def Let_def)
  then have i1: "insert_analysis (datasets w) a (analyses w) = Inr (analyses w @ [a])"
    using fresh did by (simp add: insert_analysis_Inr a_def)
  have "row_analysis_id r \<noteq> new_analysis_id c" if "r \<in> set (results w)" for r
    using hist fresh that by (metis history_ok_def)
  moreover have mine: "row_analysis_id r = new_analysis_id c" if "r \<in> set rows" for r
    using result_models_analysis [OF rows that] .
  ultimately have "distinct (map position_key (results w @ rows))" "distinct (map rule_key (results w @ rows))"
    using stored_rows_distinct [OF rows adapted(2)] hist
    by (auto simp: history_ok_def results_by_position.table_ok_def results_by_rule.table_ok_def position_key_def rule_key_def)
  then have i2: "insert_results (analyses w @ [a]) rows (results w) = Inr (results w @ rows)"
    using stored_rows_ok [OF rows ok adapted(1) samples] mine by (intro insert_results_ok) (auto simp: a_def)
  obtain detail where "detail_reference a rows = Inr detail"
    using stored_references [OF rows ok] by (simp add: detail_reference_def)
  moreover have "transaction (analysis_fault c 1) w (insert_history a rows) =
      (Inr (), w\<lparr>analyses := analyses w @ [a], results := results w @ rows\<rparr>)"
    using fault i1 i2 by (simp add: transaction_Inr analysis_fault_def insert_history_def)
  ultimately show ?thesis
    using len total clock score(1) rows by (simp add: persist_analysis_def a_def [symmetric])
qed

section \<open>Running\<close>

text \<open>
  What is expected of Polars: a file the upload accepted as a table with certain columns and rows is
  read as a textual frame of these columns and that height; a file without zero bytes has no cell
  with U+0000.
\<close>

definition frame_storable :: "frame \<Rightarrow> bool" where
  "frame_storable f \<longleftrightarrow> list_all (\<lambda>col. list_all (opt_all storable_text) (col_values col)) (columns f)"

definition readers_agree :: "dataset_env \<Rightarrow> analysis_env \<Rightarrow> bool" where
  "readers_agree denv env \<longleftrightarrow>
     (\<forall>b st. scan_csv (split_file denv b) = Inr st \<longrightarrow>
       (\<exists>f. read_csv env b = Some f \<and> Engine.column_names f = csv_columns st \<and> height f = row_count st \<and>
          wf_frame f \<and> (\<forall>col \<in> set (columns f). col_dtype col = DString) \<and>
          (0 \<notin> set b \<longrightarrow> frame_storable f)))"

text \<open>A rule as the API stores it.\<close>

definition api_rule :: "analysis_env \<Rightarrow> rule_row \<Rightarrow> bool" where
  "api_rule env r \<longleftrightarrow>
     (\<exists>p. good_configuration (schemas env) (rule_type r) p \<and>
        stored_as (canonical_rule_configuration p) (rule_configuration r))"

lemma evaluate_on_length:
  assumes "evaluate_on contains f rule = Inr r" and "wf_frame f"
  shows "result_rule r = rule \<and> evaluated_count r + skipped_count r = int (height f)"
proof -
  from assms(1) obtain c col where col: "find_column f c = Some col"
    and ev: "evaluate_rule contains (col_values col) rule = Inr r"
    by (auto simp: evaluate_on_def get_column_def bind_result_Inr_iff split: pyval.splits option.splits)
  have "length (col_values col) = height f"
    using find_column_Some [OF col] assms(2) by (auto simp: wf_frame_def list_all_iff)
  then show ?thesis using rule_counts_balanced [OF ev] by simp
qed

text \<open>The samples of a frame that can be stored can be stored.\<close>

lemma preview_storable: "opt_all storable_text v \<Longrightarrow> sample_storable (make_sample n v)"
  by (cases v) (auto simp: sample_storable_def make_sample_def storable_text_def dest: in_set_takeD)

lemma evaluate_on_storable:
  assumes "evaluate_on contains f rule = Inr r" and "frame_storable f"
  shows "list_all sample_storable (violation_samples r)"
proof -
  from assms(1) obtain c col where col: "find_column f c = Some col"
    and ev: "evaluate_rule contains (col_values col) rule = Inr r"
    by (auto simp: evaluate_on_def get_column_def bind_result_Inr_iff split: pyval.splits option.splits)
  have "opt_all storable_text v" if "v \<in> set (col_values col)" for v
    using find_column_Some [OF col] assms(2) that by (auto simp: frame_storable_def list_all_iff)
  moreover obtain skip bad where "r = spec_result rule (col_values col) skip bad" using ev by (rule evaluate_rule_shape)
  ultimately show ?thesis
    by (auto simp: spec_result_def list_all_iff rows_where_def intro!: preview_storable dest!: in_set_takeD)
qed

text \<open>Valid rules on a frame run without an error.\<close>

lemma run_engine_total:
  assumes law: "contains_law (polars (schemas env)) valid occurs"
    and rules: "list_all (\<lambda>a. valid_rule (polars (schemas env)) f (adapted_spec a)) adapted"
    and ids: "distinct (map (\<lambda>a. rule_id (adapted_spec a)) adapted)"
  shows "\<exists>res. run_engine env f adapted = Inr res"
proof -
  let ?c = "polars (schemas env)" and ?specs = "map adapted_spec adapted"
  have ok: "list_all (valid_rule ?c f) ?specs" using rules by (simp add: list_all_iff)
  then have "\<exists>rs. map_results (evaluate_on ?c f) ?specs = Inr rs"
    using evaluate_on_valid [OF law] by (intro map_results_ex) (auto simp: list_all_iff)
  then obtain rs where "map_results (evaluate_on ?c f) ?specs = Inr rs" ..
  moreover have "validate_inputs ?c f {} ?specs = Inr ()"
    using ok ids by (simp add: validate_inputs_iff o_def)
  ultimately show ?thesis by (simp add: run_engine_def validate_def)
qed

text \<open>The rules of a dataset, adapted.\<close>

lemma adapt_rules_total:
  assumes law: "finite_float_law (finite_float (schemas env))" and rules: "\<forall>r \<in> set rs. api_rule env r"
  shows "\<exists>adapted. adapt_rules env (map persisted_rule_of rs) = Inr adapted \<and>
    list_all2 (\<lambda>r a. adapted_id a = rule_row_id r \<and> adapted_type a = rule_type r \<and>
       adapted_column a = rule_target_column r \<and> rule_id (adapted_spec a) = VUuid (rule_row_id r) \<and>
       target_column (adapted_spec a) = VStr (rule_target_column r) \<and> adapted_spec a \<noteq> NotARuleSpec \<and>
       valid_parameters (polars (schemas env)) (adapted_spec a) \<and>
       stored_as (adapted_configuration a) (rule_configuration r)) rs adapted"
  using rules
proof (induction rs)
  case Nil
  then show ?case by (simp add: adapt_rules_def)
next
  case (Cons r rs)
  then obtain as where as: "list_all2 (\<lambda>r a. adapt_rule (schemas env) r = Inr a) (map persisted_rule_of rs) as"
    and IH: "list_all2 (\<lambda>r a. adapted_id a = rule_row_id r \<and> adapted_type a = rule_type r \<and>
       adapted_column a = rule_target_column r \<and> rule_id (adapted_spec a) = VUuid (rule_row_id r) \<and>
       target_column (adapted_spec a) = VStr (rule_target_column r) \<and> adapted_spec a \<noteq> NotARuleSpec \<and>
       valid_parameters (polars (schemas env)) (adapted_spec a) \<and>
       stored_as (adapted_configuration a) (rule_configuration r)) rs as"
    unfolding adapt_rules_Inr by auto
  from Cons.prems obtain p where p: "good_configuration (schemas env) (rule_type r) p"
    "stored_as (canonical_rule_configuration p) (rule_configuration r)" by (auto simp: api_rule_def)
  from adapt_stored [OF law p, of "rule_row_id r" "rule_target_column r"] as IH good_configuration_valid [OF p(1)] p(2)
  show ?case unfolding adapt_rules_Inr
    by (intro exI [where x = "\<lparr>adapted_id = rule_row_id r, adapted_type = rule_type r, adapted_column = rule_target_column r,
         adapted_configuration = canonical_rule_configuration p,
         adapted_spec = spec_for (rule_type r) (rule_row_id r) (rule_target_column r) p\<rparr> # as"])
      (simp add: persisted_rule_of_def)
qed

section \<open>The source\<close>

lemma source_of_ok:
  assumes ok: "world_ok denv w" and d: "d \<in> set (datasets w)" and full: "full_upload d"
  shows "source_ok (source_of d)"
proof -
  have "dataset_row_ok d" using ok d by (simp add: world_ok_def datasets_by_id.table_ok_def list_all_iff)
  then show ?thesis using full
    by (auto simp: source_ok_def source_of_def dataset_row_ok_def dataset_row_checks_def full_upload_def)
qed

lemma snapshot_of_upload:
  assumes ok: "world_ok denv w" and d: "d \<in> set (datasets w)" and full: "full_upload d"
    and sha: "analysis_sha256 env = file_sha256 denv" and agree: "readers_agree denv env"
    and clean: "\<forall>k b. storage_key d = Some k \<longrightarrow> files w k = Some b \<longrightarrow> 0 \<notin> set b"
  shows "\<exists>content f. read_verified_content env False (the (storage_key d)) (source_of d) (files w) = Inr content \<and>
     load_textual_csv env content (source_columns (source_of d)) (source_rows (source_of d)) = Inr f \<and>
     Engine.column_names f = the (DatasetStore.column_names d) \<and> int (height f) = source_rows (source_of d) \<and> wf_frame f \<and>
     (\<forall>col \<in> set (columns f). col_dtype col = DString) \<and> frame_storable f"
proof -
  obtain k where "storage_key d = Some k" using full by (auto simp: full_upload_def)
  moreover have "upload_ok denv (files w) d" using ok d by (simp add: world_ok_def)
  ultimately obtain b n cs where b: "storage_key d = Some k" "open_binary k (files w) = Inr b" "length b \<le> MAX_CSV_BYTES"
    "size_bytes d = Some (int (length b))" "content_sha256 d = Some (file_sha256 denv b)"
    "scan_csv (split_file denv b) = Inr \<lparr>row_count = n, csv_columns = cs\<rparr>"
    "dataset_row_count d = Some (int n)" "DatasetStore.column_names d = Some cs"
    by (auto simp: upload_ok_def)
  from agree b(6) obtain f where f: "read_csv env b = Some f" "Engine.column_names f = cs" "height f = n" "wf_frame f"
    "\<forall>col \<in> set (columns f). col_dtype col = DString" "frame_storable f"
    using b(1,2) clean by (fastforce simp: readers_agree_def open_binary_Inr)
  have "read_verified_content env False (the (storage_key d)) (source_of d) (files w) = Inr b"
    using b sha by (simp add: read_verified_content_Inr source_of_def)
  moreover have "load_textual_csv env b (source_columns (source_of d)) (source_rows (source_of d)) = Inr f"
    using f b(7,8) by (simp add: load_textual_csv_def source_of_def list_ex_iff)
  ultimately show ?thesis using f b(7,8) by (simp add: source_of_def)
qed

section \<open>The whole call\<close>

lemma dataset_rules:
  assumes ok: "world_ok denv w" and d: "get_for_owner (datasets w) did owner = Some d"
  shows "distinct (map rule_row_id (list_all_for_dataset (rules w) did))"
    and "\<forall>r \<in> set (list_all_for_dataset (rules w) did). r \<in> set (rules w) \<and> rule_row_ok r \<and>
      (\<exists>cs. DatasetStore.column_names d = Some cs \<and> rule_target_column r \<in> set cs)"
proof -
  note D = get_for_owner_Some [OF d]
  have "distinct (map rule_row_id (filter (\<lambda>r. rule_dataset_id r = did) (rules w)))"
    using ok by (simp add: world_ok_def rules_by_id.table_ok_def distinct_map_filterI)
  moreover have "mset (map rule_row_id (list_all_for_dataset (rules w) did)) =
      mset (map rule_row_id (filter (\<lambda>r. rule_dataset_id r = did) (rules w)))"
    by (simp add: list_all_for_dataset_def)
  ultimately show "distinct (map rule_row_id (list_all_for_dataset (rules w) did))"
    using mset_eq_imp_distinct_iff by blast
  show "\<forall>r \<in> set (list_all_for_dataset (rules w) did). r \<in> set (rules w) \<and> rule_row_ok r \<and>
      (\<exists>cs. DatasetStore.column_names d = Some cs \<and> rule_target_column r \<in> set cs)"
  proof
    fix r assume "r \<in> set (list_all_for_dataset (rules w) did)"
    then have r: "r \<in> set (rules w)" "rule_dataset_id r = did" by (auto simp: list_all_for_dataset_def)
    then obtain e cs where e: "e \<in> set (datasets w)" "dataset_id e = did" "DatasetStore.column_names e = Some cs"
      "rule_target_column r \<in> set cs" using ok by (auto simp: world_ok_def rule_fits_def)
    have "e = d" using datasets_by_id.key_unique [of "datasets w" e d] ok e D by (simp add: world_ok_def)
    then show "r \<in> set (rules w) \<and> rule_row_ok r \<and>
      (\<exists>cs. DatasetStore.column_names d = Some cs \<and> rule_target_column r \<in> set cs)"
      using r e ok by (auto simp: world_ok_def rules_by_id.table_ok_def list_all_iff)
  qed
qed

lemma list_all2_member: "list_all2 P xs ys \<Longrightarrow> y \<in> set ys \<Longrightarrow> \<exists>x \<in> set xs. P x y"
  by (induction rule: list_all2_induct) auto

lemma evaluated_bound:
  assumes "list_all2 P adapted rs" and "\<And>a r. P a r \<Longrightarrow> r \<in> set rs \<Longrightarrow> evaluated_count r \<le> n"
  shows "total_evaluated rs \<le> n * int (length adapted)"
  using assms unfolding total_evaluated_def
proof (induction rule: list_all2_induct)
  case (Cons a as r rs)
  then have "evaluated_count r \<le> n" "sum_list (map evaluated_count rs) \<le> n * int (length as)" by auto
  then show ?case by (simp add: algebra_simps)
qed simp

lemma create_analysis_total:
  assumes ok: "world_ok denv w" and found: "get_for_owner (datasets w) did owner = Some d" and full: "full_upload d"
    and rules: "list_all_for_dataset (rules w) did \<noteq> []"
      "\<forall>r \<in> set (list_all_for_dataset (rules w) did). api_rule env r"
    and laws: "finite_float_law (finite_float (schemas env))" "contains_law (polars (schemas env)) valid occurs"
      "readers_agree denv env" "analysis_sha256 env = file_sha256 denv"
    and clean: "\<forall>k b. storage_key d = Some k \<longrightarrow> files w k = Some b \<longrightarrow> 0 \<notin> set b"
    and works: "\<not> analysis_txn_fails c 0" "\<not> analysis_txn_fails c 1" "\<not> file_read_fails c" "analysis_clock c = AwareTime now"
    and few: "the (dataset_row_count d) * int (length (list_all_for_dataset (rules w) did)) \<le> 10 ^ 34"
    and between: "extends w (while_analysing c w)" "history_ok (while_analysing c w)"
      "new_analysis_id c \<notin> analysis_id ` set (analyses (while_analysing c w))"
  shows "\<exists>detail w'. create_analysis env c owner did w = (Inr detail, w')"
proof -
  let ?rs = "list_all_for_dataset (rules w) did" and ?v = "while_analysing c w"
  note D = get_for_owner_Some [OF found]
  obtain content f where snap: "read_verified_content env False (the (storage_key d)) (source_of d) (files w) = Inr content"
    "load_textual_csv env content (source_columns (source_of d)) (source_rows (source_of d)) = Inr f"
    "Engine.column_names f = the (DatasetStore.column_names d)" "int (height f) = source_rows (source_of d)" "wf_frame f"
    "\<forall>col \<in> set (columns f). col_dtype col = DString" "frame_storable f"
    using snapshot_of_upload [OF ok _ full laws(4) laws(3) clean] D by blast
  obtain adapted where adapted: "adapt_rules env (map persisted_rule_of ?rs) = Inr adapted"
    "list_all2 (\<lambda>r a. adapted_id a = rule_row_id r \<and> adapted_type a = rule_type r \<and>
       adapted_column a = rule_target_column r \<and> rule_id (adapted_spec a) = VUuid (rule_row_id r) \<and>
       target_column (adapted_spec a) = VStr (rule_target_column r) \<and> adapted_spec a \<noteq> NotARuleSpec \<and>
       valid_parameters (polars (schemas env)) (adapted_spec a) \<and>
       stored_as (adapted_configuration a) (rule_configuration r)) ?rs adapted"
    using adapt_rules_total [OF laws(1) rules(2)] by blast
  note R = dataset_rules [OF ok found]
  have each: "adapted_ok a \<and> valid_rule (polars (schemas env)) f (adapted_spec a)" if "a \<in> set adapted" for a
  proof -
    from list_all2_member [OF adapted(2) that] obtain r where r: "r \<in> set ?rs" "adapted_type a = rule_type r" "adapted_column a = rule_target_column r"
      "rule_id (adapted_spec a) = VUuid (rule_row_id r)" "target_column (adapted_spec a) = VStr (rule_target_column r)"
      "adapted_spec a \<noteq> NotARuleSpec" "valid_parameters (polars (schemas env)) (adapted_spec a)"
      "stored_as (adapted_configuration a) (rule_configuration r)"
      by blast
    have row: "rule_row_ok r" "rule_target_column r \<in> set (Engine.column_names f)" using R(2) r(1) snap(3) by auto
    from row(2) obtain col where "find_column f (rule_target_column r) = Some col"
      using find_column_None by (cases "find_column f (rule_target_column r)") auto
    moreover from this have "col_dtype col = DString" using find_column_Some snap(6) by blast
    moreover have "rule_target_column r \<noteq> []" using row(1) by (auto simp: rule_row_ok_def rule_row_checks_def)
    moreover have "configuration_storable (adapted_configuration a)"
      using stored_as_storable [OF r(8)] row(1) by (simp add: rule_row_ok_def rule_row_checks_def)
    ultimately show ?thesis using r row(1)
      by (auto simp: valid_rule_def valid_target_def adapted_ok_def rule_row_ok_def rule_row_checks_def)
  qed
  have ids: "map adapted_id adapted = map rule_row_id ?rs" "map (\<lambda>a. rule_id (adapted_spec a)) adapted = map VUuid (map rule_row_id ?rs)"
    using adapted(2) by (auto simp: list_all2_conv_all_nth intro!: nth_equalityI)
  have dist: "distinct (map adapted_id adapted)" "distinct (map (\<lambda>a. rule_id (adapted_spec a)) adapted)"
    using R(1) unfolding ids by (auto simp: distinct_map inj_on_def)
  obtain res where res: "run_engine env f adapted = Inr res"
    using run_engine_total [OF laws(2) _ dist(2), of f] each by (auto simp: list_all_iff)
  note E = run_engine_Inr [OF res]
  have len: "length adapted = length (rule_results res)" using list_all2_lengthD [OF E(3)] .
  have matches: "\<forall>k < length (rule_results res). result_rule (rule_results res ! k) = adapted_spec (adapted ! k) \<and>
        evaluated_count (rule_results res ! k) + skipped_count (rule_results res ! k) = source_rows (source_of d)"
    using E(3) evaluate_on_length [OF _ snap(5)] snap(4) by (auto simp: list_all2_conv_all_nth)
  have samples: "\<forall>r \<in> set (rule_results res). list_all sample_storable (violation_samples r)"
    using list_all2_member [OF E(3)] evaluate_on_storable [OF _ snap(7)] by blast
  have "evaluated_count r \<le> source_rows (source_of d)" if "r \<in> set (rule_results res)" for r
  proof -
    from that obtain k where k: "k < length (rule_results res)" "r = rule_results res ! k" by (auto simp: in_set_conv_nth)
    moreover have "0 \<le> skipped_count r" using that E(2) by (auto simp: list_all_iff result_ok_def)
    ultimately show ?thesis using matches by force
  qed
  then have "total_evaluated (rule_results res) \<le> source_rows (source_of d) * int (length adapted)"
    using evaluated_bound [OF E(3)] by blast
  then have bound: "total_evaluated (rule_results res) \<le> 10 ^ 34"
    using few list_all2_lengthD [OF adapted(2)] by (simp add: source_of_def)
  have "owns (datasets w) did owner" using D by (auto simp: owns_def)
  moreover have "distinct (map dataset_id (datasets w))" using ok by (simp add: world_ok_def datasets_by_id.table_ok_def)
  ultimately have "owns (datasets ?v) did owner" using between(1) by (simp add: extends_def)
  then have "did \<in> dataset_id ` set (datasets ?v)" by (auto simp: owns_def)
  moreover have "total_rows res = source_rows (source_of d)" using E(4) snap(4) by simp
  moreover have "list_all adapted_ok adapted" using each by (simp add: list_all_iff)
  moreover have "d \<in> set (datasets w)" using D by simp
  ultimately obtain detail w' where "persist_analysis c did (source_of d) adapted res ?v = (Inr detail, w')"
    using persist_succeeds [OF len _ works(4,2) E(2) samples matches bound source_of_ok [OF ok _ full] _ dist(1) between(3) _ between(2)]
    by blast
  moreover have "transaction (analysis_fault c 0) w (\<lambda>w. bind_result (capture_snapshot env c owner did w) (\<lambda>s. Inr (s, w))) =
      (Inr (source_of d, map persisted_rule_of ?rs, content), w)"
    using found full rules(1) D works(1,3) snap(1) by (simp add: transaction_Inr analysis_fault_def capture_snapshot_def Let_def)
  ultimately show ?thesis using snap(2) adapted(1) res by (simp add: create_analysis_def)
qed

end
