(* ===== verification/AnalysisProperties.thy ===== *)
theory AnalysisProperties
  imports AnalysisLiveness
begin

text \<open>
  The properties of the analysis component, with a small world on which each is evaluated.
\<close>

section \<open>What a detail says\<close>

lemma detail_fields:
  assumes "detail_reference a rows = Inr d"
  shows "summary_id d = analysis_id a" "summary_dataset_id d = analysis_dataset_id a" "summary_score d = analysis_score a"
    "summary_rows d = source_rows (analysis_source a)" "summary_violations d = analysis_violations a"
    "summary_created_at d = analysis_created_at a" "detail_source d = analysis_source a"
    "map_results result_reference_of rows = Inr (detail_results d)"
  using assms by (auto simp: detail_reference_def bind_result_Inr_iff summary_reference_def analysis_summary.defs)

lemma created_detail:
  assumes "create_analysis env c owner did w = (Inr detail, w')"
  shows "\<exists>d content f adapted res.
    get_for_owner (datasets w) did owner = Some d \<and>
    open_binary (the (storage_key d)) (files w) = Inr content \<and>
    size_bytes d = Some (int (length content)) \<and> content_sha256 d = Some (analysis_sha256 env content) \<and>
    read_csv env content = Some f \<and>
    list_all2 (\<lambda>r x. adapt_rule (schemas env) (persisted_rule_of r) = Inr x) (list_all_for_dataset (rules w) did) adapted \<and>
    validate (polars (schemas env)) (Frame f) (map adapted_spec adapted) = Inr res \<and>
    detail_source detail = source_of d \<and> summary_rows detail = total_rows res \<and>
    calculate_quality_score (rule_results res) = Inr (summary_score detail) \<and>
    summary_violations detail = sum_list (map violation_count (rule_results res)) \<and>
    detail_results detail =
      map (\<lambda>k. result_reference_for (int k) (adapted ! k) (rule_results res ! k)) [0..<length (rule_results res)]"
proof (rule create_analysis_adds [OF assms])
  fix d content f adapted res now score rows a
  assume 1: "get_for_owner (datasets w) did owner = Some d" "full_upload d"
    "read_verified_content env (file_read_fails c) (the (storage_key d)) (source_of d) (files w) = Inr content"
    "load_textual_csv env content (source_columns (source_of d)) (source_rows (source_of d)) = Inr f"
    "list_all2 (\<lambda>r x. adapt_rule (schemas env) (persisted_rule_of r) = Inr x) (list_all_for_dataset (rules w) did) adapted"
    "run_engine env f adapted = Inr res" "calculate_quality_score (rule_results res) = Inr score"
    "result_models (new_analysis_id c) (source_of d) 0 adapted (rule_results res) = Inr rows"
    and a: "a = \<lparr>analysis_id = new_analysis_id c, analysis_dataset_id = did, analysis_source = source_of d,
       analysis_violations = sum_list (map violation_count (rule_results res)),
       analysis_score = score, analysis_created_at = now\<rparr>"
    and detail: "detail_reference a rows = Inr detail"
  note E = run_engine_Inr [OF 1(6)]
  have content: "open_binary (the (storage_key d)) (files w) = Inr content"
    "int (length content) = source_size (source_of d)" "analysis_sha256 env content = source_sha256 (source_of d)"
    using 1(3) by (simp_all add: read_verified_content_Inr)
  then have "size_bytes d = Some (int (length content))" "content_sha256 d = Some (analysis_sha256 env content)"
    using 1(2) by (auto simp: source_of_def full_upload_def)
  moreover have "read_csv env content = Some f" "int (height f) = source_rows (source_of d)"
    using 1(4) by (auto simp: load_textual_csv_def split: option.splits if_splits)
  moreover have "detail_results detail =
      map (\<lambda>k. result_reference_for (int k) (adapted ! k) (rule_results res ! k)) [0..<length (rule_results res)]"
    using detail_fields(8) [OF detail] stored_references [OF 1(8) E(2)] by simp
  moreover have "detail_source detail = source_of d" "summary_rows detail = source_rows (source_of d)"
    "summary_score detail = score" "summary_violations detail = sum_list (map violation_count (rule_results res))"
    using detail_fields [OF detail] by (simp_all add: a)
  ultimately show ?thesis using 1 E(1,4) content(1) by (intro exI conjI) (assumption | simp)+
qed

lemma analyses_not_found:
  assumes "\<forall>d \<in> set (datasets w). dataset_id d = did \<longrightarrow> owner_id d \<noteq> owner"
  shows "create_analysis env c owner did w = (Inl AnalysisDatasetNotFound, w)"
    and "list_analyses c owner did limit offset w = (Inl AnalysisDatasetNotFound, w)"
    and "get_analysis c owner did aid w = (Inl AnalysisDatasetNotFound, w)"
proof -
  have none: "get_for_owner (datasets w) did owner = None" using not_owned [OF assms] .
  have "\<not> owns (datasets w) did owner" using assms by (auto simp: owns_def)
  then have "get_for_dataset_owner (datasets w) (analyses w) aid did owner = None"
    by (auto simp: get_for_dataset_owner_def find_None_iff)
  then show "get_analysis c owner did aid w = (Inl AnalysisDatasetNotFound, w)"
    by (simp add: get_analysis_def transaction_def)
  show "create_analysis env c owner did w = (Inl AnalysisDatasetNotFound, w)"
    "list_analyses c owner did limit offset w = (Inl AnalysisDatasetNotFound, w)"
    using none by (simp_all add: create_analysis_def list_analyses_def transaction_def capture_snapshot_def)
qed

section \<open>Samples that cannot be stored\<close>

lemma unstorable_sample_fails:
  assumes found: "get_for_owner (datasets w) did owner = Some d"
    and content: "open_binary (the (storage_key d)) (files w) = Inr content" and frame: "read_csv env content = Some f"
    and adapted: "list_all2 (\<lambda>r x. adapt_rule (schemas env) (persisted_rule_of r) = Inr x)
      (list_all_for_dataset (rules w) did) adapted"
    and res: "validate (polars (schemas env)) (Frame f) (map adapted_spec adapted) = Inr res"
    and bad: "r \<in> set (rule_results res)" "s \<in> set (violation_samples r)" "\<not> sample_storable s"
  shows "\<exists>e. fst (create_analysis env c owner did w) = Inl e"
proof (rule ccontr)
  assume "\<nexists>e. fst (create_analysis env c owner did w) = Inl e"
  then obtain detail w' where ok: "create_analysis env c owner did w = (Inr detail, w')"
    by (cases "create_analysis env c owner did w"; cases "fst (create_analysis env c owner did w)") auto
  show False
  proof (rule create_analysis_adds [OF ok])
    fix d' content' f' adapted' res' now score rows a
    assume 1: "get_for_owner (datasets w) did owner = Some d'"
      "read_verified_content env (file_read_fails c) (the (storage_key d')) (source_of d') (files w) = Inr content'"
      "load_textual_csv env content' (source_columns (source_of d')) (source_rows (source_of d')) = Inr f'"
      "list_all2 (\<lambda>r x. adapt_rule (schemas env) (persisted_rule_of r) = Inr x) (list_all_for_dataset (rules w) did) adapted'"
      "run_engine env f' adapted' = Inr res'"
      "result_models (new_analysis_id c) (source_of d') 0 adapted' (rule_results res') = Inr rows"
      "insert_results (analyses (while_analysing c w) @ [a]) rows (results (while_analysing c w)) =
        Inr (results (while_analysing c w) @ rows)"
    have "content' = content" using 1(1,2) found content by (simp add: read_verified_content_Inr)
    then have "f' = f" using 1(3) frame by (auto simp: load_textual_csv_def split: if_splits)
    moreover have "adapted' = adapted" using 1(4) adapted by (simp add: map_results_Inr_iff [symmetric])
    ultimately have res': "rule_results res' = rule_results res" using run_engine_Inr(1) [OF 1(5)] res by simp
    obtain k where k: "k < length (rule_results res)" "r = rule_results res ! k" using bad(1) by (auto simp: in_set_conv_nth)
    note R = result_models_Inr [OF 1(6)]
    have "k < length rows" using R k res' by simp
    then have "rows ! k \<in> set rows" by simp
    moreover have "row_samples (rows ! k) = map sample_json (violation_samples r)" using R k res' by simp
    moreover have "list_all result_row_ok rows" using insert_results_Inr [OF 1(7)] by blast
    ultimately have "list_all configuration_storable (map sample_json (violation_samples r))"
      by (auto simp: list_all_iff result_row_ok_def result_row_checks_def)
    then show False using bad(2,3) by (auto simp: list_all_iff sample_json_storable)
  qed
qed

section \<open>A concrete world\<close>

definition sample_key :: pystr where
  "sample_key = new_storage_key (Uuid 4)"

definition sample_row :: dataset_row where
  "sample_row = \<lparr>dataset_id = Uuid 5, owner_id = Uuid 1, dataset_name = [100],
     original_filename = Some (lit ''t.csv''), storage_key = Some sample_key, content_sha256 = Some (replicate 32 7),
     size_bytes = Some 8, dataset_row_count = Some 1, column_names = Some [[97]], uploaded_at = Some 9,
     dataset_created_at = 0, dataset_updated_at = 9\<rparr>"

definition sample_rule_row :: rule_row where
  "sample_rule_row = \<lparr>rule_row_id = Uuid 6, rule_dataset_id = Uuid 5, rule_type = lit ''required'',
     rule_target_column = [97], rule_configuration = [], rule_created_at = 9\<rparr>"

definition history_world :: analysis_world where
  "history_world = \<lparr>owners = {Uuid 1}, datasets = [sample_row], rules = [sample_rule_row],
     files = [sample_key \<mapsto> concat sample_chunks], analyses = [], results = []\<rparr>"

definition scan_frame :: "bytes \<Rightarrow> frame option" where
  "scan_frame b =
     (case scan_csv [b] of
        Inl _ \<Rightarrow> None
      | Inr st \<Rightarrow> Some
          \<lparr>columns = map (\<lambda>c. \<lparr>col_name = c, col_dtype = DString, col_values = replicate (row_count st) None\<rparr>) (csv_columns st),
           height = row_count st\<rparr>)"

definition sample_analysis_env :: analysis_env where
  "sample_analysis_env =
     \<lparr>schemas = sample_schema_env, analysis_sha256 = (\<lambda>b. replicate 32 7), read_csv = scan_frame\<rparr>"

definition sample_analysis_call :: "analysis_world analysis_call" where
  "sample_analysis_call =
     \<lparr>analysis_clock = AwareTime 9, analysis_txn_fails = (\<lambda>_. False), file_read_fails = False,
      new_analysis_id = Uuid 7, while_analysing = (\<lambda>w. w)\<rparr>"

lemma sample_key_valid: "is_storage_key sample_key"
  by (simp add: sample_key_def new_storage_key_valid)

lemma history_world_ok: "world_ok sample_files_env history_world"
proof -
  have "dataset_row_ok sample_row"
    using sample_key_valid by (simp add: dataset_row_ok_def dataset_row_checks_def sample_row_def btrim_id_def full_upload_def
        storage_key_storable [OF sample_key_valid, unfolded storable_text_def] storable_text_def)
  moreover have "upload_ok sample_files_env (files history_world) sample_row"
    using sample_scan sample_key_valid
    by (simp add: upload_ok_def sample_row_def history_world_def open_binary_Inr sample_files_env_def
        sample_chunks_def MAX_CSV_BYTES_def)
  moreover have "rule_row_ok sample_rule_row"
    by (simp add: rule_row_ok_def rule_row_checks_def sample_rule_row_def btrim_id_def rule_types_def
        storable_text_def configuration_storable_def)
  ultimately show ?thesis
    by (simp add: world_ok_def history_world_def datasets_by_id.table_ok_def rules_by_id.table_ok_def
        rules_by_definition.table_ok_def storage_key_free_def rule_fits_def)
      (simp add: sample_row_def sample_rule_row_def)
qed

lemma history_world_history: "history_ok history_world"
  by (simp add: history_ok_def history_world_def analyses_by_id.table_ok_def results_by_position.table_ok_def
      results_by_rule.table_ok_def)

lemma sample_readers_agree: "readers_agree sample_files_env sample_analysis_env"
  unfolding readers_agree_def
proof (intro allI impI)
  fix b st assume st: "scan_csv (split_file sample_files_env b) = Inr st"
  then have "distinct (csv_columns st)" using scan_csv_sound by (auto simp: valid_columns_def)
  then show "\<exists>f. read_csv sample_analysis_env b = Some f \<and> Engine.column_names f = csv_columns st \<and> height f = row_count st \<and>
          wf_frame f \<and> (\<forall>col \<in> set (columns f). col_dtype col = DString) \<and>
          (0 \<notin> set b \<longrightarrow> frame_storable f)"
    using st by (auto simp: sample_analysis_env_def scan_frame_def sample_files_env_def Engine.column_names_def wf_frame_def
        frame_storable_def list_all_iff o_def)
qed

lemma sample_analysis_found: "get_for_owner (datasets history_world) (Uuid 5) (Uuid 1) = Some sample_row"
  by (simp add: get_for_owner_def history_world_def sample_row_def)

lemma sample_rules: "list_all_for_dataset (rules history_world) (Uuid 5) = [sample_rule_row]"
  by (simp add: list_all_for_dataset_def history_world_def sample_rule_row_def order_by_def)

lemma sample_api_rule: "api_rule sample_analysis_env sample_rule_row"
  by (simp add: api_rule_def sample_rule_row_def good_configuration_def stored_as_def)
    (rule exI [where x = EmptyRuleConfiguration], simp)

lemma keeps_history_id: "keeps_history (\<lambda>w. w)"
  by (simp add: keeps_history_def)

lemma sample_call_works:
  "\<not> analysis_txn_fails sample_analysis_call n" "\<not> file_read_fails sample_analysis_call"
  "analysis_clock sample_analysis_call = AwareTime 9" "keeps_history (while_analysing sample_analysis_call)"
  "while_analysing sample_analysis_call w = w" "new_analysis_id sample_analysis_call = Uuid 7"
  by (simp_all add: sample_analysis_call_def keeps_history_id)

lemma sample_premises:
  "full_upload sample_row" "list_all_for_dataset (rules history_world) (Uuid 5) \<noteq> []"
  "\<forall>r \<in> set (list_all_for_dataset (rules history_world) (Uuid 5)). api_rule sample_analysis_env r"
  "finite_float_law (finite_float (schemas sample_analysis_env))"
  "contains_law (polars (schemas sample_analysis_env)) (\<lambda>p. True) (\<lambda>p s. py_startswith s p)"
  "analysis_sha256 sample_analysis_env = file_sha256 sample_files_env"
  "\<forall>k b. storage_key sample_row = Some k \<longrightarrow> files history_world k = Some b \<longrightarrow> 0 \<notin> set b"
  "the (dataset_row_count sample_row) * int (length (list_all_for_dataset (rules history_world) (Uuid 5))) \<le> 10 ^ 34"
  "extends history_world (while_analysing sample_analysis_call history_world)"
  "history_ok (while_analysing sample_analysis_call history_world)"
  "new_analysis_id sample_analysis_call \<notin> analysis_id ` set (analyses (while_analysing sample_analysis_call history_world))"
  using sample_api_rule sample_finite_float_law prefix_contains_law history_world_history
  by (simp_all only: sample_rules sample_call_works)
    (simp_all add: sample_row_def full_upload_def sample_analysis_env_def sample_schema_env_def sample_files_env_def
      history_world_def sample_chunks_def)

lemmas sample_analysis_premises =
  history_world_ok sample_analysis_found sample_premises(1-5) sample_readers_agree sample_premises(6,7)
  sample_call_works(1) sample_call_works(1) sample_call_works(2,3) sample_premises(8-11)

lemma sample_analysis: "\<exists>detail w'. create_analysis sample_analysis_env sample_analysis_call (Uuid 1) (Uuid 5) history_world =
    (Inr detail, w')"
  by (rule create_analysis_total [OF sample_analysis_premises])

definition sample_dataset_call' :: "analysis_world dataset_call" where
  "sample_dataset_call' = \<lparr>service_clock = AwareTime 9, txn_fails = (\<lambda>_. False), new_row_id = Uuid 8,
     candidate_uuid = Uuid 3, key_uuid = Uuid 4, write_fails = False, replace_fails = False,
     chmod_fails = False, discard_fails = False, undo_fails = False, remove_fails = False,
     in_between = (\<lambda>w. w)\<rparr>"

text \<open>A file with a cell U+0000 that violates a rule: an upload accepts it.\<close>

definition nul_content :: bytes where
  "nul_content = [97, 10, 0]"

definition nul_frame :: frame where
  "nul_frame = \<lparr>columns = [\<lparr>col_name = [97], col_dtype = DString, col_values = [Some [0]]\<rparr>], height = 1\<rparr>"

definition nul_rule_row :: rule_row where
  "nul_rule_row = sample_rule_row\<lparr>rule_type := lit ''type'',
     rule_configuration := [(lit ''expected_type'', VStr (lit ''integer''))]\<rparr>"

definition nul_world :: analysis_world where
  "nul_world = history_world\<lparr>datasets := [sample_row\<lparr>size_bytes := Some 3\<rparr>], rules := [nul_rule_row],
     files := [sample_key \<mapsto> nul_content]\<rparr>"

definition nul_analysis_env :: analysis_env where
  "nul_analysis_env = sample_analysis_env\<lparr>read_csv := (\<lambda>b. if b = nul_content then Some nul_frame else scan_frame b)\<rparr>"

lemma nul_scan: "scan_csv [nul_content] = Inr \<lparr>row_count = 1, csv_columns = [[97]]\<rparr>"
proof -
  have decoded: "sig_text (map unat (concat [nul_content])) = Some [97, 10, 0]"
    by (simp add: nul_content_def sig_text_def sig_body_def BOM_def utf8_decode.simps first_char_def sequence_length_def)
  have rows: "rows_text [[[97]], [[0]]] [97, 10, 0]"
  proof -
    have "rows_text [[[97]], [[0]]] ([97] @ [10] @ [0])"
      by (rule rows_more, simp_all add: line_end_def row_text_def field_text_def bare_char_def is_newline_def MAX_CSV_BYTES_def)
        (rule rows_last, simp add: row_text_def field_text_def bare_char_def is_newline_def MAX_CSV_BYTES_def)
    then show ?thesis by simp
  qed
  show ?thesis using scan_lines_text [OF rows] read_lines_whole [OF decoded]
    by (simp add: scan_csv_def validate_header_def bad_column_def py_strip_def py_isspace_def
        MAX_COLUMN_NAME_LENGTH_def MAX_COLUMNS_def)
qed

lemma nul_world_ok: "world_ok sample_files_env nul_world"
proof -
  note rows = sample_row_def sample_rule_row_def nul_rule_row_def
  have "dataset_row_ok (sample_row\<lparr>size_bytes := Some 3\<rparr>)"
    using sample_key_valid
    by (simp add: dataset_row_ok_def dataset_row_checks_def sample_row_def btrim_id_def full_upload_def
        storage_key_storable [OF sample_key_valid, unfolded storable_text_def] storable_text_def)
  moreover have "upload_ok sample_files_env (files nul_world) (sample_row\<lparr>size_bytes := Some 3\<rparr>)"
    using nul_scan sample_key_valid
    by (simp add: upload_ok_def sample_row_def nul_world_def open_binary_Inr sample_files_env_def MAX_CSV_BYTES_def)
      (simp add: nul_content_def)
  moreover have "rule_row_ok nul_rule_row"
    by (simp add: rule_row_ok_def rule_row_checks_def rows btrim_id_def rule_types_def storable_text_def
        configuration_storable_def)
  ultimately show ?thesis
    by (simp add: world_ok_def nul_world_def history_world_def datasets_by_id.table_ok_def rules_by_id.table_ok_def
        rules_by_definition.table_ok_def storage_key_free_def rule_fits_def)
      (simp add: rows)
qed

lemma nul_found: "get_for_owner (datasets nul_world) (Uuid 5) (Uuid 1) = Some (sample_row\<lparr>size_bytes := Some 3\<rparr>)"
  by (simp add: get_for_owner_def nul_world_def sample_row_def)

lemma nul_stored: "open_binary (the (storage_key (sample_row\<lparr>size_bytes := Some 3\<rparr>))) (files nul_world) = Inr nul_content"
  using sample_key_valid by (simp add: open_binary_Inr nul_world_def sample_row_def)

definition nul_spec :: rule_spec where
  "nul_spec = TypeRuleSpec (VUuid (Uuid 6)) (VStr [97]) (VStr (lit ''integer''))"

lemma nul_adapted:
  "list_all2 (\<lambda>r x. adapt_rule (schemas nul_analysis_env) (persisted_rule_of r) = Inr x)
     (list_all_for_dataset (rules nul_world) (Uuid 5))
     [\<lparr>adapted_id = Uuid 6, adapted_type = lit ''type'', adapted_column = [97],
       adapted_configuration = [(lit ''expected_type'', VStr (lit ''integer''))], adapted_spec = nul_spec\<rparr>]"
proof -
  have "list_all_for_dataset (rules nul_world) (Uuid 5) = [nul_rule_row]"
    by (simp add: list_all_for_dataset_def nul_world_def nul_rule_row_def sample_rule_row_def order_by_def)
  then show ?thesis
    by (simp add: persisted_rule_of_def nul_rule_row_def sample_rule_row_def adapt_rule_def Let_def parsed_def
        validate_type_def only_fields_def expected_types_def nul_spec_def)
qed

lemma nul_result:
  "validate (polars (schemas nul_analysis_env)) (Frame nul_frame) [nul_spec] =
     Inr \<lparr>total_rows = 1, rule_results = [spec_result nul_spec [Some [0]] (missing_at [Some [0]])
       (\<lambda>k. \<not> conforms (lit ''integer'') (the ([Some [0]] ! k)))]\<rparr>"
proof -
  have "lit ''integer'' \<in> set expected_types" by (simp add: expected_types_def)
  from type_rule_spec [OF this] show ?thesis
    by (simp add: validate_Inr valid_rule_def valid_target_def valid_parameters_def nul_spec_def nul_frame_def
        find_column_def evaluate_on_def get_column_def expected_types_def)
qed

section \<open>Properties\<close>

text \<open>
  C1. Under all calls of the dataset and analysis services, in any order, with any failure, the world
  stays consistent: besides datasets, rules and files, every stored analysis satisfies its
  constraints and belongs to a dataset, its results are numbered from 0 without a gap, each
  accounts for every row of the source, their violations add up to the recorded total, and all of
  it can be read back without an integrity error.
\<close>

theorem services_keep_world_consistent:
  assumes "service_run denv aenv w w'" and "world_ok denv w \<and> history_ok w"
  shows "world_ok denv w' \<and> history_ok w'"
  using assms by (rule service_run_ok)

theorem services_keep_world_consistent_witness:
  "history_ok (snd (create_analysis sample_analysis_env sample_analysis_call (Uuid 1) (Uuid 5) history_world))"
proof -
  have "service_step sample_files_env sample_analysis_env history_world
      (snd (create_analysis sample_analysis_env sample_analysis_call (Uuid 1) (Uuid 5) history_world))"
    by (rule service_analysis) (simp_all add: sample_analysis_call_def keeps_history_id)
  from services_keep_world_consistent [OF service_more [OF service_none this]] show ?thesis
    using history_world_ok history_world_history by simp
qed

text \<open>
  C9. An analysis once stored never changes: whatever is called afterwards, uploads of other files,
  new or deleted rules, further analyses, its owner reads the same detail.
\<close>

theorem history_is_immutable:
  assumes "get_analysis c owner did aid w = (Inr detail, w)" and "service_run denv aenv w w'"
    and "world_ok denv w" and "\<not> analysis_txn_fails c' 0"
  shows "get_analysis c' owner did aid w' = (Inr detail, w')"
proof -
  have "distinct (map dataset_id (datasets w))" using assms(3) by (simp add: world_ok_def datasets_by_id.table_ok_def)
  then show ?thesis using get_analysis_extends [OF assms(1) service_run_extends [OF assms(2)] _ assms(4)] by simp
qed

text \<open>
  What an analysis reports is what its owner reads: the detail that the call returns is the one
  stored under the new identifier.
\<close>

theorem created_analysis_is_stored:
  assumes "create_analysis env c owner did w = (Inr detail, w')" and "keeps_history (while_analysing c)"
    and "world_ok denv w" and "history_ok w" and "\<not> analysis_txn_fails c' 0"
  shows "get_analysis c' owner did (summary_id detail) w' = (Inr detail, w')"
proof -
  have "distinct (map dataset_id (datasets w))" using assms(3) by (simp add: world_ok_def datasets_by_id.table_ok_def)
  moreover have "history_ok (while_analysing c w)" "extends w (while_analysing c w)"
    using assms(2,4) by (simp_all add: keeps_history_def)
  moreover have "summary_id (analysis_summary.truncate detail) = summary_id detail" by (simp add: analysis_summary.defs)
  ultimately show ?thesis using get_created_analysis [OF assms(1) _ _ _ assms(5)] by simp
qed

theorem created_analysis_is_stored_witness:
  "\<exists>detail w'. create_analysis sample_analysis_env sample_analysis_call (Uuid 1) (Uuid 5) history_world = (Inr detail, w') \<and>
     get_analysis sample_analysis_call (Uuid 1) (Uuid 5) (summary_id detail) w' = (Inr detail, w')"
proof -
  obtain detail w' where d: "create_analysis sample_analysis_env sample_analysis_call (Uuid 1) (Uuid 5) history_world = (Inr detail, w')"
    using sample_analysis by blast
  have "keeps_history (while_analysing sample_analysis_call)" "\<not> analysis_txn_fails sample_analysis_call 0"
    by (simp_all add: sample_analysis_call_def keeps_history_id)
  then show ?thesis
    using created_analysis_is_stored [OF d _ history_world_ok history_world_history] d by blast
qed

theorem history_is_immutable_witness:
  "\<exists>detail w'. get_analysis sample_analysis_call (Uuid 1) (Uuid 5) (Uuid 7) w' = (Inr detail, w') \<and>
     get_analysis sample_analysis_call (Uuid 1) (Uuid 5) (Uuid 7)
       (snd (delete_rule sample_dataset_call' (Uuid 1) (Uuid 5) (Uuid 6) w')) =
     (Inr detail, snd (delete_rule sample_dataset_call' (Uuid 1) (Uuid 5) (Uuid 6) w'))"
proof -
  obtain detail w' where d: "create_analysis sample_analysis_env sample_analysis_call (Uuid 1) (Uuid 5) history_world = (Inr detail, w')"
    using sample_analysis by blast
  have works: "keeps_history (while_analysing sample_analysis_call)" "\<not> analysis_txn_fails sample_analysis_call 0"
    by (simp_all add: sample_analysis_call_def keeps_history_id)
  have "get_analysis sample_analysis_call (Uuid 1) (Uuid 5) (new_analysis_id sample_analysis_call) w' = (Inr detail, w')"
    using get_created_analysis [OF d _ _ _ works(2)] works(1) history_world_history history_world_ok
    by (simp add: keeps_history_def world_ok_def datasets_by_id.table_ok_def)
  then have got: "get_analysis sample_analysis_call (Uuid 1) (Uuid 5) (Uuid 7) w' = (Inr detail, w')"
    by (simp add: sample_analysis_call_def)
  have "world_ok sample_files_env (snd (create_analysis sample_analysis_env sample_analysis_call (Uuid 1) (Uuid 5) history_world))"
    by (rule world_ok_create_analysis) (simp_all add: history_world_ok sample_analysis_call_def)
  then have ok: "world_ok sample_files_env w'" using d by simp
  have "service_run sample_files_env sample_analysis_env w' (snd (delete_rule sample_dataset_call' (Uuid 1) (Uuid 5) (Uuid 6) w'))"
    by (rule service_more [OF service_none service_delete_rule])
  from history_is_immutable [OF got this ok works(2)] got show ?thesis by blast
qed

text \<open>
  C7. A successful analysis describes the active upload of the caller's dataset and nothing else: the
  file's length and hash are the recorded ones, its frame was validated against the dataset's
  rules in their order, and score, total and results of the detail are those of the engine.
\<close>

theorem analysis_describes_verified_source:
  assumes "create_analysis env c owner did w = (Inr detail, w')"
  shows "\<exists>d content f adapted res.
    get_for_owner (datasets w) did owner = Some d \<and>
    open_binary (the (storage_key d)) (files w) = Inr content \<and>
    size_bytes d = Some (int (length content)) \<and> content_sha256 d = Some (analysis_sha256 env content) \<and>
    read_csv env content = Some f \<and>
    list_all2 (\<lambda>r x. adapt_rule (schemas env) (persisted_rule_of r) = Inr x) (list_all_for_dataset (rules w) did) adapted \<and>
    validate (polars (schemas env)) (Frame f) (map adapted_spec adapted) = Inr res \<and>
    detail_source detail = source_of d \<and> summary_rows detail = total_rows res \<and>
    calculate_quality_score (rule_results res) = Inr (summary_score detail) \<and>
    summary_violations detail = sum_list (map violation_count (rule_results res)) \<and>
    detail_results detail =
      map (\<lambda>k. result_reference_for (int k) (adapted ! k) (rule_results res ! k)) [0..<length (rule_results res)]"
  using assms by (rule created_detail)

theorem analysis_describes_verified_source_witness:
  "\<exists>detail w'. create_analysis sample_analysis_env sample_analysis_call (Uuid 1) (Uuid 5) history_world = (Inr detail, w') \<and>
     detail_source detail = source_of sample_row"
proof -
  obtain detail w' where d: "create_analysis sample_analysis_env sample_analysis_call (Uuid 1) (Uuid 5) history_world = (Inr detail, w')"
    using sample_analysis by blast
  from analysis_describes_verified_source [OF d] show ?thesis using d sample_analysis_found by auto
qed



text \<open>
  An analysis that fails stores nothing: the world is as it was, or as the others left it
  meanwhile; analyses of foreign datasets can neither be made, nor listed, nor read.
\<close>

theorem failed_analysis_stores_nothing:
  assumes "create_analysis env c owner did w = (Inl e, w')"
  shows "(w' = w \<or> w' = while_analysing c w) \<and>
    ((\<forall>d \<in> set (datasets w). dataset_id d = did \<longrightarrow> owner_id d \<noteq> owner) \<longrightarrow>
      e = AnalysisDatasetNotFound \<and> w' = w \<and>
      list_analyses c owner did limit offset w = (Inl AnalysisDatasetNotFound, w) \<and>
      get_analysis c owner did aid w = (Inl AnalysisDatasetNotFound, w))"
proof (intro conjI impI)
  show "w' = w \<or> w' = while_analysing c w" using create_analysis_Inl [OF assms] .
qed (use assms analyses_not_found [of w did owner] in auto)

theorem failed_analysis_stores_nothing_witness:
  "snd (create_analysis sample_analysis_env sample_analysis_call (Uuid 2) (Uuid 5) history_world) = history_world"
proof -
  have other: "\<forall>d \<in> set (datasets history_world). dataset_id d = Uuid 5 \<longrightarrow> owner_id d \<noteq> Uuid 2"
    by (simp add: history_world_def sample_row_def)
  have "create_analysis sample_analysis_env sample_analysis_call (Uuid 2) (Uuid 5) history_world =
      (Inl AnalysisDatasetNotFound, history_world)"
    using analyses_not_found(1) [OF other] .
  then obtain w' where w': "create_analysis sample_analysis_env sample_analysis_call (Uuid 2) (Uuid 5) history_world =
      (Inl AnalysisDatasetNotFound, w')" by blast
  from failed_analysis_stores_nothing [OF this] have "w' = history_world" by (simp only: sample_call_works simp_thms)
  then show ?thesis using w' by simp
qed

text \<open>
  C38. A file may contain U+0000, but PostgreSQL cannot hold the character: when a kept sample of a
  violation shows one, the results cannot be inserted, and the dataset cannot be analysed however
  often it is tried, although upload, rules and engine accept it.
\<close>

theorem nul_samples_cannot_be_stored:
  assumes "get_for_owner (datasets w) did owner = Some d"
    and "open_binary (the (storage_key d)) (files w) = Inr content" and "read_csv env content = Some f"
    and "list_all2 (\<lambda>r x. adapt_rule (schemas env) (persisted_rule_of r) = Inr x)
      (list_all_for_dataset (rules w) did) adapted"
    and "validate (polars (schemas env)) (Frame f) (map adapted_spec adapted) = Inr res"
    and "r \<in> set (rule_results res)" and "s \<in> set (violation_samples r)"
    and "value_preview s = Some p" and "0 \<in> set p"
  shows "\<exists>e. fst (create_analysis env c owner did w) = Inl e"
  using assms(8,9) by (intro unstorable_sample_fails [OF assms(1-7)]) (simp add: sample_storable_def storable_text_def)

theorem nul_samples_cannot_be_stored_witness:
  "world_ok sample_files_env nul_world \<and>
   (\<forall>c. \<exists>e. fst (create_analysis nul_analysis_env c (Uuid 1) (Uuid 5) nul_world) = Inl e)"
proof (intro conjI allI)
  fix c
  have frame: "read_csv nul_analysis_env nul_content = Some nul_frame" by (simp add: nul_analysis_env_def)
  let ?r = "spec_result nul_spec [Some [0]] (missing_at [Some [0]]) (\<lambda>k. \<not> conforms (lit ''integer'') (the ([Some [0]] ! k)))"
  have "missing_at [Some [0]] 0 = False" by (simp add: missing_at_def is_missing_def py_strip_def py_isspace_def)
  moreover have "\<not> conforms (lit ''integer'') [0]"
    by (auto simp: conforms_def is_integer_literal_def is_digits_def is_digit_def Cons_eq_append_conv)
  ultimately have "make_sample 1 (Some [0]) \<in> set (violation_samples ?r)"
    by (simp add: spec_result_def rows_where_def VIOLATION_SAMPLE_LIMIT_def)
  from nul_samples_cannot_be_stored [OF nul_found nul_stored frame nul_adapted _ _ this, of _ _ c]
  show "\<exists>e. fst (create_analysis nul_analysis_env c (Uuid 1) (Uuid 5) nul_world) = Inl e"
    using nul_result by (simp add: make_sample_def VALUE_PREVIEW_LIMIT_def)
qed (rule nul_world_ok)

end
