(* ===== verification/Catalogue.thy ===== *)
theory Catalogue
  imports AnalysisProperties
begin

text \<open>
  What dataset and analysis services promise, without tables, storage keys, candidates or
  transactions: a catalogue of datasets with an owner, a name and the content of the last upload,
  of checks on their columns, and of analyses made. Each operation is one atomic step on it. The
  detailed services refine it: a call made alone that returns takes the catalogue of its world by
  the one step it asks for, and a call that raises leaves the catalogue as it was.
\<close>

section \<open>The abstract catalogue\<close>

record catalogue_entry =
  entry_owner :: uuid
  entry_name :: pystr
  entry_content :: "bytes option"

record catalogue =
  entries :: "uuid \<Rightarrow> catalogue_entry option"
  checks :: "uuid \<Rightarrow> (uuid \<times> pystr \<times> pystr \<times> configuration) option"
  history :: "uuid \<Rightarrow> analysis_row option"





section \<open>The catalogue of a world\<close>

definition entry_of :: "files \<Rightarrow> dataset_row \<Rightarrow> catalogue_entry" where
  "entry_of fs d =
     \<lparr>entry_owner = owner_id d, entry_name = dataset_name d,
      entry_content = (case storage_key d of None \<Rightarrow> None | Some k \<Rightarrow> fs k)\<rparr>"

definition row_by :: "('row \<Rightarrow> uuid) \<Rightarrow> 'row list \<Rightarrow> uuid \<Rightarrow> 'row option" where
  "row_by key rows i = find (\<lambda>r. key r = i) rows"

definition catalogue_of :: "'a analysis_world_scheme \<Rightarrow> catalogue" where
  "catalogue_of w =
     \<lparr>entries = (\<lambda>i. map_option (entry_of (files w)) (row_by dataset_id (datasets w) i)),
      checks = (\<lambda>i. map_option rule_definition (row_by rule_row_id (rules w) i)),
      history = row_by analysis_id (analyses w)\<rparr>"









lemma catalogue_of_simps [simp]:
  "entries (catalogue_of w) = (\<lambda>i. map_option (entry_of (files w)) (row_by dataset_id (datasets w) i))"
  "checks (catalogue_of w) = (\<lambda>i. map_option rule_definition (row_by rule_row_id (rules w) i))"
  "history (catalogue_of w) = row_by analysis_id (analyses w)"
  by (simp_all add: catalogue_of_def)






section \<open>Refinement, call by call\<close>






section \<open>Refinement of every call\<close>



section \<open>Property\<close>



end
