(* ===== verification/Sql.thy ===== *)
theory Sql
  imports DatasetStore "HOL-Library.List_Lexorder" "HOL-Library.Char_ord"
begin

text \<open>
  The part of SQL the migrations and the models speak: values, \<open>CHECK\<close> conditions with their
  three-valued logic, table definitions, and the statements that create and drop tables and
  indexes. The named tables of \<open>IdentityStore\<close>, \<open>DatasetStore\<close> and \<open>AnalysisStore\<close> say what
  an insert does; this theory says what the database does with a definition.
\<close>

section \<open>Values\<close>

datatype sql_value =
    SqlNull
  | SqlUuid uuid
  | SqlText pystr
  | SqlBytes bytes
  | SqlTime instant
  | SqlInt int
  | SqlNumeric rat
  | SqlJson pyval

datatype sql_type =
    UuidType
  | Varchar nat
  | TextType
  | ByteaType
  | TimestampTz
  | IntegerType
  | BigIntType
  | NumericType nat nat
  | JsonbType

text \<open>Which values a column of a type takes as they are. Every column type takes \<open>NULL\<close>.\<close>

fun fits :: "sql_type \<Rightarrow> sql_value \<Rightarrow> bool" where
  "fits _ SqlNull = True"
| "fits UuidType (SqlUuid u) = True"
| "fits (Varchar n) (SqlText s) = (storable_text s \<and> length s \<le> n)"
| "fits TextType (SqlText s) = storable_text s"
| "fits ByteaType (SqlBytes b) = True"
| "fits TimestampTz (SqlTime t) = True"
| "fits IntegerType (SqlInt i) = (- (2 ^ 31) \<le> i \<and> i < 2 ^ 31)"
| "fits BigIntType (SqlInt i) = (- (2 ^ 63) \<le> i \<and> i < 2 ^ 63)"
| "fits (NumericType precision scale) (SqlNumeric q) =
     (of_int \<lfloor>q * 10 ^ scale\<rfloor> = q * 10 ^ scale \<and> \<bar>q * 10 ^ scale\<bar> < 10 ^ precision)"
| "fits JsonbType (SqlJson v) = json_storable v"
| "fits _ _ = False"

text \<open>
  \<open>jsonb\<close> compares numbers by their value and objects without regard to the order of their keys:
  two documents are equal when their normal forms are.
\<close>

fun jsonb_normal :: "pyval \<Rightarrow> pyval" where
  "jsonb_normal (VFloat (FFin q)) = (if of_int \<lfloor>q\<rfloor> = q then VInt \<lfloor>q\<rfloor> else VFloat (FFin q))"
| "jsonb_normal (VList vs) = VList (map jsonb_normal vs)"
| "jsonb_normal (VDict kvs) = VDict (sort_key fst (map (\<lambda>(k, v). (k, jsonb_normal v)) kvs))"
| "jsonb_normal v = v"

fun jsonb_typeof :: "pyval \<Rightarrow> pystr" where
  "jsonb_typeof VNone = lit ''null''"
| "jsonb_typeof (VBool b) = lit ''boolean''"
| "jsonb_typeof (VStr s) = lit ''string''"
| "jsonb_typeof (VList vs) = lit ''array''"
| "jsonb_typeof (VDict kvs) = lit ''object''"
| "jsonb_typeof _ = lit ''number''"

named_theorems sql_simps \<comment> \<open>what a \<open>CHECK\<close> says of a row\<close>

type_synonym sql_row = "(string \<times> sql_value) list"

definition value_of :: "sql_row \<Rightarrow> string \<Rightarrow> sql_value" where
  "value_of row c = (case map_of row c of None \<Rightarrow> SqlNull | Some v \<Rightarrow> v)"

lemma value_of_Cons [simp]: "value_of ((c, v) # row) d = (if c = d then v else value_of row d)"
  by (simp add: value_of_def)

section \<open>Conditions\<close>

datatype sql_term =
    Column string
  | IntLiteral int
  | NumericLiteral rat
  | TextLiteral string
  | OctetLength sql_term
  | CharLength sql_term
  | LowerOf sql_term
  | BtrimOf sql_term
  | JsonbTypeof sql_term
  | JsonbArrayLength sql_term
  | Plus sql_term sql_term
  | PlusInterval sql_term int

datatype sql_condition =
    Equal sql_term sql_term
  | AtLeast sql_term sql_term
  | AtMost sql_term sql_term
  | InTexts sql_term "string list"
  | MatchesRegex sql_term rx
  | IsNull sql_term
  | Both sql_condition sql_condition
  | Either sql_condition sql_condition
  | Negated sql_condition

abbreviation NotNull :: "sql_term \<Rightarrow> sql_condition" where
  "NotNull t \<equiv> Negated (IsNull t)"

definition Between :: "sql_term \<Rightarrow> sql_term \<Rightarrow> sql_term \<Rightarrow> sql_condition" where
  "Between t lo hi = Both (AtLeast t lo) (AtMost t hi)"

fun all_of :: "sql_condition \<Rightarrow> sql_condition list \<Rightarrow> sql_condition" where
  "all_of c [] = c"
| "all_of c (d # ds) = Both c (all_of d ds)"

text \<open>
  \<open>btrim\<close> removes spaces on both sides, \<open>lower\<close> is used on ASCII only, and the operator \<open>~\<close> with
  a pattern between \<open>^\<close> and \<open>$\<close>, which is what \<open>MatchesRegex\<close> stands for.
\<close>

definition btrim :: "pystr \<Rightarrow> pystr" where
  "btrim s = rev (dropWhile (\<lambda>c. c = 32) (rev (dropWhile (\<lambda>c. c = 32) s)))"

text \<open>
  Functions of \<open>NULL\<close> are \<open>NULL\<close>. So are, here, functions of values outside their domain; the
  database rejects a condition whose types do not fit when its table is created.
\<close>

fun eval_term :: "sql_row \<Rightarrow> sql_term \<Rightarrow> sql_value" where
  "eval_term row (Column c) = value_of row c"
| "eval_term row (IntLiteral i) = SqlInt i"
| "eval_term row (NumericLiteral q) = SqlNumeric q"
| "eval_term row (TextLiteral s) = SqlText (lit s)"
| "eval_term row (OctetLength t) =
     (case eval_term row t of
        SqlText s \<Rightarrow> SqlInt (int (length (utf8_encode s)))
      | SqlBytes b \<Rightarrow> SqlInt (int (length b))
      | _ \<Rightarrow> SqlNull)"
| "eval_term row (CharLength t) = (case eval_term row t of SqlText s \<Rightarrow> SqlInt (int (length s)) | _ \<Rightarrow> SqlNull)"
| "eval_term row (LowerOf t) = (case eval_term row t of SqlText s \<Rightarrow> SqlText (map ascii_lower s) | _ \<Rightarrow> SqlNull)"
| "eval_term row (BtrimOf t) = (case eval_term row t of SqlText s \<Rightarrow> SqlText (btrim s) | _ \<Rightarrow> SqlNull)"
| "eval_term row (JsonbTypeof t) = (case eval_term row t of SqlJson v \<Rightarrow> SqlText (jsonb_typeof v) | _ \<Rightarrow> SqlNull)"
| "eval_term row (JsonbArrayLength t) =
     (case eval_term row t of SqlJson (VList vs) \<Rightarrow> SqlInt (int (length vs)) | _ \<Rightarrow> SqlNull)"
| "eval_term row (Plus t u) =
     (case (eval_term row t, eval_term row u) of (SqlInt i, SqlInt j) \<Rightarrow> SqlInt (i + j) | _ \<Rightarrow> SqlNull)"
| "eval_term row (PlusInterval t d) = (case eval_term row t of SqlTime x \<Rightarrow> SqlTime (x + d) | _ \<Rightarrow> SqlNull)"

definition equal_values :: "sql_value \<Rightarrow> sql_value \<Rightarrow> bool option" where
  "equal_values a b = (if a = SqlNull \<or> b = SqlNull then None else Some (a = b))"

fun at_most :: "sql_value \<Rightarrow> sql_value \<Rightarrow> bool option" where
  "at_most (SqlInt i) (SqlInt j) = Some (i \<le> j)"
| "at_most (SqlTime i) (SqlTime j) = Some (i \<le> j)"
| "at_most (SqlNumeric p) (SqlNumeric q) = Some (p \<le> q)"
| "at_most _ _ = None"

text \<open>The connectives of three-valued logic.\<close>

fun and3 :: "bool option \<Rightarrow> bool option \<Rightarrow> bool option" where
  "and3 (Some False) b = Some False"
| "and3 (Some True) b = b"
| "and3 None b = (if b = Some False then Some False else None)"

fun or3 :: "bool option \<Rightarrow> bool option \<Rightarrow> bool option" where
  "or3 (Some True) b = Some True"
| "or3 (Some False) b = b"
| "or3 None b = (if b = Some True then Some True else None)"

fun holds3 :: "sql_row \<Rightarrow> sql_condition \<Rightarrow> bool option" where
  "holds3 row (Equal t u) = equal_values (eval_term row t) (eval_term row u)"
| "holds3 row (AtLeast t u) = at_most (eval_term row u) (eval_term row t)"
| "holds3 row (AtMost t u) = at_most (eval_term row t) (eval_term row u)"
| "holds3 row (InTexts t texts) = (case eval_term row t of SqlText s \<Rightarrow> Some (s \<in> set (map lit texts)) | _ \<Rightarrow> None)"
| "holds3 row (MatchesRegex t r) = (case eval_term row t of SqlText s \<Rightarrow> Some (fullmatch r s) | _ \<Rightarrow> None)"
| "holds3 row (IsNull t) = Some (eval_term row t = SqlNull)"
| "holds3 row (Both c d) = and3 (holds3 row c) (holds3 row d)"
| "holds3 row (Either c d) = or3 (holds3 row c) (holds3 row d)"
| "holds3 row (Negated c) = map_option Not (holds3 row c)"

text \<open>A \<open>CHECK\<close> rejects a row when its condition is false, not when it is unknown.\<close>

definition check_passes :: "sql_row \<Rightarrow> sql_condition \<Rightarrow> bool" where
  "check_passes row c \<longleftrightarrow> holds3 row c \<noteq> Some False"

section \<open>Reading conditions\<close>

lemma and3_Some [simp]: "and3 (Some a) (Some b) = Some (a \<and> b)"
  by (cases a) simp_all

lemma or3_Some [simp]: "or3 (Some a) (Some b) = Some (a \<or> b)"
  by (cases a) simp_all

lemma check_Both [sql_simps]: "check_passes row (Both c d) \<longleftrightarrow> check_passes row c \<and> check_passes row d"
  by (cases "(holds3 row c, holds3 row d)" rule: and3.cases) (auto simp: check_passes_def)

lemma check_Between [sql_simps]:
  "check_passes row (Between t lo hi) \<longleftrightarrow> check_passes row (AtLeast t lo) \<and> check_passes row (AtMost t hi)"
  by (simp add: Between_def check_Both)

lemma check_null_or [sql_simps]: "check_passes row (Either (IsNull t) c) \<longleftrightarrow> eval_term row t = SqlNull \<or> check_passes row c"
  by (cases "eval_term row t = SqlNull") (simp_all add: check_passes_def)

lemma check_comparisons [sql_simps]:
  "check_passes row (AtLeast t u) \<longleftrightarrow> at_most (eval_term row u) (eval_term row t) \<noteq> Some False"
  "check_passes row (AtMost t u) \<longleftrightarrow> at_most (eval_term row t) (eval_term row u) \<noteq> Some False"
  "check_passes row (Equal t u) \<longleftrightarrow>
     eval_term row t = SqlNull \<or> eval_term row u = SqlNull \<or> eval_term row t = eval_term row u"
  by (auto simp: check_passes_def equal_values_def)

lemma btrim_fixed: "btrim s = s \<longleftrightarrow> btrim_id s"
proof
  let ?u = "dropWhile (\<lambda>c. c = 32) s"
  assume b: "btrim s = s"
  have "length (btrim s) \<le> length ?u" by (simp add: btrim_def length_dropWhile_le [of _ "rev ?u", simplified])
  then have "length s \<le> length ?u" using b by simp
  then have u: "?u = s"
    using takeWhile_dropWhile_id [of "\<lambda>c. c = 32" s] length_dropWhile_le [of "\<lambda>c. c = 32" s]
    by (metis append_self_conv2 length_0_conv length_append add_right_cancel le_antisym add_0)
  then have "rev (dropWhile (\<lambda>c. c = 32) (rev s)) = s" using b by (simp add: btrim_def)
  then have "dropWhile (\<lambda>c. c = 32) (rev s) = rev s" by (metis rev_rev_ident)
  then show "btrim_id s" using u unfolding dropWhile_eq_self_iff by (auto simp: btrim_id_def hd_rev)
next
  assume "btrim_id s"
  then have "dropWhile (\<lambda>c. c = 32) s = s" "dropWhile (\<lambda>c. c = 32) (rev s) = rev s"
    unfolding dropWhile_eq_self_iff by (auto simp: btrim_id_def hd_rev)
  then show "btrim s = s" by (simp add: btrim_def)
qed

text \<open>A document can be stored when its normal form can.\<close>

lemma json_storable_normal [simp]: "json_storable (jsonb_normal v) = json_storable v"
proof (induction v rule: jsonb_normal.induct)
  case (3 kvs)
  then show ?case by (auto simp: case_prod_beta)
qed auto

section \<open>Definitions of tables\<close>

record column_def =
  field_name :: string
  field_type :: sql_type
  may_be_null :: bool

datatype table_constraint =
    Check string sql_condition
  | PrimaryKey string "string list"
  | Unique string "string list"
  | ForeignKey string "string list" string "string list"

record table_def =
  table_name :: string
  table_columns :: "column_def list"
  table_constraints :: "table_constraint list"

record index_def =
  index_name :: string
  index_table :: string
  index_columns :: "string list"
  index_where :: "sql_condition option"

record schema =
  tables :: "table_def list"
  indexes :: "index_def list"

definition empty_schema :: schema where
  "empty_schema = \<lparr>tables = [], indexes = []\<rparr>"

text \<open>Checks are made in the order of their names, then the unique indexes, then foreign keys.\<close>

fun checks_of :: "table_constraint list \<Rightarrow> (string \<times> sql_condition) list" where
  "checks_of [] = []"
| "checks_of (Check n c # cs) = (n, c) # checks_of cs"
| "checks_of (_ # cs) = checks_of cs"

fun primary_keys :: "table_constraint list \<Rightarrow> (string \<times> string list) list" where
  "primary_keys [] = []"
| "primary_keys (PrimaryKey n ks # cs) = (n, ks) # primary_keys cs"
| "primary_keys (_ # cs) = primary_keys cs"

fun uniques :: "table_constraint list \<Rightarrow> (string \<times> string list) list" where
  "uniques [] = []"
| "uniques (Unique n ks # cs) = (n, ks) # uniques cs"
| "uniques (_ # cs) = uniques cs"

fun foreign_keys :: "table_constraint list \<Rightarrow> (string \<times> string list \<times> string \<times> string list) list" where
  "foreign_keys [] = []"
| "foreign_keys (ForeignKey n ks t rs # cs) = (n, ks, t, rs) # foreign_keys cs"
| "foreign_keys (_ # cs) = foreign_keys cs"

fun constraint_name_of :: "table_constraint \<Rightarrow> string" where
  "constraint_name_of (Check n c) = n"
| "constraint_name_of (PrimaryKey n ks) = n"
| "constraint_name_of (Unique n ks) = n"
| "constraint_name_of (ForeignKey n ks t rs) = n"

section \<open>Inserting rows\<close>

type_synonym contents = "string \<Rightarrow> sql_row list"

definition key_values :: "sql_row \<Rightarrow> string list \<Rightarrow> sql_value list" where
  "key_values row ks = map (value_of row) ks"

text \<open>Nulls are distinct from each other, and a foreign key with a null refers to nothing.\<close>

definition key_free :: "sql_row list \<Rightarrow> string list \<Rightarrow> sql_row \<Rightarrow> bool" where
  "key_free rows ks row \<longleftrightarrow>
     SqlNull \<in> set (key_values row ks) \<or> (\<forall>r \<in> set rows. key_values r ks \<noteq> key_values row ks)"

definition refers :: "sql_row list \<Rightarrow> string list \<Rightarrow> string list \<Rightarrow> sql_row \<Rightarrow> bool" where
  "refers rows ks rs row \<longleftrightarrow>
     SqlNull \<in> set (key_values row ks) \<or> (\<exists>r \<in> set rows. key_values r rs = key_values row ks)"

definition row_fits :: "table_def \<Rightarrow> sql_row \<Rightarrow> bool" where
  "row_fits t row \<longleftrightarrow> list_all (\<lambda>f. fits (field_type f) (value_of row (field_name f))) (table_columns t)"

definition row_complete :: "table_def \<Rightarrow> sql_row \<Rightarrow> bool" where
  "row_complete t row \<longleftrightarrow> list_all (\<lambda>f. may_be_null f \<or> value_of row (field_name f) \<noteq> SqlNull) (table_columns t)"

text \<open>What a row itself says, and its keys against the other rows of its table; then its references.\<close>

definition own_constraints :: "table_def \<Rightarrow> sql_row list \<Rightarrow> sql_row \<Rightarrow> (constraint_name \<times> bool) list" where
  "own_constraints t others row =
     (let cs = table_constraints t in
      (''unstorable_value'', row_fits t row) # (''not_null'', row_complete t row) #
      map (\<lambda>(n, c). (n, check_passes row c)) (sort_key fst (checks_of cs)) @
      map (\<lambda>(n, ks). (n, key_free others ks row)) (primary_keys cs @ uniques cs))"

definition row_constraints :: "table_def \<Rightarrow> contents \<Rightarrow> sql_row \<Rightarrow> (constraint_name \<times> bool) list" where
  "row_constraints t stored row =
     own_constraints t (stored (table_name t)) row @
     map (\<lambda>(n, ks, target, rs). (n, refers (stored target) ks rs row)) (foreign_keys (table_constraints t))"

definition table_of :: "schema \<Rightarrow> string \<Rightarrow> table_def option" where
  "table_of s n = find (\<lambda>t. table_name t = n) (tables s)"

definition sql_insert :: "schema \<Rightarrow> string \<Rightarrow> sql_row \<Rightarrow> contents \<Rightarrow> constraint_name + contents" where
  "sql_insert s n row stored =
     (case table_of s n of
        None \<Rightarrow> Inl ''undefined_table''
      | Some t \<Rightarrow>
          (case first_violated (row_constraints t stored row) of
             None \<Rightarrow> Inr (stored(n := stored n @ [row]))
           | Some c \<Rightarrow> Inl c))"

text \<open>
  An \<open>UPDATE\<close> of the row with the same primary key, with unchanged references: the keys are compared
  with those of the other rows.
\<close>

definition primary_key :: "table_def \<Rightarrow> string list" where
  "primary_key t = concat (map snd (primary_keys (table_constraints t)))"

definition sql_update :: "schema \<Rightarrow> string \<Rightarrow> sql_row \<Rightarrow> contents \<Rightarrow> constraint_name + contents" where
  "sql_update s n row stored =
     (case table_of s n of
        None \<Rightarrow> Inl ''undefined_table''
      | Some t \<Rightarrow>
          let same = (\<lambda>r. key_values r (primary_key t) = key_values row (primary_key t)) in
          (case first_violated (own_constraints t (filter (\<lambda>r. \<not> same r) (stored n)) row) of
             None \<Rightarrow> Inr (stored(n := map (\<lambda>r. if same r then row else r) (stored n)))
           | Some c \<Rightarrow> Inl c))"

text \<open>A table of rows that encode the rows of another.\<close>

lemma sql_insert_row:
  assumes "table_of s n = Some t" and "stored n = map enc rows"
    and "first_violated (row_constraints t stored (enc r)) = first_violated (cons rows r)"
  shows "sql_insert s n (enc r) stored = map_sum id (\<lambda>rows. stored(n := map enc rows)) (insert_row cons r rows)"
  using assms by (simp add: sql_insert_def insert_row_def split: option.splits)

lemma sql_update_row:
  assumes "table_of s n = Some t" and "stored n = map enc rows"
    and "\<And>q. key_values (enc q) (primary_key t) = key_values (enc r) (primary_key t) \<longleftrightarrow> key q = key r"
    and "first_violated (own_constraints t (map enc (filter (\<lambda>q. key q \<noteq> key r) rows)) (enc r)) = first_violated cs"
  shows "sql_update s n (enc r) stored =
    (case first_violated cs of
       None \<Rightarrow> Inr (stored(n := map enc (update_rows (\<lambda>q. key q = key r) (\<lambda>_. r) rows)))
     | Some c \<Rightarrow> Inl c)"
proof -
  have "filter (\<lambda>x. key_values x (primary_key t) \<noteq> key_values (enc r) (primary_key t)) (map enc rows) =
      map enc (filter (\<lambda>q. key q \<noteq> key r) rows)"
    by (simp add: filter_map o_def assms(3))
  moreover have "map (\<lambda>x. if key_values x (primary_key t) = key_values (enc r) (primary_key t) then enc r else x) (map enc rows) =
      map enc (update_rows (\<lambda>q. key q = key r) (\<lambda>_. r) rows)"
    by (simp add: update_rows_def assms(3))
  ultimately show ?thesis using assms(1,2,4) by (simp add: sql_update_def Let_def split: option.splits)
qed

section \<open>Creating and dropping\<close>

datatype ddl =
    CreateTable table_def
  | DropTable string
  | CreateIndex index_def
  | DropIndex string string

datatype ddl_error =
    DuplicateRelation
  | InvalidDefinition
  | UndefinedObject
  | DependentObjects
  | MigrationFails

text \<open>Primary keys and unique constraints own indexes, which share the names of tables and indexes.\<close>

definition table_relations :: "table_def \<Rightarrow> string list" where
  "table_relations t =
     table_name t # map fst (primary_keys (table_constraints t)) @ map fst (uniques (table_constraints t))"

definition relation_names :: "schema \<Rightarrow> string list" where
  "relation_names s = concat (map table_relations (tables s)) @ map index_name (indexes s)"

fun term_columns :: "sql_term \<Rightarrow> string list" where
  "term_columns (Column c) = [c]"
| "term_columns (OctetLength t) = term_columns t"
| "term_columns (CharLength t) = term_columns t"
| "term_columns (LowerOf t) = term_columns t"
| "term_columns (BtrimOf t) = term_columns t"
| "term_columns (JsonbTypeof t) = term_columns t"
| "term_columns (JsonbArrayLength t) = term_columns t"
| "term_columns (Plus t u) = term_columns t @ term_columns u"
| "term_columns (PlusInterval t d) = term_columns t"
| "term_columns _ = []"

fun condition_columns :: "sql_condition \<Rightarrow> string list" where
  "condition_columns (Equal t u) = term_columns t @ term_columns u"
| "condition_columns (AtLeast t u) = term_columns t @ term_columns u"
| "condition_columns (AtMost t u) = term_columns t @ term_columns u"
| "condition_columns (InTexts t texts) = term_columns t"
| "condition_columns (MatchesRegex t r) = term_columns t"
| "condition_columns (IsNull t) = term_columns t"
| "condition_columns (Both c d) = condition_columns c @ condition_columns d"
| "condition_columns (Either c d) = condition_columns c @ condition_columns d"
| "condition_columns (Negated c) = condition_columns c"

definition field_names :: "table_def \<Rightarrow> string list" where
  "field_names t = map field_name (table_columns t)"

definition types_of :: "table_def \<Rightarrow> string list \<Rightarrow> sql_type option list" where
  "types_of t ks = map (map_of (map (\<lambda>f. (field_name f, field_type f)) (table_columns t))) ks"

text \<open>A foreign key refers to the primary key or a unique constraint of a table, with the same types.\<close>

fun constraint_valid :: "schema \<Rightarrow> table_def \<Rightarrow> table_constraint \<Rightarrow> bool" where
  "constraint_valid s t (Check n c) = (set (condition_columns c) \<subseteq> set (field_names t))"
| "constraint_valid s t (PrimaryKey n ks) = (ks \<noteq> [] \<and> set ks \<subseteq> set (field_names t))"
| "constraint_valid s t (Unique n ks) = (ks \<noteq> [] \<and> set ks \<subseteq> set (field_names t))"
| "constraint_valid s t (ForeignKey n ks target rs) =
     (set ks \<subseteq> set (field_names t) \<and>
      (case table_of s target of
         None \<Rightarrow> False
       | Some u \<Rightarrow>
           rs \<in> set (map snd (primary_keys (table_constraints u) @ uniques (table_constraints u))) \<and>
           types_of t ks = types_of u rs))"

definition table_valid :: "schema \<Rightarrow> table_def \<Rightarrow> bool" where
  "table_valid s t \<longleftrightarrow>
     distinct (field_names t) \<and> distinct (map constraint_name_of (table_constraints t)) \<and>
     length (primary_keys (table_constraints t)) \<le> 1 \<and> list_all (constraint_valid s t) (table_constraints t)"

definition references :: "table_def \<Rightarrow> string \<Rightarrow> bool" where
  "references t n \<longleftrightarrow> list_ex (\<lambda>(_, _, target, _). target = n) (foreign_keys (table_constraints t))"

definition index_valid :: "schema \<Rightarrow> index_def \<Rightarrow> bool" where
  "index_valid s i \<longleftrightarrow>
     (case table_of s (index_table i) of
        None \<Rightarrow> False
      | Some t \<Rightarrow> index_columns i \<noteq> [] \<and> set (index_columns i) \<subseteq> set (field_names t) \<and>
          (case index_where i of None \<Rightarrow> True | Some c \<Rightarrow> set (condition_columns c) \<subseteq> set (field_names t)))"

fun apply_ddl :: "ddl \<Rightarrow> schema \<Rightarrow> ddl_error + schema" where
  "apply_ddl (CreateTable t) s =
     (if \<not> distinct (table_relations t) \<or> set (table_relations t) \<inter> set (relation_names s) \<noteq> {}
      then Inl DuplicateRelation
      else if \<not> table_valid s t then Inl InvalidDefinition
      else Inr (s\<lparr>tables := tables s @ [t]\<rparr>))"
| "apply_ddl (DropTable n) s =
     (if table_of s n = None then Inl UndefinedObject
      else if list_ex (\<lambda>t. table_name t \<noteq> n \<and> references t n) (tables s) then Inl DependentObjects
      else Inr (s\<lparr>tables := filter (\<lambda>t. table_name t \<noteq> n) (tables s),
                  indexes := filter (\<lambda>i. index_table i \<noteq> n) (indexes s)\<rparr>))"
| "apply_ddl (CreateIndex i) s =
     (if index_name i \<in> set (relation_names s) then Inl DuplicateRelation
      else if \<not> index_valid s i then Inl InvalidDefinition
      else Inr (s\<lparr>indexes := indexes s @ [i]\<rparr>))"
| "apply_ddl (DropIndex n _) s =
     (if n \<notin> index_name ` set (indexes s) then Inl UndefinedObject
      else Inr (s\<lparr>indexes := filter (\<lambda>i. index_name i \<noteq> n) (indexes s)\<rparr>))"

text \<open>Steps one after the other, until one fails.\<close>

fun run_all :: "('d \<Rightarrow> 's \<Rightarrow> 'e + 's) \<Rightarrow> 'd list \<Rightarrow> 's \<Rightarrow> 'e + 's" where
  "run_all step [] s = Inr s"
| "run_all step (d # ds) s = bind_result (step d s) (run_all step ds)"

abbreviation apply_all :: "ddl list \<Rightarrow> schema \<Rightarrow> ddl_error + schema" where
  "apply_all \<equiv> run_all apply_ddl"

lemma run_all_append: "run_all step (ds @ es) s = bind_result (run_all step ds s) (run_all step es)"
proof (induction ds arbitrary: s)
  case (Cons d ds)
  show ?case by (cases "step d s") (simp_all add: Cons.IH)
qed simp

section \<open>Undoing\<close>

text \<open>Steps of which each can be taken back: then a run can be taken back, last step first.\<close>

locale reversible_steps =
  fixes step :: "'d \<Rightarrow> 's \<Rightarrow> 'e + 's" and revert :: "'d \<Rightarrow> 's \<Rightarrow> 'e + 's"
    and forward :: "'d \<Rightarrow> bool" and ok :: "'s \<Rightarrow> bool"
  assumes revert_step: "ok s \<Longrightarrow> forward d \<Longrightarrow> step d s = Inr s' \<Longrightarrow> revert d s' = Inr s"
    and step_ok: "ok s \<Longrightarrow> forward d \<Longrightarrow> step d s = Inr s' \<Longrightarrow> ok s'"
begin

lemma run_ok: "ok s \<Longrightarrow> list_all forward ds \<Longrightarrow> run_all step ds s = Inr s' \<Longrightarrow> ok s'"
  by (induction ds arbitrary: s) (auto simp: result_simps intro: step_ok)

lemma run_revert: "ok s \<Longrightarrow> list_all forward ds \<Longrightarrow> run_all step ds s = Inr s' \<Longrightarrow> run_all revert (rev ds) s' = Inr s"
proof (induction ds arbitrary: s)
  case (Cons d ds)
  then obtain s1 where s1: "step d s = Inr s1" "run_all step ds s1 = Inr s'" by (auto simp: result_simps)
  then have "run_all revert (rev ds) s' = Inr s1" using Cons step_ok [of s d s1] by simp
  then show ?case using revert_step [of s d s1] Cons.prems s1(1) by (simp add: run_all_append)
qed simp

end

fun undo :: "ddl \<Rightarrow> ddl" where
  "undo (CreateTable t) = DropTable (table_name t)"
| "undo (CreateIndex i) = DropIndex (index_name i) (index_table i)"
| "undo d = d"

fun creates :: "ddl \<Rightarrow> bool" where
  "creates (CreateTable t) = True"
| "creates (CreateIndex i) = True"
| "creates _ = False"

text \<open>Names are unique, and foreign keys and indexes belong to existing tables.\<close>

definition schema_ok :: "schema \<Rightarrow> bool" where
  "schema_ok s \<longleftrightarrow>
     distinct (relation_names s) \<and>
     list_all (\<lambda>t. list_all (\<lambda>(_, _, target, _). target \<in> table_name ` set (tables s))
       (foreign_keys (table_constraints t))) (tables s) \<and>
     list_all (\<lambda>i. index_table i \<in> table_name ` set (tables s)) (indexes s)"

lemma table_of_None: "table_of s n = None \<longleftrightarrow> n \<notin> table_name ` set (tables s)"
  by (auto simp: table_of_def find_None_iff)

lemma table_of_Some: "table_of s n = Some t \<Longrightarrow> t \<in> set (tables s) \<and> table_name t = n"
  by (auto simp: table_of_def find_Some_iff)

lemma table_name_relation: "t \<in> set (tables s) \<Longrightarrow> table_name t \<in> set (relation_names s)"
  by (auto simp: relation_names_def table_relations_def)

lemma foreign_key_valid:
  "list_all (constraint_valid s t) cs \<Longrightarrow>
     list_all (\<lambda>(_, _, target, _). target \<in> table_name ` set (tables s)) (foreign_keys cs)"
proof (induction cs rule: foreign_keys.induct)
  case (2 n ks target rs cs)
  then have "table_of s target \<noteq> None" by (auto split: option.splits)
  with 2 show ?case by (simp add: table_of_None)
qed auto

lemma create_table_undone:
  assumes ok: "schema_ok s" and create: "apply_ddl (CreateTable t) s = Inr s'"
  shows "apply_ddl (DropTable (table_name t)) s' = Inr s" and "schema_ok s'"
proof -
  have c: "distinct (table_relations t)" "set (table_relations t) \<inter> set (relation_names s) = {}"
    "table_valid s t" and s': "s' = s\<lparr>tables := tables s @ [t]\<rparr>"
    using create by (auto split: if_splits)
  have "table_name t \<in> set (table_relations t)" by (simp add: table_relations_def)
  then have "table_name t \<notin> set (relation_names s)" using c(2) by blast
  then have new: "table_name u \<noteq> table_name t" if "u \<in> set (tables s)" for u
    using table_name_relation [OF that] by auto
  then have "\<not> references u (table_name t)" if "u \<in> set (tables s)" for u
    using ok that by (fastforce simp: references_def schema_ok_def list_all_iff list_ex_iff)
  moreover have "index_table i \<noteq> table_name t" if "i \<in> set (indexes s)" for i
    using ok that new by (fastforce simp: schema_ok_def list_all_iff)
  ultimately show "apply_ddl (DropTable (table_name t)) s' = Inr s"
    using new by (auto simp: s' table_of_None list_ex_iff intro: filter_True)
  have "list_all (\<lambda>(_, _, target, _). target \<in> table_name ` set (tables s)) (foreign_keys (table_constraints t))"
    using c(3) by (intro foreign_key_valid [of s t]) (simp add: table_valid_def)
  then show "schema_ok s'" using ok c(1,2)
    by (auto simp: s' schema_ok_def relation_names_def list_all_iff)
qed

lemma create_index_undone:
  assumes ok: "schema_ok s" and create: "apply_ddl (CreateIndex i) s = Inr s'"
  shows "apply_ddl (DropIndex (index_name i) (index_table i)) s' = Inr s" and "schema_ok s'"
proof -
  have c: "index_name i \<notin> set (relation_names s)" "index_valid s i" and s': "s' = s\<lparr>indexes := indexes s @ [i]\<rparr>"
    using create by (auto split: if_splits)
  have "index_name j \<noteq> index_name i" if "j \<in> set (indexes s)" for j
    using c(1) imageI [OF that, of index_name] by (auto simp: relation_names_def)
  then show "apply_ddl (DropIndex (index_name i) (index_table i)) s' = Inr s"
    by (auto simp: s' intro: filter_True)
  have "table_of s (index_table i) \<noteq> None" using c(2) by (auto simp: index_valid_def split: option.splits)
  then show "schema_ok s'" using ok c(1)
    by (auto simp: s' schema_ok_def relation_names_def table_of_None)
qed

interpretation creation: reversible_steps apply_ddl "\<lambda>d. apply_ddl (undo d)" creates schema_ok
proof
  fix s d s' assume d: "schema_ok s" "creates d" "apply_ddl d s = Inr s'"
  from d(2) consider t where "d = CreateTable t" | i where "d = CreateIndex i" by (cases d) auto
  then show "apply_ddl (undo d) s' = Inr s" "schema_ok s'"
    using d create_table_undone [of s _ s'] create_index_undone [of s _ s'] by (cases; simp only: undo.simps)+
qed

lemma run_all_map: "run_all (\<lambda>d. step (f d)) ds s = run_all step (map f ds) s"
  by (induction ds arbitrary: s) (auto intro!: arg_cong2 [where f = bind_result])

lemma apply_all_undone:
  assumes "schema_ok s" and "list_all creates ds" and "apply_all ds s = Inr s'"
  shows "apply_all (map undo (rev ds)) s' = Inr s"
  using creation.run_revert [OF assms] by (simp add: run_all_map)

end
