(* ===== verification/Url.thy ===== *)
theory Url
  imports PyValues
begin

text \<open>
  What the origin checks use of Python's \<open>urllib.parse\<close> and \<open>ipaddress\<close>: splitting a URL, reading
  host and port off its network location, and IP addresses. IPv4 is defined here. The grammar of
  IPv6 texts and their compressed form differ between releases of Python, so they are a parameter,
  as are Unicode's NFKC and which IPv6 addresses are loopback ones.
\<close>

record url_env =
  nfkc :: "pystr \<Rightarrow> pystr"
  ipv6_compressed :: "pystr \<Rightarrow> pystr option"
  ipv6_loopback :: "pystr \<Rightarrow> bool"

datatype value_error = ValueError

section \<open>More string methods\<close>

text \<open>\<open>s.partition(sep)\<close> and \<open>s.rpartition(sep)\<close> for a single character.\<close>

definition py_partition :: "code_point \<Rightarrow> pystr \<Rightarrow> pystr \<times> bool \<times> pystr" where
  "py_partition sep s = (takeWhile (\<lambda>c. c \<noteq> sep) s, sep \<in> set s, tl (dropWhile (\<lambda>c. c \<noteq> sep) s))"

definition py_rpartition :: "code_point \<Rightarrow> pystr \<Rightarrow> pystr \<times> bool \<times> pystr" where
  "py_rpartition sep s =
     (let (after, found, front) = py_partition sep (rev s)
      in (rev front, found, rev after))"

lemma py_partition_sep: "sep \<notin> set p \<Longrightarrow> py_partition sep (p @ sep # s) = (p, True, s)"
  by (induction p) (auto simp: py_partition_def)

lemma py_partition_none: "sep \<notin> set s \<Longrightarrow> py_partition sep s = (s, False, [])"
proof -
  assume "sep \<notin> set s"
  then have "takeWhile (\<lambda>c. c \<noteq> sep) s = s" and "dropWhile (\<lambda>c. c \<noteq> sep) s = []"
    by (auto simp: takeWhile_eq_all_conv dropWhile_eq_Nil_conv)
  then show ?thesis unfolding py_partition_def using \<open>sep \<notin> set s\<close> by (simp only: list.sel simp_thms)
qed

lemma py_rpartition_none: "sep \<notin> set s \<Longrightarrow> py_rpartition sep s = ([], False, s)"
  by (simp add: py_rpartition_def py_partition_none)

lemma py_partition_parts:
  assumes "py_partition sep s = (a, found, b)"
  shows "sep \<notin> set a" and "set a \<union> set b \<subseteq> set s" and "found \<longleftrightarrow> sep \<in> set s" and "found \<Longrightarrow> s = a @ sep # b"
proof -
  have a: "a = takeWhile (\<lambda>c. c \<noteq> sep) s" and b: "b = tl (dropWhile (\<lambda>c. c \<noteq> sep) s)" and f: "found \<longleftrightarrow> sep \<in> set s"
    using assms by (auto simp: py_partition_def)
  show "sep \<notin> set a" using set_takeWhileD [of sep "\<lambda>c. c \<noteq> sep" s] a by auto
  show "found \<longleftrightarrow> sep \<in> set s" by (rule f)
  have s: "s = a @ dropWhile (\<lambda>c. c \<noteq> sep) s" by (simp add: a)
  have "set (tl xs) \<subseteq> set xs" for xs :: pystr
    by (cases xs) auto
  then have "set (tl (dropWhile (\<lambda>c. c \<noteq> sep) s)) \<subseteq> set (dropWhile (\<lambda>c. c \<noteq> sep) s)" .
  then show "set a \<union> set b \<subseteq> set s" using set_dropWhileD [of _ "\<lambda>c. c \<noteq> sep" s] set_takeWhileD [of _ "\<lambda>c. c \<noteq> sep" s]
    by (auto simp: a b)
  show "s = a @ sep # b" if "found"
  proof (cases "dropWhile (\<lambda>c. c \<noteq> sep) s")
    case Nil
    then show ?thesis using that f by (auto simp: dropWhile_eq_Nil_conv)
  next
    case (Cons x xs)
    then have "x = sep" using hd_dropWhile [of "\<lambda>c. c \<noteq> sep" s] by auto
    then show ?thesis using s Cons b by simp
  qed
qed

text \<open>\<open>str\<close> of a number.\<close>

function decimal_text :: "nat \<Rightarrow> pystr" where
  "decimal_text n = (if n < 10 then [48 + n] else decimal_text (n div 10) @ [48 + n mod 10])"
  by auto
termination by (relation "measure id") auto

declare decimal_text.simps [simp del]

section \<open>Network locations\<close>

record split_result =
  url_scheme :: pystr
  url_netloc :: pystr
  url_path :: pystr
  url_query :: pystr
  url_fragment :: pystr

definition hostinfo :: "split_result \<Rightarrow> pystr \<times> pystr option" where
  "hostinfo r =
     (let (_, _, info) = py_rpartition 64 (url_netloc r);
          (front, have_open_br, bracketed) = py_partition 91 info;
          (host, port) =
            (if have_open_br
             then (let (host, _, rest) = py_partition 93 bracketed; (_, _, port) = py_partition 58 rest in (host, port))
             else (let (host, _, port) = py_partition 58 info in (host, port)))
      in (host, if port = [] then None else Some port))"

text \<open>\<open>username\<close>; there is a password only when there is a user name.\<close>

definition url_username :: "split_result \<Rightarrow> pystr option" where
  "url_username r =
     (let (userinfo, have_info, _) = py_rpartition 64 (url_netloc r)
      in if have_info then Some (fst (py_partition 58 userinfo)) else None)"

definition url_password :: "split_result \<Rightarrow> pystr option" where
  "url_password r =
     (let (userinfo, have_info, _) = py_rpartition 64 (url_netloc r);
          (_, have_password, password) = py_partition 58 userinfo
      in if have_info \<and> have_password then Some password else None)"

text \<open>The zone of an IPv6 address is not lowered.\<close>

definition url_hostname :: "split_result \<Rightarrow> pystr option" where
  "url_hostname r =
     (let host = fst (hostinfo r)
      in if host = [] then None
         else (let (name, percent, zone) = py_partition 37 host
               in Some (py_lower name @ (if percent then 37 # zone else []))))"

text \<open>\<open>int\<close> refuses texts of more than 4300 digits.\<close>

definition url_port :: "split_result \<Rightarrow> value_error + nat option" where
  "url_port r =
     (case snd (hostinfo r) of
        None \<Rightarrow> Inr None
      | Some port \<Rightarrow>
          if list_all is_digit port \<and> length port \<le> 4300 \<and> digits_value port \<le> 65535
          then Inr (Some (nat (digits_value port))) else Inl ValueError)"

section \<open>IP addresses\<close>

definition parse_octet :: "pystr \<Rightarrow> nat option" where
  "parse_octet s =
     (if s \<noteq> [] \<and> list_all is_digit s \<and> length s \<le> 3 \<and> (s = [48] \<or> hd s \<noteq> 48) \<and> digits_value s \<le> 255
      then Some (nat (digits_value s)) else None)"

definition parse_ipv4 :: "pystr \<Rightarrow> nat list option" where
  "parse_ipv4 s =
     (let octets = map parse_octet (py_split 46 s)
      in if length octets = 4 \<and> None \<notin> set octets then Some (map the octets) else None)"

fun join_dots :: "pystr list \<Rightarrow> pystr" where
  "join_dots [] = []"
| "join_dots [p] = p"
| "join_dots (p # q # ps) = p @ 46 # join_dots (q # ps)"

text \<open>\<open>ip_address(text).compressed\<close> and \<open>ip_address(text).is_loopback\<close>; \<open>None\<close> is the \<open>ValueError\<close>.\<close>

definition ip_compressed :: "url_env \<Rightarrow> pystr \<Rightarrow> pystr option" where
  "ip_compressed env s =
     (case parse_ipv4 s of
        Some octets \<Rightarrow> Some (join_dots (map decimal_text octets))
      | None \<Rightarrow> ipv6_compressed env s)"

definition ip_is_loopback :: "url_env \<Rightarrow> pystr \<Rightarrow> bool option" where
  "ip_is_loopback env s =
     (case parse_ipv4 s of
        Some octets \<Rightarrow> Some (octets ! 0 = 127)
      | None \<Rightarrow> map_option (\<lambda>_. ipv6_loopback env s) (ipv6_compressed env s))"

section \<open>Splitting\<close>

definition ascii_alpha :: "code_point \<Rightarrow> bool" where
  "ascii_alpha c \<longleftrightarrow> 65 \<le> c \<and> c \<le> 90 \<or> 97 \<le> c \<and> c \<le> 122"

definition scheme_char :: "code_point \<Rightarrow> bool" where
  "scheme_char c \<longleftrightarrow> ascii_alpha c \<or> is_digit c \<or> c \<in> {43, 45, 46}"

definition hex_digit :: "code_point \<Rightarrow> bool" where
  "hex_digit c \<longleftrightarrow> is_digit c \<or> 65 \<le> c \<and> c \<le> 70 \<or> 97 \<le> c \<and> c \<le> 102"

text \<open>Leading control characters and spaces go, then tabs and line ends anywhere.\<close>

definition clean_url :: "pystr \<Rightarrow> pystr" where
  "clean_url url = filter (\<lambda>c. c \<notin> {9, 10, 13}) (dropWhile (\<lambda>c. c \<le> 32) url)"

definition split_scheme :: "pystr \<Rightarrow> pystr \<times> pystr" where
  "split_scheme url =
     (let (prefix, found, rest) = py_partition 58 url
      in if found \<and> prefix \<noteq> [] \<and> ascii_alpha (hd prefix) \<and> list_all scheme_char prefix
         then (map ascii_lower prefix, rest) else ([], url))"

text \<open>\<open>[v1.text]\<close> is the notation of address formats to come.\<close>

definition ipvfuture :: "pystr \<Rightarrow> bool" where
  "ipvfuture s =
     (let (version, found, rest) = py_partition 46 (tl s)
      in hd s = 118 \<and> found \<and> version \<noteq> [] \<and> list_all hex_digit version \<and> rest \<noteq> [])"

definition check_bracketed_host :: "url_env \<Rightarrow> pystr \<Rightarrow> bool" where
  "check_bracketed_host env host \<longleftrightarrow>
     (if host \<noteq> [] \<and> hd host = 118 then ipvfuture host
      else parse_ipv4 host = None \<and> ipv6_compressed env host \<noteq> None)"

definition check_bracketed_netloc :: "url_env \<Rightarrow> pystr \<Rightarrow> bool" where
  "check_bracketed_netloc env netloc \<longleftrightarrow>
     (let (_, _, info) = py_rpartition 64 netloc;
          (front, have_open_br, bracketed) = py_partition 91 info
      in if have_open_br
         then (let (host, _, port) = py_partition 93 bracketed
               in front = [] \<and> (port = [] \<or> hd port = 58) \<and> check_bracketed_host env host)
         else check_bracketed_host env (fst (py_partition 58 info)))"

definition check_netloc :: "url_env \<Rightarrow> pystr \<Rightarrow> bool" where
  "check_netloc env netloc \<longleftrightarrow>
     list_all is_ascii netloc \<or>
     (let n = filter (\<lambda>c. c \<notin> {64, 58, 35, 63}) netloc
      in nfkc env n = n \<or> set (nfkc env n) \<inter> {47, 63, 35, 64, 58} = {})"

definition brackets_ok :: "url_env \<Rightarrow> pystr \<Rightarrow> bool" where
  "brackets_ok env netloc \<longleftrightarrow>
     (91 \<in> set netloc \<longleftrightarrow> 93 \<in> set netloc) \<and> (91 \<in> set netloc \<longrightarrow> check_bracketed_netloc env netloc)"

definition urlsplit :: "url_env \<Rightarrow> pystr \<Rightarrow> value_error + split_result" where
  "urlsplit env given =
     (let (scheme, url) = split_scheme (clean_url given);
          delimiter = (\<lambda>c. c \<in> {47, 63, 35});
          (netloc, url1) =
            (if take 2 url = [47, 47]
             then (takeWhile (\<lambda>c. \<not> delimiter c) (drop 2 url), dropWhile (\<lambda>c. \<not> delimiter c) (drop 2 url))
             else ([], url));
          (url2, _, fragment) = py_partition 35 url1;
          (path, _, query) = py_partition 63 url2
      in if \<not> brackets_ok env netloc then Inl ValueError
         else if \<not> check_netloc env netloc then Inl ValueError
         else Inr \<lparr>url_scheme = scheme, url_netloc = netloc, url_path = path, url_query = query,
                    url_fragment = fragment\<rparr>)"

end
