(* ===== verification/Origins.thy ===== *)
theory Origins
  imports Url Regex
begin

text \<open>
  Configuration of the API process (\<open>core/settings.py\<close>): canonical origins and the checks of the
  settings. \<open>resolve_path\<close> stands for \<open>Path.resolve\<close>, which follows the links of the file system;
  paths are their texts.
\<close>

definition host_label_pattern :: rx where
  "host_label_pattern = RName [(97, 122), (48, 57)] [(97, 122), (48, 57), (45, 45)] 61"

text \<open>The messages of the \<open>ValueError\<close>s; \<open>OriginMalformed\<close> is one that \<open>urlsplit\<close> raises itself.\<close>

datatype origin_error =
    OriginNotExplicit
  | OriginMalformed
  | OriginNotHttp
  | OriginHasUser
  | OriginHasPath
  | OriginHasNoHost
  | OriginHostInvalid
  | OriginPortInvalid

definition canonical_host :: "url_env \<Rightarrow> pystr \<Rightarrow> origin_error + pystr" where
  "canonical_host env host =
     (case ip_compressed env host of
        Some address \<Rightarrow> Inr address
      | None \<Rightarrow>
          let labels = py_split 46 host
          in if host \<noteq> lit ''localhost'' \<and>
               (253 < length host \<or> length labels < 2 \<or> list_ex (\<lambda>l. \<not> fullmatch host_label_pattern l) labels)
             then Inl OriginHostInvalid
             else Inr host)"

definition default_port :: "pystr \<Rightarrow> nat" where
  "default_port scheme = (if scheme = lit ''http'' then 80 else 443)"

definition display_host :: "pystr \<Rightarrow> pystr" where
  "display_host host = (if 58 \<in> set host then 91 # host @ [93] else host)"

definition origin_text :: "pystr \<Rightarrow> pystr \<Rightarrow> nat option \<Rightarrow> pystr" where
  "origin_text scheme host port =
     scheme @ lit ''://'' @ display_host host @ (case port of None \<Rightarrow> [] | Some p \<Rightarrow> 58 # decimal_text p)"

definition canonicalize_origin :: "url_env \<Rightarrow> pystr \<Rightarrow> origin_error + pystr" where
  "canonicalize_origin env value =
     (if value \<noteq> py_strip value \<or> 42 \<in> set value then Inl OriginNotExplicit
      else (case urlsplit env value of
          Inl _ \<Rightarrow> Inl OriginMalformed
        | Inr parsed \<Rightarrow>
            let scheme = py_lower (url_scheme parsed)
            in if scheme \<notin> {lit ''http'', lit ''https''} then Inl OriginNotHttp
               else if url_netloc parsed = [] \<or> url_username parsed \<noteq> None \<or> url_password parsed \<noteq> None
               then Inl OriginHasUser
               else if url_path parsed \<noteq> [] \<or> url_query parsed \<noteq> [] \<or> url_fragment parsed \<noteq> []
               then Inl OriginHasPath
               else (case url_hostname parsed of
                   None \<Rightarrow> Inl OriginHasNoHost
                 | Some hostname \<Rightarrow>
                     bind_result (canonical_host env (py_lower hostname)) (\<lambda>host.
                       case url_port parsed of
                         Inl _ \<Rightarrow> Inl OriginPortInvalid
                       | Inr port \<Rightarrow>
                           Inr (origin_text scheme host
                             (if port = Some (default_port scheme) then None else port))))))"

section \<open>Settings\<close>

datatype environment = Development | Test | Production

record api_settings =
  environment :: environment
  database_url :: pystr
  trusted_origins :: "pystr list"
  dataset_storage_root :: pystr

datatype settings_error =
    NoTrustedOrigin
  | TrustedOriginInvalid origin_error
  | TrustedOriginsNotUnique
  | StorageRootNotAbsolute
  | StorageRootIsRoot
  | DatabaseUrlScheme
  | ProductionNeedsOneOrigin
  | ProductionNeedsHttps
  | DevelopmentNeedsLoopback
  | BrokerUrlScheme

definition validate_trusted_origins :: "url_env \<Rightarrow> pystr list \<Rightarrow> settings_error + pystr list" where
  "validate_trusted_origins env value =
     (if value = [] then Inl NoTrustedOrigin
      else bind_result (map_sum TrustedOriginInvalid id (map_results (canonicalize_origin env) value)) (\<lambda>canonical.
        if \<not> distinct canonical then Inl TrustedOriginsNotUnique else Inr canonical))"

text \<open>The anchor of an absolute path is one slash, or two.\<close>

definition validate_dataset_storage_root :: "(pystr \<Rightarrow> pystr) \<Rightarrow> pystr \<Rightarrow> settings_error + pystr" where
  "validate_dataset_storage_root resolve_path value =
     (if \<not> py_startswith value (lit ''/'') then Inl StorageRootNotAbsolute
      else
        let resolved = resolve_path value
        in if resolved \<in> {lit ''/'', lit ''//''} then Inl StorageRootIsRoot else Inr resolved)"

definition loopback_host :: "url_env \<Rightarrow> pystr option \<Rightarrow> bool" where
  "loopback_host env host \<longleftrightarrow>
     host = Some (lit ''localhost'') \<or> (case host of None \<Rightarrow> False | Some h \<Rightarrow> ip_is_loopback env h = Some True)"

definition development_origin_ok :: "url_env \<Rightarrow> pystr \<Rightarrow> bool" where
  "development_origin_ok env origin \<longleftrightarrow>
     (case urlsplit env origin of
        Inl _ \<Rightarrow> False
      | Inr parsed \<Rightarrow> url_scheme parsed \<noteq> lit ''http'' \<or> loopback_host env (url_hostname parsed))"

definition is_https :: "url_env \<Rightarrow> pystr \<Rightarrow> bool" where
  "is_https env origin \<longleftrightarrow>
     (case urlsplit env origin of Inl _ \<Rightarrow> False | Inr parsed \<Rightarrow> url_scheme parsed = lit ''https'')"

definition validate_api_configuration :: "url_env \<Rightarrow> api_settings \<Rightarrow> settings_error + api_settings" where
  "validate_api_configuration env s =
     (if \<not> py_startswith (database_url s) (lit ''postgresql+psycopg://'') then Inl DatabaseUrlScheme
      else if environment s = Production
      then (if length (trusted_origins s) \<noteq> 1 then Inl ProductionNeedsOneOrigin
            else if \<not> is_https env (trusted_origins s ! 0) then Inl ProductionNeedsHttps
            else Inr s)
      else if list_ex (\<lambda>origin. \<not> development_origin_ok env origin) (trusted_origins s)
      then Inl DevelopmentNeedsLoopback
      else Inr s)"

text \<open>Field validators run before the one of the whole model.\<close>

definition make_api_settings ::
  "url_env \<Rightarrow> (pystr \<Rightarrow> pystr) \<Rightarrow> environment \<Rightarrow> pystr \<Rightarrow> pystr list \<Rightarrow> pystr \<Rightarrow> settings_error + api_settings" where
  "make_api_settings env resolve_path e url origins storage_root =
     bind_result (validate_trusted_origins env origins) (\<lambda>canonical.
     bind_result (validate_dataset_storage_root resolve_path storage_root) (\<lambda>resolved.
       validate_api_configuration env
         \<lparr>environment = e, database_url = url, trusted_origins = canonical, dataset_storage_root = resolved\<rparr>))"

definition validate_broker_scheme :: "url_env \<Rightarrow> pystr \<Rightarrow> settings_error + unit" where
  "validate_broker_scheme env broker_url =
     (case urlsplit env broker_url of
        Inl _ \<Rightarrow> Inl BrokerUrlScheme
      | Inr parsed \<Rightarrow>
          if url_scheme parsed \<notin> {lit ''redis'', lit ''rediss''} then Inl BrokerUrlScheme else Inr ())"

section \<open>The documented behaviour of IPv6 texts\<close>

text \<open>
  A compressed text is its own compressed form; it starts like an address, contains a colon, and
  consists of hexadecimal digits in lower case, colons, dots and the zone of the given text. The
  loopback question does not depend on the spelling.
\<close>

definition ipv6_law :: "url_env \<Rightarrow> bool" where
  "ipv6_law env \<longleftrightarrow>
     (\<forall>s a. ipv6_compressed env s = Some a \<longrightarrow>
        ipv6_compressed env a = Some a \<and> ipv6_loopback env a = ipv6_loopback env s \<and>
        58 \<in> set a \<and> hd a \<in> set (lit ''0123456789abcdef:'') \<and>
        set a \<subseteq> set (lit ''0123456789abcdef:.'') \<union> set s)"

end
