(* ===== verification/Migrations.thy ===== *)
theory Migrations
  imports Sql AnalysisStore IdentityStore Origins
begin

text \<open>
  The schema, as it is written twice: by the revisions under \<open>alembic/versions\<close> and by the mapped
  classes of the three \<open>models.py\<close>; and what \<open>alembic upgrade\<close> and \<open>alembic downgrade\<close> do with
  the revisions (\<open>alembic/env.py\<close>).
\<close>

definition required :: "string \<Rightarrow> sql_type \<Rightarrow> column_def" where
  "required n t = \<lparr>field_name = n, field_type = t, may_be_null = False\<rparr>"

definition optional :: "string \<Rightarrow> sql_type \<Rightarrow> column_def" where
  "optional n t = \<lparr>field_name = n, field_type = t, may_be_null = True\<rparr>"

abbreviation octets :: "string \<Rightarrow> sql_term" where
  "octets c \<equiv> OctetLength (Column c)"

abbreviation chars :: "string \<Rightarrow> sql_term" where
  "chars c \<equiv> CharLength (Column c)"

abbreviation between :: "sql_term \<Rightarrow> int \<Rightarrow> int \<Rightarrow> sql_condition" where
  "between t lo hi \<equiv> Between t (IntLiteral lo) (IntLiteral hi)"

abbreviation trimmed :: "string \<Rightarrow> sql_condition" where
  "trimmed c \<equiv> Equal (Column c) (BtrimOf (Column c))"

abbreviation json_is :: "string \<Rightarrow> string \<Rightarrow> sql_condition" where
  "json_is c ty \<equiv> Equal (JsonbTypeof (Column c)) (TextLiteral ty)"

abbreviation null_or :: "string \<Rightarrow> sql_condition \<Rightarrow> sql_condition" where
  "null_or c cond \<equiv> Either (IsNull (Column c)) cond"

abbreviation simple_index :: "string \<Rightarrow> string \<Rightarrow> string list \<Rightarrow> index_def" where
  "simple_index n t cs \<equiv> \<lparr>index_name = n, index_table = t, index_columns = cs, index_where = None\<rparr>"

text \<open>\<open>'^[0-9a-f]{32}[.]csv$'\<close>\<close>

definition key_format :: rx where
  "key_format = RCat (RRep 32 (RCls [(48, 57), (97, 102)])) (RSeq (map RChr (lit ''.csv'')))"

section \<open>The revisions\<close>

text \<open>
  Each \<open>create_table\<close>, with the columns and constraints in the order of the call. All foreign keys
  cascade on deletion; nothing deletes a row that others refer to.
\<close>

definition create_users :: table_def where
  "create_users =
     \<lparr>table_name = ''users'',
      table_columns = [
        required ''id'' UuidType,
        required ''email'' (Varchar 254),
        required ''email_normalized'' (Varchar 254),
        required ''password_hash'' TextType,
        required ''created_at'' TimestampTz,
        required ''updated_at'' TimestampTz],
      table_constraints = [
       Check ''ck_users_email_octet_length''
        (between (octets ''email'') 3 254),
       Check ''ck_users_email_normalized_octet_length''
        (between (octets ''email_normalized'') 3 254),
       Check ''ck_users_email_normalized_lowercase''
        (Equal (Column ''email_normalized'') (LowerOf (Column ''email_normalized''))),
       Check ''ck_users_updated_not_before_created''
        (AtLeast (Column ''updated_at'') (Column ''created_at'')),
       PrimaryKey ''pk_users'' [''id''],
       Unique ''uq_users_email_normalized'' [''email_normalized'']]\<rparr>"

definition create_sessions :: table_def where
  "create_sessions =
     \<lparr>table_name = ''sessions'',
      table_columns = [
        required ''id'' UuidType,
        required ''user_id'' UuidType,
        required ''token_hash'' ByteaType,
        required ''csrf_token'' ByteaType,
        required ''created_at'' TimestampTz,
        required ''last_seen_at'' TimestampTz,
        required ''absolute_expires_at'' TimestampTz,
        optional ''revoked_at'' TimestampTz],
      table_constraints = [
       Check ''ck_sessions_token_hash_length''
        (Equal (octets ''token_hash'') (IntLiteral 32)),
       Check ''ck_sessions_csrf_token_length''
        (Equal (octets ''csrf_token'') (IntLiteral 32)),
       Check ''ck_sessions_last_seen_not_before_created''
        (AtLeast (Column ''last_seen_at'') (Column ''created_at'')),
       Check ''ck_sessions_last_seen_not_after_absolute_expiry''
        (AtMost (Column ''last_seen_at'') (Column ''absolute_expires_at'')),
       Check ''ck_sessions_absolute_lifetime''
        (Equal (Column ''absolute_expires_at'') (PlusInterval (Column ''created_at'') (hours 12))),
       Check ''ck_sessions_revoked_not_before_created''
        (null_or ''revoked_at'' (AtLeast (Column ''revoked_at'') (Column ''created_at''))),
       ForeignKey ''fk_sessions_user_id_users'' [''user_id''] ''users'' [''id''],
       PrimaryKey ''pk_sessions'' [''id''],
       Unique ''uq_sessions_token_hash'' [''token_hash'']]\<rparr>"

definition create_datasets :: table_def where
  "create_datasets =
     \<lparr>table_name = ''datasets'',
      table_columns = [
        required ''id'' UuidType,
        required ''owner_id'' UuidType,
        required ''name'' (Varchar 100),
        optional ''original_filename'' (Varchar 255),
        optional ''storage_key'' (Varchar 36),
        optional ''content_sha256'' ByteaType,
        optional ''size_bytes'' BigIntType,
        optional ''row_count'' BigIntType,
        optional ''column_names'' JsonbType,
        optional ''uploaded_at'' TimestampTz,
        required ''created_at'' TimestampTz,
        required ''updated_at'' TimestampTz],
      table_constraints = [
       Check ''ck_datasets_name''
        (Both (between (chars ''name'') 1 100) (trimmed ''name'')),
       Check ''ck_datasets_original_filename''
        (null_or ''original_filename'' (between (chars ''original_filename'') 1 255)),
       Check ''ck_datasets_storage_key_format''
        (null_or ''storage_key'' (MatchesRegex (Column ''storage_key'') key_format)),
       Check ''ck_datasets_content_sha256_length''
        (null_or ''content_sha256'' (Equal (octets ''content_sha256'') (IntLiteral 32))),
       Check ''ck_datasets_size_bytes''
        (null_or ''size_bytes'' (between (Column ''size_bytes'') 1 10485760)),
       Check ''ck_datasets_row_count''
        (null_or ''row_count'' (AtLeast (Column ''row_count'') (IntLiteral 0))),
       Check ''ck_datasets_column_names''
        (null_or ''column_names'' (Both (json_is ''column_names'' ''array'')
          (between (JsonbArrayLength (Column ''column_names'')) 1 256))),
       Check ''ck_datasets_upload_metadata_all_or_none''
        (Either (all_of (IsNull (Column ''original_filename'')) [IsNull (Column ''storage_key''), IsNull (Column
          ''content_sha256''), IsNull (Column ''size_bytes''), IsNull (Column ''row_count''), IsNull (Column
          ''column_names''), IsNull (Column ''uploaded_at'')]) (all_of (NotNull (Column ''original_filename''))
          [NotNull (Column ''storage_key''), NotNull (Column ''content_sha256''), NotNull (Column ''size_bytes''),
          NotNull (Column ''row_count''), NotNull (Column ''column_names''), NotNull (Column ''uploaded_at'')])),
       Check ''ck_datasets_updated_not_before_created''
        (AtLeast (Column ''updated_at'') (Column ''created_at'')),
       Check ''ck_datasets_upload_timestamps''
        (null_or ''uploaded_at'' (Both (AtLeast (Column ''uploaded_at'') (Column ''created_at''))
          (AtLeast (Column ''updated_at'') (Column ''uploaded_at'')))),
       ForeignKey ''fk_datasets_owner_id_users'' [''owner_id''] ''users'' [''id''],
       PrimaryKey ''pk_datasets'' [''id''],
       Unique ''uq_datasets_storage_key'' [''storage_key'']]\<rparr>"

definition create_rules :: table_def where
  "create_rules =
     \<lparr>table_name = ''validation_rules'',
      table_columns = [
        required ''id'' UuidType,
        required ''dataset_id'' UuidType,
        required ''rule_type'' (Varchar 16),
        required ''target_column'' (Varchar 128),
        required ''configuration'' JsonbType,
        required ''created_at'' TimestampTz],
      table_constraints = [
       Check ''ck_validation_rules_type''
        (InTexts (Column ''rule_type'') [''required'', ''unique'', ''type'', ''range'', ''regex'']),
       Check ''ck_validation_rules_target_column''
        (Both (between (chars ''target_column'') 1 128) (trimmed ''target_column'')),
       Check ''ck_validation_rules_configuration_object''
        (json_is ''configuration'' ''object''),
       ForeignKey ''fk_validation_rules_dataset_id_datasets'' [''dataset_id''] ''datasets'' [''id''],
       PrimaryKey ''pk_validation_rules'' [''id''],
       Unique ''uq_validation_rules_definition'' [''dataset_id'', ''rule_type'', ''target_column'', ''configuration'']]\<rparr>"

definition create_analyses :: table_def where
  "create_analyses =
     \<lparr>table_name = ''analyses'',
      table_columns = [
        required ''id'' UuidType,
        required ''dataset_id'' UuidType,
        required ''source_original_filename'' (Varchar 255),
        required ''source_content_sha256'' ByteaType,
        required ''source_size_bytes'' BigIntType,
        required ''source_row_count'' BigIntType,
        required ''source_column_names'' JsonbType,
        required ''source_uploaded_at'' TimestampTz,
        required ''total_violation_count'' BigIntType,
        optional ''quality_score'' (NumericType 5 2),
        required ''created_at'' TimestampTz],
      table_constraints = [
       Check ''ck_analyses_source_content_sha256_length''
        (Equal (octets ''source_content_sha256'') (IntLiteral 32)),
       Check ''ck_analyses_source_size_bytes''
        (between (Column ''source_size_bytes'') 1 10485760),
       Check ''ck_analyses_source_row_count''
        (AtLeast (Column ''source_row_count'') (IntLiteral 0)),
       Check ''ck_analyses_source_column_names''
        (Both (json_is ''source_column_names'' ''array'')
          (between (JsonbArrayLength (Column ''source_column_names'')) 1 256)),
       Check ''ck_analyses_total_violation_count''
        (AtLeast (Column ''total_violation_count'') (IntLiteral 0)),
       Check ''ck_analyses_quality_score''
        (null_or ''quality_score''
          (Between (Column ''quality_score'') (NumericLiteral 0) (NumericLiteral 100))),
       ForeignKey ''fk_analyses_dataset_id_datasets'' [''dataset_id''] ''datasets'' [''id''],
       PrimaryKey ''pk_analyses'' [''id'']]\<rparr>"

definition create_results :: table_def where
  "create_results =
     \<lparr>table_name = ''validation_results'',
      table_columns = [
        required ''analysis_id'' UuidType,
        required ''rule_position'' IntegerType,
        required ''source_rule_id'' UuidType,
        required ''rule_type'' (Varchar 16),
        required ''target_column'' (Varchar 128),
        required ''configuration'' JsonbType,
        required ''evaluated_count'' BigIntType,
        required ''passed_count'' BigIntType,
        required ''violation_count'' BigIntType,
        required ''skipped_count'' BigIntType,
        required ''violation_samples'' JsonbType],
      table_constraints = [
       Check ''ck_validation_results_rule_position''
        (AtLeast (Column ''rule_position'') (IntLiteral 0)),
       Check ''ck_validation_results_rule_type''
        (InTexts (Column ''rule_type'') [''required'', ''unique'', ''type'', ''range'', ''regex'']),
       Check ''ck_validation_results_target_column''
        (Both (between (chars ''target_column'') 1 128) (trimmed ''target_column'')),
       Check ''ck_validation_results_configuration_object''
        (json_is ''configuration'' ''object''),
       Check ''ck_validation_results_nonnegative_counts''
        (all_of (AtLeast (Column ''evaluated_count'') (IntLiteral 0)) [AtLeast (Column ''passed_count'') (IntLiteral
          0), AtLeast (Column ''violation_count'') (IntLiteral 0), AtLeast (Column ''skipped_count'') (IntLiteral 0)]),
       Check ''ck_validation_results_count_balance''
        (Equal (Column ''evaluated_count'') (Plus (Column ''passed_count'') (Column ''violation_count''))),
       Check ''ck_validation_results_violation_samples''
        (Both (json_is ''violation_samples'' ''array'')
          (AtMost (JsonbArrayLength (Column ''violation_samples'')) (IntLiteral 20))),
       ForeignKey ''fk_validation_results_analysis_id_analyses'' [''analysis_id''] ''analyses'' [''id''],
       PrimaryKey ''pk_validation_results'' [''analysis_id'', ''rule_position''],
       Unique ''uq_validation_results_analysis_source_rule'' [''analysis_id'', ''source_rule_id'']]\<rparr>"

record revision =
  revision_id :: string
  down_revision :: "string option"
  upgrade :: "ddl list"
  downgrade :: "ddl list"

definition identity_sessions :: revision where
  "identity_sessions =
     \<lparr>revision_id = ''0001_identity_sessions'', down_revision = None,
      upgrade =
       [CreateTable create_users, CreateTable create_sessions,
        CreateIndex (simple_index ''ix_sessions_user_id'' ''sessions'' [''user_id'']),
        CreateIndex (simple_index ''ix_sessions_last_seen_at'' ''sessions'' [''last_seen_at'']),
        CreateIndex (simple_index ''ix_sessions_absolute_expires_at'' ''sessions'' [''absolute_expires_at'']),
        CreateIndex \<lparr>index_name = ''ix_sessions_revoked_at'', index_table = ''sessions'',
          index_columns = [''revoked_at''], index_where = Some (NotNull (Column ''revoked_at''))\<rparr>],
      downgrade =
       [DropIndex ''ix_sessions_revoked_at'' ''sessions'', DropIndex ''ix_sessions_absolute_expires_at'' ''sessions'',
        DropIndex ''ix_sessions_last_seen_at'' ''sessions'', DropIndex ''ix_sessions_user_id'' ''sessions'',
        DropTable ''sessions'', DropTable ''users'']\<rparr>"

definition datasets_rules_csv :: revision where
  "datasets_rules_csv =
     \<lparr>revision_id = ''0002_datasets_rules_csv'', down_revision = Some ''0001_identity_sessions'',
      upgrade =
       [CreateTable create_datasets,
        CreateIndex (simple_index ''ix_datasets_owner_created_id'' ''datasets'' [''owner_id'', ''created_at'', ''id'']),
        CreateTable create_rules,
        CreateIndex (simple_index ''ix_validation_rules_dataset_created_id'' ''validation_rules''
          [''dataset_id'', ''created_at'', ''id''])],
      downgrade =
       [DropIndex ''ix_validation_rules_dataset_created_id'' ''validation_rules'', DropTable ''validation_rules'',
        DropIndex ''ix_datasets_owner_created_id'' ''datasets'', DropTable ''datasets'']\<rparr>"

definition analysis_results_score :: revision where
  "analysis_results_score =
     \<lparr>revision_id = ''0003_analysis_results_score'', down_revision = Some ''0002_datasets_rules_csv'',
      upgrade =
       [CreateTable create_analyses,
        CreateIndex (simple_index ''ix_analyses_dataset_created_id'' ''analyses'' [''dataset_id'', ''created_at'', ''id'']),
        CreateTable create_results],
      downgrade =
       [DropTable ''validation_results'', DropIndex ''ix_analyses_dataset_created_id'' ''analyses'',
        DropTable ''analyses'']\<rparr>"

definition revisions :: "revision list" where
  "revisions = [identity_sessions, datasets_rules_csv, analysis_results_score]"

section \<open>The mapped classes\<close>

text \<open>
  What \<open>Base.metadata\<close> holds after the import of the three models: the constraints and indexes of
  \<open>__table_args__\<close>, then the foreign keys of the columns.
\<close>

definition mapped_users :: table_def where
  "mapped_users =
     \<lparr>table_name = ''users'',
      table_columns = [
        required ''id'' UuidType,
        required ''email'' (Varchar 254),
        required ''email_normalized'' (Varchar 254),
        required ''password_hash'' TextType,
        required ''created_at'' TimestampTz,
        required ''updated_at'' TimestampTz],
      table_constraints = [
       PrimaryKey ''pk_users'' [''id''],
       Unique ''uq_users_email_normalized'' [''email_normalized''],
       Check ''ck_users_email_octet_length''
        (between (octets ''email'') 3 254),
       Check ''ck_users_email_normalized_octet_length''
        (between (octets ''email_normalized'') 3 254),
       Check ''ck_users_email_normalized_lowercase''
        (Equal (Column ''email_normalized'') (LowerOf (Column ''email_normalized''))),
       Check ''ck_users_updated_not_before_created''
        (AtLeast (Column ''updated_at'') (Column ''created_at''))]\<rparr>"

definition mapped_sessions :: table_def where
  "mapped_sessions =
     \<lparr>table_name = ''sessions'',
      table_columns = [
        required ''id'' UuidType,
        required ''user_id'' UuidType,
        required ''token_hash'' ByteaType,
        required ''csrf_token'' ByteaType,
        required ''created_at'' TimestampTz,
        required ''last_seen_at'' TimestampTz,
        required ''absolute_expires_at'' TimestampTz,
        optional ''revoked_at'' TimestampTz],
      table_constraints = [
       PrimaryKey ''pk_sessions'' [''id''],
       Unique ''uq_sessions_token_hash'' [''token_hash''],
       Check ''ck_sessions_token_hash_length''
        (Equal (octets ''token_hash'') (IntLiteral 32)),
       Check ''ck_sessions_csrf_token_length''
        (Equal (octets ''csrf_token'') (IntLiteral 32)),
       Check ''ck_sessions_last_seen_not_before_created''
        (AtLeast (Column ''last_seen_at'') (Column ''created_at'')),
       Check ''ck_sessions_last_seen_not_after_absolute_expiry''
        (AtMost (Column ''last_seen_at'') (Column ''absolute_expires_at'')),
       Check ''ck_sessions_absolute_lifetime''
        (Equal (Column ''absolute_expires_at'') (PlusInterval (Column ''created_at'') (hours 12))),
       Check ''ck_sessions_revoked_not_before_created''
        (null_or ''revoked_at'' (AtLeast (Column ''revoked_at'') (Column ''created_at''))),
       ForeignKey ''fk_sessions_user_id_users'' [''user_id''] ''users'' [''id'']]\<rparr>"

definition mapped_datasets :: table_def where
  "mapped_datasets =
     \<lparr>table_name = ''datasets'',
      table_columns = [
        required ''id'' UuidType,
        required ''owner_id'' UuidType,
        required ''name'' (Varchar 100),
        optional ''original_filename'' (Varchar 255),
        optional ''storage_key'' (Varchar 36),
        optional ''content_sha256'' ByteaType,
        optional ''size_bytes'' BigIntType,
        optional ''row_count'' BigIntType,
        optional ''column_names'' JsonbType,
        optional ''uploaded_at'' TimestampTz,
        required ''created_at'' TimestampTz,
        required ''updated_at'' TimestampTz],
      table_constraints = [
       PrimaryKey ''pk_datasets'' [''id''],
       Unique ''uq_datasets_storage_key'' [''storage_key''],
       Check ''ck_datasets_name''
        (Both (between (chars ''name'') 1 100) (trimmed ''name'')),
       Check ''ck_datasets_original_filename''
        (null_or ''original_filename'' (between (chars ''original_filename'') 1 255)),
       Check ''ck_datasets_storage_key_format''
        (null_or ''storage_key'' (MatchesRegex (Column ''storage_key'') key_format)),
       Check ''ck_datasets_content_sha256_length''
        (null_or ''content_sha256'' (Equal (octets ''content_sha256'') (IntLiteral 32))),
       Check ''ck_datasets_size_bytes''
        (null_or ''size_bytes'' (between (Column ''size_bytes'') 1 10485760)),
       Check ''ck_datasets_row_count''
        (null_or ''row_count'' (AtLeast (Column ''row_count'') (IntLiteral 0))),
       Check ''ck_datasets_column_names''
        (null_or ''column_names'' (Both (json_is ''column_names'' ''array'')
          (between (JsonbArrayLength (Column ''column_names'')) 1 256))),
       Check ''ck_datasets_upload_metadata_all_or_none''
        (Either (all_of (IsNull (Column ''original_filename'')) [IsNull (Column ''storage_key''), IsNull (Column
          ''content_sha256''), IsNull (Column ''size_bytes''), IsNull (Column ''row_count''), IsNull (Column
          ''column_names''), IsNull (Column ''uploaded_at'')]) (all_of (NotNull (Column ''original_filename''))
          [NotNull (Column ''storage_key''), NotNull (Column ''content_sha256''), NotNull (Column ''size_bytes''),
          NotNull (Column ''row_count''), NotNull (Column ''column_names''), NotNull (Column ''uploaded_at'')])),
       Check ''ck_datasets_updated_not_before_created''
        (AtLeast (Column ''updated_at'') (Column ''created_at'')),
       Check ''ck_datasets_upload_timestamps''
        (null_or ''uploaded_at'' (Both (AtLeast (Column ''uploaded_at'') (Column ''created_at''))
          (AtLeast (Column ''updated_at'') (Column ''uploaded_at'')))),
       ForeignKey ''fk_datasets_owner_id_users'' [''owner_id''] ''users'' [''id'']]\<rparr>"

definition mapped_rules :: table_def where
  "mapped_rules =
     \<lparr>table_name = ''validation_rules'',
      table_columns = [
        required ''id'' UuidType,
        required ''dataset_id'' UuidType,
        required ''rule_type'' (Varchar 16),
        required ''target_column'' (Varchar 128),
        required ''configuration'' JsonbType,
        required ''created_at'' TimestampTz],
      table_constraints = [
       PrimaryKey ''pk_validation_rules'' [''id''],
       Unique ''uq_validation_rules_definition'' [''dataset_id'', ''rule_type'', ''target_column'', ''configuration''],
       Check ''ck_validation_rules_type''
        (InTexts (Column ''rule_type'') [''required'', ''unique'', ''type'', ''range'', ''regex'']),
       Check ''ck_validation_rules_target_column''
        (Both (between (chars ''target_column'') 1 128) (trimmed ''target_column'')),
       Check ''ck_validation_rules_configuration_object''
        (json_is ''configuration'' ''object''),
       ForeignKey ''fk_validation_rules_dataset_id_datasets'' [''dataset_id''] ''datasets'' [''id'']]\<rparr>"

definition mapped_analyses :: table_def where
  "mapped_analyses =
     \<lparr>table_name = ''analyses'',
      table_columns = [
        required ''id'' UuidType,
        required ''dataset_id'' UuidType,
        required ''source_original_filename'' (Varchar 255),
        required ''source_content_sha256'' ByteaType,
        required ''source_size_bytes'' BigIntType,
        required ''source_row_count'' BigIntType,
        required ''source_column_names'' JsonbType,
        required ''source_uploaded_at'' TimestampTz,
        required ''total_violation_count'' BigIntType,
        optional ''quality_score'' (NumericType 5 2),
        required ''created_at'' TimestampTz],
      table_constraints = [
       PrimaryKey ''pk_analyses'' [''id''],
       Check ''ck_analyses_source_content_sha256_length''
        (Equal (octets ''source_content_sha256'') (IntLiteral 32)),
       Check ''ck_analyses_source_size_bytes''
        (between (Column ''source_size_bytes'') 1 10485760),
       Check ''ck_analyses_source_row_count''
        (AtLeast (Column ''source_row_count'') (IntLiteral 0)),
       Check ''ck_analyses_source_column_names''
        (Both (json_is ''source_column_names'' ''array'')
          (between (JsonbArrayLength (Column ''source_column_names'')) 1 256)),
       Check ''ck_analyses_total_violation_count''
        (AtLeast (Column ''total_violation_count'') (IntLiteral 0)),
       Check ''ck_analyses_quality_score''
        (null_or ''quality_score''
          (Between (Column ''quality_score'') (NumericLiteral 0) (NumericLiteral 100))),
       ForeignKey ''fk_analyses_dataset_id_datasets'' [''dataset_id''] ''datasets'' [''id'']]\<rparr>"

definition mapped_results :: table_def where
  "mapped_results =
     \<lparr>table_name = ''validation_results'',
      table_columns = [
        required ''analysis_id'' UuidType,
        required ''rule_position'' IntegerType,
        required ''source_rule_id'' UuidType,
        required ''rule_type'' (Varchar 16),
        required ''target_column'' (Varchar 128),
        required ''configuration'' JsonbType,
        required ''evaluated_count'' BigIntType,
        required ''passed_count'' BigIntType,
        required ''violation_count'' BigIntType,
        required ''skipped_count'' BigIntType,
        required ''violation_samples'' JsonbType],
      table_constraints = [
       PrimaryKey ''pk_validation_results'' [''analysis_id'', ''rule_position''],
       Unique ''uq_validation_results_analysis_source_rule'' [''analysis_id'', ''source_rule_id''],
       Check ''ck_validation_results_rule_position''
        (AtLeast (Column ''rule_position'') (IntLiteral 0)),
       Check ''ck_validation_results_rule_type''
        (InTexts (Column ''rule_type'') [''required'', ''unique'', ''type'', ''range'', ''regex'']),
       Check ''ck_validation_results_target_column''
        (Both (between (chars ''target_column'') 1 128) (trimmed ''target_column'')),
       Check ''ck_validation_results_configuration_object''
        (json_is ''configuration'' ''object''),
       Check ''ck_validation_results_nonnegative_counts''
        (all_of (AtLeast (Column ''evaluated_count'') (IntLiteral 0)) [AtLeast (Column ''passed_count'') (IntLiteral
          0), AtLeast (Column ''violation_count'') (IntLiteral 0), AtLeast (Column ''skipped_count'') (IntLiteral 0)]),
       Check ''ck_validation_results_count_balance''
        (Equal (Column ''evaluated_count'') (Plus (Column ''passed_count'') (Column ''violation_count''))),
       Check ''ck_validation_results_violation_samples''
        (Both (json_is ''violation_samples'' ''array'')
          (AtMost (JsonbArrayLength (Column ''violation_samples'')) (IntLiteral 20))),
       ForeignKey ''fk_validation_results_analysis_id_analyses'' [''analysis_id''] ''analyses'' [''id'']]\<rparr>"

definition mapped_indexes :: "index_def list" where
  "mapped_indexes =
     [simple_index ''ix_sessions_user_id'' ''sessions'' [''user_id''],
      simple_index ''ix_sessions_last_seen_at'' ''sessions'' [''last_seen_at''],
      simple_index ''ix_sessions_absolute_expires_at'' ''sessions'' [''absolute_expires_at''],
      \<lparr>index_name = ''ix_sessions_revoked_at'', index_table = ''sessions'', index_columns = [''revoked_at''],
       index_where = Some (NotNull (Column ''revoked_at''))\<rparr>,
      simple_index ''ix_datasets_owner_created_id'' ''datasets'' [''owner_id'', ''created_at'', ''id''],
      simple_index ''ix_validation_rules_dataset_created_id'' ''validation_rules''
        [''dataset_id'', ''created_at'', ''id''],
      simple_index ''ix_analyses_dataset_created_id'' ''analyses'' [''dataset_id'', ''created_at'', ''id'']]"

definition target_metadata :: schema where
  "target_metadata =
     \<lparr>tables = [mapped_users, mapped_sessions, mapped_datasets, mapped_rules, mapped_analyses, mapped_results],
      indexes = mapped_indexes\<rparr>"

section \<open>Running the revisions\<close>

text \<open>The database as Alembic sees it: the content of \<open>alembic_version\<close> and the schema.\<close>

record migrated =
  version :: "string option"
  relations :: schema

definition empty_database :: migrated where
  "empty_database = \<lparr>version = None, relations = empty_schema\<rparr>"

text \<open>Alembic expects the recorded version to be the one it moves from.\<close>

definition upgrade_by :: "revision \<Rightarrow> migrated \<Rightarrow> ddl_error + migrated" where
  "upgrade_by r db =
     (if version db \<noteq> down_revision r then Inl MigrationFails
      else bind_result (apply_all (upgrade r) (relations db)) (\<lambda>s. Inr \<lparr>version = Some (revision_id r), relations = s\<rparr>))"

definition downgrade_by :: "revision \<Rightarrow> migrated \<Rightarrow> ddl_error + migrated" where
  "downgrade_by r db =
     (if version db \<noteq> Some (revision_id r) then Inl MigrationFails
      else bind_result (apply_all (downgrade r) (relations db)) (\<lambda>s. Inr \<lparr>version = down_revision r, relations = s\<rparr>))"

text \<open>The revisions after a version, up to the head, and those before it, down to the base.\<close>

function newer :: "revision list \<Rightarrow> string option \<Rightarrow> revision list" where
  "newer revs v =
     (case find (\<lambda>r. down_revision r = v) revs of
        None \<Rightarrow> []
      | Some r \<Rightarrow> r # newer (remove1 r revs) (Some (revision_id r)))"
  by auto
termination
  by (relation "measure (\<lambda>(revs, v). length revs)") (auto simp: find_Some_iff length_remove1 dest: nth_mem)

function older :: "revision list \<Rightarrow> string option \<Rightarrow> revision list" where
  "older revs v =
     (case find (\<lambda>r. Some (revision_id r) = v) revs of
        None \<Rightarrow> []
      | Some r \<Rightarrow> r # older (remove1 r revs) (down_revision r))"
  by auto
termination
  by (relation "measure (\<lambda>(revs, v). length revs)") (auto simp: find_Some_iff length_remove1 dest: nth_mem)

declare newer.simps [simp del] older.simps [simp del]

text \<open>
  \<open>with context.begin_transaction(): context.run_migrations()\<close>: PostgreSQL's DDL is transactional, and
  all revisions of one command run in one transaction. \<open>fault\<close> is a failure of the database.
\<close>

definition upgrade_head :: "ddl_error option \<Rightarrow> migrated \<Rightarrow> (ddl_error + unit) \<times> migrated" where
  "upgrade_head fault db =
     transaction fault db (\<lambda>db.
       bind_result (run_all upgrade_by (newer revisions (version db)) db) (\<lambda>db'. Inr ((), db')))"

definition downgrade_base :: "ddl_error option \<Rightarrow> migrated \<Rightarrow> (ddl_error + unit) \<times> migrated" where
  "downgrade_base fault db =
     transaction fault db (\<lambda>db.
       bind_result (run_all downgrade_by (older revisions (version db)) db) (\<lambda>db'. Inr ((), db')))"

text \<open>
  Both modes of \<open>env.py\<close> ask the settings of the API for the address of the database first; \<open>loaded\<close> is
  what \<open>ApiSettings.from_environment()\<close> gives.
\<close>

datatype migration_error = SettingsRefused settings_error | RunFails ddl_error

definition get_database_url :: "settings_error + api_settings \<Rightarrow> settings_error + pystr" where
  "get_database_url loaded = map_sum id database_url loaded"

definition run_migrations_online ::
  "(ddl_error option \<Rightarrow> migrated \<Rightarrow> (ddl_error + unit) \<times> migrated) \<Rightarrow> settings_error + api_settings \<Rightarrow>
     ddl_error option \<Rightarrow> migrated \<Rightarrow> (migration_error + unit) \<times> migrated" where
  "run_migrations_online command loaded fault db =
     (case get_database_url loaded of
        Inl e \<Rightarrow> (Inl (SettingsRefused e), db)
      | Inr _ \<Rightarrow> (case command fault db of (r, db') \<Rightarrow> (map_sum RunFails id r, db')))"

section \<open>Scripts\<close>

text \<open>
  Offline, the statements of the same revisions are printed, those of a version given as the start on,
  each revision followed by the statement that moves \<open>alembic_version\<close>.
\<close>

datatype migration_statement = Statement ddl | MoveVersion "string option" string

definition revision_script :: "revision \<Rightarrow> migration_statement list" where
  "revision_script r = map Statement (upgrade r) @ [MoveVersion (down_revision r) (revision_id r)]"

definition run_migrations_offline ::
  "settings_error + api_settings \<Rightarrow> string option \<Rightarrow> migration_error + migration_statement list" where
  "run_migrations_offline loaded start =
     (case get_database_url loaded of
        Inl e \<Rightarrow> Inl (SettingsRefused e)
      | Inr _ \<Rightarrow> Inr (concat (map revision_script (newer revisions start))))"

text \<open>
  Executing a statement. A script from the base creates the table of the version, which fails if it
  is there; an update of a version that is not the recorded one changes nothing.
\<close>

fun execute_statement :: "migration_statement \<Rightarrow> migrated \<Rightarrow> ddl_error + migrated" where
  "execute_statement (Statement d) db =
     bind_result (apply_ddl d (relations db)) (\<lambda>s. Inr (db\<lparr>relations := s\<rparr>))"
| "execute_statement (MoveVersion old new) db =
     (if version db = old then Inr (db\<lparr>version := Some new\<rparr>)
      else if old = None then Inl DuplicateRelation
      else Inr db)"

end
