(* ===== verification/SchemaRows.thy ===== *)
theory SchemaRows
  imports Migrations
begin

text \<open>
  The rows of the six tables as the database holds them, and what the constraints of the
  migrations say of them: in the order in which PostgreSQL checks them, exactly what
  \<open>IdentityStore\<close>, \<open>DatasetStore\<close> and \<open>AnalysisStore\<close> say.
\<close>

section \<open>Rows\<close>

fun or_null :: "('a \<Rightarrow> sql_value) \<Rightarrow> 'a option \<Rightarrow> sql_value" where
  "or_null f None = SqlNull"
| "or_null f (Some x) = f x"

definition texts_sql :: "pystr list \<Rightarrow> sql_value" where
  "texts_sql ts = SqlJson (VList (map VStr ts))"

definition configuration_sql :: "configuration \<Rightarrow> sql_value" where
  "configuration_sql cfg = SqlJson (jsonb_normal (VDict cfg))"

definition user_sql :: "user_row \<Rightarrow> sql_row" where
  "user_sql u =
     [(''id'', SqlUuid (user_id u)), (''email'', SqlText (user_email u)),
      (''email_normalized'', SqlText (user_email_normalized u)), (''password_hash'', SqlText (user_password_hash u)),
      (''created_at'', SqlTime (user_created_at u)), (''updated_at'', SqlTime (user_updated_at u))]"

definition session_sql :: "session_row \<Rightarrow> sql_row" where
  "session_sql s =
     [(''id'', SqlUuid (session_id s)), (''user_id'', SqlUuid (session_user_id s)),
      (''token_hash'', SqlBytes (token_hash s)), (''csrf_token'', SqlBytes (csrf_token s)),
      (''created_at'', SqlTime (session_created_at s)), (''last_seen_at'', SqlTime (last_seen_at s)),
      (''absolute_expires_at'', SqlTime (absolute_expires_at s)), (''revoked_at'', or_null SqlTime (revoked_at s))]"

definition dataset_sql :: "dataset_row \<Rightarrow> sql_row" where
  "dataset_sql d =
     [(''id'', SqlUuid (dataset_id d)), (''owner_id'', SqlUuid (owner_id d)), (''name'', SqlText (dataset_name d)),
      (''original_filename'', or_null SqlText (original_filename d)), (''storage_key'', or_null SqlText (storage_key d)),
      (''content_sha256'', or_null SqlBytes (content_sha256 d)), (''size_bytes'', or_null SqlInt (size_bytes d)),
      (''row_count'', or_null SqlInt (dataset_row_count d)), (''column_names'', or_null texts_sql (DatasetStore.column_names d)),
      (''uploaded_at'', or_null SqlTime (uploaded_at d)), (''created_at'', SqlTime (dataset_created_at d)),
      (''updated_at'', SqlTime (dataset_updated_at d))]"

definition rule_sql :: "rule_row \<Rightarrow> sql_row" where
  "rule_sql r =
     [(''id'', SqlUuid (rule_row_id r)), (''dataset_id'', SqlUuid (rule_dataset_id r)), (''rule_type'', SqlText (rule_type r)),
      (''target_column'', SqlText (rule_target_column r)), (''configuration'', configuration_sql (rule_configuration r)),
      (''created_at'', SqlTime (rule_created_at r))]"

definition analysis_sql :: "analysis_row \<Rightarrow> sql_row" where
  "analysis_sql a =
     (let s = analysis_source a in
     [(''id'', SqlUuid (analysis_id a)), (''dataset_id'', SqlUuid (analysis_dataset_id a)),
      (''source_original_filename'', SqlText (source_filename s)), (''source_content_sha256'', SqlBytes (source_sha256 s)),
      (''source_size_bytes'', SqlInt (source_size s)), (''source_row_count'', SqlInt (source_rows s)),
      (''source_column_names'', texts_sql (source_columns s)), (''source_uploaded_at'', SqlTime (source_uploaded_at s)),
      (''total_violation_count'', SqlInt (analysis_violations a)), (''quality_score'', or_null SqlNumeric (analysis_score a)),
      (''created_at'', SqlTime (analysis_created_at a))])"

definition result_sql :: "result_row \<Rightarrow> sql_row" where
  "result_sql r =
     [(''analysis_id'', SqlUuid (row_analysis_id r)), (''rule_position'', SqlInt (row_position r)),
      (''source_rule_id'', SqlUuid (row_rule_id r)), (''rule_type'', SqlText (row_rule_type r)),
      (''target_column'', SqlText (row_column r)), (''configuration'', configuration_sql (row_configuration r)),
      (''evaluated_count'', SqlInt (row_evaluated r)), (''passed_count'', SqlInt (row_passed r)),
      (''violation_count'', SqlInt (row_violations r)), (''skipped_count'', SqlInt (row_skipped r)),
      (''violation_samples'', SqlJson (VList (map (\<lambda>cfg. jsonb_normal (VDict cfg)) (row_samples r))))]"

lemma texts_not_null [simp]: "texts_sql ts \<noteq> SqlNull"
  by (simp add: texts_sql_def)

lemma or_null_null [simp]: "(\<And>y. f y \<noteq> SqlNull) \<Longrightarrow> or_null f x = SqlNull \<longleftrightarrow> x = None"
  by (cases x) auto

lemma length_utf8_ascii: "list_all (\<lambda>c. c < 128) s \<Longrightarrow> length (utf8_encode s) = length s"
  by (induction s) (auto simp: utf8_encode_def utf8_encode_char_def)

section \<open>The constraints of a row\<close>

text \<open>The checks in the order of their names, by their places in the definition.\<close>

lemma sorted_checks:
  "sort_key fst (checks_of (table_constraints create_users)) =
     map ((!) (checks_of (table_constraints create_users))) [2, 1, 0, 3]"
  "sort_key fst (checks_of (table_constraints create_sessions)) =
     map ((!) (checks_of (table_constraints create_sessions))) [4, 1, 3, 2, 5, 0]"
  "sort_key fst (checks_of (table_constraints create_datasets)) =
     map ((!) (checks_of (table_constraints create_datasets))) [6, 3, 0, 1, 5, 4, 2, 8, 7, 9]"
  "sort_key fst (checks_of (table_constraints create_rules)) =
     map ((!) (checks_of (table_constraints create_rules))) [2, 1, 0]"
  "sort_key fst (checks_of (table_constraints create_analyses)) =
     map ((!) (checks_of (table_constraints create_analyses))) [5, 3, 0, 2, 1, 4]"
  "sort_key fst (checks_of (table_constraints create_results)) =
     map ((!) (checks_of (table_constraints create_results))) [3, 5, 4, 0, 1, 2, 6]"
  by code_simp+

definition row_checks :: "table_def \<Rightarrow> sql_row \<Rightarrow> (constraint_name \<times> bool) list" where
  "row_checks t row = map (\<lambda>(n, c). (n, check_passes row c)) (sort_key fst (checks_of (table_constraints t)))"

lemma own_constraints_fitting:
  assumes "row_fits t row" and "row_complete t row"
  shows "first_violated (own_constraints t others row) =
     first_violated (row_checks t row @
       map (\<lambda>(n, ks). (n, key_free others ks row)) (primary_keys (table_constraints t) @ uniques (table_constraints t)))"
  using assms by (simp add: own_constraints_def row_checks_def Let_def)

lemma row_constraints_fitting:
  assumes "row_fits t row" and "row_complete t row"
  shows "first_violated (row_constraints t stored row) =
     first_violated (row_checks t row @
       map (\<lambda>(n, ks). (n, key_free (stored (table_name t)) ks row))
         (primary_keys (table_constraints t) @ uniques (table_constraints t)) @
       map (\<lambda>(n, ks, target, rs). (n, refers (stored target) ks rs row)) (foreign_keys (table_constraints t)))"
  using assms by (simp add: row_constraints_def own_constraints_def row_checks_def Let_def)

lemma rows_complete:
  "row_complete create_users (user_sql u)" "row_complete create_sessions (session_sql s)"
  "row_complete create_datasets (dataset_sql d)" "row_complete create_rules (rule_sql r)"
  "row_complete create_analyses (analysis_sql a)" "row_complete create_results (result_sql q)"
  by (simp_all add: row_complete_def create_users_def create_sessions_def create_datasets_def create_rules_def
      create_analyses_def create_results_def required_def optional_def user_sql_def session_sql_def dataset_sql_def
      rule_sql_def analysis_sql_def result_sql_def Let_def configuration_sql_def texts_sql_def)

lemma user_checks:
  assumes "list_all (\<lambda>c. c < 128) (user_email u)" and "list_all (\<lambda>c. c < 128) (user_email_normalized u)"
  shows "row_checks create_users (user_sql u) = user_row_checks u"
  unfolding row_checks_def sorted_checks using assms
  by (simp add: create_users_def user_sql_def user_row_checks_def sql_simps length_utf8_ascii eq_commute)

lemma session_checks: "row_checks create_sessions (session_sql s) = session_row_checks s"
  unfolding row_checks_def sorted_checks
  by (cases "revoked_at s")
    (simp_all add: create_sessions_def session_sql_def session_row_checks_def sql_simps)

lemma key_format_checked: "fullmatch key_format k \<longleftrightarrow> is_storage_key k"
  using storage_key_pattern_iff by (simp add: key_format_def storage_key_pattern_def hex_class_def)

lemma dataset_checks: "row_checks create_datasets (dataset_sql d) = tl (dataset_row_checks d)"
proof -
  let ?c = "\<lambda>i. check_passes (dataset_sql d) (snd (checks_of (table_constraints create_datasets) ! i))"
  note defs = create_datasets_def dataset_sql_def sql_simps
  have "?c 6 \<longleftrightarrow> opt_all (\<lambda>cs. 1 \<le> length cs \<and> length cs \<le> 256) (DatasetStore.column_names d)"
    by (cases "DatasetStore.column_names d") (simp_all add: defs texts_sql_def)
  moreover have "?c 3 \<longleftrightarrow> opt_all (\<lambda>h. length h = 32) (content_sha256 d)"
    by (cases "content_sha256 d") (simp_all add: defs)
  moreover have "?c 0 \<longleftrightarrow> 1 \<le> length (dataset_name d) \<and> length (dataset_name d) \<le> 100 \<and> btrim_id (dataset_name d)"
    by (simp add: defs btrim_fixed eq_commute [of _ "btrim _"])
  moreover have "?c 1 \<longleftrightarrow> opt_all (\<lambda>n. 1 \<le> length n \<and> length n \<le> 255) (original_filename d)"
    by (cases "original_filename d") (simp_all add: defs)
  moreover have "?c 5 \<longleftrightarrow> opt_all (\<lambda>n. 0 \<le> n) (dataset_row_count d)"
    by (cases "dataset_row_count d") (simp_all add: defs)
  moreover have "?c 4 \<longleftrightarrow> opt_all (\<lambda>n. 1 \<le> n \<and> n \<le> 10485760) (size_bytes d)"
    by (cases "size_bytes d") (simp_all add: defs)
  moreover have "?c 2 \<longleftrightarrow> opt_all is_storage_key (storage_key d)"
    by (cases "storage_key d") (simp_all add: defs check_passes_def [of _ "MatchesRegex _ _"] key_format_checked)
  moreover have "?c 8 \<longleftrightarrow> dataset_created_at d \<le> dataset_updated_at d"
    by (simp add: defs)
  moreover have "?c 7 \<longleftrightarrow> no_upload d \<or> full_upload d"
    by (simp add: create_datasets_def dataset_sql_def check_passes_def no_upload_def full_upload_def)
  moreover have "?c 9 \<longleftrightarrow> opt_all (\<lambda>t. dataset_created_at d \<le> t \<and> t \<le> dataset_updated_at d) (uploaded_at d)"
    by (cases "uploaded_at d") (simp_all add: defs)
  moreover have "map (\<lambda>i. fst (checks_of (table_constraints create_datasets) ! i)) [6, 3, 0, 1, 5, 4, 2, 8, 7, 9] =
      map fst (tl (dataset_row_checks d))"
    by (simp add: create_datasets_def dataset_row_checks_def)
  ultimately show ?thesis
    unfolding row_checks_def sorted_checks dataset_row_checks_def by (simp add: case_prod_beta)
qed

lemma rule_checks:
  "row_checks create_rules (rule_sql r) = (''ck_validation_rules_configuration_object'', True) # tl (rule_row_checks r)"
  unfolding row_checks_def sorted_checks
  by (simp add: create_rules_def rule_sql_def configuration_sql_def rule_row_checks_def sql_simps btrim_fixed
      rule_types_def check_passes_def [of _ "InTexts _ _"] eq_commute [of _ "btrim _"])

lemma analysis_checks: "row_checks create_analyses (analysis_sql a) = tl (analysis_row_checks a)"
  unfolding row_checks_def sorted_checks
  by (cases "analysis_score a")
    (simp_all add: create_analyses_def analysis_sql_def texts_sql_def analysis_row_checks_def sql_simps Let_def)

lemma result_checks:
  "row_checks create_results (result_sql r) =
     (''ck_validation_results_configuration_object'', True) # tl (result_row_checks r)"
  unfolding row_checks_def sorted_checks
  by (simp add: create_results_def result_sql_def configuration_sql_def result_row_checks_def sql_simps btrim_fixed
      rule_types_def check_passes_def [of _ "InTexts _ _"] eq_commute [of _ "btrim _"])

section \<open>Keys\<close>

lemma key_values_sql:
  "key_values (user_sql u) [''id''] = [SqlUuid (user_id u)]"
  "key_values (user_sql u) [''email_normalized''] = [SqlText (user_email_normalized u)]"
  "key_values (session_sql s) [''id''] = [SqlUuid (session_id s)]"
  "key_values (session_sql s) [''token_hash''] = [SqlBytes (token_hash s)]"
  "key_values (session_sql s) [''user_id''] = [SqlUuid (session_user_id s)]"
  "key_values (dataset_sql d) [''id''] = [SqlUuid (dataset_id d)]"
  "key_values (dataset_sql d) [''storage_key''] = [or_null SqlText (storage_key d)]"
  "key_values (dataset_sql d) [''owner_id''] = [SqlUuid (owner_id d)]"
  "key_values (rule_sql r) [''id''] = [SqlUuid (rule_row_id r)]"
  "key_values (rule_sql r) [''dataset_id'', ''rule_type'', ''target_column'', ''configuration''] =
     [SqlUuid (rule_dataset_id r), SqlText (rule_type r), SqlText (rule_target_column r),
      configuration_sql (rule_configuration r)]"
  "key_values (rule_sql r) [''dataset_id''] = [SqlUuid (rule_dataset_id r)]"
  "key_values (analysis_sql a) [''id''] = [SqlUuid (analysis_id a)]"
  "key_values (analysis_sql a) [''dataset_id''] = [SqlUuid (analysis_dataset_id a)]"
  "key_values (result_sql q) [''analysis_id'', ''rule_position''] = [SqlUuid (row_analysis_id q), SqlInt (row_position q)]"
  "key_values (result_sql q) [''analysis_id'', ''source_rule_id''] = [SqlUuid (row_analysis_id q), SqlUuid (row_rule_id q)]"
  "key_values (result_sql q) [''analysis_id''] = [SqlUuid (row_analysis_id q)]"
  by (simp_all add: key_values_def user_sql_def session_sql_def dataset_sql_def rule_sql_def analysis_sql_def
      result_sql_def Let_def)

lemma table_keys:
  "table_name create_users = ''users''" "table_name create_sessions = ''sessions''"
  "table_name create_datasets = ''datasets''" "table_name create_rules = ''validation_rules''"
  "table_name create_analyses = ''analyses''" "table_name create_results = ''validation_results''"
  "primary_keys (table_constraints create_users) = [(''pk_users'', [''id''])]"
  "uniques (table_constraints create_users) = [(''uq_users_email_normalized'', [''email_normalized''])]"
  "foreign_keys (table_constraints create_users) = []"
  "primary_keys (table_constraints create_sessions) = [(''pk_sessions'', [''id''])]"
  "uniques (table_constraints create_sessions) = [(''uq_sessions_token_hash'', [''token_hash''])]"
  "foreign_keys (table_constraints create_sessions) = [(''fk_sessions_user_id_users'', [''user_id''], ''users'', [''id''])]"
  "primary_keys (table_constraints create_datasets) = [(''pk_datasets'', [''id''])]"
  "uniques (table_constraints create_datasets) = [(''uq_datasets_storage_key'', [''storage_key''])]"
  "foreign_keys (table_constraints create_datasets) = [(''fk_datasets_owner_id_users'', [''owner_id''], ''users'', [''id''])]"
  "primary_keys (table_constraints create_rules) = [(''pk_validation_rules'', [''id''])]"
  "uniques (table_constraints create_rules) =
     [(''uq_validation_rules_definition'', [''dataset_id'', ''rule_type'', ''target_column'', ''configuration''])]"
  "foreign_keys (table_constraints create_rules) =
     [(''fk_validation_rules_dataset_id_datasets'', [''dataset_id''], ''datasets'', [''id''])]"
  "primary_keys (table_constraints create_analyses) = [(''pk_analyses'', [''id''])]"
  "uniques (table_constraints create_analyses) = []"
  "foreign_keys (table_constraints create_analyses) =
     [(''fk_analyses_dataset_id_datasets'', [''dataset_id''], ''datasets'', [''id''])]"
  "primary_keys (table_constraints create_results) = [(''pk_validation_results'', [''analysis_id'', ''rule_position''])]"
  "uniques (table_constraints create_results) =
     [(''uq_validation_results_analysis_source_rule'', [''analysis_id'', ''source_rule_id''])]"
  "foreign_keys (table_constraints create_results) =
     [(''fk_validation_results_analysis_id_analyses'', [''analysis_id''], ''analyses'', [''id''])]"
  by (simp_all add: create_users_def create_sessions_def create_datasets_def create_rules_def create_analyses_def
      create_results_def)

lemma key_free_map:
  "SqlNull \<notin> set (key_values (enc r) ks) \<Longrightarrow>
     key_free (map enc rows) ks (enc r) \<longleftrightarrow> \<not> (\<exists>q \<in> set rows. key_values (enc r) ks = key_values (enc q) ks)"
  by (simp add: key_free_def) metis

lemma refers_map:
  "SqlNull \<notin> set (key_values row ks) \<Longrightarrow>
     refers (map enc rows) ks rs row \<longleftrightarrow> (\<exists>q \<in> set rows. key_values row ks = key_values (enc q) rs)"
  by (simp add: refers_def) metis

text \<open>
  Configurations are stored in the form \<open>canonical_rule_configuration\<close> gives them; for these,
  equality of the documents is equality of the configurations.
\<close>

definition canonical_configuration :: "configuration \<Rightarrow> bool" where
  "canonical_configuration cfg \<longleftrightarrow> (\<exists>p. cfg = canonical_rule_configuration p) \<and> configuration_storable cfg"

lemma canonical_injective:
  assumes "canonical_configuration cfg" and "canonical_configuration cfg'"
  shows "configuration_sql cfg = configuration_sql cfg' \<longleftrightarrow> cfg = cfg'"
proof -
  have number: "jsonb_normal (VFloat (FFin q)) = jsonb_normal (VFloat (FFin q')) \<longleftrightarrow> q = q'" for q q'
    by auto
  have present: "jsonb_normal (VFloat (FFin q)) \<noteq> VNone" "VNone \<noteq> jsonb_normal (VFloat (FFin q))" for q
    by auto
  have boundary: "jsonb_normal (dump_boundary b) = jsonb_normal (dump_boundary b') \<longleftrightarrow> dump_boundary b = dump_boundary b'"
    if "json_storable (dump_boundary b)" "json_storable (dump_boundary b')" for b b'
    using that number present by (cases b; cases b') (auto simp: dump_boundary_def simp del: jsonb_normal.simps(1) elim!: float_isfinite.elims)
  obtain p p' where p: "cfg = canonical_rule_configuration p" "cfg' = canonical_rule_configuration p'"
    using assms by (auto simp: canonical_configuration_def)
  then show ?thesis using assms boundary
    by (cases p; cases p') (auto simp: configuration_sql_def canonical_configuration_def configuration_storable_def)
qed

section \<open>Inserts\<close>

lemmas insert_simps = key_free_map refers_map key_values_sql image_iff

lemma user_insert:
  assumes "row_fits create_users (user_sql u)"
    and "list_all (\<lambda>c. c < 128) (user_email u)" and "list_all (\<lambda>c. c < 128) (user_email_normalized u)"
    and "stored ''users'' = map user_sql us"
  shows "first_violated (row_constraints create_users stored (user_sql u)) = first_violated (user_constraints us u)"
  unfolding row_constraints_fitting [OF assms(1) rows_complete(1)] user_checks [OF assms(2,3)] table_keys user_constraints_def
  by (simp add: assms(4) insert_simps)

lemma session_insert:
  assumes "row_fits create_sessions (session_sql s)"
    and "stored ''users'' = map user_sql us" and "stored ''sessions'' = map session_sql ss"
  shows "first_violated (row_constraints create_sessions stored (session_sql s)) = first_violated (session_constraints us ss s)"
  unfolding row_constraints_fitting [OF assms(1) rows_complete(2)] session_checks table_keys session_constraints_def
  by (simp add: assms(2,3) insert_simps)

text \<open>The model's first entry, the value that cannot be stored, is implied by the column types.\<close>

lemma first_violated_tl: "first_violated (c # cs) = (if snd c then first_violated cs else Some (fst c))"
  by (cases c) simp

lemma json_object_storable: "json_storable (VDict cfg) \<longleftrightarrow> configuration_storable cfg"
  by (auto simp: configuration_storable_def list_all_iff)

lemma storable_fits:
  "row_fits create_datasets (dataset_sql d) \<Longrightarrow> snd (hd (dataset_row_checks d))"
  "row_fits create_rules (rule_sql r) \<Longrightarrow> snd (hd (rule_row_checks r))"
  "row_fits create_analyses (analysis_sql a) \<Longrightarrow> snd (hd (analysis_row_checks a))"
  "row_fits create_results (result_sql q) \<Longrightarrow> snd (hd (result_row_checks q))"
  subgoal by (cases "original_filename d"; cases "storage_key d"; cases "DatasetStore.column_names d")
      (auto simp: row_fits_def create_datasets_def dataset_sql_def dataset_row_checks_def required_def optional_def
        texts_sql_def list_all_iff)
  subgoal by (auto simp: row_fits_def create_rules_def rule_sql_def rule_row_checks_def required_def configuration_sql_def
        json_object_storable simp del: jsonb_normal.simps(3) json_storable.simps(4))
  subgoal by (auto simp: row_fits_def create_analyses_def analysis_sql_def analysis_row_checks_def required_def optional_def
        texts_sql_def list_all_iff Let_def)
  subgoal by (auto simp: row_fits_def create_results_def result_sql_def result_row_checks_def required_def
        configuration_sql_def json_object_storable list_all_iff simp del: jsonb_normal.simps(3) json_storable.simps(4))
  done

lemma first_violated_before:
  "first_violated (cs @ ds) = (if list_all snd cs then first_violated ds else first_violated cs)"
  by (induction cs) (auto simp: first_violated_tl)

lemma drop_first:
  assumes "snd (hd cs)" and "cs \<noteq> []"
  shows "first_violated (tl cs @ ds) = first_violated (cs @ ds)"
  using assms by (cases cs) (simp_all add: first_violated_tl)

lemma dataset_insert:
  assumes fits: "row_fits create_datasets (dataset_sql d)"
    and stored: "accounts = user_id ` set us" "stored ''users'' = map user_sql us" "stored ''datasets'' = map dataset_sql ds"
  shows "first_violated (row_constraints create_datasets stored (dataset_sql d)) =
    first_violated (dataset_constraints accounts ds d)"
proof -
  have drop: "first_violated (tl (dataset_row_checks d) @ cs) = first_violated (dataset_row_checks d @ cs)" for cs
    by (rule drop_first [OF storable_fits(1) [OF fits]]) (simp add: dataset_row_checks_def)
  have key: "key_free (map dataset_sql ds) [''storage_key''] (dataset_sql d) \<longleftrightarrow> storage_key_free ds d"
    if "dataset_id d \<notin> dataset_id ` set ds"
  proof (cases "storage_key d")
    case None
    then show ?thesis by (simp add: key_free_def key_values_sql storage_key_free_def)
  next
    case (Some k)
    have "dataset_id e \<noteq> dataset_id d" if "e \<in> set ds" for e
      using imageI [OF that, of dataset_id] \<open>dataset_id d \<notin> dataset_id ` set ds\<close> by auto
    moreover have "or_null SqlText x = SqlText k \<longleftrightarrow> x = Some k" for x by (cases x) auto
    ultimately show ?thesis using Some by (auto simp: key_free_def key_values_sql storage_key_free_def)
  qed
  show ?thesis
    unfolding row_constraints_fitting [OF fits rows_complete(3)] dataset_checks table_keys dataset_constraints_def drop
    using key by (simp add: stored first_violated_before insert_simps)
qed

lemma rule_insert:
  assumes fits: "row_fits create_rules (rule_sql r)"
    and stored: "stored ''datasets'' = map dataset_sql ds" "stored ''validation_rules'' = map rule_sql rs"
    and canonical: "\<forall>q \<in> insert r (set rs). canonical_configuration (rule_configuration q)"
  shows "first_violated (row_constraints create_rules stored (rule_sql r)) = first_violated (rule_constraints ds rs r)"
proof -
  have drop: "first_violated (tl (rule_row_checks r) @ cs) = first_violated (rule_row_checks r @ cs)" for cs
    by (rule drop_first [OF storable_fits(2) [OF fits]]) (simp add: rule_row_checks_def)
  have "key_free (map rule_sql rs) [''dataset_id'', ''rule_type'', ''target_column'', ''configuration''] (rule_sql r) \<longleftrightarrow>
      rule_definition r \<notin> rule_definition ` set rs"
    using canonical canonical_injective [of "rule_configuration r"]
    by (subst key_free_map) (auto simp: key_values_sql rule_definition_def configuration_sql_def simp del: jsonb_normal.simps)
  then show ?thesis
    unfolding row_constraints_fitting [OF fits rows_complete(4)] rule_checks table_keys rule_constraints_def
    by (simp add: stored insert_simps drop)
qed

lemma analysis_insert:
  assumes fits: "row_fits create_analyses (analysis_sql a)"
    and stored: "stored ''datasets'' = map dataset_sql ds" "stored ''analyses'' = map analysis_sql as"
  shows "first_violated (row_constraints create_analyses stored (analysis_sql a)) =
    first_violated (analysis_constraints ds as a)"
proof -
  have drop: "first_violated (tl (analysis_row_checks a) @ cs) = first_violated (analysis_row_checks a @ cs)" for cs
    by (rule drop_first [OF storable_fits(3) [OF fits]]) (simp add: analysis_row_checks_def Let_def)
  show ?thesis
    unfolding row_constraints_fitting [OF fits rows_complete(5)] analysis_checks table_keys analysis_constraints_def
    by (simp add: stored insert_simps drop)
qed

lemma result_insert:
  assumes fits: "row_fits create_results (result_sql r)"
    and stored: "stored ''analyses'' = map analysis_sql as" "stored ''validation_results'' = map result_sql rs"
  shows "first_violated (row_constraints create_results stored (result_sql r)) =
    first_violated (result_constraints as rs r)"
proof -
  have drop: "first_violated (tl (result_row_checks r) @ cs) = first_violated (result_row_checks r @ cs)" for cs
    by (rule drop_first [OF storable_fits(4) [OF fits]]) (simp add: result_row_checks_def)
  show ?thesis
    unfolding row_constraints_fitting [OF fits rows_complete(6)] result_checks table_keys result_constraints_def
    by (simp add: stored insert_simps drop position_key_def rule_key_def)
qed

section \<open>Updates\<close>

lemma primary_key_sql:
  "primary_key create_users = [''id'']" "primary_key create_sessions = [''id'']" "primary_key create_datasets = [''id'']"
  by (simp_all add: primary_key_def table_keys)

lemma user_update:
  assumes "row_fits create_users (user_sql u)"
    and "list_all (\<lambda>c. c < 128) (user_email u)" and "list_all (\<lambda>c. c < 128) (user_email_normalized u)"
    and "\<forall>q \<in> set us. user_email_normalized q = user_email_normalized u \<longrightarrow> user_id q = user_id u"
  shows "first_violated (own_constraints create_users (map user_sql (filter (\<lambda>q. user_id q \<noteq> user_id u) us)) (user_sql u)) =
    first_violated (user_row_checks u)"
  using assms(4)
  unfolding own_constraints_fitting [OF assms(1) rows_complete(1)] user_checks [OF assms(2,3)] table_keys
  by (auto simp: first_violated_before insert_simps first_violated_None [symmetric] key_free_def)

lemma session_update:
  assumes "row_fits create_sessions (session_sql s)"
    and "\<forall>q \<in> set ss. token_hash q = token_hash s \<longrightarrow> session_id q = session_id s"
  shows "first_violated (own_constraints create_sessions (map session_sql (filter (\<lambda>q. session_id q \<noteq> session_id s) ss)) (session_sql s)) =
    first_violated (session_row_checks s)"
  using assms(2)
  unfolding own_constraints_fitting [OF assms(1) rows_complete(2)] session_checks table_keys
  by (auto simp: first_violated_before insert_simps first_violated_None [symmetric] key_free_def)

lemma dataset_update:
  assumes fits: "row_fits create_datasets (dataset_sql d)"
  shows "first_violated (own_constraints create_datasets (map dataset_sql (filter (\<lambda>q. dataset_id q \<noteq> dataset_id d) ds)) (dataset_sql d)) =
    first_violated (dataset_row_checks d @ [(''uq_datasets_storage_key'', storage_key_free ds d)])"
proof -
  have drop: "first_violated (tl (dataset_row_checks d) @ cs) = first_violated (dataset_row_checks d @ cs)" for cs
    by (rule drop_first [OF storable_fits(1) [OF fits]]) (simp add: dataset_row_checks_def)
  have "or_null SqlText x = or_null SqlText y \<longleftrightarrow> x = y" for x y by (cases x; cases y) auto
  then have "key_free (map dataset_sql (filter (\<lambda>q. dataset_id q \<noteq> dataset_id d) ds)) [''storage_key''] (dataset_sql d) \<longleftrightarrow>
      storage_key_free ds d"
    by (auto simp: key_free_def key_values_sql storage_key_free_def)
  moreover have "key_free (map dataset_sql (filter (\<lambda>q. dataset_id q \<noteq> dataset_id d) ds)) [''id''] (dataset_sql d)"
    by (auto simp: key_free_def key_values_sql)
  ultimately show ?thesis
    unfolding own_constraints_fitting [OF fits rows_complete(3)] dataset_checks table_keys drop
    by (simp add: first_violated_before)
qed

end
