(* ===== verification/SchemaProperties.thy ===== *)
theory SchemaProperties
  imports SchemaRows IdentityService
begin

text \<open>
  The properties of the schema: the migrations build what the models declare, they can be taken
  back, and the inserts of the three stores are what the migrated tables allow.
\<close>

section \<open>Upgrading\<close>

text \<open>Constraints have names, so their order does not matter, nor does that of the indexes.\<close>

definition same_table :: "table_def \<Rightarrow> table_def \<Rightarrow> bool" where
  "same_table t u \<longleftrightarrow> table_name t = table_name u \<and> table_columns t = table_columns u \<and>
     length (table_constraints t) = length (table_constraints u) \<and>
     set (table_constraints t) = set (table_constraints u)"

definition same_schema :: "schema \<Rightarrow> schema \<Rightarrow> bool" where
  "same_schema s u \<longleftrightarrow> list_all2 same_table (tables s) (tables u) \<and>
     length (indexes s) = length (indexes u) \<and> set (indexes s) = set (indexes u)"

definition head_schema :: schema where
  "head_schema =
     \<lparr>tables = [create_users, create_sessions, create_datasets, create_rules, create_analyses, create_results],
      indexes = mapped_indexes\<rparr>"

definition head_database :: migrated where
  "head_database = \<lparr>version = Some ''0003_analysis_results_score'', relations = head_schema\<rparr>"

text \<open>The database after the first \<open>n\<close> revisions.\<close>

definition released :: "nat \<Rightarrow> migrated" where
  "released n =
     \<lparr>version = (if n = 0 then None else Some (revision_id (revisions ! (n - 1)))),
      relations = \<lparr>tables = take (2 * n) (tables head_schema), indexes = take ([0, 4, 6, 7] ! n) mapped_indexes\<rparr>\<rparr>"

lemma released_ends: "released 0 = empty_database" "released 3 = head_database"
  by code_simp+

lemma released_steps:
  "upgrade_by identity_sessions (released 0) = Inr (released 1)"
  "upgrade_by datasets_rules_csv (released 1) = Inr (released 2)"
  "upgrade_by analysis_results_score (released 2) = Inr (released 3)"
  by code_simp+

lemma released_runs:
  "run_all upgrade_by (take 0 revisions) empty_database = Inr (released 0)"
  "run_all upgrade_by (take 1 revisions) empty_database = Inr (released 1)"
  "run_all upgrade_by (take 2 revisions) empty_database = Inr (released 2)"
  "run_all upgrade_by revisions empty_database = Inr head_database"
  unfolding released_ends [symmetric] by (simp_all add: revisions_def released_steps take_Cons' drop_Cons' del: One_nat_def)

lemma newer_released:
  "newer revisions (version (released 0)) = revisions"
  "newer revisions (version (released 1)) = drop 1 revisions"
  "newer revisions (version (released 2)) = drop 2 revisions"
  "newer revisions (version (released 3)) = []"
  by code_simp+

lemma released_upgrades:
  "upgrade_head None (released 0) = (Inr (), head_database)"
  "upgrade_head None (released 1) = (Inr (), head_database)"
  "upgrade_head None (released 2) = (Inr (), head_database)"
  "upgrade_head None head_database = (Inr (), head_database)"
  unfolding released_ends(2) [symmetric]
  unfolding upgrade_head_def transaction_def newer_released
  by (simp_all add: revisions_def released_steps take_Cons' drop_Cons' del: One_nat_def)

lemma empty_upgrade: "upgrade_head None empty_database = (Inr (), head_database)"
  using released_upgrades(1) by (simp add: released_ends)

lemma released_prefix: "\<exists>db. run_all upgrade_by (take n revisions) empty_database = Inr db \<and>
    upgrade_head None db = (Inr (), head_database)"
proof -
  consider "n = 0" | "n = 1" | "n = 2" | "take n revisions = revisions"
    by (cases "n < 3") (auto simp: revisions_def numeral_3_eq_3 less_Suc_eq numeral_2_eq_2)
  then show ?thesis using released_runs released_upgrades by cases metis+
qed

lemma head_declared: "same_schema head_schema target_metadata"
  by code_simp

lemma head_downgrades: "downgrade_base None head_database = (Inr (), empty_database)"
  by code_simp

section \<open>Scripts\<close>

text \<open>A printed script does what the run of the same revisions does, and fails where it fails.\<close>

lemma statements_run:
  "run_all execute_statement (map Statement ds) db = bind_result (apply_all ds (relations db)) (\<lambda>s. Inr (db\<lparr>relations := s\<rparr>))"
proof (induction ds arbitrary: db)
  case (Cons d ds)
  then show ?case by (cases "apply_ddl d (relations db)") simp_all
qed simp

lemma revision_script_runs:
  assumes "version db = down_revision r"
  shows "run_all execute_statement (revision_script r) db = upgrade_by r db"
  using assms by (cases "apply_all (upgrade r) (relations db)")
    (simp_all add: revision_script_def run_all_append statements_run upgrade_by_def)

lemma newer_runs:
  "version db = v \<Longrightarrow>
     run_all execute_statement (concat (map revision_script (newer revs v))) db = run_all upgrade_by (newer revs v) db"
proof (induction revs v arbitrary: db rule: newer.induct)
  case (1 revs v)
  show ?case
  proof (cases "find (\<lambda>r. down_revision r = v) revs")
    case (Some r)
    then have "down_revision r = v" by (auto simp: find_Some_iff)
    then have "run_all execute_statement (revision_script r) db = upgrade_by r db"
      using 1(2) by (intro revision_script_runs) simp
    moreover have "upgrade_by r db = Inr db' \<Longrightarrow> version db' = Some (revision_id r)" for db'
      by (auto simp: upgrade_by_def result_simps split: if_splits)
    ultimately show ?thesis using Some 1(1) [OF Some]
      by (cases "upgrade_by r db") (simp_all add: newer.simps [of revs v] run_all_append)
  qed (simp add: newer.simps)
qed

text \<open>The script printed for the version of a database upgrades it as the online run does.\<close>

lemma offline_runs:
  assumes "run_migrations_offline loaded (version db) = Inr script"
  shows "fst (upgrade_head None db) = Inr () \<longleftrightarrow> (\<exists>head. run_all execute_statement script db = Inr head)"
    and "upgrade_head None db = (Inr (), head) \<longleftrightarrow> run_all execute_statement script db = Inr head"
  using assms newer_runs [of db "version db" revisions]
  by (cases "run_all upgrade_by (newer revisions (version db)) db";
    auto simp: run_migrations_offline_def upgrade_head_def transaction_def split: sum.splits)+

section \<open>Downgrading\<close>

lemma downgrade_reverses:
  "r \<in> set revisions \<Longrightarrow> downgrade r = map undo (rev (upgrade r)) \<and> list_all creates (upgrade r)"
  by (auto simp: revisions_def identity_sessions_def datasets_rules_csv_def analysis_results_score_def create_users_def
      create_sessions_def create_datasets_def create_rules_def create_analyses_def create_results_def)

interpretation migrations: reversible_steps upgrade_by downgrade_by "\<lambda>r. r \<in> set revisions" "\<lambda>db. schema_ok (relations db)"
proof
  fix db r db' assume *: "schema_ok (relations db)" "r \<in> set revisions" "upgrade_by r db = Inr db'"
  then obtain s where s: "apply_all (upgrade r) (relations db) = Inr s" "version db = down_revision r"
    "db' = \<lparr>version = Some (revision_id r), relations = s\<rparr>"
    by (auto simp: upgrade_by_def result_simps split: if_splits)
  note R = downgrade_reverses [OF *(2)]
  have "apply_all (downgrade r) s = Inr (relations db)"
    using apply_all_undone [OF *(1) _ s(1)] R by simp
  then show "downgrade_by r db' = Inr db" using s by (simp add: downgrade_by_def)
  show "schema_ok (relations db')" using creation.run_ok [OF *(1) _ s(1)] R s(3) by simp
qed

section \<open>Properties\<close>

text \<open>
  C39. The migrations build what the models declare: from the empty database and from the state after any
  number of revisions, \<open>alembic upgrade head\<close> reaches the head, whose tables have the columns,
  constraints and indexes of the mapped classes, and from which a downgrade leads back to nothing;
  executing the script printed offline for that state reaches the same head.
\<close>

theorem migrations_create_declared_schema:
  "\<exists>db head. run_all upgrade_by (take n revisions) empty_database = Inr db \<and>
     upgrade_head None db = (Inr (), head) \<and> version head = Some (revision_id (last revisions)) \<and>
     same_schema (relations head) target_metadata \<and>
     downgrade_base None head = (Inr (), empty_database) \<and>
     (\<exists>script. run_migrations_offline (Inr api) (version db) = Inr script \<and> run_all execute_statement script db = Inr head)"
proof -
  have "\<exists>script. run_migrations_offline (Inr api) (version db) = Inr script \<and> run_all execute_statement script db = Inr head"
    if "upgrade_head None db = (Inr (), head)" for db head
    using that offline_runs(2) [of "Inr api" db] by (simp add: run_migrations_offline_def get_database_url_def)
  moreover
have "version head_database = Some (revision_id (last revisions))"
    by (simp add: head_database_def revisions_def analysis_results_score_def)
  moreover have "same_schema (relations head_database) target_metadata"
    using head_declared by (simp add: head_database_def)
  ultimately show ?thesis using released_prefix [of n] head_downgrades by blast
qed

text \<open>
  A downgrade undoes an upgrade: whatever else the database contains, after any revisions have been
  applied, taking them back in reverse order restores version and schema.
\<close>

theorem downgrade_undoes_upgrade:
  assumes "schema_ok (relations db)" and "set rs \<subseteq> set revisions" and "run_all upgrade_by rs db = Inr db'"
  shows "run_all downgrade_by (rev rs) db' = Inr db"
  using migrations.run_revert [OF assms(1) _ assms(3)] assms(2) by (auto simp: list_all_iff)

theorem downgrade_undoes_upgrade_witness:
  "run_all downgrade_by (rev revisions) head_database = Inr empty_database"
  using downgrade_undoes_upgrade [OF _ _ released_runs(4)]
  by (simp add: schema_ok_def empty_database_def empty_schema_def relation_names_def)

section \<open>Inserts\<close>

definition stored_tables :: "identity_db \<Rightarrow> analysis_world \<Rightarrow> contents" where
  "stored_tables db w n =
     (if n = ''users'' then map user_sql (users db)
      else if n = ''sessions'' then map session_sql (sessions db)
      else if n = ''datasets'' then map dataset_sql (datasets w)
      else if n = ''validation_rules'' then map rule_sql (rules w)
      else if n = ''analyses'' then map analysis_sql (analyses w)
      else if n = ''validation_results'' then map result_sql (results w) else [])"

lemma stored_tables_simps:
  "stored_tables db w ''users'' = map user_sql (users db)"
  "stored_tables db w ''sessions'' = map session_sql (sessions db)"
  "stored_tables db w ''datasets'' = map dataset_sql (datasets w)"
  "stored_tables db w ''validation_rules'' = map rule_sql (rules w)"
  "stored_tables db w ''analyses'' = map analysis_sql (analyses w)"
  "stored_tables db w ''validation_results'' = map result_sql (results w)"
  by (simp_all add: stored_tables_def)

lemma head_tables:
  "table_of head_schema ''users'' = Some create_users" "table_of head_schema ''sessions'' = Some create_sessions"
  "table_of head_schema ''datasets'' = Some create_datasets" "table_of head_schema ''validation_rules'' = Some create_rules"
  "table_of head_schema ''analyses'' = Some create_analyses"
  "table_of head_schema ''validation_results'' = Some create_results"
  by (simp_all add: table_of_def head_schema_def table_keys)

lemma head_inserts:
  fixes db :: identity_db and w :: analysis_world
  assumes owned: "owners w = user_id ` set (users db)"
  defines "stored \<equiv> stored_tables db w"
  shows "row_fits create_users (user_sql u) \<Longrightarrow>
      list_all (\<lambda>c. c < 128) (user_email u) \<Longrightarrow> list_all (\<lambda>c. c < 128) (user_email_normalized u) \<Longrightarrow>
      sql_insert head_schema ''users'' (user_sql u) stored =
        map_sum id (\<lambda>us. stored(''users'' := map user_sql us)) (insert_user u (users db))"
    and "row_fits create_sessions (session_sql se) \<Longrightarrow>
      sql_insert head_schema ''sessions'' (session_sql se) stored =
        map_sum id (\<lambda>ss. stored(''sessions'' := map session_sql ss)) (insert_session (users db) se (sessions db))"
    and "row_fits create_datasets (dataset_sql d) \<Longrightarrow>
      sql_insert head_schema ''datasets'' (dataset_sql d) stored =
        map_sum id (\<lambda>ds. stored(''datasets'' := map dataset_sql ds)) (insert_dataset (owners w) d (datasets w))"
    and "row_fits create_rules (rule_sql r) \<Longrightarrow>
      \<forall>q \<in> insert r (set (rules w)). canonical_configuration (rule_configuration q) \<Longrightarrow>
      sql_insert head_schema ''validation_rules'' (rule_sql r) stored =
        map_sum id (\<lambda>rs. stored(''validation_rules'' := map rule_sql rs)) (insert_rule (datasets w) r (rules w))"
    and "row_fits create_analyses (analysis_sql a) \<Longrightarrow>
      sql_insert head_schema ''analyses'' (analysis_sql a) stored =
        map_sum id (\<lambda>as. stored(''analyses'' := map analysis_sql as)) (insert_analysis (datasets w) a (analyses w))"
    and "row_fits create_results (result_sql q) \<Longrightarrow>
      sql_insert head_schema ''validation_results'' (result_sql q) stored =
        map_sum id (\<lambda>rs. stored(''validation_results'' := map result_sql rs)) (insert_result (analyses w) q (results w))"
proof -
  note S = stored_tables_simps [of db w, folded stored_def]
  show "sql_insert head_schema ''users'' (user_sql u) stored =
      map_sum id (\<lambda>us. stored(''users'' := map user_sql us)) (insert_user u (users db))"
    if "row_fits create_users (user_sql u)" "list_all (\<lambda>c. c < 128) (user_email u)"
      "list_all (\<lambda>c. c < 128) (user_email_normalized u)"
    unfolding insert_user_def by (rule sql_insert_row [where stored = stored and enc = user_sql and r = u and cons = "user_constraints",
      OF head_tables(1) S(1) user_insert [where stored = stored, OF that S(1)]])
  show "sql_insert head_schema ''sessions'' (session_sql se) stored =
      map_sum id (\<lambda>ss. stored(''sessions'' := map session_sql ss)) (insert_session (users db) se (sessions db))"
    if "row_fits create_sessions (session_sql se)"
    unfolding insert_session_def by (rule sql_insert_row [where stored = stored and enc = session_sql and r = se and cons = "session_constraints (users db)",
      OF head_tables(2) S(2) session_insert [where stored = stored, OF that S(1,2)]])
  show "sql_insert head_schema ''datasets'' (dataset_sql d) stored =
      map_sum id (\<lambda>ds. stored(''datasets'' := map dataset_sql ds)) (insert_dataset (owners w) d (datasets w))"
    if "row_fits create_datasets (dataset_sql d)"
    unfolding insert_dataset_def
    by (rule sql_insert_row [where stored = stored and enc = dataset_sql and r = d and cons = "dataset_constraints (owners w)",
      OF head_tables(3) S(3) dataset_insert [where stored = stored, OF that owned S(1,3)]])
  show "sql_insert head_schema ''validation_rules'' (rule_sql r) stored =
      map_sum id (\<lambda>rs. stored(''validation_rules'' := map rule_sql rs)) (insert_rule (datasets w) r (rules w))"
    if "row_fits create_rules (rule_sql r)" "\<forall>q \<in> insert r (set (rules w)). canonical_configuration (rule_configuration q)"
    unfolding insert_rule_def
    by (rule sql_insert_row [where stored = stored and enc = rule_sql and r = r and cons = "rule_constraints (datasets w)",
      OF head_tables(4) S(4) rule_insert [where stored = stored, OF that(1) S(3,4) that(2)]])
  show "sql_insert head_schema ''analyses'' (analysis_sql a) stored =
      map_sum id (\<lambda>as. stored(''analyses'' := map analysis_sql as)) (insert_analysis (datasets w) a (analyses w))"
    if "row_fits create_analyses (analysis_sql a)"
    unfolding insert_analysis_def by (rule sql_insert_row [where stored = stored and enc = analysis_sql and r = a and cons = "analysis_constraints (datasets w)",
      OF head_tables(5) S(5) analysis_insert [where stored = stored, OF that S(3,5)]])
  show "sql_insert head_schema ''validation_results'' (result_sql q) stored =
      map_sum id (\<lambda>rs. stored(''validation_results'' := map result_sql rs)) (insert_result (analyses w) q (results w))"
    if "row_fits create_results (result_sql q)"
    unfolding insert_result_def by (rule sql_insert_row [where stored = stored and enc = result_sql and r = q and cons = "result_constraints (analyses w)",
      OF head_tables(6) S(6) result_insert [where stored = stored, OF that S(5,6)]])
qed

lemma head_updates:
  fixes db :: identity_db and w :: analysis_world
  defines "stored \<equiv> stored_tables db w"
  shows "row_fits create_users (user_sql u) \<Longrightarrow>
      list_all (\<lambda>c. c < 128) (user_email u) \<Longrightarrow> list_all (\<lambda>c. c < 128) (user_email_normalized u) \<Longrightarrow>
      \<forall>q \<in> set (users db). user_email_normalized q = user_email_normalized u \<longrightarrow> user_id q = user_id u \<Longrightarrow>
      map_sum IntegrityError id (sql_update head_schema ''users'' (user_sql u) stored) =
        map_sum id (\<lambda>db'. stored(''users'' := map user_sql (users db'))) (update_user u db)"
    and "row_fits create_sessions (session_sql se) \<Longrightarrow>
      \<forall>q \<in> set (sessions db). token_hash q = token_hash se \<longrightarrow> session_id q = session_id se \<Longrightarrow>
      map_sum IntegrityError id (sql_update head_schema ''sessions'' (session_sql se) stored) =
        map_sum id (\<lambda>db'. stored(''sessions'' := map session_sql (sessions db'))) (update_session se db)"
    and "row_fits create_datasets (dataset_sql d) \<Longrightarrow>
      sql_update head_schema ''datasets'' (dataset_sql d) stored =
        (case first_violated (dataset_row_checks d @ [(''uq_datasets_storage_key'', storage_key_free (datasets w) d)]) of
           Some c \<Rightarrow> Inl c
         | None \<Rightarrow> Inr (stored(''datasets'' :=
             map dataset_sql (update_rows (\<lambda>q. dataset_id q = dataset_id d) (\<lambda>_. d) (datasets w)))))"
proof -
  note S = stored_tables_simps [of db w, folded stored_def]
  show "map_sum IntegrityError id (sql_update head_schema ''users'' (user_sql u) stored) =
      map_sum id (\<lambda>db'. stored(''users'' := map user_sql (users db'))) (update_user u db)"
    if u: "row_fits create_users (user_sql u)" "list_all (\<lambda>c. c < 128) (user_email u)"
      "list_all (\<lambda>c. c < 128) (user_email_normalized u)"
      "\<forall>q \<in> set (users db). user_email_normalized q = user_email_normalized u \<longrightarrow> user_id q = user_id u"
  proof -
    have "sql_update head_schema ''users'' (user_sql u) stored =
        (case first_violated (user_row_checks u) of
           None \<Rightarrow> Inr (stored(''users'' := map user_sql (update_rows (\<lambda>q. user_id q = user_id u) (\<lambda>_. u) (users db))))
         | Some c \<Rightarrow> Inl c)"
      by (rule sql_update_row [where stored = stored and enc = user_sql and r = u and key = user_id, OF head_tables(1) S(1)])
        (auto simp: primary_key_sql key_values_sql user_update [OF u])
    then show ?thesis by (simp add: update_user_def split: option.splits)
  qed
  show "map_sum IntegrityError id (sql_update head_schema ''sessions'' (session_sql se) stored) =
      map_sum id (\<lambda>db'. stored(''sessions'' := map session_sql (sessions db'))) (update_session se db)"
    if s: "row_fits create_sessions (session_sql se)"
      "\<forall>q \<in> set (sessions db). token_hash q = token_hash se \<longrightarrow> session_id q = session_id se"
  proof -
    have "sql_update head_schema ''sessions'' (session_sql se) stored =
        (case first_violated (session_row_checks se) of
           None \<Rightarrow> Inr (stored(''sessions'' :=
             map session_sql (update_rows (\<lambda>q. session_id q = session_id se) (\<lambda>_. se) (sessions db))))
         | Some c \<Rightarrow> Inl c)"
      by (rule sql_update_row [where stored = stored and enc = session_sql and r = se and key = session_id, OF head_tables(2) S(2)])
        (auto simp: primary_key_sql key_values_sql session_update [OF s])
    then show ?thesis by (simp add: update_session_def split: option.splits)
  qed
  show "sql_update head_schema ''datasets'' (dataset_sql d) stored =
      (case first_violated (dataset_row_checks d @ [(''uq_datasets_storage_key'', storage_key_free (datasets w) d)]) of
         Some c \<Rightarrow> Inl c
       | None \<Rightarrow> Inr (stored(''datasets'' :=
           map dataset_sql (update_rows (\<lambda>q. dataset_id q = dataset_id d) (\<lambda>_. d) (datasets w)))))"
    if d: "row_fits create_datasets (dataset_sql d)"
    by (subst sql_update_row [where stored = stored and enc = dataset_sql and r = d and key = dataset_id, OF head_tables(3) S(3)])
      (auto simp: primary_key_sql key_values_sql dataset_update [OF d] split: option.splits)
qed

text \<open>Rows for an empty database: the user can be stored, the others lack what they refer to.\<close>

definition first_user :: user_row where
  "first_user = \<lparr>user_id = Uuid 1, user_email = lit ''a@b.co'', user_email_normalized = lit ''a@b.co'',
     user_password_hash = lit ''h'', user_created_at = 0, user_updated_at = 0\<rparr>"

definition orphan_session :: session_row where
  "orphan_session = \<lparr>session_id = Uuid 2, session_user_id = Uuid 1, token_hash = replicate 32 0, csrf_token = replicate 32 0,
     session_created_at = 0, last_seen_at = 0, absolute_expires_at = hours 12, revoked_at = None\<rparr>"

definition orphan_dataset :: dataset_row where
  "orphan_dataset = \<lparr>dataset_id = Uuid 3, owner_id = Uuid 1, dataset_name = lit ''d'', original_filename = None,
     storage_key = None, content_sha256 = None, size_bytes = None, dataset_row_count = None, column_names = None,
     uploaded_at = None, dataset_created_at = 0, dataset_updated_at = 0\<rparr>"

definition orphan_rule :: rule_row where
  "orphan_rule = \<lparr>rule_row_id = Uuid 4, rule_dataset_id = Uuid 3, rule_type = lit ''required'',
     rule_target_column = lit ''c'', rule_configuration = [], rule_created_at = 0\<rparr>"

definition orphan_analysis :: analysis_row where
  "orphan_analysis = \<lparr>analysis_id = Uuid 5, analysis_dataset_id = Uuid 3,
     analysis_source = \<lparr>source_filename = lit ''d.csv'', source_sha256 = replicate 32 0, source_size = 1, source_rows = 0,
       source_columns = [lit ''c''], source_uploaded_at = 0\<rparr>,
     analysis_violations = 0, analysis_score = None, analysis_created_at = 0\<rparr>"

definition orphan_result :: result_row where
  "orphan_result = \<lparr>row_analysis_id = Uuid 5, row_position = 0, row_rule_id = Uuid 4, row_rule_type = lit ''required'',
     row_column = lit ''c'', row_configuration = [], row_evaluated = 0, row_passed = 0, row_violations = 0,
     row_skipped = 0, row_samples = []\<rparr>"

definition no_accounts :: identity_db where
  "no_accounts = \<lparr>users = [], sessions = []\<rparr>"

definition no_data :: analysis_world where
  "no_data = \<lparr>owners = {}, datasets = [], rules = [], files = (\<lambda>_. None), analyses = [], results = []\<rparr>"

lemma orphans_fit:
  "row_fits create_users (user_sql first_user)" "list_all (\<lambda>c. c < 128) (user_email first_user)"
  "list_all (\<lambda>c. c < 128) (user_email_normalized first_user)"
  "row_fits create_sessions (session_sql orphan_session)" "row_fits create_datasets (dataset_sql orphan_dataset)"
  "row_fits create_rules (rule_sql orphan_rule)"
  "\<forall>q \<in> insert orphan_rule (set (rules no_data)). canonical_configuration (rule_configuration q)"
  "row_fits create_analyses (analysis_sql orphan_analysis)" "row_fits create_results (result_sql orphan_result)"
proof -
  note fit = row_fits_def required_def optional_def storable_text_def
  show "row_fits create_users (user_sql first_user)"
    by (simp add: fit create_users_def user_sql_def first_user_def)
  show "list_all (\<lambda>c. c < 128) (user_email first_user)" "list_all (\<lambda>c. c < 128) (user_email_normalized first_user)"
    by (simp_all add: first_user_def)
  show "row_fits create_sessions (session_sql orphan_session)"
    by (simp add: fit create_sessions_def session_sql_def orphan_session_def)
  show "row_fits create_datasets (dataset_sql orphan_dataset)"
    by (simp add: fit create_datasets_def dataset_sql_def orphan_dataset_def)
  show "row_fits create_rules (rule_sql orphan_rule)"
    by (simp add: fit create_rules_def rule_sql_def orphan_rule_def configuration_sql_def)
  show "\<forall>q \<in> insert orphan_rule (set (rules no_data)). canonical_configuration (rule_configuration q)"
    by (simp add: no_data_def orphan_rule_def canonical_configuration_def configuration_storable_def)
      (rule exI [of _ EmptyRuleConfiguration], simp)
  show "row_fits create_analyses (analysis_sql orphan_analysis)"
    by (simp add: fit create_analyses_def analysis_sql_def orphan_analysis_def texts_sql_def)
  show "row_fits create_results (result_sql orphan_result)"
    by (simp add: fit create_results_def result_sql_def orphan_result_def configuration_sql_def)
qed

text \<open>
  C14. The stores are the migrated database: inserting a user, session, dataset, rule, analysis or result, and
  updating a user, session or dataset, as the stores and services define it, is the insert into or
  the update of the table that \<open>alembic upgrade head\<close> creates; it fails for the same rows and with
  the same constraint, given values that fit their columns, ASCII addresses and configurations in
  canonical form.
\<close>

theorem stores_obey_the_schema:
  fixes db :: identity_db and w :: analysis_world
  assumes "upgrade_head None empty_database = (Inr (), head)" and "owners w = user_id ` set (users db)"
    and "stored = stored_tables db w" and "s = relations head"
    and "row_fits create_users (user_sql u)"
    and "list_all (\<lambda>c. c < 128) (user_email u)" and "list_all (\<lambda>c. c < 128) (user_email_normalized u)"
    and "row_fits create_sessions (session_sql se)" and "row_fits create_datasets (dataset_sql d)"
    and "row_fits create_rules (rule_sql r)"
    and "\<forall>q \<in> insert r (set (rules w)). canonical_configuration (rule_configuration q)"
    and "row_fits create_analyses (analysis_sql a)" and "row_fits create_results (result_sql q)"
  shows "sql_insert s ''users'' (user_sql u) stored =
      map_sum id (\<lambda>us. stored(''users'' := map user_sql us)) (insert_user u (users db)) \<and>
    sql_insert s ''sessions'' (session_sql se) stored =
      map_sum id (\<lambda>ss. stored(''sessions'' := map session_sql ss)) (insert_session (users db) se (sessions db)) \<and>
    sql_insert s ''datasets'' (dataset_sql d) stored =
      map_sum id (\<lambda>ds. stored(''datasets'' := map dataset_sql ds)) (insert_dataset (owners w) d (datasets w)) \<and>
    sql_insert s ''validation_rules'' (rule_sql r) stored =
      map_sum id (\<lambda>rs. stored(''validation_rules'' := map rule_sql rs)) (insert_rule (datasets w) r (rules w)) \<and>
    sql_insert s ''analyses'' (analysis_sql a) stored =
      map_sum id (\<lambda>as. stored(''analyses'' := map analysis_sql as)) (insert_analysis (datasets w) a (analyses w)) \<and>
    sql_insert s ''validation_results'' (result_sql q) stored =
      map_sum id (\<lambda>rs. stored(''validation_results'' := map result_sql rs)) (insert_result (analyses w) q (results w)) \<and>
    ((\<forall>v \<in> set (users db). user_email_normalized v = user_email_normalized u \<longrightarrow> user_id v = user_id u) \<longrightarrow>
      map_sum IntegrityError id (sql_update s ''users'' (user_sql u) stored) =
        map_sum id (\<lambda>db'. stored(''users'' := map user_sql (users db'))) (update_user u db)) \<and>
    ((\<forall>v \<in> set (sessions db). token_hash v = token_hash se \<longrightarrow> session_id v = session_id se) \<longrightarrow>
      map_sum IntegrityError id (sql_update s ''sessions'' (session_sql se) stored) =
        map_sum id (\<lambda>db'. stored(''sessions'' := map session_sql (sessions db'))) (update_session se db)) \<and>
    sql_update s ''datasets'' (dataset_sql d) stored =
      (case first_violated (dataset_row_checks d @ [(''uq_datasets_storage_key'', storage_key_free (datasets w) d)]) of
         Some c \<Rightarrow> Inl c
       | None \<Rightarrow> Inr (stored(''datasets'' :=
           map dataset_sql (update_rows (\<lambda>v. dataset_id v = dataset_id d) (\<lambda>_. d) (datasets w)))))"
proof -
  have s: "s = head_schema" using assms(1,4) empty_upgrade by (auto simp: head_database_def)
  show ?thesis unfolding s
    by (intro conjI impI head_inserts [OF assms(2), folded assms(3)]
        head_updates [where db = db and w = w, folded assms(3)] assms(5-13))
qed

theorem stores_obey_the_schema_witness:
  "sql_insert head_schema ''users'' (user_sql first_user) (stored_tables no_accounts no_data) =
     Inr ((stored_tables no_accounts no_data)(''users'' := [user_sql first_user])) \<and>
   sql_insert head_schema ''sessions'' (session_sql orphan_session) (stored_tables no_accounts no_data) =
     Inl ''fk_sessions_user_id_users''"
proof -
  have accounts: "owners no_data = user_id ` set (users no_accounts)" by (simp add: no_data_def no_accounts_def)
  have "insert_user first_user (users no_accounts) = Inr [first_user]"
    by (simp add: insert_user_def insert_row_def user_constraints_def user_row_checks_def first_user_def no_accounts_def
        ascii_lower_def)
  moreover have "insert_session (users no_accounts) orphan_session (sessions no_accounts) = Inl ''fk_sessions_user_id_users''"
    by (simp add: insert_session_def insert_row_def session_constraints_def session_row_checks_def orphan_session_def
        no_accounts_def hours_def seconds_def)
  ultimately show ?thesis
    using stores_obey_the_schema [OF empty_upgrade accounts refl refl orphans_fit] by (simp add: head_database_def)
qed

end
