(* ===== verification/OriginProperties.thy ===== *)
theory OriginProperties
  imports Origins
begin

text \<open>
  Canonical origins are canonical: a canonical origin is accepted unchanged, and two origins have
  the same canonical text exactly when scheme, host and effective port agree.
\<close>

section \<open>Numbers as text\<close>

lemma decimal_text_last: "n < 10 \<Longrightarrow> decimal_text n = [48 + n]"
  by (subst decimal_text.simps) simp

lemma decimal_text_more: "\<not> n < 10 \<Longrightarrow> decimal_text n = decimal_text (n div 10) @ [48 + n mod 10]"
  by (subst decimal_text.simps) simp

lemma decimal_text_digits: "list_all is_digit (decimal_text n)"
proof (induction n rule: decimal_text.induct)
  case (1 n)
  then show ?case
    by (cases "n < 10") (auto simp: decimal_text_last decimal_text_more is_digit_def)
qed

lemma digits_value_decimal: "digits_value (decimal_text n) = int n"
proof (induction n rule: decimal_text.induct)
  case (1 n)
  then show ?case
    by (cases "n < 10") (simp_all add: decimal_text_last decimal_text_more digits_value_snoc digits_value_def zmod_int zdiv_int)
qed

lemma decimal_text_not_Nil [simp]: "decimal_text n \<noteq> []"
  by (cases "n < 10") (simp_all add: decimal_text_last decimal_text_more)

lemma length_decimal_text: "n < 10 ^ Suc k \<Longrightarrow> length (decimal_text n) \<le> Suc k"
proof (induction k arbitrary: n)
  case (Suc k)
  then show ?case
    by (cases "n < 10") (auto simp: decimal_text_last decimal_text_more less_mult_imp_div_less mult.commute)
qed (simp add: decimal_text_last)

lemma decimal_text_digits_value:
  "s \<noteq> [] \<Longrightarrow> list_all is_digit s \<Longrightarrow> s = [48] \<or> hd s \<noteq> 48 \<Longrightarrow> decimal_text (nat (digits_value s)) = s"
proof (induction s rule: rev_induct)
  case (snoc c t)
  have c: "48 \<le> c" "c \<le> 57" using snoc.prems(2) by (simp_all add: is_digit_def)
  show ?case
  proof (cases "t = []")
    case True
    then show ?thesis using c by (simp add: digits_value_def decimal_text_last nat_diff_distrib)
  next
    case False
    then have lead: "hd t \<noteq> 48" using snoc.prems(3) by (cases t) auto
    have IH: "decimal_text (nat (digits_value t)) = t" using snoc.IH False lead snoc.prems(2) by simp
    have "nat (digits_value t) \<noteq> 0"
    proof
      assume "nat (digits_value t) = 0"
      then have "t = [48]" using IH by (simp add: decimal_text_last)
      then show False using lead by simp
    qed
    then have pos: "1 \<le> digits_value t" by linarith
    let ?n = "nat (digits_value (t @ [c]))"
    have n: "?n = nat (digits_value t) * 10 + (c - 48)"
      using pos c by (simp add: digits_value_snoc nat_add_distrib nat_mult_distrib nat_diff_distrib of_nat_diff)
    moreover obtain d where d: "c = 48 + d" "d < 10" using c by (intro that [of "c - 48"]) simp_all
    ultimately have "\<not> ?n < 10" "?n div 10 = nat (digits_value t)" "?n mod 10 = c - 48"
      using pos by simp_all
    then show ?thesis using IH c by (simp add: decimal_text_more)
  qed
qed simp

section \<open>IPv4 texts\<close>

lemma join_dots_split: "join_dots (py_split 46 s) = s"
proof (induction s)
  case (Cons c s)
  show ?case using Cons py_split_not_Nil [of 46 s]
    by (cases "py_split 46 s" rule: join_dots.cases) auto
qed simp

lemma parse_octet_Some: "parse_octet s = Some n \<Longrightarrow> decimal_text n = s \<and> list_all is_digit s"
  by (auto simp: parse_octet_def decimal_text_digits_value split: if_splits)

lemma parse_ipv4_Some:
  assumes "parse_ipv4 s = Some octets"
  shows "join_dots (map decimal_text octets) = s" and "list_all (\<lambda>c. is_digit c \<or> c = 46) s"
proof -
  have some: "\<forall>p \<in> set (py_split 46 s). \<exists>n. parse_octet p = Some n"
    and octets: "octets = map (the \<circ> parse_octet) (py_split 46 s)"
    using assms by (auto simp: parse_ipv4_def Let_def image_iff split: if_splits) (metis not_None_eq)
  then have "map decimal_text octets = py_split 46 s"
    using parse_octet_Some by (fastforce intro!: map_idI)
  then show "join_dots (map decimal_text octets) = s" by (simp add: join_dots_split)
  show "list_all (\<lambda>c. is_digit c \<or> c = 46) s"
    unfolding list_all_iff
  proof
    fix c
    assume "c \<in> set s"
    then show "is_digit c \<or> c = 46"
      using py_split_elem [of c s 46] some parse_octet_Some by (fastforce simp: list_all_iff)
  qed
qed

lemma parse_ipv4_colon: "58 \<in> set s \<Longrightarrow> parse_ipv4 s = None"
  using parse_ipv4_Some(2) [of s] by (cases "parse_ipv4 s") (auto simp: list_all_iff is_digit_def)

section \<open>Hosts as canonical origins show them\<close>

text \<open>Names, \<open>localhost\<close> and IPv4 addresses.\<close>

definition plain_host :: "pystr \<Rightarrow> bool" where
  "plain_host h \<longleftrightarrow> h \<noteq> [] \<and> list_all (in_cls [(97, 122), (48, 57), (45, 46)]) h"

definition ipv6_host :: "url_env \<Rightarrow> pystr \<Rightarrow> bool" where
  "ipv6_host env h \<longleftrightarrow>
     58 \<in> set h \<and> hd h \<noteq> 118 \<and> ipv6_compressed env h = Some h \<and> list_all is_ascii h \<and>
     set h \<inter> {9, 10, 13, 35, 42, 47, 63, 64, 93} = {} \<and> map ascii_lower h = h"

definition good_host :: "url_env \<Rightarrow> pystr \<Rightarrow> bool" where
  "good_host env h \<longleftrightarrow> plain_host h \<and> canonical_host env h = Inr h \<or> ipv6_host env h"

lemma plain_host_chars: "plain_host h \<Longrightarrow> set h \<inter> {9, 10, 13, 35, 37, 42, 47, 58, 63, 64, 91, 93} = {}"
  by (auto simp: plain_host_def list_all_iff in_cls_def)

lemma plain_host_lower:
  assumes "plain_host h"
  shows "list_all is_ascii h" and "map ascii_lower h = h"
proof -
  show "list_all is_ascii h"
    using assms by (auto simp: plain_host_def list_all_iff in_cls_def is_ascii_def)
  have "ascii_lower c = c" if "c \<in> set h" for c
    using assms that by (auto simp: plain_host_def list_all_iff in_cls_def ascii_lower_def)
  then show "map ascii_lower h = h" by (intro map_idI) simp
qed

lemma good_host_chars:
  assumes "good_host env h"
  shows "h \<noteq> []" and "list_all is_ascii h" and "map ascii_lower h = h"
    and "set h \<inter> {9, 10, 13, 35, 42, 47, 63, 64, 93} = {}"
  using assms plain_host_lower [of h] plain_host_chars [of h]
  by (auto simp: good_host_def plain_host_def ipv6_host_def)

lemma canonical_host_ipv6: "ipv6_host env h \<Longrightarrow> canonical_host env h = Inr h"
  by (simp add: ipv6_host_def canonical_host_def ip_compressed_def parse_ipv4_colon)

lemma canonical_host_good: "good_host env h \<Longrightarrow> canonical_host env h = Inr h"
  by (auto simp: good_host_def canonical_host_ipv6)

lemma host_label_chars:
  assumes "fullmatch host_label_pattern l"
  shows "list_all (in_cls [(97, 122), (48, 57), (45, 46)]) l"
proof -
  have "matches host_label_pattern l \<longleftrightarrow> l \<noteq> [] \<and> length l \<le> 61 + 2 \<and>
      list_all (in_cls [(97, 122), (48, 57), (45, 45)]) l \<and>
      in_cls [(97, 122), (48, 57)] (hd l) \<and> in_cls [(97, 122), (48, 57)] (last l)"
    unfolding host_label_pattern_def by (intro matches_RName) (auto simp: in_cls_def)
  then have "list_all (in_cls [(97, 122), (48, 57), (45, 45)]) l" using assms by (simp add: fullmatch_iff)
  then show ?thesis by (auto simp: list_all_iff in_cls_def)
qed

lemma canonical_host_result:
  assumes host: "canonical_host env t = Inr h" and law: "ipv6_law env"
    and t: "t \<noteq> []" "list_all is_ascii t" "map ascii_lower t = t" "set t \<inter> {9, 10, 13, 35, 42, 47, 63, 64, 93} = {}"
  shows "good_host env h"
proof (cases "ip_compressed env t")
  case None
  then have h: "h = t" and name: "t = lit ''localhost'' \<or> 2 \<le> length (py_split 46 t) \<and>
      list_all (fullmatch host_label_pattern) (py_split 46 t)"
    using host by (auto simp: canonical_host_def Let_def list_all_iff list_ex_iff split: if_splits)
  have "list_all (in_cls [(97, 122), (48, 57), (45, 46)]) t"
    using name
  proof
    assume "2 \<le> length (py_split 46 t) \<and> list_all (fullmatch host_label_pattern) (py_split 46 t)"
    then show ?thesis
      using py_split_elem [of _ t 46] host_label_chars by (fastforce simp: list_all_iff in_cls_def)
  qed (simp add: in_cls_def)
  then show ?thesis using t(1) host h by (simp add: good_host_def plain_host_def)
next
  case (Some address)
  then have h: "h = address" using host by (simp add: canonical_host_def)
  show ?thesis
  proof (cases "parse_ipv4 t")
    case (Some octets)
    then have "h = t" using h \<open>ip_compressed env t = Some address\<close> parse_ipv4_Some(1) [of t octets]
      by (simp add: ip_compressed_def)
    moreover have "list_all (in_cls [(97, 122), (48, 57), (45, 46)]) t"
      using parse_ipv4_Some(2) [OF Some] by (auto simp: list_all_iff in_cls_def is_digit_def)
    ultimately show ?thesis using t(1) host by (simp add: good_host_def plain_host_def)
  next
    case None
    then have "ipv6_compressed env t = Some h" using Some h by (simp add: ip_compressed_def)
    then have h6: "ipv6_compressed env h = Some h" "58 \<in> set h" "hd h \<in> set (lit ''0123456789abcdef:'')"
      and chars: "set h \<subseteq> set (lit ''0123456789abcdef:.'') \<union> set t"
      using law unfolding ipv6_law_def by blast+
    have ok: "is_ascii c \<and> c \<notin> {9, 10, 13, 35, 42, 47, 63, 64, 93} \<and> ascii_lower c = c"
      if "c \<in> set (lit ''0123456789abcdef:.'')" for c
      using that by (auto simp: is_ascii_def ascii_lower_def)
    have "ascii_lower c = c" if "c \<in> set t" for c
      using t(3) that by (metis in_set_conv_nth length_map nth_map)
    then have all: "is_ascii c \<and> c \<notin> {9, 10, 13, 35, 42, 47, 63, 64, 93} \<and> ascii_lower c = c"
      if "c \<in> set t" for c using t(2,4) that by (auto simp: list_all_iff)
    have "is_ascii c \<and> c \<notin> {9, 10, 13, 35, 42, 47, 63, 64, 93} \<and> ascii_lower c = c" if "c \<in> set h" for c
      using ok [of c] all [of c] chars that by blast
    then have "list_all is_ascii h" "set h \<inter> {9, 10, 13, 35, 42, 47, 63, 64, 93} = {}" "map ascii_lower h = h"
      unfolding list_all_iff by (blast, blast, intro map_idI, blast)
    moreover have "hd h \<noteq> 118" using h6(3) by auto
    ultimately have "ipv6_host env h" using h6 by (simp add: ipv6_host_def)
    then show ?thesis by (simp add: good_host_def)
  qed
qed

section \<open>Splitting a canonical origin\<close>

definition port_text :: "nat option \<Rightarrow> pystr" where
  "port_text port = (case port of None \<Rightarrow> [] | Some p \<Rightarrow> 58 # decimal_text p)"

lemma port_text_chars: "c \<in> set (port_text port) \<Longrightarrow> c = 58 \<or> is_digit c"
  using decimal_text_digits by (auto simp: port_text_def list_all_iff split: option.splits)

lemma port_text_ascii: "list_all is_ascii (port_text port)" "set (port_text port) \<inter> {9, 10, 13, 35, 42, 47, 63, 64, 91, 93} = {}"
  using port_text_chars [of _ port] by (fastforce simp: list_all_iff is_ascii_def is_digit_def)+

lemma port_text_partition: "py_partition 58 (port_text port) =
    ([], port \<noteq> None, case port of None \<Rightarrow> [] | Some p \<Rightarrow> decimal_text p)"
  by (cases port) (simp_all add: port_text_def py_partition_def)

lemma hostinfo_origin:
  assumes "good_host env h" and "url_netloc r = display_host h @ port_text port"
  shows "hostinfo r = (h, map_option decimal_text port)" and "brackets_ok env (url_netloc r)"
    and "url_username r = None" and "url_password r = None" and "check_netloc env (url_netloc r)" and "url_netloc r \<noteq> []"
proof -
  note h = good_host_chars [OF assms(1)]
  have no_at: "64 \<notin> set (url_netloc r)"
    using h(4) port_text_ascii(2) [of port] by (auto simp: assms(2) display_host_def)
  note at = py_rpartition_none [OF no_at]
  show "url_username r = None" "url_password r = None" by (simp_all add: url_username_def url_password_def at)
  show "check_netloc env (url_netloc r)"
    using h(2) port_text_ascii(1) [of port] by (simp add: check_netloc_def assms(2) display_host_def is_ascii_def)
  show "url_netloc r \<noteq> []" using h(1) by (simp add: assms(2) display_host_def)
  have "hostinfo r = (h, map_option decimal_text port) \<and> brackets_ok env (url_netloc r)"
  proof (cases "58 \<in> set h")
    case True
    then have h6: "ipv6_host env h" using assms(1) plain_host_chars [of h] by (auto simp: good_host_def)
    have netloc: "url_netloc r = [] @ 91 # h @ 93 # port_text port" using True by (simp add: assms(2) display_host_def)
    have open_br: "py_partition 91 (url_netloc r) = ([], True, h @ 93 # port_text port)"
      unfolding netloc by (rule py_partition_sep) simp
    have close_br: "py_partition 93 (h @ 93 # port_text port) = (h, True, port_text port)"
      using h(4) by (intro py_partition_sep) auto
    have "check_bracketed_host env h" using h6 h(1) parse_ipv4_colon [of h]
      by (simp add: check_bracketed_host_def ipv6_host_def)
    moreover have "port_text port = [] \<or> hd (port_text port) = 58" by (simp add: port_text_def split: option.splits)
    ultimately have "brackets_ok env (url_netloc r)"
      by (simp add: brackets_ok_def check_bracketed_netloc_def at open_br close_br) (simp add: netloc)
    then show ?thesis
      by (simp add: hostinfo_def at open_br close_br port_text_partition split: option.splits)
  next
    case False
    then have "plain_host h" using assms(1) by (auto simp: good_host_def ipv6_host_def)
    then have no: "91 \<notin> set (url_netloc r)" "93 \<notin> set (url_netloc r)"
      using plain_host_chars [of h] port_text_ascii(2) [of port] False by (auto simp: assms(2) display_host_def)
    have "py_partition 58 (url_netloc r) = (h, port \<noteq> None, case port of None \<Rightarrow> [] | Some p \<Rightarrow> decimal_text p)"
      using False py_partition_sep [of 58 h] py_partition_none [of 58 h]
      by (auto simp: assms(2) display_host_def port_text_def split: option.splits)
    then show ?thesis
      using no by (simp add: hostinfo_def at py_partition_none [OF no(1)] brackets_ok_def split: option.splits)
  qed
  then show "hostinfo r = (h, map_option decimal_text port)" "brackets_ok env (url_netloc r)" by simp_all
qed

definition web_scheme :: "pystr \<Rightarrow> bool" where
  "web_scheme scheme \<longleftrightarrow> scheme = lit ''http'' \<or> scheme = lit ''https''"

lemma origin_text_eq: "origin_text scheme h port = scheme @ 58 # 47 # 47 # display_host h @ port_text port"
  by (simp add: origin_text_def port_text_def)

lemma split_scheme_web: "web_scheme scheme \<Longrightarrow> split_scheme (scheme @ 58 # rest) = (scheme, rest)"
proof -
  assume web: "web_scheme scheme"
  then have "58 \<notin> set scheme" by (auto simp: web_scheme_def)
  then have "py_partition 58 (scheme @ 58 # rest) = (scheme, True, rest)" by (rule py_partition_sep)
  then show ?thesis using web
    by (auto simp: split_scheme_def web_scheme_def ascii_alpha_def scheme_char_def ascii_lower_def)
qed

lemma origin_chars:
  assumes "web_scheme scheme" and "good_host env h"
  shows "list_all is_ascii (origin_text scheme h port)" and "set (origin_text scheme h port) \<inter> {9, 10, 13, 35, 42, 63, 64} = {}"
    and "set (display_host h @ port_text port) \<inter> {35, 47, 63} = {}"
  using assms(1) good_host_chars [OF assms(2)] port_text_ascii [of port]
  by (auto simp: origin_text_eq display_host_def web_scheme_def is_ascii_def)

lemma takeWhile_until:
  assumes "list_all P xs" and "ys = [] \<or> \<not> P (hd ys)"
  shows "takeWhile P (xs @ ys) = xs" and "dropWhile P (xs @ ys) = ys"
  using assms by (induction xs) (cases ys; auto)+

lemma clean_url_id: "set url \<inter> {9, 10, 13} = {} \<Longrightarrow> url \<noteq> [] \<Longrightarrow> 32 < hd url \<Longrightarrow> clean_url url = url"
  by (cases url) (auto simp: clean_url_def filter_id_conv)

lemma urlsplit_origin:
  assumes web: "web_scheme scheme" and h: "good_host env h"
    and tl: "tail = [] \<or> hd tail = 47" and chars: "set tail \<inter> {9, 10, 13} = {}"
  shows "\<exists>path query fragment. urlsplit env (origin_text scheme h port @ tail) =
      Inr \<lparr>url_scheme = scheme, url_netloc = display_host h @ port_text port, url_path = path,
        url_query = query, url_fragment = fragment\<rparr> \<and> (tail = [] \<longrightarrow> path = [] \<and> query = [] \<and> fragment = [])"
proof -
  let ?net = "display_host h @ port_text port" and ?P = "\<lambda>c. \<not> c \<in> {47, 63, 35::nat}"
  have "hd (origin_text scheme h port @ tail) = 104" using web by (auto simp: origin_text_eq web_scheme_def)
  moreover have "origin_text scheme h port \<noteq> []" by (simp add: origin_text_eq)
  ultimately have "clean_url (origin_text scheme h port @ tail) = origin_text scheme h port @ tail"
    using origin_chars(2) [OF web h, of port] chars by (intro clean_url_id) auto
  then have split: "split_scheme (clean_url (origin_text scheme h port @ tail)) = (scheme, 47 # 47 # ?net @ tail)"
    using split_scheme_web [OF web] by (simp add: origin_text_eq)
  have P: "list_all ?P ?net" using origin_chars(3) [OF web h, of port] by (auto simp: list_all_iff)
  have until: "takeWhile ?P (?net @ tail) = ?net" "dropWhile ?P (?net @ tail) = tail"
    using takeWhile_until [OF P, of tail] tl by auto
  obtain url2 found fragment where f: "py_partition 35 tail = (url2, found, fragment)" by (cases "py_partition 35 tail")
  obtain path found' query where q: "py_partition 63 url2 = (path, found', query)" by (cases "py_partition 63 url2")
  have "tail = [] \<longrightarrow> path = [] \<and> query = [] \<and> fragment = []" using f q by (auto simp: py_partition_def)
  moreover have "brackets_ok env ?net" "check_netloc env ?net"
    using hostinfo_origin(2,5) [OF h, of "\<lparr>url_scheme = scheme, url_netloc = ?net, url_path = path,
        url_query = query, url_fragment = fragment\<rparr>"] by simp_all
  ultimately show ?thesis using until f q by (simp add: urlsplit_def split)
qed

lemma hostname_text:
  assumes "good_host env h" and "url_netloc r = display_host h @ port_text port"
  shows "url_hostname r = Some h"
proof -
  have host: "fst (hostinfo r) = h" using hostinfo_origin(1) [OF assms] by simp
  note h = good_host_chars [OF assms(1)]
  have lower: "py_lower u = u" if "set u \<subseteq> set h" for u
  proof -
    have "ascii_lower c = c" if "c \<in> set h" for c using h(3) that by (metis in_set_conv_nth length_map nth_map)
    then have "map ascii_lower u = u" using that by (intro map_idI) blast
    moreover have "list_all is_ascii u" using h(2) that by (auto simp: list_all_iff)
    ultimately show ?thesis by (simp add: py_lower_ascii)
  qed
  obtain name percent zone where p: "py_partition 37 h = (name, percent, zone)" by (cases "py_partition 37 h")
  note parts = py_partition_parts [OF p]
  have "py_lower name = name" using lower parts(2) by blast
  moreover have "name @ (if percent then 37 # zone else []) = h"
    using parts(3,4) py_partition_none [of 37 h] p by (cases percent) auto
  ultimately show ?thesis using h(1) by (simp add: url_hostname_def host p)
qed

lemma good_host_lower: "good_host env h \<Longrightarrow> py_lower h = h"
  using good_host_chars [of env h] by (simp add: py_lower_ascii)

lemma port_origin:
  assumes "good_host env h" and "url_netloc r = display_host h @ port_text port" and "\<forall>p. port = Some p \<longrightarrow> p \<le> 65535"
  shows "url_port r = Inr port"
proof (cases port)
  case (Some p)
  have "length (decimal_text p) \<le> 5" using length_decimal_text [of p 4] assms(3) Some by simp
  then show ?thesis
    using hostinfo_origin(1) [OF assms(1,2)] assms(3) Some by (simp add: url_port_def decimal_text_digits digits_value_decimal)
qed (simp add: url_port_def hostinfo_origin(1) [OF assms(1,2)])

section \<open>What is accepted\<close>

text \<open>Scheme, host and port of an origin, as the same-origin policy compares them.\<close>

definition effective_port :: "pystr \<Rightarrow> nat option \<Rightarrow> nat" where
  "effective_port scheme port = (case port of None \<Rightarrow> default_port scheme | Some p \<Rightarrow> p)"

definition origin_of :: "url_env \<Rightarrow> pystr \<Rightarrow> (pystr \<times> pystr \<times> nat) option" where
  "origin_of env value =
     (case urlsplit env value of
        Inl _ \<Rightarrow> None
      | Inr r \<Rightarrow>
          (case (canonical_host env (py_lower (the (url_hostname r))), url_port r) of
             (Inr h, Inr port) \<Rightarrow> Some (url_scheme r, h, effective_port (url_scheme r) port)
           | _ \<Rightarrow> None))"

lemma set_clean_url: "set (clean_url url) \<subseteq> set url - {9, 10, 13}"
  using set_dropWhileD [of _ "\<lambda>c. c \<le> 32" url] by (auto simp: clean_url_def)

lemma set_split_scheme: "split_scheme url = (scheme, rest) \<Longrightarrow> set rest \<subseteq> set url"
  using py_partition_parts(2) [of 58 url] by (auto simp: split_scheme_def split: prod.splits if_splits)

lemma scheme_char_ascii: "list_all scheme_char s \<Longrightarrow> list_all is_ascii s"
  by (auto simp: list_all_iff scheme_char_def ascii_alpha_def is_digit_def is_ascii_def)

lemma split_scheme_lower: "split_scheme url = (scheme, rest) \<Longrightarrow> py_lower scheme = scheme"
  using scheme_char_ascii
  by (auto simp: split_scheme_def py_lower_ascii list_all_iff ascii_lower_ascii split: prod.splits if_splits)

lemma urlsplit_Inr:
  assumes "urlsplit env v = Inr r"
  shows "set (url_netloc r) \<subseteq> set v - {9, 10, 13, 35, 47, 63}" and "brackets_ok env (url_netloc r)"
    and "py_lower (url_scheme r) = url_scheme r"
proof -
  obtain scheme url where split: "split_scheme (clean_url v) = (scheme, url)" by (cases "split_scheme (clean_url v)")
  have scheme: "url_scheme r = scheme" and ok: "brackets_ok env (url_netloc r)"
    and net: "url_netloc r = takeWhile (\<lambda>c. \<not> (c \<in> {47, 63, 35})) (drop 2 url) \<or> url_netloc r = []"
    using assms by (auto simp: urlsplit_def split Let_def split: prod.splits if_splits)
  show "brackets_ok env (url_netloc r)" by (rule ok)
  show "py_lower (url_scheme r) = url_scheme r" using split_scheme_lower [OF split] scheme by simp
  have url: "set (drop 2 url) \<subseteq> set v - {9, 10, 13}"
    using set_drop_subset [of 2 url] set_split_scheme [OF split] set_clean_url [of v] by blast
  show "set (url_netloc r) \<subseteq> set v - {9, 10, 13, 35, 47, 63}"
  proof -
    have "set (takeWhile (\<lambda>c. \<not> (c \<in> {47, 63, 35})) (drop 2 url)) \<subseteq> set (drop 2 url) - {47, 63, 35}"
      by (auto dest: set_takeWhileD)
    then show ?thesis using net url by auto
  qed
qed

lemma hostinfo_chars:
  assumes "brackets_ok env (url_netloc r)" and "64 \<notin> set (url_netloc r)"
  shows "set (fst (hostinfo r)) \<subseteq> set (url_netloc r) - {93}"
proof -
  note at = py_rpartition_none [OF assms(2)]
  obtain front found bracketed where o: "py_partition 91 (url_netloc r) = (front, found, bracketed)"
    by (cases "py_partition 91 (url_netloc r)")
  obtain host f rest where c: "py_partition 93 bracketed = (host, f, rest)" by (cases "py_partition 93 bracketed")
  obtain host' f' port where p: "py_partition 58 (url_netloc r) = (host', f', port)" by (cases "py_partition 58 (url_netloc r)")
  note O = py_partition_parts [OF o] and C = py_partition_parts [OF c] and P = py_partition_parts [OF p]
  have "fst (hostinfo r) = (if found then host else host')"
    by (simp add: hostinfo_def at o c p split: prod.splits)
  moreover have "93 \<notin> set (url_netloc r)" if "\<not> found" using assms(1) O(3) that by (simp add: brackets_ok_def)
  ultimately show ?thesis using O(2) C(1,2) P(2) by auto
qed

lemma no_user_at: "url_username r = None \<Longrightarrow> 64 \<notin> set (url_netloc r)"
  by (auto simp: url_username_def py_rpartition_def py_partition_def split: if_splits)

lemma hostname_chars:
  assumes "urlsplit env v = Inr r" and "url_username r = None" and "url_hostname r = Some name"
    and "list_all is_ascii v" and "42 \<notin> set v"
  shows "py_lower name \<noteq> []" and "list_all is_ascii (py_lower name)" and "map ascii_lower (py_lower name) = py_lower name"
    and "set (py_lower name) \<inter> {9, 10, 13, 35, 42, 47, 63, 64, 93} = {}"
proof -
  note S = urlsplit_Inr [OF assms(1)]
  have host: "set (fst (hostinfo r)) \<subseteq> set v - {9, 10, 13, 35, 42, 47, 63, 64, 93}"
    using hostinfo_chars [OF S(2) no_user_at [OF assms(2)]] S(1) no_user_at [OF assms(2)] assms(5) by blast
  obtain n percent zone where p: "py_partition 37 (fst (hostinfo r)) = (n, percent, zone)"
    by (cases "py_partition 37 (fst (hostinfo r))")
  note parts = py_partition_parts [OF p]
  have ascii: "list_all is_ascii (fst (hostinfo r))" using host assms(4) by (auto simp: list_all_iff)
  then have n: "list_all is_ascii n" using parts(2) by (auto simp: list_all_iff)
  have name: "name = map ascii_lower n @ (if percent then 37 # zone else [])" and ne: "fst (hostinfo r) \<noteq> []"
    using assms(3) n by (auto simp: url_hostname_def Let_def p py_lower_ascii split: if_splits)
  have "name \<noteq> []"
  proof (cases percent)
    case False
    then have "n = fst (hostinfo r)" using parts(3) py_partition_none [of 37 "fst (hostinfo r)"] p by auto
    then show ?thesis using name ne by simp
  qed (simp add: name)
  moreover have name_ascii: "list_all is_ascii name"
    using name n ascii parts(2) by (auto simp: list_all_iff ascii_lower_def is_ascii_def)
  ultimately show "py_lower name \<noteq> []" "list_all is_ascii (py_lower name)"
    "map ascii_lower (py_lower name) = py_lower name"
    by (auto simp: py_lower_ascii list_all_iff ascii_lower_ascii)
  have chars: "set n \<union> set zone \<subseteq> set v - {9, 10, 13, 35, 42, 47, 63, 64, 93}"
    using parts(2) host by blast
  have "ascii_lower c \<notin> {9, 10, 13, 35, 42, 47, 63, 64, 93}" if "c \<notin> {9, 10, 13, 35, 42, 47, 63, 64, 93}" for c
    using that by (auto simp: ascii_lower_def)
  then have "c \<notin> {9, 10, 13, 35, 42, 47, 63, 64, 93}" if "c \<in> set (map ascii_lower name)" for c
    using chars that by (auto simp: name split: if_splits)
  then show "set (py_lower name) \<inter> {9, 10, 13, 35, 42, 47, 63, 64, 93} = {}"
    using py_lower_ascii [OF name_ascii] by auto
qed

lemma url_port_bound: "url_port r = Inr port \<Longrightarrow> port = Some p \<Longrightarrow> p \<le> 65535"
  by (auto simp: url_port_def split: option.splits if_splits)

definition shown_port :: "pystr \<Rightarrow> nat option \<Rightarrow> nat option" where
  "shown_port scheme port = (if port = Some (default_port scheme) then None else port)"

lemma canonicalize_steps:
  assumes "canonicalize_origin env v = Inr t"
  shows "\<exists>r name h port. urlsplit env v = Inr r \<and> 42 \<notin> set v \<and> web_scheme (py_lower (url_scheme r)) \<and>
    url_username r = None \<and> url_path r = [] \<and> url_query r = [] \<and> url_fragment r = [] \<and>
    url_hostname r = Some name \<and> canonical_host env (py_lower name) = Inr h \<and> url_port r = Inr port \<and>
    t = origin_text (py_lower (url_scheme r)) h (shown_port (py_lower (url_scheme r)) port)"
proof -
  have v: "v = py_strip v" "42 \<notin> set v" using assms by (auto simp: canonicalize_origin_def split: if_splits)
  obtain r where r: "urlsplit env v = Inr r"
    using assms by (cases "urlsplit env v") (auto simp: canonicalize_origin_def split: if_splits)
  obtain name where name: "url_hostname r = Some name"
    using assms r by (cases "url_hostname r") (auto simp: canonicalize_origin_def Let_def split: if_splits)
  obtain h where h: "canonical_host env (py_lower name) = Inr h"
    using assms r name by (cases "canonical_host env (py_lower name)")
      (auto simp: canonicalize_origin_def Let_def split: if_splits)
  obtain port where port: "url_port r = Inr port"
    using assms r name h by (cases "url_port r") (auto simp: canonicalize_origin_def Let_def split: if_splits)
  have "canonicalize_origin env v =
     (if py_lower (url_scheme r) \<notin> {lit ''http'', lit ''https''} then Inl OriginNotHttp
      else if url_netloc r = [] \<or> url_username r \<noteq> None \<or> url_password r \<noteq> None then Inl OriginHasUser
      else if url_path r \<noteq> [] \<or> url_query r \<noteq> [] \<or> url_fragment r \<noteq> [] then Inl OriginHasPath
      else Inr (origin_text (py_lower (url_scheme r)) h (shown_port (py_lower (url_scheme r)) port)))"
    using v r name h port by (simp only: canonicalize_origin_def shown_port_def Let_def if_False simp_thms
        sum.case option.case bind_result.simps)
  then show ?thesis using assms v(2) r name h port by (auto simp: web_scheme_def simp del: lit_Cons split: if_splits)
qed

lemma canonicalize_Inr:
  assumes "canonicalize_origin env v = Inr t" and law: "ipv6_law env" and ascii: "list_all is_ascii v"
  shows "\<exists>scheme h port. web_scheme scheme \<and> good_host env h \<and> (\<forall>p. port = Some p \<longrightarrow> p \<le> 65535) \<and>
    shown_port scheme port = port \<and> t = origin_text scheme h port \<and>
    origin_of env v = Some (scheme, h, effective_port scheme port)"
proof -
  obtain r name h port where r: "urlsplit env v = Inr r" and star: "42 \<notin> set v"
    and web: "web_scheme (py_lower (url_scheme r))"
    and user: "url_username r = None" and name: "url_hostname r = Some name"
    and host: "canonical_host env (py_lower name) = Inr h" and port: "url_port r = Inr port"
    and t: "t = origin_text (py_lower (url_scheme r)) h (shown_port (py_lower (url_scheme r)) port)"
    using canonicalize_steps [OF assms(1)] by blast
  have scheme: "py_lower (url_scheme r) = url_scheme r" using urlsplit_Inr(3) [OF r] .
  have "good_host env h"
    using canonical_host_result [OF host law hostname_chars [OF r user name ascii star]] .
  moreover have "\<forall>p. shown_port (url_scheme r) port = Some p \<longrightarrow> p \<le> 65535"
    using url_port_bound [OF port] by (auto simp: shown_port_def)
  moreover have "origin_of env v = Some (url_scheme r, h, effective_port (url_scheme r) (shown_port (url_scheme r) port))"
    using r name host port by (auto simp: origin_of_def effective_port_def shown_port_def split: option.splits)
  moreover have "shown_port (url_scheme r) (shown_port (url_scheme r) port) = shown_port (url_scheme r) port"
    by (simp add: shown_port_def)
  ultimately show ?thesis using web t unfolding scheme by blast
qed

lemma origin_last:
  assumes "good_host env h"
  shows "\<not> py_isspace (last (origin_text scheme h port))"
proof (cases port)
  case None
  have "\<not> py_isspace (last (display_host h))"
  proof (cases "58 \<in> set h")
    case False
    then have "in_cls [(97, 122), (48, 57), (45, 46)] (last h)" and "h \<noteq> []"
      using assms by (auto simp: good_host_def ipv6_host_def plain_host_def list_all_iff)
    then show ?thesis using False by (auto simp: display_host_def in_cls_def py_isspace_def)
  qed (simp add: display_host_def py_isspace_def)
  moreover have "display_host h \<noteq> []" using good_host_chars(1) [OF assms] by (simp add: display_host_def)
  ultimately show ?thesis using None by (simp add: origin_text_eq port_text_def)
next
  case (Some p)
  have "is_digit (last (decimal_text p))" using decimal_text_digits [of p] by (simp add: list_all_iff)
  then show ?thesis using Some by (simp add: origin_text_eq port_text_def) (auto simp: is_digit_def py_isspace_def)
qed

lemma canonicalize_origin_text:
  assumes web: "web_scheme scheme" and h: "good_host env h" and port: "\<forall>p. port = Some p \<longrightarrow> p \<le> 65535"
    and shown: "shown_port scheme port = port"
  shows "canonicalize_origin env (origin_text scheme h port) = Inr (origin_text scheme h port)"
    and "origin_of env (origin_text scheme h port) = Some (scheme, h, effective_port scheme port)"
proof -
  let ?t = "origin_text scheme h port"
  define r where "r = \<lparr>url_scheme = scheme, url_netloc = display_host h @ port_text port, url_path = [],
      url_query = [], url_fragment = []\<rparr>"
  have r: "urlsplit env ?t = Inr r" using urlsplit_origin [OF web h, of "[]" port] by (simp add: r_def)
  have net: "url_netloc r = display_host h @ port_text port" and rest: "url_scheme r = scheme" "url_path r = []"
    "url_query r = []" "url_fragment r = []" by (simp_all add: r_def)
  note H = hostinfo_origin [OF h net]
  note name = hostname_text [OF h net] good_host_lower [OF h]
  have p: "url_port r = Inr port" using port_origin [OF h net port] .
  have scheme: "py_lower scheme = scheme" using web by (auto simp: web_scheme_def py_lower_def lower_char_def ascii_lower_def)
  note origin_last [OF h, of scheme port]
  moreover have "hd ?t = 104" "?t \<noteq> []" using web by (auto simp: origin_text_eq web_scheme_def)
  ultimately have strip: "py_strip ?t = ?t" by (simp add: py_strip_id_iff py_isspace_def)
  have star: "42 \<notin> set ?t" using origin_chars(2) [OF web h, of port] by blast
  show "canonicalize_origin env ?t = Inr ?t"
    using web strip star H canonical_host_good [OF h] shown
    by (simp add: canonicalize_origin_def r rest scheme name p web_scheme_def shown_port_def del: lit_Cons)
  show "origin_of env ?t = Some (scheme, h, effective_port scheme port)"
    using r name p canonical_host_good [OF h] by (simp add: origin_of_def rest)
qed

lemma origin_text_inject:
  assumes "web_scheme s1" "good_host env h1" "\<forall>p. p1 = Some p \<longrightarrow> p \<le> 65535" "shown_port s1 p1 = p1"
    and "web_scheme s2" "good_host env h2" "\<forall>p. p2 = Some p \<longrightarrow> p \<le> 65535" "shown_port s2 p2 = p2"
  shows "origin_text s1 h1 p1 = origin_text s2 h2 p2 \<longleftrightarrow>
    (s1, h1, effective_port s1 p1) = (s2, h2, effective_port s2 p2)"
proof
  assume "origin_text s1 h1 p1 = origin_text s2 h2 p2"
  then show "(s1, h1, effective_port s1 p1) = (s2, h2, effective_port s2 p2)"
    using canonicalize_origin_text(2) [OF assms(1-4)] canonicalize_origin_text(2) [OF assms(5-8)] by (metis option.inject)
next
  assume eq: "(s1, h1, effective_port s1 p1) = (s2, h2, effective_port s2 p2)"
  then have "p1 = p2" using assms(4,8) by (auto simp: effective_port_def shown_port_def split: option.splits if_splits)
  then show "origin_text s1 h1 p1 = origin_text s2 h2 p2" using eq by simp
qed

lemma canonical_origin_fixed:
  assumes "canonicalize_origin env v = Inr t" and "ipv6_law env" and "list_all is_ascii v"
  shows "canonicalize_origin env t = Inr t" and "list_all is_ascii t" and "origin_of env t = origin_of env v"
proof -
  obtain scheme h port where c: "web_scheme scheme" "good_host env h" "\<forall>p. port = Some p \<longrightarrow> p \<le> 65535"
    "shown_port scheme port = port" and t: "t = origin_text scheme h port"
    "origin_of env v = Some (scheme, h, effective_port scheme port)"
    using canonicalize_Inr [OF assms] by blast
  show "canonicalize_origin env t = Inr t" "origin_of env t = origin_of env v"
    using canonicalize_origin_text [OF c] t by simp_all
  show "list_all is_ascii t" using origin_chars(1) [OF c(1,2)] t by simp
qed

lemma canonical_origins_equal:
  assumes "canonicalize_origin env v = Inr t" and "canonicalize_origin env v' = Inr t'" and "ipv6_law env"
    and "list_all is_ascii v" and "list_all is_ascii v'"
  shows "t = t' \<longleftrightarrow> origin_of env v = origin_of env v'" and "origin_of env v \<noteq> None"
proof -
  obtain s h p where c: "web_scheme s" "good_host env h" "\<forall>q. p = Some q \<longrightarrow> q \<le> 65535" "shown_port s p = p"
    and t: "t = origin_text s h p" "origin_of env v = Some (s, h, effective_port s p)"
    using canonicalize_Inr [OF assms(1,3,4)] by blast
  obtain s' h' p' where c': "web_scheme s'" "good_host env h'" "\<forall>q. p' = Some q \<longrightarrow> q \<le> 65535" "shown_port s' p' = p'"
    and t': "t' = origin_text s' h' p'" "origin_of env v' = Some (s', h', effective_port s' p')"
    using canonicalize_Inr [OF assms(2,3,5)] by blast
  show "t = t' \<longleftrightarrow> origin_of env v = origin_of env v'" using origin_text_inject [OF c c'] t t' by simp
  show "origin_of env v \<noteq> None" using t by simp
qed

end
