(* ===== verification/Security.thy ===== *)
theory Security
  imports Origins IdentityService
begin

text \<open>
  What every request passes through (\<open>api/security.py\<close>, \<open>api/errors.py\<close>, \<open>api/dependencies.py\<close>):
  the stable errors of the API, the session cookie, the trusted origin, content types, the CSRF
  header, and the dependencies that authenticate. A request is what Starlette hands over: header
  fields in order with lower-case names, and the cookies parsed from them.
\<close>

section \<open>Errors\<close>

text \<open>Where an error is: a path of names and indices, as Pydantic reports it.\<close>

datatype location_part = LocName pystr | LocIndex int

record validation_issue =
  issue_field :: "location_part list"
  issue_code :: string
  issue_message :: string

record api_error =
  status_code :: nat
  error_code :: string
  error_message :: string
  error_details :: "validation_issue list option"

text \<open>
  What leaves a handler: an \<open>ApiError\<close>, FastAPI's \<open>RequestValidationError\<close> with the types and
  locations of its errors, an exception of SQLAlchemy, or any other exception.
\<close>

datatype api_exc =
    ApiErr api_error
  | RequestValidationError "(string \<times> location_part list) list"
  | SQLAlchemyError
  | OtherException

definition api_failure :: "nat \<Rightarrow> string \<Rightarrow> string \<Rightarrow> api_exc" where
  "api_failure code name message =
     ApiErr \<lparr>status_code = code, error_code = name, error_message = message, error_details = None\<rparr>"

definition policy_validation_error :: "string \<Rightarrow> string \<Rightarrow> string \<Rightarrow> api_exc" where
  "policy_validation_error fld code message =
     ApiErr \<lparr>status_code = 422, error_code = ''validation_error'',
       error_message = ''Request validation failed.'',
       error_details = Some [\<lparr>issue_field = [LocName (lit ''body''), LocName (lit fld)], issue_code = code, issue_message = message\<rparr>]\<rparr>"

text \<open>The messages of \<open>_validation_issues\<close>, by the type of the error.\<close>

definition issue_text :: "string \<Rightarrow> string" where
  "issue_text ty =
     (if ty = ''missing'' then ''Field is required.''
      else if ty = ''extra_forbidden'' then ''Extra fields are not permitted.''
      else if ty = ''string_type'' then ''Value must be a string.''
      else ''Invalid value.'')"

definition validation_issues :: "(string \<times> location_part list) list \<Rightarrow> validation_issue list" where
  "validation_issues errors =
     map (\<lambda>(ty, loc). \<lparr>issue_field = loc, issue_code = ty, issue_message = issue_text ty\<rparr>) errors"

text \<open>The exception handlers and, for everything they do not know, \<open>unexpected_error_response\<close>.\<close>

fun error_response_of :: "api_exc \<Rightarrow> api_error" where
  "error_response_of (ApiErr e) = e"
| "error_response_of (RequestValidationError errors) =
     \<lparr>status_code = 422, error_code = ''validation_error'', error_message = ''Request validation failed.'',
      error_details = Some (validation_issues errors)\<rparr>"
| "error_response_of SQLAlchemyError =
     \<lparr>status_code = 503, error_code = ''service_unavailable'',
      error_message = ''Service temporarily unavailable.'', error_details = None\<rparr>"
| "error_response_of OtherException =
     \<lparr>status_code = 500, error_code = ''internal_error'', error_message = ''Internal server error.'',
      error_details = None\<rparr>"

section \<open>The session cookie\<close>

definition SESSION_MAX_AGE :: int where
  "SESSION_MAX_AGE = 43200"

record cookie_policy =
  cookie_name :: pystr
  cookie_secure :: bool
  cookie_httponly :: bool
  cookie_samesite :: string
  cookie_path :: string

definition cookie_policy_for :: "environment \<Rightarrow> cookie_policy" where
  "cookie_policy_for e =
     (if e = Production
      then \<lparr>cookie_name = lit ''__Host-datacheck_session'', cookie_secure = True, cookie_httponly = True,
            cookie_samesite = ''lax'', cookie_path = ''/''\<rparr>
      else \<lparr>cookie_name = lit ''datacheck_session'', cookie_secure = False, cookie_httponly = True,
            cookie_samesite = ''lax'', cookie_path = ''/''\<rparr>)"

record set_cookie =
  set_policy :: cookie_policy
  set_value :: pystr
  set_max_age :: int
  set_expires :: instant

definition set_session_cookie :: "cookie_policy \<Rightarrow> session_issuance \<Rightarrow> set_cookie" where
  "set_session_cookie policy i =
     \<lparr>set_policy = policy, set_value = issued_bearer i, set_max_age = SESSION_MAX_AGE,
      set_expires = issued_expires_at i\<rparr>"

definition expire_session_cookie :: "cookie_policy \<Rightarrow> set_cookie" where
  "expire_session_cookie policy =
     \<lparr>set_policy = policy, set_value = [], set_max_age = 0, set_expires = 0\<rparr>"

section \<open>Request headers\<close>

record http_request =
  req_headers :: "(string \<times> pystr) list"
  req_cookies :: "pystr \<Rightarrow> pystr option"

definition getlist :: "http_request \<Rightarrow> string \<Rightarrow> pystr list" where
  "getlist req name = map snd (filter (\<lambda>(n, v). n = name) (req_headers req))"

definition invalid_origin :: api_exc where
  "invalid_origin = api_failure 403 ''invalid_origin'' ''Request origin is not trusted.''"

datatype referer_error = InvalidReferer | RefererOriginInvalid origin_error

definition referer_candidate :: "pystr \<Rightarrow> pystr \<Rightarrow> nat option \<Rightarrow> pystr" where
  "referer_candidate scheme hostname port =
     scheme @ lit ''://'' @ (if 58 \<in> set hostname then 91 # hostname @ [93] else hostname) @
       (case port of None \<Rightarrow> [] | Some p \<Rightarrow> 58 # decimal_text p)"

definition origin_from_referer :: "url_env \<Rightarrow> pystr \<Rightarrow> referer_error + pystr" where
  "origin_from_referer env value =
     (if value \<noteq> py_strip value then Inl InvalidReferer
      else (case urlsplit env value of
          Inl _ \<Rightarrow> Inl InvalidReferer
        | Inr parsed \<Rightarrow>
            if py_lower (url_scheme parsed) \<notin> {lit ''http'', lit ''https''} \<or> url_netloc parsed = [] \<or>
               url_username parsed \<noteq> None \<or> url_password parsed \<noteq> None
            then Inl InvalidReferer
            else (case url_port parsed of
                Inl _ \<Rightarrow> Inl InvalidReferer
              | Inr port \<Rightarrow>
                  (case url_hostname parsed of
                     None \<Rightarrow> Inl InvalidReferer
                   | Some hostname \<Rightarrow>
                       map_sum RefererOriginInvalid id
                         (canonicalize_origin env (referer_candidate (url_scheme parsed) hostname port))))))"

definition request_origin :: "url_env \<Rightarrow> http_request \<Rightarrow> pystr option" where
  "request_origin env req =
     (case getlist req ''origin'' of
        [] \<Rightarrow>
          (case getlist req ''referer'' of
             [v] \<Rightarrow> (case origin_from_referer env v of Inl _ \<Rightarrow> None | Inr origin \<Rightarrow> Some origin)
           | _ \<Rightarrow> None)
      | [v] \<Rightarrow> (case canonicalize_origin env v of Inl _ \<Rightarrow> None | Inr origin \<Rightarrow> Some origin)
      | _ \<Rightarrow> None)"

definition require_trusted_origin :: "url_env \<Rightarrow> api_settings \<Rightarrow> http_request \<Rightarrow> api_exc + unit" where
  "require_trusted_origin env settings req =
     (case request_origin env req of
        None \<Rightarrow> Inl invalid_origin
      | Some origin \<Rightarrow> if origin \<notin> set (trusted_origins settings) then Inl invalid_origin else Inr ())"

definition unsupported_media_type :: api_exc where
  "unsupported_media_type =
     api_failure 415 ''unsupported_media_type'' ''Content-Type must be application/json with UTF-8 encoding.''"

definition unsupported_multipart_media_type :: api_exc where
  "unsupported_multipart_media_type =
     api_failure 415 ''unsupported_media_type'' ''Content-Type must be multipart/form-data.''"

definition json_parameters_ok :: "pystr list \<Rightarrow> bool" where
  "json_parameters_ok parameters \<longleftrightarrow>
     (case parameters of
        [] \<Rightarrow> True
      | [p] \<Rightarrow>
          61 \<in> set p \<and>
          (let (name, _, value) = py_partition 61 p
           in py_lower (py_strip name) = lit ''charset'' \<and>
              py_lower (py_strip_char 34 (py_strip value)) = lit ''utf-8'')
      | _ \<Rightarrow> False)"

definition require_json_content_type :: "http_request \<Rightarrow> api_exc + unit" where
  "require_json_content_type req =
     (case getlist req ''content-type'' of
        [v] \<Rightarrow>
          let sections = map py_strip (py_split 59 v)
          in if py_lower (hd sections) \<noteq> lit ''application/json'' then Inl unsupported_media_type
             else if json_parameters_ok (tl sections) then Inr () else Inl unsupported_media_type
      | _ \<Rightarrow> Inl unsupported_media_type)"

definition require_multipart_content_type :: "http_request \<Rightarrow> api_exc + unit" where
  "require_multipart_content_type req =
     (case getlist req ''content-type'' of
        [v] \<Rightarrow>
          if py_lower (py_strip (fst (py_partition 59 v))) \<noteq> lit ''multipart/form-data''
          then Inl unsupported_multipart_media_type else Inr ()
      | _ \<Rightarrow> Inl unsupported_multipart_media_type)"

definition parse_csrf_header :: "http_request \<Rightarrow> bytes option" where
  "parse_csrf_header req =
     (case getlist req ''x-csrf-token'' of
        [v] \<Rightarrow> (case decode_token v of Inl _ \<Rightarrow> None | Inr t \<Rightarrow> Some t)
      | _ \<Rightarrow> None)"

section \<open>Dependencies\<close>

text \<open>The cookie that belongs to the active environment.\<close>

definition get_session_cookie :: "api_settings \<Rightarrow> http_request \<Rightarrow> pystr option" where
  "get_session_cookie settings req =
     (if cookie_secure (cookie_policy_for (environment settings))
      then req_cookies req (lit ''__Host-datacheck_session'')
      else req_cookies req (lit ''datacheck_session''))"

definition authentication_required :: api_exc where
  "authentication_required = api_failure 401 ''authentication_required'' ''Authentication required.''"

definition invalid_csrf_token :: api_exc where
  "invalid_csrf_token = api_failure 403 ''invalid_csrf_token'' ''CSRF token is invalid.''"

text \<open>Exceptions of the identity service that no handler catches.\<close>

definition uncaught_identity :: "identity_exc \<Rightarrow> api_exc" where
  "uncaught_identity e =
     (case e of
        DatabaseError \<Rightarrow> SQLAlchemyError
      | IntegrityError _ \<Rightarrow> SQLAlchemyError
      | MultipleResultsFound \<Rightarrow> SQLAlchemyError
      | _ \<Rightarrow> OtherException)"

definition require_authenticated_context ::
  "identity_env \<Rightarrow> call_inputs \<Rightarrow> api_settings \<Rightarrow> http_request \<Rightarrow> identity_db \<Rightarrow>
     (api_exc + authenticated_context) \<times> identity_db" where
  "require_authenticated_context ienv c settings req db =
     (case authenticate ienv c (get_session_cookie settings req) db of
        (Inl e, db') \<Rightarrow> (Inl (if e = AuthenticationRequired then authentication_required else uncaught_identity e), db')
      | (Inr context, db') \<Rightarrow> (Inr context, db'))"

definition check_csrf :: "http_request \<Rightarrow> authenticated_context \<Rightarrow> api_exc + authenticated_context" where
  "check_csrf req context =
     (case parse_csrf_header req of
        None \<Rightarrow> Inl invalid_csrf_token
      | Some supplied \<Rightarrow>
          if \<not> csrf_tokens_match (context_csrf context) supplied then Inl invalid_csrf_token else Inr context)"

definition require_authenticated_mutation ::
  "identity_env \<Rightarrow> call_inputs \<Rightarrow> api_settings \<Rightarrow> http_request \<Rightarrow> identity_db \<Rightarrow>
     (api_exc + authenticated_context) \<times> identity_db" where
  "require_authenticated_mutation ienv c settings req db =
     (case require_authenticated_context ienv c settings req db of
        (Inl e, db') \<Rightarrow> (Inl e, db')
      | (Inr context, db') \<Rightarrow> (check_csrf req context, db'))"

end
