(* ===== verification/Api.thy ===== *)
theory Api
  imports Security AnalysisService
begin

text \<open>
  The frame of the HTTP API: what a request handler knows (settings and services), the state it
  works on, and the responses it gives. FastAPI runs a route as follows, and so do the routes here:
  a body that cannot be read is refused, then the dependencies run in the order of their
  declaration, those of the decorator first, and the first exception ends the request; then
  path, query and body are validated; then the handler runs. What Pydantic reports about an
  invalid request is an input of the request: whatever is wrong with it is reported once.
\<close>

record api_env =
  settings :: api_settings
  urls :: url_env
  identity :: identity_env
  dataset_service :: dataset_env
  analysis_service :: analysis_env

text \<open>The tables of the identity component, and everything else.\<close>

record api_state =
  api_db :: identity_db
  api_world :: analysis_world

text \<open>
  The inputs of one request: those of its identity, dataset and analysis calls, what is reported if
  it is invalid, and what other requests do after this one has been authenticated.
\<close>

record api_call =
  identity_inputs :: call_inputs
  dataset_inputs :: "analysis_world dataset_call"
  analysis_inputs :: "analysis_world analysis_call"
  reported_errors :: "(string \<times> location_part list) list"
  after_authentication :: "api_state \<Rightarrow> api_state"

datatype request_body = Unreadable | Body pyval

section \<open>Responses\<close>

record dataset_summary =
  res_dataset_id :: uuid
  res_name :: pystr
  res_has_upload :: bool
  res_created_at :: instant
  res_updated_at :: instant

record upload_metadata =
  res_filename :: pystr
  res_size :: int
  res_rows :: int
  res_columns :: "pystr list"
  res_sha256 :: pystr
  res_uploaded_at :: instant

record dataset_detail = dataset_summary +
  res_upload :: "upload_metadata option"

record session_response =
  res_user :: user_reference
  res_csrf_token :: pystr

record rule_response =
  res_rule_id :: uuid
  res_rule_dataset_id :: uuid
  res_rule_type :: pystr
  res_target_column :: pystr
  res_configuration :: configuration
  res_rule_created_at :: instant

record analysis_summary_response =
  res_analysis_id :: uuid
  res_analysis_dataset_id :: uuid
  res_quality_score :: "pyfloat option"
  res_source_row_count :: int
  res_violation_count :: int
  res_analysis_created_at :: instant

record sample_response =
  res_row_number :: int
  res_value_preview :: "pystr option"
  res_truncated :: bool

record result_response =
  res_position :: int
  res_source_rule_id :: uuid
  res_result_type :: pystr
  res_result_column :: pystr
  res_result_configuration :: configuration
  res_evaluated :: int
  res_passed :: int
  res_violations :: int
  res_skipped :: int
  res_samples :: "sample_response list"

text \<open>The hash of the source is shown as text.\<close>

record analysis_detail_response = analysis_summary_response +
  res_source :: upload_metadata
  res_results :: "result_response list"

datatype api_body =
    NoBody
  | SessionBody session_response
  | DatasetBody dataset_detail
  | DatasetsBody "dataset_summary list"
  | RuleBody rule_response
  | RulesBody "rule_response list"
  | AnalysisBody analysis_detail_response
  | AnalysesBody "analysis_summary_response list"

record api_response =
  http_status :: nat
  http_body :: api_body
  http_cookie :: "set_cookie option"
  http_no_store :: bool

definition respond :: "nat \<Rightarrow> api_body \<Rightarrow> api_response" where
  "respond status body = \<lparr>http_status = status, http_body = body, http_cookie = None, http_no_store = False\<rparr>"

text \<open>\<open>bytes.hex\<close>\<close>

definition hex_text :: "bytes \<Rightarrow> pystr" where
  "hex_text b =
     concat (map (\<lambda>x. map (\<lambda>d. if d < 10 then 48 + d else 87 + d) [unat x div 16, unat x mod 16]) b)"

section \<open>Handlers\<close>

type_synonym 'a handler = "api_state \<Rightarrow> (api_exc + 'a) \<times> api_state"

definition lift_result :: "api_exc + 'a \<Rightarrow> 'a handler" where
  "lift_result r = (\<lambda>s. (r, s))"

definition and_then :: "'a handler \<Rightarrow> ('a \<Rightarrow> 'b handler) \<Rightarrow> 'b handler" where
  "and_then h k = (\<lambda>s. case h s of (Inl e, s') \<Rightarrow> (Inl e, s') | (Inr x, s') \<Rightarrow> k x s')"

definition on_db :: "(identity_db \<Rightarrow> (api_exc + 'a) \<times> identity_db) \<Rightarrow> 'a handler" where
  "on_db f = (\<lambda>s. let (r, db) = f (api_db s) in (r, s\<lparr>api_db := db\<rparr>))"

text \<open>The users are what \<open>owners\<close> refers to in the other tables.\<close>

definition store_of :: "api_state \<Rightarrow> analysis_world" where
  "store_of s = (api_world s)\<lparr>owners := user_id ` set (users (api_db s))\<rparr>"

definition on_store :: "(analysis_world \<Rightarrow> (api_exc + 'a) \<times> analysis_world) \<Rightarrow> 'a handler" where
  "on_store f = (\<lambda>s. let (r, w) = f (store_of s) in (r, s\<lparr>api_world := w\<rparr>))"

lemma lift_result_apply [simp]: "lift_result r s = (r, s)"
  by (simp add: lift_result_def)

lemma and_then_Inr [result_simps]:
  "and_then h k s = (Inr y, s'') \<longleftrightarrow> (\<exists>x s'. h s = (Inr x, s') \<and> k x s' = (Inr y, s''))"
  by (auto simp: and_then_def split: prod.splits sum.splits)

lemma and_then_Inl [result_simps]:
  "and_then h k s = (Inl e, s'') \<longleftrightarrow> h s = (Inl e, s'') \<or> (\<exists>x s'. h s = (Inr x, s') \<and> k x s' = (Inl e, s''))"
  by (auto simp: and_then_def split: prod.splits sum.splits)

section \<open>Reading requests\<close>

definition read_body :: "api_call \<Rightarrow> request_body \<Rightarrow> api_exc + pyval" where
  "read_body c body =
     (case body of
        Unreadable \<Rightarrow> Inl (RequestValidationError (reported_errors c))
      | Body v \<Rightarrow> Inr v)"

text \<open>
  \<open>json.loads\<close> lets lone surrogates through, as escapes; a field of type \<open>str\<close> does not.
\<close>

fun json_text_ok :: "pyval \<Rightarrow> bool" where
  "json_text_ok (VStr s) = list_all is_scalar s"
| "json_text_ok (VList vs) = (\<forall>v \<in> set vs. json_text_ok v)"
| "json_text_ok (VDict kvs) = (\<forall>(k, v) \<in> set kvs. list_all is_scalar k \<and> json_text_ok v)"
| "json_text_ok _ = True"

text \<open>A model of strings only, without further fields: the values in the order of the fields.\<close>

definition string_model :: "string list \<Rightarrow> pyval \<Rightarrow> pystr list option" where
  "string_model names body =
     (case body of
        VDict cfg \<Rightarrow>
          let values = map (\<lambda>n. map_of cfg (lit n)) names
          in if only_fields names cfg \<and> list_all (\<lambda>v. case v of Some (VStr t) \<Rightarrow> json_text_ok (VStr t) | _ \<Rightarrow> False) values
             then Some (map (\<lambda>v. case v of Some (VStr t) \<Rightarrow> t | _ \<Rightarrow> []) values) else None
      | _ \<Rightarrow> None)"

text \<open>A validated body, or the error with what Pydantic says about the request.\<close>

definition validated :: "api_call \<Rightarrow> 'a option \<Rightarrow> api_exc + 'a" where
  "validated c result =
     (case result of
        None \<Rightarrow> Inl (RequestValidationError (reported_errors c))
      | Some x \<Rightarrow> Inr x)"

text \<open>Path parameters that are no UUID are \<open>None\<close>.\<close>

definition path_id :: "api_call \<Rightarrow> uuid option \<Rightarrow> api_exc + uuid" where
  "path_id c given =
     (case given of None \<Rightarrow> Inl (RequestValidationError (reported_errors c)) | Some i \<Rightarrow> Inr i)"

text \<open>The query parameters \<open>limit\<close> (1 to 100, else 50) and \<open>offset\<close> (not negative, else 0).\<close>

datatype query_int = Absent | NotAnInteger | Given int

definition query_value :: "query_int \<Rightarrow> int \<Rightarrow> int option" where
  "query_value q otherwise =
     (case q of Absent \<Rightarrow> Some otherwise | NotAnInteger \<Rightarrow> None | Given n \<Rightarrow> Some n)"

definition page :: "api_call \<Rightarrow> query_int \<Rightarrow> query_int \<Rightarrow> api_exc + nat \<times> nat" where
  "page c limit offset =
     (case (query_value limit 50, query_value offset 0) of
        (Some l, Some f) \<Rightarrow>
          if 1 \<le> l \<and> l \<le> 100 \<and> 0 \<le> f then Inr (nat l, nat f)
          else Inl (RequestValidationError (reported_errors c))
      | _ \<Rightarrow> Inl (RequestValidationError (reported_errors c)))"

section \<open>Dependencies of the routes\<close>

definition enforce_trusted_origin :: "api_env \<Rightarrow> http_request \<Rightarrow> unit handler" where
  "enforce_trusted_origin env req = lift_result (require_trusted_origin (urls env) (settings env) req)"

definition session_context :: "api_env \<Rightarrow> api_call \<Rightarrow> http_request \<Rightarrow> authenticated_context handler" where
  "session_context env c req =
     and_then (on_db (require_authenticated_context (identity env) (identity_inputs c) (settings env) req))
       (\<lambda>context s. (Inr context, after_authentication c s))"

text \<open>The CSRF header is compared right after the authentication.\<close>

definition session_mutation :: "api_env \<Rightarrow> api_call \<Rightarrow> http_request \<Rightarrow> authenticated_context handler" where
  "session_mutation env c req =
     and_then (on_db (require_authenticated_mutation (identity env) (identity_inputs c) (settings env) req))
       (\<lambda>context s. (Inr context, after_authentication c s))"

abbreviation caller :: "authenticated_context \<Rightarrow> uuid" where
  "caller context \<equiv> ref_user_id (context_user context)"

end
