(* ===== verification/AuthRoutes.thy ===== *)
theory AuthRoutes
  imports Api
begin

text \<open>
  The routes of \<open>api/v1/auth.py\<close> with the requests of \<open>identity/schemas.py\<close>. The operations on
  sessions run their own transactions; \<open>after_authentication\<close> plays no role except in \<open>me\<close>.
\<close>

definition issuance_response :: "session_issuance \<Rightarrow> session_response" where
  "issuance_response i = \<lparr>res_user = issued_user i, res_csrf_token = issued_csrf i\<rparr>"

text \<open>The cookie and the body of a successful registration or login.\<close>

definition session_issued :: "api_env \<Rightarrow> nat \<Rightarrow> session_issuance \<Rightarrow> api_response" where
  "session_issued env status i =
     \<lparr>http_status = status, http_body = SessionBody (issuance_response i),
      http_cookie = Some (set_session_cookie (cookie_policy_for (environment (settings env))) i),
      http_no_store = True\<rparr>"

text \<open>\<open>RegisterRequest\<close> and \<open>LoginRequest\<close>: address and password.\<close>

definition credentials :: "api_call \<Rightarrow> pyval \<Rightarrow> api_exc + pystr \<times> pystr" where
  "credentials c json =
     validated c
       (case string_model [''email'', ''password''] json of
          Some [address, password] \<Rightarrow> Some (address, password)
        | _ \<Rightarrow> None)"

section \<open>Registration and login\<close>

definition register_exc :: "identity_exc \<Rightarrow> api_exc" where
  "register_exc e =
     (case e of
        EmailPolicyError _ \<Rightarrow>
          policy_validation_error ''email'' ''invalid_email'' ''Email does not meet the accepted policy.''
      | PasswordError _ \<Rightarrow>
          policy_validation_error ''password'' ''invalid_password'' ''Password does not meet the accepted policy.''
      | DuplicateIdentity \<Rightarrow> api_failure 409 ''email_already_registered'' ''Email is already registered.''
      | _ \<Rightarrow> uncaught_identity e)"

definition register_handler :: "api_env \<Rightarrow> api_call \<Rightarrow> pystr \<times> pystr \<Rightarrow> api_response handler" where
  "register_handler env c given =
     on_db (\<lambda>db. case register (identity env) (identity_inputs c) (fst given) (snd given) db of
         (Inl e, db') \<Rightarrow> (Inl (register_exc e), db')
       | (Inr i, db') \<Rightarrow> (Inr (session_issued env 201 i), db'))"

definition login_exc :: "identity_exc \<Rightarrow> api_exc" where
  "login_exc e =
     (case e of
        PasswordError _ \<Rightarrow>
          policy_validation_error ''password'' ''invalid_password'' ''Password does not meet the accepted policy.''
      | InvalidCredentials \<Rightarrow> api_failure 401 ''invalid_credentials'' ''Invalid email or password.''
      | _ \<Rightarrow> uncaught_identity e)"

definition login_handler :: "api_env \<Rightarrow> api_call \<Rightarrow> pystr \<times> pystr \<Rightarrow> api_response handler" where
  "login_handler env c given =
     on_db (\<lambda>db. case login (identity env) (identity_inputs c) (fst given) (snd given) db of
         (Inl e, db') \<Rightarrow> (Inl (login_exc e), db')
       | (Inr i, db') \<Rightarrow> (Inr (session_issued env 200 i), db'))"

text \<open>Both routes: body, origin, content type, then the payload.\<close>

definition credentials_route ::
  "api_env \<Rightarrow> api_call \<Rightarrow> http_request \<Rightarrow> request_body \<Rightarrow> (pystr \<times> pystr \<Rightarrow> api_response handler) \<Rightarrow>
     api_response handler" where
  "credentials_route env c req body handle =
     and_then (lift_result (read_body c body)) (\<lambda>json.
     and_then (enforce_trusted_origin env req) (\<lambda>_.
     and_then (lift_result (require_json_content_type req)) (\<lambda>_.
     and_then (lift_result (credentials c json)) handle)))"

definition register_route :: "api_env \<Rightarrow> api_call \<Rightarrow> http_request \<Rightarrow> request_body \<Rightarrow> api_response handler" where
  "register_route env c req body = credentials_route env c req body (register_handler env c)"

definition login_route :: "api_env \<Rightarrow> api_call \<Rightarrow> http_request \<Rightarrow> request_body \<Rightarrow> api_response handler" where
  "login_route env c req body = credentials_route env c req body (login_handler env c)"

section \<open>The current session\<close>

definition me_response :: "authenticated_context \<Rightarrow> api_exc + api_response" where
  "me_response context =
     (case encode_token (context_csrf context) of
        Inl _ \<Rightarrow> Inl OtherException
      | Inr text \<Rightarrow> Inr
          \<lparr>http_status = 200,
           http_body = SessionBody \<lparr>res_user = context_user context, res_csrf_token = text\<rparr>,
           http_cookie = None, http_no_store = True\<rparr>)"

definition me_route :: "api_env \<Rightarrow> api_call \<Rightarrow> http_request \<Rightarrow> api_response handler" where
  "me_route env c req = and_then (session_context env c req) (\<lambda>context. lift_result (me_response context))"

definition logout_exc :: "identity_exc \<Rightarrow> api_exc" where
  "logout_exc e = (if e = InvalidCsrf then invalid_csrf_token else uncaught_identity e)"

definition logout_response :: "api_env \<Rightarrow> api_response" where
  "logout_response env =
     \<lparr>http_status = 204, http_body = NoBody,
      http_cookie = Some (expire_session_cookie (cookie_policy_for (environment (settings env)))),
      http_no_store = True\<rparr>"

definition logout_route :: "api_env \<Rightarrow> api_call \<Rightarrow> http_request \<Rightarrow> api_response handler" where
  "logout_route env c req =
     and_then (enforce_trusted_origin env req) (\<lambda>_.
       on_db (\<lambda>db. case logout (identity env) (identity_inputs c) (get_session_cookie (settings env) req)
           (parse_csrf_header req) db of
           (Inl e, db') \<Rightarrow> (Inl (logout_exc e), db')
         | (Inr _, db') \<Rightarrow> (Inr (logout_response env), db')))"

end
