(* ===== verification/DatasetRoutes.thy ===== *)
theory DatasetRoutes
  imports Api
begin

text \<open>The routes of \<open>api/v1/datasets.py\<close>.\<close>

section \<open>Responses\<close>

definition dataset_summary_of :: "dataset_reference \<Rightarrow> dataset_summary" where
  "dataset_summary_of d =
     \<lparr>res_dataset_id = ref_dataset_id d, res_name = ref_name d, res_has_upload = (ref_upload d \<noteq> None),
      res_created_at = ref_dataset_created_at d, res_updated_at = ref_dataset_updated_at d\<rparr>"

definition upload_metadata_of :: "upload_reference \<Rightarrow> upload_metadata" where
  "upload_metadata_of u =
     \<lparr>res_filename = upload_filename u, res_size = upload_size u, res_rows = upload_rows u,
      res_columns = upload_columns u, res_sha256 = hex_text (upload_sha256 u), res_uploaded_at = upload_time u\<rparr>"

definition dataset_detail_of :: "dataset_reference \<Rightarrow> dataset_detail" where
  "dataset_detail_of d =
     dataset_summary.extend (dataset_summary_of d) \<lparr>res_upload = map_option upload_metadata_of (ref_upload d)\<rparr>"

text \<open>The response model of a rule admits the five types only; \<open>ValidationError\<close> is caught by nobody.\<close>

definition rule_response_of :: "rule_reference \<Rightarrow> api_exc + rule_response" where
  "rule_response_of r =
     (if ref_rule_type r \<notin> set rule_types then Inl OtherException
      else Inr
        \<lparr>res_rule_id = ref_rule_id r, res_rule_dataset_id = ref_rule_dataset_id r, res_rule_type = ref_rule_type r,
         res_target_column = ref_target_column r, res_configuration = ref_configuration r,
         res_rule_created_at = ref_rule_created_at r\<rparr>)"

section \<open>Errors\<close>

definition not_found :: api_exc where
  "not_found = api_failure 404 ''not_found'' ''Resource not found.''"

definition invalid_multipart :: api_exc where
  "invalid_multipart = api_failure 400 ''invalid_multipart'' ''Upload must contain exactly one file part.''"

definition field_error :: "string \<Rightarrow> string \<Rightarrow> string \<Rightarrow> api_exc" where
  "field_error fld code message = policy_validation_error fld code message"

text \<open>Exceptions of the dataset service that a handler does not catch.\<close>

definition uncaught_dataset :: "dataset_exc \<Rightarrow> api_exc" where
  "uncaught_dataset e =
     (case e of
        DatasetIntegrityError _ \<Rightarrow> SQLAlchemyError
      | DatasetDatabaseError \<Rightarrow> SQLAlchemyError
      | _ \<Rightarrow> OtherException)"

definition not_found_or_uncaught :: "dataset_exc \<Rightarrow> api_exc" where
  "not_found_or_uncaught e = (if e = DatasetNotFound then not_found else uncaught_dataset e)"

definition create_dataset_exc :: "dataset_exc \<Rightarrow> api_exc" where
  "create_dataset_exc e =
     (case e of
        DatasetPolicyError _ \<Rightarrow> field_error ''name'' ''invalid_dataset_name'' ''Dataset name is invalid.''
      | _ \<Rightarrow> uncaught_dataset e)"

fun policy_code :: "policy_error \<Rightarrow> string" where
  "policy_code InvalidDatasetName = ''invalid_dataset_name''"
| "policy_code InvalidFilename = ''invalid_filename''"
| "policy_code InvalidTargetColumn = ''invalid_target_column''"
| "policy_code InvalidRegexPattern = ''invalid_regex_pattern''"

fun csv_code :: "csv_error \<Rightarrow> string" where
  "csv_code EmptyCsv = ''empty_csv''"
| "csv_code InvalidHeader = ''invalid_header''"
| "csv_code DuplicateColumns = ''duplicate_columns''"
| "csv_code InconsistentRowWidth = ''inconsistent_row_width''"
| "csv_code InvalidUtf8 = ''invalid_utf8''"
| "csv_code MalformedCsv = ''malformed_csv''"

definition upload_exc :: "dataset_exc \<Rightarrow> api_exc" where
  "upload_exc e =
     (case e of
        DatasetNotFound \<Rightarrow> not_found
      | DatasetPolicyError p \<Rightarrow>
          field_error (if policy_code p = ''invalid_filename'' then ''filename'' else ''file'') (policy_code p)
            ''Uploaded file is invalid.''
      | CsvStructureError k \<Rightarrow> field_error ''file'' (csv_code k) ''CSV structure is invalid.''
      | StorageError FileTooLarge \<Rightarrow>
          api_failure 413 ''upload_too_large'' ''Upload exceeds the accepted size limit.''
      | IncompatibleUpload \<Rightarrow>
          api_failure 409 ''upload_conflicts_with_rules'' ''Upload is incompatible with configured validation rules.''
      | _ \<Rightarrow> uncaught_dataset e)"

definition create_rule_exc :: "dataset_exc \<Rightarrow> api_exc" where
  "create_rule_exc e =
     (case e of
        DatasetNotFound \<Rightarrow> not_found
      | DatasetNotReady \<Rightarrow>
          api_failure 409 ''dataset_not_ready'' ''Dataset requires a valid CSV upload before configuring rules.''
      | UnknownColumn \<Rightarrow>
          field_error ''target_column'' ''unknown_column'' ''Target column does not exist in the dataset.''
      | DuplicateRule \<Rightarrow> api_failure 409 ''duplicate_rule'' ''An identical validation rule already exists.''
      | DatasetPolicyError _ \<Rightarrow>
          field_error ''target_column'' ''invalid_target_column'' ''Target column is invalid.''
      | _ \<Rightarrow> uncaught_dataset e)"

text \<open>
  A service call whose exceptions are mapped and whose result is shown. A response model that refuses
  what it is given raises after the call has done its work.
\<close>

definition serve ::
  "(dataset_exc \<Rightarrow> api_exc) \<Rightarrow> ('a \<Rightarrow> api_exc + api_response) \<Rightarrow>
     (analysis_world \<Rightarrow> (dataset_exc + 'a) \<times> analysis_world) \<Rightarrow> api_response handler" where
  "serve exc shown f = on_store (\<lambda>w. case f w of (r, w') \<Rightarrow> (bind_result (map_sum exc id r) shown, w'))"

section \<open>Routes\<close>

definition create_dataset_route :: "api_env \<Rightarrow> api_call \<Rightarrow> http_request \<Rightarrow> request_body \<Rightarrow> api_response handler" where
  "create_dataset_route env c req body =
     and_then (lift_result (read_body c body)) (\<lambda>json.
     and_then (enforce_trusted_origin env req) (\<lambda>_.
     and_then (lift_result (require_json_content_type req)) (\<lambda>_.
     and_then (session_mutation env c req) (\<lambda>context.
     and_then (lift_result (validated c (string_model [''name''] json))) (\<lambda>values.
       serve create_dataset_exc (\<lambda>d. Inr (respond 201 (DatasetBody (dataset_detail_of d))))
         (create_dataset (dataset_service env) (dataset_inputs c) (caller context) (hd values)))))))"

definition list_datasets_route ::
  "api_env \<Rightarrow> api_call \<Rightarrow> http_request \<Rightarrow> query_int \<Rightarrow> query_int \<Rightarrow> api_response handler" where
  "list_datasets_route env c req limit offset =
     and_then (session_context env c req) (\<lambda>context.
     and_then (lift_result (page c limit offset)) (\<lambda>(l, f).
       serve uncaught_dataset (\<lambda>ds. Inr (respond 200 (DatasetsBody (map dataset_summary_of ds))))
         (list_datasets (dataset_inputs c) (caller context) l f)))"

definition get_dataset_route :: "api_env \<Rightarrow> api_call \<Rightarrow> http_request \<Rightarrow> uuid option \<Rightarrow> api_response handler" where
  "get_dataset_route env c req given =
     and_then (session_context env c req) (\<lambda>context.
     and_then (lift_result (path_id c given)) (\<lambda>did.
       serve not_found_or_uncaught (\<lambda>d. Inr (respond 200 (DatasetBody (dataset_detail_of d))))
         (get_dataset (dataset_inputs c) (caller context) did)))"

text \<open>
  The multipart form as Starlette parses it: refused (malformed, or more than two files or one
  other field), or its parts by name, each a text or a file with its name and content.
\<close>

datatype form_part = TextPart pystr | FilePart "pystr option" "bytes list"

datatype multipart_form = FormRefused | FormParts "(pystr \<times> form_part) list"

fun single_file :: "multipart_form \<Rightarrow> api_exc + pystr option \<times> bytes list" where
  "single_file (FormParts [(name, FilePart filename content)]) =
     (if name \<noteq> lit ''file'' then Inl invalid_multipart else Inr (filename, content))"
| "single_file _ = Inl invalid_multipart"

definition upload_csv_route ::
  "api_env \<Rightarrow> api_call \<Rightarrow> http_request \<Rightarrow> uuid option \<Rightarrow> multipart_form \<Rightarrow> api_response handler" where
  "upload_csv_route env c req given form =
     and_then (enforce_trusted_origin env req) (\<lambda>_.
     and_then (lift_result (require_multipart_content_type req)) (\<lambda>_.
     and_then (session_mutation env c req) (\<lambda>context.
     and_then (lift_result (path_id c given)) (\<lambda>did.
     and_then (lift_result (single_file form)) (\<lambda>(filename, content).
       serve upload_exc (\<lambda>d. Inr (respond 200 (DatasetBody (dataset_detail_of d))))
         (upload_csv (dataset_service env) (dataset_inputs c) (caller context) did filename content))))))"

definition rule_payload :: "api_env \<Rightarrow> pyval \<Rightarrow> rule_request option" where
  "rule_payload env json =
     (case json of
        VDict body \<Rightarrow>
          (case rule_create_request (schemas (analysis_service env)) body of
             Inl _ \<Rightarrow> None
           | Inr payload \<Rightarrow> if json_text_ok json then Some payload else None)
      | _ \<Rightarrow> None)"

definition create_rule_route ::
  "api_env \<Rightarrow> api_call \<Rightarrow> http_request \<Rightarrow> uuid option \<Rightarrow> request_body \<Rightarrow> api_response handler" where
  "create_rule_route env c req given body =
     and_then (lift_result (read_body c body)) (\<lambda>json.
     and_then (enforce_trusted_origin env req) (\<lambda>_.
     and_then (lift_result (require_json_content_type req)) (\<lambda>_.
     and_then (session_mutation env c req) (\<lambda>context.
     and_then (lift_result (path_id c given)) (\<lambda>did.
     and_then (lift_result (validated c (rule_payload env json))) (\<lambda>payload.
       serve create_rule_exc (\<lambda>r. bind_result (rule_response_of r) (\<lambda>shown. Inr (respond 201 (RuleBody shown))))
         (create_rule (dataset_service env) (dataset_inputs c) (caller context) did (request_type payload)
           (request_target_column payload)
           (canonical_rule_configuration (request_configuration payload)))))))))"

definition list_rules_route ::
  "api_env \<Rightarrow> api_call \<Rightarrow> http_request \<Rightarrow> uuid option \<Rightarrow> query_int \<Rightarrow> query_int \<Rightarrow> api_response handler" where
  "list_rules_route env c req given limit offset =
     and_then (session_context env c req) (\<lambda>context.
     and_then (lift_result (path_id c given)) (\<lambda>did.
     and_then (lift_result (page c limit offset)) (\<lambda>(l, f).
       serve not_found_or_uncaught (\<lambda>rs. bind_result (map_results rule_response_of rs) (\<lambda>shown. Inr (respond 200 (RulesBody shown))))
         (list_rules (dataset_inputs c) (caller context) did l f))))"

definition delete_rule_route ::
  "api_env \<Rightarrow> api_call \<Rightarrow> http_request \<Rightarrow> uuid option \<Rightarrow> uuid option \<Rightarrow> api_response handler" where
  "delete_rule_route env c req given given_rule =
     and_then (enforce_trusted_origin env req) (\<lambda>_.
     and_then (session_mutation env c req) (\<lambda>context.
     and_then (lift_result (path_id c given)) (\<lambda>did.
     and_then (lift_result (path_id c given_rule)) (\<lambda>rid.
       serve not_found_or_uncaught (\<lambda>_. Inr (respond 204 NoBody))
         (delete_rule (dataset_inputs c) (caller context) did rid)))))"

end
