(* ===== verification/AnalysisRoutes.thy ===== *)
theory AnalysisRoutes
  imports DatasetRoutes
begin

text \<open>The routes of \<open>api/v1/analyses.py\<close>.\<close>

section \<open>Responses\<close>

text \<open>\<open>float(score)\<close> rounds to the nearest double.\<close>

definition analysis_summary_of :: "'a analysis_summary_scheme \<Rightarrow> analysis_summary_response" where
  "analysis_summary_of a =
     \<lparr>res_analysis_id = summary_id a, res_analysis_dataset_id = summary_dataset_id a,
      res_quality_score = map_option round_double (summary_score a),
      res_source_row_count = summary_rows a, res_violation_count = summary_violations a,
      res_analysis_created_at = summary_created_at a\<rparr>"

definition source_response :: "source_snapshot \<Rightarrow> upload_metadata" where
  "source_response s =
     \<lparr>res_filename = source_filename s, res_size = source_size s, res_rows = source_rows s,
      res_columns = source_columns s, res_sha256 = hex_text (source_sha256 s),
      res_uploaded_at = source_uploaded_at s\<rparr>"

definition sample_response_of :: "sample_reference \<Rightarrow> sample_response" where
  "sample_response_of s =
     \<lparr>res_row_number = sample_row_number s, res_value_preview = sample_preview s, res_truncated = sample_truncated s\<rparr>"

definition result_response_of :: "result_reference \<Rightarrow> api_exc + result_response" where
  "result_response_of r =
     (if ref_result_type r \<notin> set rule_types then Inl OtherException
      else Inr
        \<lparr>res_position = ref_position r, res_source_rule_id = ref_source_rule_id r,
         res_result_type = ref_result_type r, res_result_column = ref_result_column r,
         res_result_configuration = ref_result_configuration r, res_evaluated = ref_evaluated r,
         res_passed = ref_passed r, res_violations = ref_violations r, res_skipped = ref_skipped r,
         res_samples = map sample_response_of (ref_samples r)\<rparr>)"

definition analysis_detail_of :: "analysis_detail \<Rightarrow> api_exc + analysis_detail_response" where
  "analysis_detail_of a =
     bind_result (map_results result_response_of (detail_results a)) (\<lambda>results.
       Inr (analysis_summary_response.extend (analysis_summary_of a)
         \<lparr>res_source = source_response (detail_source a), res_results = results\<rparr>))"

section \<open>Errors\<close>

definition uncaught_analysis :: "analysis_exc \<Rightarrow> api_exc" where
  "uncaught_analysis e =
     (case e of
        AnalysisDatabaseError \<Rightarrow> SQLAlchemyError
      | AnalysisIntegrityError _ \<Rightarrow> SQLAlchemyError
      | _ \<Rightarrow> OtherException)"

definition analysis_not_found_or_uncaught :: "analysis_exc \<Rightarrow> api_exc" where
  "analysis_not_found_or_uncaught e = (if e = AnalysisDatasetNotFound then not_found else uncaught_analysis e)"

definition create_analysis_exc :: "analysis_exc \<Rightarrow> api_exc" where
  "create_analysis_exc e =
     (case e of
        AnalysisDatasetNotFound \<Rightarrow> not_found
      | AnalysisDatasetNotReady \<Rightarrow>
          api_failure 409 ''dataset_not_ready'' ''Dataset requires a valid CSV upload before analysis.''
      | AnalysisRequiresRules \<Rightarrow>
          api_failure 409 ''analysis_requires_rules'' ''Dataset requires at least one validation rule before analysis.''
      | _ \<Rightarrow> uncaught_analysis e)"

definition serve_analysis ::
  "(analysis_exc \<Rightarrow> api_exc) \<Rightarrow> ('a \<Rightarrow> api_exc + api_response) \<Rightarrow>
     (analysis_world \<Rightarrow> (analysis_exc + 'a) \<times> analysis_world) \<Rightarrow> api_response handler" where
  "serve_analysis exc shown f = on_store (\<lambda>w. case f w of (r, w') \<Rightarrow> (bind_result (map_sum exc id r) shown, w'))"

section \<open>Routes\<close>

definition create_analysis_route :: "api_env \<Rightarrow> api_call \<Rightarrow> http_request \<Rightarrow> uuid option \<Rightarrow> api_response handler" where
  "create_analysis_route env c req given =
     and_then (enforce_trusted_origin env req) (\<lambda>_.
     and_then (session_mutation env c req) (\<lambda>context.
     and_then (lift_result (path_id c given)) (\<lambda>did.
       serve_analysis create_analysis_exc (\<lambda>a. bind_result (analysis_detail_of a) (\<lambda>shown. Inr (respond 201 (AnalysisBody shown))))
         (create_analysis (analysis_service env) (analysis_inputs c) (caller context) did))))"

definition list_analyses_route ::
  "api_env \<Rightarrow> api_call \<Rightarrow> http_request \<Rightarrow> uuid option \<Rightarrow> query_int \<Rightarrow> query_int \<Rightarrow> api_response handler" where
  "list_analyses_route env c req given limit offset =
     and_then (session_context env c req) (\<lambda>context.
     and_then (lift_result (path_id c given)) (\<lambda>did.
     and_then (lift_result (page c limit offset)) (\<lambda>(l, f).
       serve_analysis analysis_not_found_or_uncaught (\<lambda>as. Inr (respond 200 (AnalysesBody (map analysis_summary_of as))))
         (list_analyses (analysis_inputs c) (caller context) did l f))))"

definition get_analysis_route ::
  "api_env \<Rightarrow> api_call \<Rightarrow> http_request \<Rightarrow> uuid option \<Rightarrow> uuid option \<Rightarrow> api_response handler" where
  "get_analysis_route env c req given given_analysis =
     and_then (session_context env c req) (\<lambda>context.
     and_then (lift_result (path_id c given)) (\<lambda>did.
     and_then (lift_result (path_id c given_analysis)) (\<lambda>aid.
       serve_analysis analysis_not_found_or_uncaught (\<lambda>a. bind_result (analysis_detail_of a) (\<lambda>shown. Inr (respond 200 (AnalysisBody shown))))
         (get_analysis (analysis_inputs c) (caller context) did aid))))"

end
