(* ===== verification/Router.thy ===== *)
theory Router
  imports AuthRoutes AnalysisRoutes
begin

text \<open>
  All routes of \<open>api/v1/router.py\<close> in one function, with the statuses they document in their
  \<open>responses\<close> and \<open>status_code\<close> arguments, and what the exception handlers make of the outcome.
\<close>

datatype endpoint =
    Register request_body
  | Login request_body
  | Me
  | Logout
  | CreateDataset request_body
  | ListDatasets query_int query_int
  | GetDataset "uuid option"
  | UploadCsv "uuid option" multipart_form
  | CreateRule "uuid option" request_body
  | ListRules "uuid option" query_int query_int
  | DeleteRule "uuid option" "uuid option"
  | CreateAnalysis "uuid option"
  | ListAnalyses "uuid option" query_int query_int
  | GetAnalysis "uuid option" "uuid option"

fun route :: "api_env \<Rightarrow> api_call \<Rightarrow> http_request \<Rightarrow> endpoint \<Rightarrow> api_response handler" where
  "route env c req (Register body) = register_route env c req body"
| "route env c req (Login body) = login_route env c req body"
| "route env c req Me = me_route env c req"
| "route env c req Logout = logout_route env c req"
| "route env c req (CreateDataset body) = create_dataset_route env c req body"
| "route env c req (ListDatasets limit offset) = list_datasets_route env c req limit offset"
| "route env c req (GetDataset did) = get_dataset_route env c req did"
| "route env c req (UploadCsv did form) = upload_csv_route env c req did form"
| "route env c req (CreateRule did body) = create_rule_route env c req did body"
| "route env c req (ListRules did limit offset) = list_rules_route env c req did limit offset"
| "route env c req (DeleteRule did rid) = delete_rule_route env c req did rid"
| "route env c req (CreateAnalysis did) = create_analysis_route env c req did"
| "route env c req (ListAnalyses did limit offset) = list_analyses_route env c req did limit offset"
| "route env c req (GetAnalysis did aid) = get_analysis_route env c req did aid"

fun success_status :: "endpoint \<Rightarrow> nat" where
  "success_status (Register body) = 201"
| "success_status Logout = 204"
| "success_status (CreateDataset body) = 201"
| "success_status (CreateRule did body) = 201"
| "success_status (DeleteRule did rid) = 204"
| "success_status (CreateAnalysis did) = 201"
| "success_status e = 200"

text \<open>The arguments of \<open>_error_responses\<close>.\<close>

fun documented_errors :: "endpoint \<Rightarrow> nat set" where
  "documented_errors (Register body) = {403, 409, 415, 422, 500, 503}"
| "documented_errors (Login body) = {401, 403, 415, 422, 500, 503}"
| "documented_errors Me = {401, 500, 503}"
| "documented_errors Logout = {403, 500, 503}"
| "documented_errors (CreateDataset body) = {401, 403, 415, 422, 500, 503}"
| "documented_errors (ListDatasets limit offset) = {401, 422, 500, 503}"
| "documented_errors (GetDataset did) = {401, 404, 422, 500, 503}"
| "documented_errors (UploadCsv did form) = {400, 401, 403, 404, 409, 413, 415, 422, 500, 503}"
| "documented_errors (CreateRule did body) = {401, 403, 404, 409, 415, 422, 500, 503}"
| "documented_errors (ListRules did limit offset) = {401, 404, 422, 500, 503}"
| "documented_errors (DeleteRule did rid) = {401, 403, 404, 500, 503}"
| "documented_errors (CreateAnalysis did) = {401, 403, 404, 409, 422, 500, 503}"
| "documented_errors (ListAnalyses did limit offset) = {401, 404, 422, 500, 503}"
| "documented_errors (GetAnalysis did aid) = {401, 404, 422, 500, 503}"

text \<open>The response to a request: the handler's, or the one made of its exception.\<close>

definition respond_to ::
  "api_env \<Rightarrow> api_call \<Rightarrow> http_request \<Rightarrow> endpoint \<Rightarrow> api_state \<Rightarrow> (api_error + api_response) \<times> api_state" where
  "respond_to env c req e s = (case route env c req e s of (r, s') \<Rightarrow> (map_sum error_response_of id r, s'))"

definition response_status :: "api_error + api_response \<Rightarrow> nat" where
  "response_status r = (case r of Inl err \<Rightarrow> status_code err | Inr res \<Rightarrow> http_status res)"

end
