(* ===== verification/ApiErrors.thy ===== *)
theory ApiErrors
  imports Router
begin

text \<open>Which responses a route can give.\<close>

section \<open>Errors of the dependencies\<close>

abbreviation "exc_status x \<equiv> status_code (error_response_of x)"

named_theorems status_rules \<comment> \<open>which statuses the exceptions of a step have\<close>

lemma status_simps [simp]:
  "exc_status (api_failure n code message) = n"
  "exc_status (policy_validation_error fld code message) = 422"
  "exc_status (field_error fld code message) = 422"
  by (simp_all add: api_failure_def policy_validation_error_def field_error_def)

lemma named_status [simp]:
  "exc_status invalid_origin = 403" "exc_status unsupported_media_type = 415"
  "exc_status unsupported_multipart_media_type = 415" "exc_status authentication_required = 401"
  "exc_status invalid_csrf_token = 403" "exc_status not_found = 404" "exc_status invalid_multipart = 400"
  by (simp_all add: invalid_origin_def unsupported_media_type_def unsupported_multipart_media_type_def
      authentication_required_def invalid_csrf_token_def not_found_def invalid_multipart_def)

lemma uncaught_status: "exc_status (uncaught_identity e) \<in> {500, 503}" "exc_status (uncaught_dataset d) \<in> {500, 503}"
  "exc_status (uncaught_analysis a) \<in> {500, 503}"
  by (simp_all add: uncaught_identity_def uncaught_dataset_def uncaught_analysis_def
      split: identity_exc.splits dataset_exc.splits analysis_exc.splits)

lemma uncaught_cases:
  "exc_status (uncaught_identity e) = 500 \<or> exc_status (uncaught_identity e) = 503"
  "exc_status (uncaught_dataset d) = 500 \<or> exc_status (uncaught_dataset d) = 503"
  "exc_status (uncaught_analysis a) = 500 \<or> exc_status (uncaught_analysis a) = 503"
  using uncaught_status by simp_all

lemma origin_status [status_rules]: "enforce_trusted_origin env req s = (Inl x, s') \<Longrightarrow> exc_status x = 403"
  by (auto simp: enforce_trusted_origin_def require_trusted_origin_def split: option.splits if_splits)

lemma json_type_status [status_rules]: "require_json_content_type req = Inl x \<Longrightarrow> exc_status x = 415"
  by (auto simp: require_json_content_type_def Let_def split: list.splits if_splits)

lemma multipart_type_status [status_rules]: "require_multipart_content_type req = Inl x \<Longrightarrow> exc_status x = 415"
  by (auto simp: require_multipart_content_type_def split: list.splits if_splits)

lemma context_status [status_rules]:
  "session_context env c req s = (Inl x, s') \<Longrightarrow> exc_status x = 401 \<or> exc_status x = 500 \<or> exc_status x = 503"
  using uncaught_cases(1)
  by (auto simp: session_context_def result_simps on_db_def require_authenticated_context_def
      split: prod.splits sum.splits if_splits)

lemma mutation_status [status_rules]:
  "session_mutation env c req s = (Inl x, s') \<Longrightarrow>
     exc_status x = 401 \<or> exc_status x = 403 \<or> exc_status x = 500 \<or> exc_status x = 503"
  using uncaught_cases(1)
  by (auto simp: session_mutation_def result_simps on_db_def require_authenticated_mutation_def
      require_authenticated_context_def check_csrf_def split: prod.splits sum.splits if_splits option.splits)

lemma body_status [status_rules]: "read_body c body = Inl x \<Longrightarrow> exc_status x = 422"
  by (auto simp: read_body_def split: request_body.splits)

lemma validated_status [status_rules]: "validated c r = Inl x \<Longrightarrow> exc_status x = 422"
  by (auto simp: validated_def split: option.splits)

lemma credentials_status [status_rules]: "credentials c json = Inl x \<Longrightarrow> exc_status x = 422"
  unfolding credentials_def by (rule validated_status)

lemma path_status [status_rules]: "path_id c given = Inl x \<Longrightarrow> exc_status x = 422"
  by (auto simp: path_id_def split: option.splits)

lemma page_status [status_rules]: "page c limit offset = Inl x \<Longrightarrow> exc_status x = 422"
  by (auto simp: page_def split: option.splits if_splits)

lemma file_status [status_rules]: "single_file form = Inl x \<Longrightarrow> exc_status x = 400"
  by (cases form rule: single_file.cases) (auto split: if_splits)

lemma me_status [status_rules]: "me_response context = Inl x \<Longrightarrow> exc_status x = 500"
  by (auto simp: me_response_def split: sum.splits)

section \<open>Errors of the services\<close>

lemma identity_status:
  "exc_status (register_exc e) \<in> {409, 422, 500, 503}" "exc_status (login_exc e) \<in> {401, 422, 500, 503}"
  "exc_status (logout_exc e) \<in> {403, 500, 503}"
  using uncaught_cases(1) [of e]
  by (auto simp: register_exc_def login_exc_def logout_exc_def split: identity_exc.splits)

lemma dataset_status:
  "exc_status (create_dataset_exc e) \<in> {422, 500, 503}" "exc_status (not_found_or_uncaught e) \<in> {404, 500, 503}"
  "exc_status (upload_exc e) \<in> {404, 409, 413, 422, 500, 503}" "exc_status (create_rule_exc e) \<in> {404, 409, 422, 500, 503}"
  using uncaught_cases(2) [of e]
  by (auto simp: create_dataset_exc_def not_found_or_uncaught_def upload_exc_def create_rule_exc_def
      split: dataset_exc.splits storage_exc.splits)

lemma analysis_status:
  "exc_status (create_analysis_exc e) \<in> {404, 409, 500, 503}"
  "exc_status (analysis_not_found_or_uncaught e) \<in> {404, 500, 503}"
  using uncaught_cases(3) [of e]
  by (auto simp: create_analysis_exc_def analysis_not_found_or_uncaught_def split: analysis_exc.splits)

lemma shown_cases:
  "bind_result (map_sum exc id r) shown = Inl x \<Longrightarrow> (\<exists>e. x = exc e) \<or> (\<exists>y. shown y = Inl x)"
  "bind_result (map_sum exc id r) shown = Inr res \<Longrightarrow> \<exists>y. shown y = Inr res"
  by (cases r; auto)+

lemma serve_Inl: "serve exc shown f s = (Inl x, s') \<Longrightarrow> (\<exists>e. x = exc e) \<or> (\<exists>y. shown y = Inl x)"
  by (auto simp: serve_def on_store_def dest: shown_cases(1) split: prod.splits)

lemma serve_analysis_Inl: "serve_analysis exc shown f s = (Inl x, s') \<Longrightarrow> (\<exists>e. x = exc e) \<or> (\<exists>y. shown y = Inl x)"
  by (auto simp: serve_analysis_def on_store_def dest: shown_cases(1) split: prod.splits)

lemma serve_Inr: "serve exc shown f s = (Inr res, s') \<Longrightarrow> \<exists>y. shown y = Inr res"
  by (auto simp: serve_def on_store_def dest: shown_cases(2) split: prod.splits)

lemma serve_analysis_Inr: "serve_analysis exc shown f s = (Inr res, s') \<Longrightarrow> \<exists>y. shown y = Inr res"
  by (auto simp: serve_analysis_def on_store_def dest: shown_cases(2) split: prod.splits)

lemma refused_response:
  "rule_response_of r = Inl x \<Longrightarrow> x = OtherException" "map_results rule_response_of rs = Inl x \<Longrightarrow> x = OtherException"
  "analysis_detail_of a = Inl x \<Longrightarrow> x = OtherException"
  by (auto simp: rule_response_of_def analysis_detail_of_def result_response_of_def result_simps
      dest!: map_results_error split: if_splits)

lemma register_handler_status:
  "register_handler env c given s = (Inl x, s') \<Longrightarrow> exc_status x \<in> {409, 422, 500, 503}"
  using identity_status(1) by (auto simp: register_handler_def on_db_def split: prod.splits sum.splits)

lemma login_handler_status:
  "login_handler env c given s = (Inl x, s') \<Longrightarrow> exc_status x \<in> {401, 422, 500, 503}"
  using identity_status(2) by (auto simp: login_handler_def on_db_def split: prod.splits sum.splits)

section \<open>Routes\<close>

text \<open>A malformed identifier in the path of \<open>DELETE\<close> is answered with an undocumented 422.\<close>

definition malformed_delete :: "endpoint \<Rightarrow> bool" where
  "malformed_delete e \<longleftrightarrow> (\<exists>did rid. e = DeleteRule did rid \<and> (did = None \<or> rid = None))"

lemma route_error_status:
  assumes "route env c req e s = (Inl x, s')"
  shows "exc_status x \<in> documented_errors e \<or> malformed_delete e \<and> exc_status x = 422"
proof (cases e)
  case (Register body)
  then show ?thesis using assms
    by (auto simp: register_route_def credentials_route_def result_simps dest!: status_rules register_handler_status)
next
  case (Login body)
  then show ?thesis using assms
    by (auto simp: login_route_def credentials_route_def result_simps dest!: status_rules login_handler_status)
next
  case Me
  then show ?thesis using assms
    by (auto simp: me_route_def result_simps dest!: status_rules)
next
  case Logout
  then show ?thesis using assms identity_status(3)
    by (auto simp: logout_route_def result_simps on_db_def dest!: status_rules split: prod.splits sum.splits)
next
  case (CreateDataset body)
  then show ?thesis using assms dataset_status(1)
    by (auto simp: create_dataset_route_def result_simps dest!: status_rules serve_Inl refused_response)
next
  case (ListDatasets limit offset)
  then show ?thesis using assms uncaught_status(2)
    by (auto simp: list_datasets_route_def result_simps dest!: status_rules serve_Inl refused_response)
next
  case (GetDataset did)
  then show ?thesis using assms dataset_status(2)
    by (auto simp: get_dataset_route_def result_simps dest!: status_rules serve_Inl refused_response)
next
  case (UploadCsv did form)
  then show ?thesis using assms dataset_status(3)
    by (auto simp: upload_csv_route_def result_simps dest!: status_rules serve_Inl refused_response)
next
  case (CreateRule did body)
  then show ?thesis using assms dataset_status(4)
    by (auto simp: create_rule_route_def result_simps dest!: status_rules serve_Inl refused_response)
next
  case (ListRules did limit offset)
  then show ?thesis using assms dataset_status(2)
    by (auto simp: list_rules_route_def result_simps dest!: status_rules serve_Inl refused_response)
next
  case (DeleteRule did rid)
  then show ?thesis using assms dataset_status(2)
    by (auto simp: delete_rule_route_def result_simps malformed_delete_def path_id_def
        dest!: status_rules serve_Inl refused_response split: option.splits)
next
  case (CreateAnalysis did)
  then show ?thesis using assms analysis_status(1)
    by (auto simp: create_analysis_route_def result_simps dest!: status_rules serve_analysis_Inl refused_response)
next
  case (ListAnalyses did limit offset)
  then show ?thesis using assms analysis_status(2)
    by (auto simp: list_analyses_route_def result_simps dest!: status_rules serve_analysis_Inl refused_response)
next
  case (GetAnalysis did aid)
  then show ?thesis using assms analysis_status(2)
    by (auto simp: get_analysis_route_def result_simps dest!: status_rules serve_analysis_Inl refused_response)
qed

lemma register_handler_Inr: "register_handler env c given s = (Inr res, s') \<Longrightarrow> http_status res = 201"
  by (auto simp: register_handler_def on_db_def session_issued_def split: prod.splits sum.splits)

lemma login_handler_Inr: "login_handler env c given s = (Inr res, s') \<Longrightarrow> http_status res = 200"
  by (auto simp: login_handler_def on_db_def session_issued_def split: prod.splits sum.splits)

lemma me_response_Inr: "me_response context = Inr res \<Longrightarrow> http_status res = 200"
  by (auto simp: me_response_def split: sum.splits)

lemma route_success_status:
  assumes "route env c req e s = (Inr res, s')"
  shows "http_status res = success_status e"
  using assms
  by (cases e)
    (auto simp: register_route_def login_route_def credentials_route_def me_route_def
      logout_route_def logout_response_def on_db_def create_dataset_route_def list_datasets_route_def
      get_dataset_route_def upload_csv_route_def create_rule_route_def list_rules_route_def delete_rule_route_def
      create_analysis_route_def list_analyses_route_def get_analysis_route_def respond_def result_simps
      dest!: me_response_Inr register_handler_Inr login_handler_Inr serve_Inr serve_analysis_Inr split: prod.splits sum.splits)

lemma response_documented:
  assumes "respond_to env c req e s = (r, s')"
  shows "(case r of Inl err \<Rightarrow> status_code err \<in> documented_errors e \<or> malformed_delete e \<and> status_code err = 422
      | Inr res \<Rightarrow> http_status res = success_status e)"
proof -
  obtain x s1 where x: "route env c req e s = (x, s1)" by (cases "route env c req e s")
  then have r: "r = map_sum error_response_of id x" using assms by (simp add: respond_to_def)
  show ?thesis
    using x route_error_status [of env c req e s _ s1] route_success_status [of env c req e s _ s1]
    by (cases x) (auto simp: r)
qed

end
