(* ===== verification/ApiSessions.thy ===== *)
theory ApiSessions
  imports Router IdentityLifecycle
begin

text \<open>What the API's cookies and headers mean: who a request speaks for, and what that takes.\<close>

section \<open>A registration's session works\<close>

lemma cleanup_keeps_active:
  assumes "s \<in> set (sessions db)" and "classify_session s now = ACTIVE"
    and "distinct (map session_id (sessions db))"
  shows "s \<in> set (sessions (cleanup_after_success c n now db))"
proof -
  have kept: "s \<in> set ss" if "delete_inactive_batch locks now IDLE_TIMEOUT limit (sessions db) = (k, ss)" for locks limit k ss
  proof -
    let ?old = "take limit (order_by (\<lambda>s. (absolute_expires_at s, session_id s))
        (filter (\<lambda>s. inactive now IDLE_TIMEOUT s \<and> \<not> locks (session_id s)) (sessions db)))"
    have "session_id s \<notin> session_id ` set ?old"
    proof
      assume "session_id s \<in> session_id ` set ?old"
      then obtain t where t: "t \<in> set ?old" "session_id t = session_id s" by force
      have "t \<in> set (order_by (\<lambda>s. (absolute_expires_at s, session_id s))
          (filter (\<lambda>s. inactive now IDLE_TIMEOUT s \<and> \<not> locks (session_id s)) (sessions db)))"
        using t(1) by (rule in_set_takeD)
      then have old: "t \<in> set (sessions db)" "inactive now IDLE_TIMEOUT t" by simp_all
      then have "t = s" using assms(1,3) t(2) by (meson distinct_map inj_onD)
      then show False using old(2) assms(2) by (simp add: inactive_iff)
    qed
    moreover have "ss = filter (\<lambda>s. session_id s \<notin> set (map session_id ?old)) (sessions db)"
      using that unfolding delete_inactive_batch_def Let_def by (simp only: prod.inject)
    ultimately show ?thesis using assms(1) by simp
  qed
  show ?thesis using assms(1) kept
    by (auto simp: cleanup_after_success_def cleanup_inactive_sessions_def transaction_def delete_inactive_def
        split: sum.splits prod.splits option.splits)
qed

lemma registered_session_works:
  assumes ok: "identity_ok db" and reg: "register env c address password db = (Inr iss, db')"
    and clock: "clock c = AwareTime now" "clock c' = AwareTime now'" "now \<le> now'" "now' < now + hours 2"
    and works: "\<not> fails c' 0"
  shows "\<exists>ctx db2. authenticate env c' (Some (issued_bearer iss)) db' = (Inr ctx, db2) \<and>
    context_user ctx = issued_user iss \<and> encode_token (context_csrf ctx) = Inr (issued_csrf iss)"
proof -
  from reg obtain u m now0 db1 where p: "prepare_registration env c address password = Inr (u, m, now0)"
    and commit: "register_commit u m db = Inr ((), db1)" and iss: "iss = issuance_of u m"
    and db': "db' = cleanup_after_success c 1 now0 db1" by (rule register_Inr)
  from p have now0: "now0 = now" and m: "issue_session env c (user_id u) now = Inr m"
    using clock(1) by (auto elim!: prepare_registration_Inr)
  let ?row = "material_row m"
  obtain b t where row: "?row = \<lparr>session_id = new_session_id c, session_user_id = user_id u,
      token_hash = sha256 env (new_bearer c), csrf_token = new_csrf c, session_created_at = now,
      last_seen_at = now, absolute_expires_at = now + ABSOLUTE_TIMEOUT, revoked_at = None\<rparr>"
    and enc: "encode_token (new_bearer c) = Inr b" "encode_token (new_csrf c) = Inr t"
    and shown: "material_bearer m = b" "material_csrf m = t"
    using m by (auto simp: issue_session_Inr)
  have db1: "users db1 = users db @ [u]" "?row \<in> set (sessions db1)"
    using commit by (auto simp: register_commit_def result_simps dest!: add_user_db add_session_db)
  have active: "classify_session ?row now = ACTIVE" "classify_session ?row now' = ACTIVE"
    using clock(3,4) by (auto simp: row classify_session_def ABSOLUTE_TIMEOUT_def IDLE_TIMEOUT_def hours_def seconds_def)
  have ok1: "identity_ok db1" using register_commit_ok [OF ok commit] .
  then have "distinct (map session_id (sessions db1))" by (simp add: identity_ok_def sessions_by_id.table_ok_def)
  then have kept: "?row \<in> set (sessions db')" using cleanup_keeps_active [OF db1(2) active(1)] by (simp add: db' now0)
  have ok': "identity_ok db'" using cleanup_after_success_ok [OF ok1] by (simp add: db')
  have users: "users db' = users db @ [u]" by (simp add: db' db1(1))
  have touch: "touchable (sha256 env (new_bearer c)) now' IDLE_TIMEOUT ?row"
    using active(2) by (simp add: touchable_iff row)
  have "decode_token b = Inr (new_bearer c)" using session_token.dec_enc [OF enc(1)] .
  note eval = authenticate_eval [OF this clock(2) works]
  have "u \<in> set (users db')" "user_id u = session_user_id ?row" using users by (simp_all add: row)
  then have "authenticate_body (sha256 env (new_bearer c)) now' db' =
      Inr (\<lparr>context_user = user_reference_of u, context_session_id = session_id ?row,
         context_csrf = csrf_token ?row, context_expires_at = absolute_expires_at ?row\<rparr>,
       db'\<lparr>sessions := update_rows (touchable (sha256 env (new_bearer c)) now' IDLE_TIMEOUT) (touch now') (sessions db')\<rparr>)"
    using authenticate_body_Inr [OF ok'] kept touch by blast
  then show ?thesis using eval enc shown by (simp add: iss issuance_of_def row)
qed

section \<open>Who may change what is stored\<close>

text \<open>Everything the API stores besides the identity tables.\<close>

definition stored ::
  "api_state \<Rightarrow> dataset_row list \<times> rule_row list \<times> files \<times> analysis_row list \<times> result_row list" where
  "stored s = (let w = api_world s in (datasets w, rules w, files w, analyses w, results w))"

text \<open>
  A request that speaks for a user: from a trusted origin, with the cookie of one of the user's
  active sessions and with that session's CSRF token.
\<close>

definition speaks_for :: "api_env \<Rightarrow> api_call \<Rightarrow> http_request \<Rightarrow> api_state \<Rightarrow> uuid \<Rightarrow> bool" where
  "speaks_for env c req s u \<longleftrightarrow>
     require_trusted_origin (urls env) (settings env) req = Inr () \<and>
     (\<exists>text raw now t. get_session_cookie (settings env) req = Some text \<and> decode_token text = Inr raw \<and>
        clock (identity_inputs c) = AwareTime now \<and> t \<in> set (sessions (api_db s)) \<and>
        token_hash t = sha256 (identity env) raw \<and> classify_session t now = ACTIVE \<and>
        parse_csrf_header req = Some (csrf_token t) \<and> session_user_id t = u)"

lemma stored_db [simp]: "stored (s\<lparr>api_db := db\<rparr>) = stored s"
  by (simp add: stored_def)

lemma authenticate_Inr_session:
  assumes "identity_ok db" and "authenticate ienv ic bearer db = (Inr ctx, db')"
  shows "\<exists>text raw now t. bearer = Some text \<and> decode_token text = Inr raw \<and> clock ic = AwareTime now \<and>
    t \<in> set (sessions db) \<and> token_hash t = sha256 ienv raw \<and> classify_session t now = ACTIVE \<and>
    context_csrf ctx = csrf_token t \<and> ref_user_id (context_user ctx) = session_user_id t"
proof -
  obtain h where h: "bearer_hash ienv bearer = Inr h" using assms(2) by (auto simp: authenticate_def split: sum.splits)
  obtain now where now: "clock ic = AwareTime now" using assms(2) h by (cases "clock ic") (simp_all add: authenticate_def)
  have "authenticate_body h now db = Inr (ctx, db')"
    using assms(2) h now by (auto simp: authenticate_def transaction_def split: sum.splits option.splits prod.splits)
  from context_of_session [OF assms(1) this] h now show ?thesis by (fastforce simp: bearer_hash_Inr)
qed

lemma session_context_stored:
  assumes "session_context env c req s = (r, s')"
  shows "stored s' = stored s \<or> (\<exists>db. s' = after_authentication c (s\<lparr>api_db := db\<rparr>))"
  using assms by (auto simp: session_context_def and_then_def on_db_def split: prod.splits sum.splits)

lemma session_mutation_stored:
  assumes "session_mutation env c req s = (r, s')"
  shows "stored s' = stored s \<or> (\<exists>db. s' = after_authentication c (s\<lparr>api_db := db\<rparr>))"
  using assms by (auto simp: session_mutation_def and_then_def on_db_def split: prod.splits sum.splits)

lemma session_mutation_speaks:
  assumes ok: "identity_ok (api_db s)" and "session_mutation env c req s = (Inr ctx, s')"
    and "require_trusted_origin (urls env) (settings env) req = Inr ()"
  shows "speaks_for env c req s (caller ctx)"
proof -
  obtain db where ctx: "authenticate (identity env) (identity_inputs c) (get_session_cookie (settings env) req) (api_db s) = (Inr ctx, db)"
    and csrf: "check_csrf req ctx = Inr ctx"
    using assms(2) by (auto simp: session_mutation_def result_simps on_db_def require_authenticated_mutation_def
        require_authenticated_context_def check_csrf_def split: prod.splits sum.splits if_splits option.splits)
  have "parse_csrf_header req = Some (context_csrf ctx)"
    using csrf by (auto simp: check_csrf_def csrf_tokens_match_def split: option.splits if_splits)
  then show ?thesis using authenticate_Inr_session [OF ok ctx] assms(3) by (auto simp: speaks_for_def)
qed

lemma enforce_origin_Inr:
  "enforce_trusted_origin env req s = (Inr u, s') \<Longrightarrow> require_trusted_origin (urls env) (settings env) req = Inr () \<and> s' = s"
  by (auto simp: enforce_trusted_origin_def)

lemma enforce_origin_state: "enforce_trusted_origin env req s = (r, s') \<Longrightarrow> s' = s"
  by (auto simp: enforce_trusted_origin_def)

text \<open>A step that leaves alone what is stored, or continues only for a user.\<close>

definition others_left :: "api_call \<Rightarrow> api_state \<Rightarrow> api_state \<Rightarrow> bool" where
  "others_left c s s' \<longleftrightarrow> stored s' = stored s \<or> (\<exists>db. stored s' = stored (after_authentication c (s\<lparr>api_db := db\<rparr>)))"

definition harmless :: "api_env \<Rightarrow> api_call \<Rightarrow> http_request \<Rightarrow> 'a handler \<Rightarrow> bool" where
  "harmless env c req h \<longleftrightarrow>
     (\<forall>s r s'. h s = (r, s') \<longrightarrow> identity_ok (api_db s) \<longrightarrow> others_left c s s' \<or> (\<exists>u. speaks_for env c req s u))"

lemma harmless_lift: "(\<And>x. r = Inr x \<Longrightarrow> harmless env c req (k x)) \<Longrightarrow> harmless env c req (and_then (lift_result r) k)"
  unfolding harmless_def and_then_def by (cases r) (auto simp: others_left_def)

lemma harmless_origin:
  assumes "require_trusted_origin (urls env) (settings env) req = Inr () \<Longrightarrow> harmless env c req (k ())"
  shows "harmless env c req (and_then (enforce_trusted_origin env req) k)"
  unfolding enforce_trusted_origin_def using assms by (intro harmless_lift) simp

lemma harmless_mutation:
  assumes "require_trusted_origin (urls env) (settings env) req = Inr ()"
  shows "harmless env c req (and_then (session_mutation env c req) k)"
  unfolding harmless_def
proof (intro allI impI)
  fix s r s'
  assume h: "and_then (session_mutation env c req) k s = (r, s')" and ok: "identity_ok (api_db s)"
  obtain x s1 where x: "session_mutation env c req s = (x, s1)" by (cases "session_mutation env c req s")
  show "others_left c s s' \<or> (\<exists>u. speaks_for env c req s u)"
  proof (cases x)
    case (Inl e)
    then show ?thesis using h x session_mutation_stored [OF x] by (auto simp: and_then_def others_left_def)
  next
    case (Inr ctx)
    then show ?thesis using session_mutation_speaks [OF ok _ assms] x by blast
  qed
qed

text \<open>A handler that only reads.\<close>

definition reads_only :: "'a handler \<Rightarrow> bool" where
  "reads_only h \<longleftrightarrow> (\<forall>s. stored (snd (h s)) = stored s)"

lemma harmless_context:
  assumes "\<And>ctx. reads_only (k ctx)"
  shows "harmless env c req (and_then (session_context env c req) k)"
  unfolding harmless_def
proof (intro allI impI disjI1)
  fix s r s'
  assume h: "and_then (session_context env c req) k s = (r, s')"
  obtain x s1 where x: "session_context env c req s = (x, s1)" by (cases "session_context env c req s")
  have "stored s' = stored s1"
    using h x assms by (cases x) (auto simp: and_then_def reads_only_def dest: arg_cong [of _ _ "\<lambda>p. stored (snd p)"])
  then show "others_left c s s'" using session_context_stored [OF x] by (auto simp: others_left_def)
qed

lemma harmless_reads: "reads_only h \<Longrightarrow> harmless env c req h"
  unfolding harmless_def reads_only_def others_left_def by (metis snd_conv)

lemma reads_only_lift: "reads_only (lift_result r)"
  by (simp add: reads_only_def)

lemma reads_only_then: "(\<And>x. reads_only (k x)) \<Longrightarrow> reads_only (and_then (lift_result r) k)"
  by (cases r) (simp_all add: reads_only_def and_then_def)

lemma reads_only_split: "(\<And>a b. reads_only (k a b)) \<Longrightarrow> reads_only (case p of (a, b) \<Rightarrow> k a b)"
  by (cases p) simp

lemma reads_only_db: "reads_only (on_db f)"
  by (simp add: reads_only_def on_db_def stored_def split: prod.splits)

lemma stored_store_of: "stored (s\<lparr>api_world := store_of s\<rparr>) = stored s"
  by (simp add: stored_def store_of_def Let_def)

lemma reads_only_store:
  assumes "\<And>w. snd (f w) = w"
  shows "reads_only (on_store f)"
proof -
  have "snd (on_store f s) = s\<lparr>api_world := store_of s\<rparr>" for s
    using assms [of "store_of s"] by (auto simp: on_store_def split: prod.splits)
  then show ?thesis by (simp add: reads_only_def stored_store_of)
qed

lemma db_transaction_reads: "snd (db_transaction flt w (reading f)) = w"
  by (auto simp: db_transaction_def reading_def split: sum.splits option.splits)

lemma transaction_reading: "(\<And>x w'. f w = Inr (x, w') \<Longrightarrow> w' = w) \<Longrightarrow> snd (transaction flt w f) = w"
  by (auto simp: transaction_def split: sum.splits option.splits prod.splits)

lemma serve_reads: "(\<And>w. snd (f w) = w) \<Longrightarrow> reads_only (serve exc shown f)"
  unfolding serve_def by (intro reads_only_store) (simp split: prod.splits, metis snd_conv)

lemma serve_analysis_reads: "(\<And>w. snd (f w) = w) \<Longrightarrow> reads_only (serve_analysis exc shown f)"
  unfolding serve_analysis_def by (intro reads_only_store) (simp split: prod.splits, metis snd_conv)

lemma queries_read [simp]:
  "snd (list_datasets dc owner l f w) = w" "snd (get_dataset dc owner did w) = w"
  "snd (list_rules dc owner did l f w) = w" "snd (list_analyses ac owner did l f aw) = aw"
  "snd (get_analysis ac owner did aid aw) = aw"
  by (simp_all add: list_datasets_def get_dataset_def list_rules_def db_transaction_reads)
    (auto simp: list_analyses_def get_analysis_def result_simps intro!: transaction_reading split: option.splits)

lemmas reads_only_intros = reads_only_lift reads_only_then reads_only_split reads_only_db serve_reads serve_analysis_reads

lemmas harmless_db = harmless_reads [OF reads_only_db]

lemma route_harmless: "harmless env c req (route env c req e)"
  by (cases e)
    (auto simp: register_route_def login_route_def credentials_route_def me_route_def logout_route_def
      register_handler_def login_handler_def create_dataset_route_def list_datasets_route_def get_dataset_route_def
      upload_csv_route_def create_rule_route_def list_rules_route_def delete_rule_route_def
      create_analysis_route_def list_analyses_route_def get_analysis_route_def
      intro!: harmless_lift harmless_origin harmless_mutation harmless_context harmless_db reads_only_intros)

end
