(* ===== verification/Middleware.thy ===== *)
theory Middleware
  imports Security Csv
begin

text \<open>
  The ASGI middleware (\<open>api/middleware.py\<close>). An application is the tree of what it may do next:
  await a message of the client (or the exception that \<open>receive\<close> raises), send a message, return or
  raise. Which tree it is depends on the scope of the request, and a middleware maps the application
  inside to the one outside. The identifiers that \<open>uuid4\<close> draws are inputs.
\<close>

text \<open>The body of an error response: the error and the trace identifier of the request.\<close>

record error_payload =
  payload_error :: api_error
  payload_trace_id :: pystr

datatype asgi_exc = RequestBodyTooLarge | ApplicationError

datatype receive_message = HttpRequest bytes | HttpDisconnect

datatype send_message =
    ResponseStart nat "(string \<times> pystr) list"
  | ResponseBody "error_payload option"
  | OtherMessage

datatype application =
    Receive "asgi_exc + receive_message \<Rightarrow> application"
  | Send send_message application
  | Return
  | Raise asgi_exc

record scope =
  scope_type :: pystr
  scope_method :: pystr
  scope_path :: pystr
  scope_headers :: "(bytes \<times> bytes) list"
  scope_trace_id :: "pystr option"

type_synonym asgi = "scope \<Rightarrow> application"

text \<open>The identifier in the state of the request, else one drawn now.\<close>

definition ensure_trace_id :: "pystr \<Rightarrow> scope \<Rightarrow> pystr" where
  "ensure_trace_id drawn sc = (case scope_trace_id sc of None \<Rightarrow> drawn | Some t \<Rightarrow> t)"

definition is_start :: "send_message \<Rightarrow> bool" where
  "is_start m = (case m of ResponseStart _ _ \<Rightarrow> True | _ \<Rightarrow> False)"

text \<open>A JSON error response is two messages.\<close>

definition send_error :: "api_error \<Rightarrow> pystr \<Rightarrow> application" where
  "send_error e trace_id =
     Send (ResponseStart (status_code e) [(''cache-control'', lit ''no-store'')])
       (Send (ResponseBody (Some \<lparr>payload_error = e, payload_trace_id = trace_id\<rparr>)) Return)"

definition too_large_error :: api_error where
  "too_large_error =
     \<lparr>status_code = 413, error_code = ''upload_too_large'',
      error_message = ''Upload exceeds the accepted size limit.'', error_details = None\<rparr>"

section \<open>The size of uploads\<close>

definition is_upload :: "scope \<Rightarrow> bool" where
  "is_upload sc \<longleftrightarrow>
     scope_type sc = lit ''http'' \<and> scope_method sc = lit ''POST'' \<and>
     py_startswith (scope_path sc) (lit ''/api/v1/datasets/'') \<and> py_endswith (scope_path sc) (lit ''/upload'')"

text \<open>
  \<open>int\<close> of an ASCII text: the white space of C around it, a sign, single underscores between digits.
\<close>

definition c_isspace :: "code_point \<Rightarrow> bool" where
  "c_isspace c \<longleftrightarrow> 9 \<le> c \<and> c \<le> 13 \<or> c = 32"

fun underscores_ok :: "pystr \<Rightarrow> bool" where
  "underscores_ok [] = False"
| "underscores_ok [c] = is_digit c"
| "underscores_ok (c # d # s) = (is_digit c \<and> (if d = 95 then underscores_ok s else underscores_ok (d # s)))"

definition int_of_text :: "pystr \<Rightarrow> int option" where
  "int_of_text s =
     (let t = rev (dropWhile c_isspace (rev (dropWhile c_isspace s)));
          (sign, ds) = (case t of [] \<Rightarrow> (1, []) | c # r \<Rightarrow> if c = 43 then (1, r) else if c = 45 then (- 1, r) else (1, t));
          digits = filter (\<lambda>c. c \<noteq> 95) ds
      in if underscores_ok ds \<and> length digits \<le> 4300 then Some (sign * digits_value digits) else None)"

definition byte_lower :: "byte \<Rightarrow> byte" where
  "byte_lower b = (if 65 \<le> b \<and> b \<le> 90 then b + 32 else b)"

definition declared_too_large :: "scope \<Rightarrow> bool" where
  "declared_too_large sc \<longleftrightarrow>
     (case map snd (filter (\<lambda>(n, v). map (unat \<circ> byte_lower) n = lit ''content-length'') (scope_headers sc)) of
        [v] \<Rightarrow>
          list_all (\<lambda>b. b < 128) v \<and>
          (case int_of_text (map unat v) of None \<Rightarrow> False | Some n \<Rightarrow> int MAX_UPLOAD_REQUEST_BYTES < n)
      | _ \<Rightarrow> False)"

text \<open>
  \<open>limited_receive\<close>, \<open>tracked_send\<close> and the \<open>try\<close> around the application. The counter grows
  before it is compared, and the application may catch the exception and go on.
\<close>

primrec limit_body :: "application \<Rightarrow> application \<Rightarrow> nat \<Rightarrow> bool \<Rightarrow> application" where
  "limit_body (Receive k) = (\<lambda>too_large received started.
     Receive (\<lambda>r.
       case r of
         Inr (HttpRequest body) \<Rightarrow>
           if MAX_UPLOAD_REQUEST_BYTES < received + length body
           then limit_body (k (Inl RequestBodyTooLarge)) too_large (received + length body) started
           else limit_body (k r) too_large (received + length body) started
       | _ \<Rightarrow> limit_body (k r) too_large received started))"
| "limit_body (Send m a) = (\<lambda>too_large received started. Send m (limit_body a too_large received (started \<or> is_start m)))"
| "limit_body Return = (\<lambda>too_large received started. Return)"
| "limit_body (Raise e) = (\<lambda>too_large received started.
     if e = RequestBodyTooLarge \<and> \<not> started then too_large else Raise e)"

definition upload_limit :: "pystr \<Rightarrow> asgi \<Rightarrow> asgi" where
  "upload_limit drawn app sc =
     (let too_large = send_error too_large_error (ensure_trace_id drawn sc)
      in if \<not> is_upload sc then app sc
         else if declared_too_large sc then too_large
         else limit_body (app sc) too_large 0 False)"

section \<open>Trace identifiers and unexpected failures\<close>

definition add_trace_header :: "pystr \<Rightarrow> send_message \<Rightarrow> send_message" where
  "add_trace_header trace_id m =
     (case m of ResponseStart status hs \<Rightarrow> ResponseStart status (hs @ [(''x-trace-id'', trace_id)]) | _ \<Rightarrow> m)"

primrec trace_sends :: "pystr \<Rightarrow> application \<Rightarrow> application" where
  "trace_sends trace_id (Receive k) = Receive (\<lambda>r. trace_sends trace_id (k r))"
| "trace_sends trace_id (Send m a) = Send (add_trace_header trace_id m) (trace_sends trace_id a)"
| "trace_sends trace_id Return = Return"
| "trace_sends trace_id (Raise e) = Raise e"

definition trace_middleware :: "pystr \<Rightarrow> asgi \<Rightarrow> asgi" where
  "trace_middleware trace_id app sc =
     (if scope_type sc \<noteq> lit ''http'' then app sc
      else trace_sends trace_id (app (sc\<lparr>scope_trace_id := Some trace_id\<rparr>)))"

primrec sanitize :: "application \<Rightarrow> application \<Rightarrow> bool \<Rightarrow> application" where
  "sanitize (Receive k) = (\<lambda>failed started. Receive (\<lambda>r. sanitize (k r) failed started))"
| "sanitize (Send m a) = (\<lambda>failed started. Send m (sanitize a failed (started \<or> is_start m)))"
| "sanitize Return = (\<lambda>failed started. Return)"
| "sanitize (Raise e) = (\<lambda>failed started. if started then Raise e else failed)"

definition sanitize_middleware :: "pystr \<Rightarrow> asgi \<Rightarrow> asgi" where
  "sanitize_middleware drawn app sc =
     (if scope_type sc \<noteq> lit ''http'' then app sc
      else sanitize (app sc) (send_error (error_response_of OtherException) (ensure_trace_id drawn sc)) False)"

text \<open>
  The order of \<open>create_app\<close>: each \<open>add_middleware\<close> wraps the ones before. Starlette's
  \<open>CORSMiddleware\<close> is the parameter \<open>cors\<close>, \<open>drawn\<close> what \<open>ensure_trace_id\<close> would draw.
\<close>

definition middleware_stack :: "(asgi \<Rightarrow> asgi) \<Rightarrow> pystr \<Rightarrow> pystr \<Rightarrow> asgi \<Rightarrow> asgi" where
  "middleware_stack cors trace_id drawn app =
     trace_middleware trace_id (cors (sanitize_middleware drawn (upload_limit drawn app)))"

section \<open>Running\<close>

datatype outcome = Waiting | Returned | Raised asgi_exc

text \<open>What is sent, and how it ends, when the client's messages are \<open>ms\<close>.\<close>

primrec run :: "application \<Rightarrow> receive_message list \<Rightarrow> send_message list \<times> outcome" where
  "run (Receive k) = (\<lambda>ms. case ms of [] \<Rightarrow> ([], Waiting) | m # rest \<Rightarrow> run (k (Inr m)) rest)"
| "run (Send m a) = (\<lambda>ms. case run a ms of (out, fin) \<Rightarrow> (m # out, fin))"
| "run Return = (\<lambda>ms. ([], Returned))"
| "run (Raise e) = (\<lambda>ms. ([], Raised e))"

section \<open>Bounded uploads\<close>

text \<open>
  Two applications that do the same as long as at most \<open>n\<close> more bytes arrive; after the exception
  that the limit raises nothing more counts as arriving.
\<close>

inductive same_within :: "nat \<Rightarrow> application \<Rightarrow> application \<Rightarrow> bool" where
  same_return: "same_within n Return Return"
| same_raise: "same_within n (Raise e) (Raise e)"
| same_send: "same_within n a b \<Longrightarrow> same_within n (Send m a) (Send m b)"
| same_receive:
    "\<lbrakk>\<And>body. length body \<le> n \<Longrightarrow> same_within (n - length body) (k (Inr (HttpRequest body))) (l (Inr (HttpRequest body)));
      same_within n (k (Inr HttpDisconnect)) (l (Inr HttpDisconnect));
      \<And>e. k (Inl e) = l (Inl e)\<rbrakk>
     \<Longrightarrow> same_within n (Receive k) (Receive l)"

lemma limit_body_same:
  "same_within n a b \<Longrightarrow> received + n = MAX_UPLOAD_REQUEST_BYTES \<Longrightarrow>
     limit_body a too_large received started = limit_body b too_large received started"
proof (induction arbitrary: received started rule: same_within.induct)
  case (same_receive n k l)
  have "(case r of
         Inr (HttpRequest body) \<Rightarrow>
           if MAX_UPLOAD_REQUEST_BYTES < received + length body
           then limit_body (k (Inl RequestBodyTooLarge)) too_large (received + length body) started
           else limit_body (k r) too_large (received + length body) started
       | _ \<Rightarrow> limit_body (k r) too_large received started) =
     (case r of
         Inr (HttpRequest body) \<Rightarrow>
           if MAX_UPLOAD_REQUEST_BYTES < received + length body
           then limit_body (l (Inl RequestBodyTooLarge)) too_large (received + length body) started
           else limit_body (l r) too_large (received + length body) started
       | _ \<Rightarrow> limit_body (l r) too_large received started)" for r
    using same_receive by (auto split: sum.splits receive_message.splits)
  then show ?case by simp
qed auto

section \<open>Failures are answered\<close>

lemma run_send_error: "run (send_error e t) ms =
    ([ResponseStart (status_code e) [(''cache-control'', lit ''no-store'')],
      ResponseBody (Some \<lparr>payload_error = e, payload_trace_id = t\<rparr>)], Returned)"
  by (simp add: send_error_def del: lit_Cons)

lemma sanitized_raise:
  "run (sanitize a (send_error err t) started) ms = (out, Raised e) \<Longrightarrow> started \<or> (\<exists>m \<in> set out. is_start m)"
proof (induction a arbitrary: started ms out)
  case (Receive k)
  then show ?case by (auto split: list.splits) (metis rangeI)
next
  case (Send m a)
  then show ?case by (fastforce split: prod.splits)
qed (auto simp: run_send_error split: if_splits)

text \<open>Every error body an application sends names the trace identifier \<open>t\<close>.\<close>

primrec bodies_name :: "pystr \<Rightarrow> application \<Rightarrow> bool" where
  "bodies_name t (Receive k) = (\<forall>r. bodies_name t (k r))"
| "bodies_name t (Send m a) = ((\<forall>p. m = ResponseBody (Some p) \<longrightarrow> payload_trace_id p = t) \<and> bodies_name t a)"
| "bodies_name t Return = True"
| "bodies_name t (Raise e) = True"

lemma send_error_bodies: "bodies_name t (send_error e t)"
  by (simp add: send_error_def)

lemma sanitize_bodies: "bodies_name t a \<Longrightarrow> bodies_name t failed \<Longrightarrow> bodies_name t (sanitize a failed started)"
  by (induction a arbitrary: started) auto

lemma limit_body_bodies:
  "bodies_name t a \<Longrightarrow> bodies_name t too_large \<Longrightarrow> bodies_name t (limit_body a too_large received started)"
  by (induction a arbitrary: received started) (auto split: sum.splits receive_message.splits)

lemma run_bodies:
  "bodies_name t a \<Longrightarrow> run a ms = (out, fin) \<Longrightarrow> ResponseBody (Some p) \<in> set out \<Longrightarrow> payload_trace_id p = t"
proof (induction a arbitrary: ms out)
  case (Receive k)
  then show ?case by (auto split: list.splits) (metis rangeI)
qed (auto split: prod.splits)

lemma traced_body: "ResponseBody p \<in> set (map (add_trace_header t) out) \<longleftrightarrow> ResponseBody p \<in> set out"
  by (force simp: add_trace_header_def split: send_message.splits)

lemma trace_run: "run (trace_sends t a) ms = map_prod (map (add_trace_header t)) id (run a ms)"
  by (induction a arbitrary: ms) (auto split: list.splits prod.splits)

lemma traced_start: "ResponseStart status hs \<in> set (map (add_trace_header t) out) \<Longrightarrow> (''x-trace-id'', t) \<in> set hs"
  by (auto simp: add_trace_header_def split: send_message.splits)

end
