(* ===== verification/ApiProperties.thy ===== *)
theory ApiProperties
  imports OriginProperties ApiErrors ApiSessions Middleware IdentityProperties AnalysisProperties
begin

text \<open>The properties of the API, with a concrete deployment on which each is evaluated.\<close>

section \<open>Trusted origins\<close>

lemma map_results_image: "map_results f xs = Inr ys \<Longrightarrow> y \<in> set ys \<longleftrightarrow> (\<exists>x \<in> set xs. f x = Inr y)"
proof -
  assume "map_results f xs = Inr ys"
  then have "list_all2 (\<lambda>x y. f x = Inr y) xs ys" by (simp add: map_results_Inr_iff)
  then show ?thesis by (induction rule: list_all2_induct) auto
qed

lemma map_sum_id_Inr [simp]: "map_sum f id r = Inr x \<longleftrightarrow> r = Inr x"
  by (cases r) auto

lemma single_origin_trusted:
  assumes "getlist req ''origin'' = [v]"
  shows "require_trusted_origin env st req = Inr () \<longleftrightarrow> (\<exists>t \<in> set (trusted_origins st). canonicalize_origin env v = Inr t)"
  using assms by (auto simp: require_trusted_origin_def request_origin_def split: sum.splits)

lemma validate_trusted_Inr:
  "validate_trusted_origins env given = Inr canonical \<Longrightarrow> map_results (canonicalize_origin env) given = Inr canonical"
  unfolding validate_trusted_origins_def by (simp add: bind_result_Inr_iff split: if_splits)

lemma trusted_by_parts:
  assumes given: "validate_trusted_origins env given = Inr (trusted_origins st)" and law: "ipv6_law env"
    and ascii: "\<forall>o' \<in> set given. list_all is_ascii o'" "list_all is_ascii v"
    and req: "getlist req ''origin'' = [v]" and v: "canonicalize_origin env v = Inr t"
  shows "require_trusted_origin env st req = Inr () \<longleftrightarrow> origin_of env v \<in> origin_of env ` set given"
proof -
  have canon: "map_results (canonicalize_origin env) given = Inr (trusted_origins st)"
    using validate_trusted_Inr [OF given] .
  have "require_trusted_origin env st req = Inr () \<longleftrightarrow> t \<in> set (trusted_origins st)"
    using single_origin_trusted [OF req] v by auto
  also have "\<dots> \<longleftrightarrow> (\<exists>o' \<in> set given. canonicalize_origin env o' = Inr t)" using map_results_image [OF canon] .
  also have "\<dots> \<longleftrightarrow> (\<exists>o' \<in> set given. origin_of env v = origin_of env o')"
  proof (intro bex_cong refl)
    fix o'
    assume o': "o' \<in> set given"
    then obtain t' where t': "canonicalize_origin env o' = Inr t'"
      using canon by (auto simp: map_results_Inr_iff list_all2_conv_all_nth in_set_conv_nth)
    have "list_all is_ascii o'" using ascii(1) o' by blast
    then show "canonicalize_origin env o' = Inr t \<longleftrightarrow> origin_of env v = origin_of env o'"
      using canonical_origins_equal(1) [OF v t' law ascii(2)] t' by auto
  qed
  finally show ?thesis by blast
qed

lemma accepted_origin_safe:
  assumes settings: "make_api_settings env resolve_path e url origins storage_root = Inr st"
    and law: "ipv6_law env" and ascii: "\<forall>o' \<in> set origins. list_all is_ascii o'"
    and mem: "t \<in> set (trusted_origins st)"
  shows "canonicalize_origin env t = Inr t \<and>
    (\<exists>scheme h p. origin_of env t = Some (scheme, h, p) \<and>
      (scheme = lit ''https'' \<or> scheme = lit ''http'' \<and> environment st \<noteq> Production \<and>
        (h = lit ''localhost'' \<or> ip_is_loopback env h = Some True)))"
proof -
  have fixed: "st' = st" if "validate_api_configuration env st' = Inr st" for st'
    using that by (simp add: validate_api_configuration_def split: if_splits)
  obtain canonical resolved where parts: "validate_trusted_origins env origins = Inr canonical"
      "validate_api_configuration env \<lparr>environment = e, database_url = url, trusted_origins = canonical,
        dataset_storage_root = resolved\<rparr> = Inr st"
    using settings by (auto simp: make_api_settings_def bind_result_Inr_iff)
  note st = fixed [OF parts(2)]
  have "trusted_origins st = canonical" using arg_cong [OF st, of trusted_origins] by simp
  then have canon: "validate_trusted_origins env origins = Inr (trusted_origins st)" using parts(1) by simp
  have valid: "validate_api_configuration env st = Inr st" using parts(2) unfolding st .
  obtain v where v: "v \<in> set origins" "canonicalize_origin env v = Inr t"
    using map_results_image [OF validate_trusted_Inr [OF canon]] mem by blast
  have v_ascii: "list_all is_ascii v" using ascii v(1) by blast
  obtain scheme h port where c: "web_scheme scheme" "good_host env h" "\<forall>q. port = Some q \<longrightarrow> q \<le> 65535"
    "shown_port scheme port = port" and t: "t = origin_text scheme h port"
    using canonicalize_Inr [OF v(2) law v_ascii] by blast
  have split: "\<exists>r. urlsplit env t = Inr r \<and> url_scheme r = scheme \<and> url_hostname r = Some h"
    using urlsplit_origin [OF c(1,2), of "[]" port] hostname_text [OF c(2), of _ port] by (auto simp: t)
  have "scheme = lit ''https'' \<or> environment st \<noteq> Production \<and> (h = lit ''localhost'' \<or> ip_is_loopback env h = Some True)"
  proof (cases "environment st = Production")
    case True
    then have "length (trusted_origins st) = 1" "is_https env (trusted_origins st ! 0)"
      using valid by (auto simp: validate_api_configuration_def split: if_splits)
    then have "is_https env t" using mem by (cases "trusted_origins st") auto
    then show ?thesis using split by (auto simp: is_https_def)
  next
    case False
    then have "development_origin_ok env t" using valid mem
      by (auto simp: validate_api_configuration_def list_ex_iff split: if_splits)
    then show ?thesis using False split c(1)
      by (auto simp: development_origin_ok_def loopback_host_def web_scheme_def simp del: lit_Cons)
  qed
  then show ?thesis using canonicalize_origin_text [OF c] c(1) t by (auto simp: web_scheme_def simp del: lit_Cons)
qed

lemma referer_of_page:
  assumes law: "ipv6_law env" and ascii: "list_all is_ascii v" and v: "canonicalize_origin env v = Inr t"
    and tail: "hd tail = 47" "py_strip tail = tail" "set tail \<inter> {9, 10, 13} = {}" "tail \<noteq> []"
  shows "origin_from_referer env (t @ tail) = Inr t"
proof -
  obtain scheme h port where c: "web_scheme scheme" "good_host env h" "\<forall>q. port = Some q \<longrightarrow> q \<le> 65535"
    "shown_port scheme port = port" and t: "t = origin_text scheme h port"
    using canonicalize_Inr [OF v law ascii] by blast
  obtain r where r: "urlsplit env (t @ tail) = Inr r" "url_scheme r = scheme"
    "url_netloc r = display_host h @ port_text port"
    using urlsplit_origin [OF c(1,2), of tail port] tail by (auto simp: t)
  note H = hostinfo_origin [OF c(2) r(3)]
  have host: "url_hostname r = Some h" using hostname_text [OF c(2) r(3)] .
  have port: "url_port r = Inr port" using port_origin [OF c(2) r(3) c(3)] .
  have "\<not> py_isspace (last tail)" using tail(2,4) by (simp add: py_strip_id_iff)
  moreover have "hd t = 104" "t \<noteq> []" using c(1) by (auto simp: t origin_text_eq web_scheme_def)
  ultimately have strip: "py_strip (t @ tail) = t @ tail" using tail(4) by (simp add: py_strip_id_iff py_isspace_def)
  have "py_lower scheme = scheme" using c(1) by (auto simp: web_scheme_def py_lower_def lower_char_def ascii_lower_def)
  moreover have "referer_candidate scheme h port = t"
    by (simp add: referer_candidate_def t origin_text_def display_host_def)
  ultimately show ?thesis
    using c(1) strip H host port r canonicalize_origin_text(1) [OF c]
    by (simp add: origin_from_referer_def web_scheme_def t del: lit_Cons)
qed

section \<open>Sessions\<close>

lemma register_route_Inr:
  assumes "respond_to env c req (Register body) s = (Inr res, s')"
  shows "\<exists>address password iss db. register (identity env) (identity_inputs c) address password (api_db s) = (Inr iss, db) \<and>
    s' = s\<lparr>api_db := db\<rparr> \<and> res = session_issued env 201 iss"
proof -
  have "register_route env c req body s = (Inr res, s')" using assms by (auto simp: respond_to_def split: prod.splits)
  then obtain given where "register_handler env c given s = (Inr res, s')"
    by (auto simp: register_route_def credentials_route_def enforce_trusted_origin_def result_simps)
  then show ?thesis by (cases given) (auto simp: register_handler_def on_db_def split: prod.splits sum.splits)
qed

lemma me_after_registration:
  assumes ok: "identity_ok (api_db s)" and reg: "respond_to env c req (Register body) s = (Inr res, s')"
    and ck: "http_cookie res = Some ck"
    and clock: "clock (identity_inputs c) = AwareTime now" "clock (identity_inputs c') = AwareTime now'"
      "now \<le> now'" "now' < now + hours 2" "\<not> fails (identity_inputs c') 0"
    and cookie: "req_cookies req' (cookie_name (set_policy ck)) = Some (set_value ck)"
  shows "\<exists>res' s2. respond_to env c' req' Me s' = (Inr res', s2) \<and> http_status res' = 200 \<and> http_body res' = http_body res"
proof -
  obtain address password iss db where
    r: "register (identity env) (identity_inputs c) address password (api_db s) = (Inr iss, db)"
    and s': "s' = s\<lparr>api_db := db\<rparr>" and res: "res = session_issued env 201 iss"
    using register_route_Inr [OF reg] by blast
  obtain ctx db2 where a: "authenticate (identity env) (identity_inputs c') (Some (issued_bearer iss)) db = (Inr ctx, db2)"
    and ctx: "context_user ctx = issued_user iss" "encode_token (context_csrf ctx) = Inr (issued_csrf iss)"
    using registered_session_works [OF ok r clock] by blast
  have "get_session_cookie (settings env) req' = Some (issued_bearer iss)"
    using cookie ck by (auto simp: res session_issued_def set_session_cookie_def get_session_cookie_def
        cookie_policy_for_def simp del: lit_Cons split: if_splits)
  then have "session_context env c' req' s' = (Inr ctx, after_authentication c' (s'\<lparr>api_db := db2\<rparr>))"
    using a by (simp add: session_context_def and_then_def on_db_def require_authenticated_context_def s')
  then show ?thesis using ctx
    by (simp add: respond_to_def me_route_def and_then_def me_response_def res session_issued_def issuance_response_def)
qed

section \<open>A deployment\<close>

definition sample_urls :: url_env where
  "sample_urls =
     \<lparr>nfkc = (\<lambda>s. s), ipv6_compressed = (\<lambda>s. if s = lit ''::1'' \<or> s = lit ''0::1'' then Some (lit ''::1'') else None),
      ipv6_loopback = (\<lambda>s. True)\<rparr>"

definition sample_settings :: api_settings where
  "sample_settings =
     \<lparr>environment = Production, database_url = lit ''postgresql+psycopg://db'',
      trusted_origins = [lit ''https://a.co''], dataset_storage_root = lit ''/data''\<rparr>"

definition sample_api :: api_env where
  "sample_api =
     \<lparr>settings = sample_settings, urls = sample_urls, identity = sample_env, dataset_service = sample_files_env,
      analysis_service = sample_analysis_env\<rparr>"

definition sample_api_call :: "instant \<Rightarrow> api_call" where
  "sample_api_call now =
     \<lparr>identity_inputs = sample_call now 2 9, dataset_inputs = sample_dataset_call',
      analysis_inputs = sample_analysis_call, reported_errors = [], after_authentication = (\<lambda>s. s)\<rparr>"

definition sample_state :: api_state where
  "sample_state = \<lparr>api_db = empty_db, api_world = history_world\<rparr>"

definition sample_request :: "(pystr \<Rightarrow> pystr option) \<Rightarrow> http_request" where
  "sample_request cookies =
     \<lparr>req_headers = [(''origin'', lit ''HTTPS://A.co:443''), (''content-type'', lit ''application/json'')],
      req_cookies = cookies\<rparr>"

definition sample_credentials :: request_body where
  "sample_credentials = Body (VDict [(lit ''email'', VStr (lit ''A@b.Co'')), (lit ''password'', VStr sample_password)])"

lemma sample_urls_law: "ipv6_law sample_urls"
  by (simp add: ipv6_law_def sample_urls_def)

lemma sample_origin_split: "urlsplit sample_urls (lit ''HTTPS://A.co:443'') =
    Inr \<lparr>url_scheme = lit ''https'', url_netloc = lit ''A.co:443'', url_path = [], url_query = [], url_fragment = []\<rparr>"
  by (simp add: urlsplit_def clean_url_def split_scheme_def py_partition_def ascii_alpha_def scheme_char_def is_digit_def
      brackets_ok_def check_netloc_def is_ascii_def ascii_lower_def)

lemma sample_label: "fullmatch host_label_pattern [97]" "fullmatch host_label_pattern [99, 111]"
  by (simp_all add: host_label_pattern_def fullmatch_iff RName_def matches_cat_cls matches_cat_last in_cls_def)

lemma sample_host: "canonical_host sample_urls (lit ''a.co'') = Inr (lit ''a.co'')"
  using sample_label
  by (simp add: canonical_host_def ip_compressed_def parse_ipv4_def sample_urls_def)

lemma sample_origin: "canonicalize_origin sample_urls (lit ''HTTPS://A.co:443'') = Inr (lit ''https://a.co'')"
proof -
  let ?r = "\<lparr>url_scheme = lit ''https'', url_netloc = lit ''A.co:443'', url_path = [], url_query = [], url_fragment = []\<rparr>"
  have "url_username ?r = None" "url_password ?r = None"
    by (simp_all add: url_username_def url_password_def py_rpartition_def py_partition_def)
  moreover have info: "hostinfo ?r = (lit ''A.co'', Some (lit ''443''))"
    by (simp add: hostinfo_def py_rpartition_def py_partition_def)
  moreover have "url_hostname ?r = Some (lit ''a.co'')"
    unfolding url_hostname_def info by (simp add: py_partition_def py_lower_def lower_char_def ascii_lower_def)
  moreover have "url_port ?r = Inr (Some 443)"
    unfolding url_port_def info by (simp add: is_digit_def digits_value_def)
  moreover have "py_lower (lit ''a.co'') = lit ''a.co''" "py_lower (lit ''https'') = lit ''https''"
    by (simp_all add: py_lower_def lower_char_def ascii_lower_def)
  moreover have "py_strip (lit ''HTTPS://A.co:443'') = lit ''HTTPS://A.co:443''" "42 \<notin> set (lit ''HTTPS://A.co:443'')"
    by (simp_all add: py_strip_def py_isspace_def)
  moreover have "default_port (lit ''https'') = 443" "lit ''https'' \<noteq> lit ''http''" "lit ''A.co:443'' \<noteq> []"
    by (simp_all add: default_port_def)
  moreover have "origin_text (lit ''https'') (lit ''a.co'') None = lit ''https://a.co''"
    by (simp add: origin_text_def display_host_def)
  ultimately show ?thesis
    by (simp add: canonicalize_origin_def sample_origin_split sample_host del: lit_Cons)
qed

lemma sample_origin_ascii: "list_all is_ascii (lit ''HTTPS://A.co:443'')"
  by (simp add: is_ascii_def)

lemma sample_settings_made:
  "make_api_settings sample_urls (\<lambda>p. p) Production (lit ''postgresql+psycopg://db'') [lit ''HTTPS://A.co:443'']
     (lit ''/data'') = Inr sample_settings"
proof -
  have "validate_trusted_origins sample_urls [lit ''HTTPS://A.co:443''] = Inr [lit ''https://a.co'']"
    by (simp add: validate_trusted_origins_def sample_origin del: lit_Cons)
  moreover have "validate_dataset_storage_root (\<lambda>p. p) (lit ''/data'') = Inr (lit ''/data'')"
    by (simp add: validate_dataset_storage_root_def py_startswith_def)
  moreover have "is_https sample_urls (lit ''https://a.co'')"
    by (simp add: is_https_def urlsplit_def clean_url_def split_scheme_def py_partition_def ascii_alpha_def scheme_char_def
        is_digit_def brackets_ok_def check_netloc_def is_ascii_def ascii_lower_def)
  moreover have "py_startswith (lit ''postgresql+psycopg://db'') (lit ''postgresql+psycopg://'')"
    by (simp add: py_startswith_def)
  ultimately show ?thesis
    by (simp add: make_api_settings_def validate_api_configuration_def sample_settings_def del: lit_Cons)
qed

lemma sample_request_trusted: "require_trusted_origin sample_urls sample_settings (sample_request cookies) = Inr ()"
  by (simp add: require_trusted_origin_def request_origin_def getlist_def sample_request_def sample_origin
      sample_settings_def del: lit_Cons)

lemma sample_request_json: "require_json_content_type (sample_request cookies) = Inr ()"
proof -
  have "getlist (sample_request cookies) ''content-type'' = [lit ''application/json'']"
    by (simp add: getlist_def sample_request_def)
  moreover have "py_split 59 (lit ''application/json'') = [lit ''application/json'']"
    by (rule py_split_no_sep) simp
  moreover have "py_strip (lit ''application/json'') = lit ''application/json''"
    by (simp add: py_strip_def py_isspace_def)
  moreover have "py_lower (lit ''application/json'') = lit ''application/json''"
    by (simp add: py_lower_def lower_char_def ascii_lower_def)
  ultimately show ?thesis by (simp add: require_json_content_type_def json_parameters_ok_def del: lit_Cons)
qed

lemma sample_registered:
  assumes "register sample_env (sample_call 0 2 9) (lit ''A@b.Co'') sample_password (api_db s) = (Inr iss, db1)"
  shows "respond_to sample_api (sample_api_call 0) (sample_request (\<lambda>_. None)) (Register sample_credentials) s =
    (Inr (session_issued sample_api 201 iss), s\<lparr>api_db := db1\<rparr>)"
proof -
  have "credentials (sample_api_call 0) (VDict [(lit ''email'', VStr (lit ''A@b.Co'')), (lit ''password'', VStr sample_password)]) =
      Inr (lit ''A@b.Co'', sample_password)"
    by (simp add: credentials_def validated_def string_model_def only_fields_def is_scalar_def sample_password_def list_all_iff)
  then show ?thesis
    using assms sample_request_trusted sample_request_json
    by (simp add: respond_to_def register_route_def credentials_route_def and_then_def sample_credentials_def read_body_def
        enforce_trusted_origin_def register_handler_def on_db_def sample_api_def sample_api_call_def del: lit_Cons)
qed

lemma sample_register:
  obtains res s' ck where "respond_to sample_api (sample_api_call 0) (sample_request (\<lambda>_. None)) (Register sample_credentials) sample_state =
    (Inr res, s')" "http_cookie res = Some ck"
proof -
  obtain iss db1 where
    "register sample_env (sample_call 0 2 9) (lit ''A@b.Co'') sample_password (api_db sample_state) = (Inr iss, db1)"
    unfolding sample_state_def api_state.simps by (rule sample_registration)
  from sample_registered [OF this] show thesis using that by (simp add: session_issued_def)
qed

text \<open>
  A quirk of \<open>urlsplit\<close> that shows: the brackets of an address of a future IP version are dropped,
  so such an origin is taken for the one of a domain name.
\<close>

lemma future_address_read_as_name:
  "canonicalize_origin sample_urls (lit ''http://[v1.abc]'') = Inr (lit ''http://v1.abc'')"
proof -
  let ?r = "\<lparr>url_scheme = lit ''http'', url_netloc = lit ''[v1.abc]'', url_path = [], url_query = [], url_fragment = []\<rparr>"
  have "urlsplit sample_urls (lit ''http://[v1.abc]'') = Inr ?r"
    by (simp add: urlsplit_def clean_url_def split_scheme_def py_partition_def py_rpartition_def ascii_alpha_def
        scheme_char_def is_digit_def brackets_ok_def check_netloc_def is_ascii_def ascii_lower_def
        check_bracketed_netloc_def check_bracketed_host_def ipvfuture_def Url.hex_digit_def)
  moreover have "url_username ?r = None" "url_password ?r = None"
    by (simp_all add: url_username_def url_password_def py_rpartition_def py_partition_def)
  moreover have info: "hostinfo ?r = (lit ''v1.abc'', None)"
    by (simp add: hostinfo_def py_rpartition_def py_partition_def)
  moreover have "url_hostname ?r = Some (lit ''v1.abc'')"
    unfolding url_hostname_def info by (simp add: py_partition_def py_lower_def lower_char_def ascii_lower_def)
  moreover have "url_port ?r = Inr None" unfolding url_port_def info by simp
  moreover have "fullmatch host_label_pattern (lit ''v1'')" "fullmatch host_label_pattern (lit ''abc'')"
    by (simp_all add: host_label_pattern_def fullmatch_iff RName_def matches_cat_cls matches_cat_last in_cls_def)
  then have "canonical_host sample_urls (lit ''v1.abc'') = Inr (lit ''v1.abc'')"
    by (simp add: canonical_host_def ip_compressed_def parse_ipv4_def sample_urls_def)
  moreover have "py_lower (lit ''v1.abc'') = lit ''v1.abc''" "py_lower (lit ''http'') = lit ''http''"
    by (simp_all add: py_lower_def lower_char_def ascii_lower_def)
  moreover have "py_strip (lit ''http://[v1.abc]'') = lit ''http://[v1.abc]''" "42 \<notin> set (lit ''http://[v1.abc]'')"
    by (simp_all add: py_strip_def py_isspace_def)
  moreover have "origin_text (lit ''http'') (lit ''v1.abc'') None = lit ''http://v1.abc''" "lit ''[v1.abc]'' \<noteq> []"
    by (simp_all add: origin_text_def display_host_def)
  ultimately show ?thesis by (simp add: canonicalize_origin_def del: lit_Cons)
qed

section \<open>Properties\<close>

text \<open>
  C31. Settings that are accepted hold canonical origins only, and no plain HTTP origin except, outside
  production, one of the machine itself.
\<close>

theorem accepted_settings_are_safe:
  assumes "make_api_settings env resolve_path e url origins storage_root = Inr st"
    and "ipv6_law env" and "\<forall>o' \<in> set origins. list_all is_ascii o'" and "t \<in> set (trusted_origins st)"
  shows "canonicalize_origin env t = Inr t \<and>
    (\<exists>scheme h p. origin_of env t = Some (scheme, h, p) \<and>
      (scheme = lit ''https'' \<or> scheme = lit ''http'' \<and> environment st \<noteq> Production \<and>
        (h = lit ''localhost'' \<or> ip_is_loopback env h = Some True)))"
  using assms by (rule accepted_origin_safe)

theorem accepted_settings_are_safe_witness:
  "canonicalize_origin sample_urls (lit ''https://a.co'') = Inr (lit ''https://a.co'')"
  using accepted_settings_are_safe [OF sample_settings_made sample_urls_law, of "lit ''https://a.co''"] sample_origin_ascii
  by (simp add: sample_settings_def del: lit_Cons)

text \<open>
  Canonical is canonical: the text made of an accepted origin is accepted as it is and means the
  same scheme, host and port.
\<close>

theorem canonical_origins_are_fixed:
  assumes "canonicalize_origin env v = Inr t" and "ipv6_law env" and "list_all is_ascii v"
  shows "canonicalize_origin env t = Inr t \<and> origin_of env t = origin_of env v"
  using canonical_origin_fixed [OF assms] by blast

theorem canonical_origins_are_fixed_witness:
  "origin_of sample_urls (lit ''https://a.co'') = origin_of sample_urls (lit ''HTTPS://A.co:443'')"
  using canonical_origins_are_fixed [OF sample_origin sample_urls_law sample_origin_ascii] by blast

text \<open>
  C32. A request that names a well-formed origin is trusted exactly when its scheme, host and port are
  those of a configured origin, however either of them is spelled.
\<close>

theorem trusted_iff_same_origin:
  assumes "validate_trusted_origins env given = Inr (trusted_origins st)" and "ipv6_law env"
    and "\<forall>o' \<in> set given. list_all is_ascii o'" and "list_all is_ascii v"
    and "getlist req ''origin'' = [v]" and "canonicalize_origin env v = Inr t"
  shows "require_trusted_origin env st req = Inr () \<longleftrightarrow> origin_of env v \<in> origin_of env ` set given"
  using assms by (rule trusted_by_parts)

theorem trusted_iff_same_origin_witness:
  "origin_of sample_urls (lit ''HTTPS://A.co:443'') \<in> origin_of sample_urls ` {lit ''HTTPS://A.co:443''}"
proof -
  have "validate_trusted_origins sample_urls [lit ''HTTPS://A.co:443''] = Inr (trusted_origins sample_settings)"
    by (simp add: validate_trusted_origins_def sample_origin sample_settings_def del: lit_Cons)
  moreover have "getlist (sample_request (\<lambda>_. None)) ''origin'' = [lit ''HTTPS://A.co:443'']"
    by (simp add: getlist_def sample_request_def)
  ultimately have "require_trusted_origin sample_urls sample_settings (sample_request (\<lambda>_. None)) = Inr () \<longleftrightarrow>
      origin_of sample_urls (lit ''HTTPS://A.co:443'') \<in> origin_of sample_urls ` set [lit ''HTTPS://A.co:443'']"
    using trusted_iff_same_origin [OF _ sample_urls_law _ sample_origin_ascii _ sample_origin] sample_origin_ascii
    by (simp del: lit_Cons)
  then show ?thesis using sample_request_trusted by (simp del: lit_Cons)
qed

text \<open>
  A browser that sends no \<open>Origin\<close> is still recognised: a request whose \<open>Referer\<close> is a page of
  a trusted origin is trusted.
\<close>

theorem pages_of_trusted_origins_are_trusted:
  assumes "validate_trusted_origins env given = Inr (trusted_origins st)" and "ipv6_law env"
    and "\<forall>o' \<in> set given. list_all is_ascii o'" and "t \<in> set (trusted_origins st)"
    and "hd path = 47" and "py_strip path = path" and "set path \<inter> {9, 10, 13} = {}" and "path \<noteq> []"
    and "getlist req ''origin'' = []" and "getlist req ''referer'' = [t @ path]"
  shows "require_trusted_origin env st req = Inr ()"
proof -
  obtain v where v: "v \<in> set given" "canonicalize_origin env v = Inr t"
    using map_results_image [OF validate_trusted_Inr [OF assms(1)]] assms(4) by blast
  then have "origin_from_referer env (t @ path) = Inr t"
    using referer_of_page [OF assms(2) _ v(2) assms(5-8)] assms(3) by blast
  then show ?thesis using assms(4,9,10) by (simp add: require_trusted_origin_def request_origin_def)
qed

theorem pages_of_trusted_origins_are_trusted_witness:
  "require_trusted_origin sample_urls sample_settings
     \<lparr>req_headers = [(''referer'', lit ''https://a.co'' @ lit ''/page?x#y'')], req_cookies = (\<lambda>_. None)\<rparr> = Inr ()"
proof (rule pages_of_trusted_origins_are_trusted [of _ "[lit ''HTTPS://A.co:443'']" _ "lit ''https://a.co''" "lit ''/page?x#y''"])
  show "validate_trusted_origins sample_urls [lit ''HTTPS://A.co:443''] = Inr (trusted_origins sample_settings)"
    by (simp add: validate_trusted_origins_def sample_origin sample_settings_def del: lit_Cons)
  show "py_strip (lit ''/page?x#y'') = lit ''/page?x#y''" by (simp add: py_strip_def py_isspace_def)
qed (use sample_urls_law sample_origin_ascii in \<open>simp_all add: sample_settings_def getlist_def is_ascii_def\<close>)


text \<open>
  C3. Nothing that is stored changes without authority: a request leaves datasets, rules, files and
  analyses as they were or as other requests left them meanwhile, unless it comes from a trusted
  origin with the cookie of an active session and with that session's CSRF token.
\<close>

theorem stored_data_needs_authority:
  assumes "identity_ok (api_db s)"
  shows "stored (snd (respond_to env c req e s)) = stored s \<or>
    (\<exists>db. stored (snd (respond_to env c req e s)) = stored (after_authentication c (s\<lparr>api_db := db\<rparr>))) \<or>
    (\<exists>u. speaks_for env c req s u)"
proof -
  obtain r s' where r: "route env c req e s = (r, s')" by (cases "route env c req e s")
  then have "snd (respond_to env c req e s) = s'" by (simp add: respond_to_def)
  then show ?thesis using route_harmless [of env c req e] r assms by (auto simp: harmless_def others_left_def)
qed

theorem stored_data_needs_authority_witness:
  "stored (snd (respond_to sample_api (sample_api_call 5) (sample_request (\<lambda>_. None)) (CreateAnalysis (Some (Uuid 5))) sample_state)) =
     stored sample_state"
proof -
  have "\<not> speaks_for sample_api (sample_api_call 5) (sample_request (\<lambda>_. None)) sample_state u" for u
    by (simp add: speaks_for_def get_session_cookie_def sample_request_def)
  moreover have "identity_ok (api_db sample_state)" using empty_db_ok by (simp add: sample_state_def)
  ultimately show ?thesis
    using stored_data_needs_authority [of sample_state sample_api "sample_api_call 5" "sample_request (\<lambda>_. None)"
        "CreateAnalysis (Some (Uuid 5))"]
    by (simp add: sample_api_call_def)
qed

text \<open>
  C34. A registration logs in: the cookie it sets, sent back within two hours, makes \<open>/me\<close> answer
  with the same user and the same CSRF token as the registration did.
\<close>

theorem registration_logs_in:
  assumes "identity_ok (api_db s)" and "respond_to env c req (Register body) s = (Inr res, s')"
    and "http_cookie res = Some ck"
    and "clock (identity_inputs c) = AwareTime now" and "clock (identity_inputs c') = AwareTime now'"
    and "now \<le> now'" and "now' < now + hours 2" and "\<not> fails (identity_inputs c') 0"
    and "req_cookies req' (cookie_name (set_policy ck)) = Some (set_value ck)"
  shows "\<exists>res' s2. respond_to env c' req' Me s' = (Inr res', s2) \<and> http_status res' = 200 \<and> http_body res' = http_body res"
  using assms by (rule me_after_registration)

theorem registration_logs_in_witness:
  "\<exists>res s' req' res' s2.
     respond_to sample_api (sample_api_call 0) (sample_request (\<lambda>_. None)) (Register sample_credentials) sample_state = (Inr res, s') \<and>
     respond_to sample_api (sample_api_call 5) req' Me s' = (Inr res', s2) \<and> http_body res' = http_body res"
proof -
  obtain res s' ck where r:
    "respond_to sample_api (sample_api_call 0) (sample_request (\<lambda>_. None)) (Register sample_credentials) sample_state = (Inr res, s')"
    and ck: "http_cookie res = Some ck" by (rule sample_register)
  have ok: "identity_ok (api_db sample_state)" using empty_db_ok by (simp add: sample_state_def)
  let ?req = "sample_request [cookie_name (set_policy ck) \<mapsto> set_value ck]"
  have "\<exists>res' s2. respond_to sample_api (sample_api_call 5) ?req Me s' = (Inr res', s2) \<and> http_status res' = 200 \<and>
      http_body res' = http_body res"
    by (rule registration_logs_in [OF ok r ck, of 0 _ 5])
      (simp_all add: sample_api_call_def sample_call_def sample_request_def hours_def seconds_def)
  then show ?thesis using r by blast
qed

text \<open>
  C35. The bytes of an upload are bounded before anything reads them: two applications that do the
  same until more than MAX_UPLOAD_REQUEST_BYTES bytes have been received cannot be told apart behind the
  middleware, on any upload request.
\<close>

theorem upload_bytes_are_bounded:
  assumes "same_within MAX_UPLOAD_REQUEST_BYTES (a sc) (b sc)" and "is_upload sc"
  shows "upload_limit drawn a sc = upload_limit drawn b sc"
  using assms limit_body_same [of _ "a sc" "b sc" 0 _ False] by (simp add: upload_limit_def Let_def)

definition greedy_application :: application where
  "greedy_application =
     Receive (\<lambda>r. case r of
       Inr (HttpRequest body) \<Rightarrow> if MAX_UPLOAD_REQUEST_BYTES < length body then Raise ApplicationError else Return
     | _ \<Rightarrow> Return)"

definition sample_scope :: scope where
  "sample_scope =
     \<lparr>scope_type = lit ''http'', scope_method = lit ''POST'', scope_path = lit ''/api/v1/datasets/7/upload'',
      scope_headers = [], scope_trace_id = None\<rparr>"

lemma sample_scope_upload: "is_upload sample_scope"
  by (simp add: sample_scope_def is_upload_def py_startswith_def py_endswith_def)

theorem upload_bytes_are_bounded_witness:
  "upload_limit [50] (\<lambda>_. greedy_application) sample_scope = upload_limit [50] (\<lambda>_. Receive (\<lambda>_. Return)) sample_scope"
proof (rule upload_bytes_are_bounded [OF _ sample_scope_upload])
  show "same_within MAX_UPLOAD_REQUEST_BYTES greedy_application (Receive (\<lambda>_. Return))"
    unfolding greedy_application_def by (rule same_receive) (auto intro: same_return)
qed

text \<open>What the stack needs of its parts under the trace identifier \<open>t\<close>.\<close>

definition answers_failures :: "application \<Rightarrow> bool" where
  "answers_failures a \<longleftrightarrow> (\<forall>ms out e. run a ms = (out, Raised e) \<longrightarrow> (\<exists>m \<in> set out. is_start m))"

definition traced :: "pystr \<Rightarrow> scope \<Rightarrow> bool" where
  "traced t sc \<longleftrightarrow> scope_type sc = lit ''http'' \<and> scope_trace_id sc = Some t"

definition keeps_answers :: "pystr \<Rightarrow> (asgi \<Rightarrow> asgi) \<Rightarrow> bool" where
  "keeps_answers t cors \<longleftrightarrow>
     (\<forall>app. (\<forall>sc. traced t sc \<longrightarrow> answers_failures (app sc) \<and> bodies_name t (app sc)) \<longrightarrow>
       (\<forall>sc. traced t sc \<longrightarrow> answers_failures (cors app sc) \<and> bodies_name t (cors app sc)))"

lemma guarded_answers:
  assumes "\<And>sc. traced t sc \<Longrightarrow> bodies_name t (app sc)" and "traced t sc"
  shows "answers_failures (sanitize_middleware drawn (upload_limit drawn app) sc) \<and>
    bodies_name t (sanitize_middleware drawn (upload_limit drawn app) sc)"
proof -
  have trace: "ensure_trace_id drawn sc = t" and http: "scope_type sc = lit ''http''"
    using assms(2) by (auto simp: traced_def ensure_trace_id_def)
  have "bodies_name t (upload_limit drawn app sc)"
    using assms limit_body_bodies send_error_bodies by (simp add: upload_limit_def Let_def trace)
  then show ?thesis
    using sanitized_raise sanitize_bodies send_error_bodies
    by (fastforce simp: answers_failures_def sanitize_middleware_def http trace)
qed

text \<open>
  C36. No failure goes unanswered and no answer untraced: whatever fails inside, the stack raises only
  after a response has started, every response that starts carries the trace identifier of the
  request in its header, and every error body names the same identifier. The CORS middleware must keep
  what it wraps so, and the application must name the identifier found in the request's state.
\<close>

theorem failures_are_answered_with_trace:
  assumes "keeps_answers t cors" and "\<And>sc. traced t sc \<Longrightarrow> bodies_name t (app sc)"
    and "scope_type sc = lit ''http''"
    and "run (middleware_stack cors t drawn app sc) ms = (out, fin)"
  shows "(\<forall>status hs. ResponseStart status hs \<in> set out \<longrightarrow> (''x-trace-id'', t) \<in> set hs) \<and>
    (\<forall>p. ResponseBody (Some p) \<in> set out \<longrightarrow> payload_trace_id p = t) \<and>
    ((\<exists>e. fin = Raised e) \<longrightarrow> (\<exists>m \<in> set out. is_start m))"
proof -
  let ?sc = "sc\<lparr>scope_trace_id := Some t\<rparr>"
  let ?inner = "cors (sanitize_middleware drawn (upload_limit drawn app)) ?sc"
  have "traced t ?sc" using assms(3) by (simp add: traced_def)
  moreover have "\<forall>sc. traced t sc \<longrightarrow> answers_failures (sanitize_middleware drawn (upload_limit drawn app) sc) \<and>
      bodies_name t (sanitize_middleware drawn (upload_limit drawn app) sc)"
    using guarded_answers [of t app] assms(2) by blast
  ultimately have inner: "answers_failures ?inner" "bodies_name t ?inner"
    using assms(1) by (auto simp: keeps_answers_def)
  obtain out' where out: "run ?inner ms = (out', fin)" "out = map (add_trace_header t) out'"
    using assms(3,4) by (cases "run ?inner ms") (auto simp: middleware_stack_def trace_middleware_def trace_run)
  have "\<exists>m \<in> set out. is_start m" if raised: "fin = Raised e" for e
  proof -
    obtain m where "m \<in> set out'" "is_start m" using inner(1) out(1) raised by (auto simp: answers_failures_def)
    then show ?thesis unfolding out(2)
      by (intro bexI [of _ "add_trace_header t m"]) (auto simp: add_trace_header_def is_start_def split: send_message.splits)
  qed
  moreover have "payload_trace_id p = t" if "ResponseBody (Some p) \<in> set out" for p
    using run_bodies [OF inner(2) out(1)] that unfolding out(2) traced_body by blast
  ultimately show ?thesis using traced_start out(2) by blast
qed

theorem failures_are_answered_with_trace_witness:
  "\<exists>out fin. run (middleware_stack (\<lambda>app. app) [49] [50] (\<lambda>_. Raise ApplicationError) sample_scope) [] = (out, fin) \<and>
     out \<noteq> [] \<and> (\<forall>status hs. ResponseStart status hs \<in> set out \<longrightarrow> (''x-trace-id'', [49]) \<in> set hs)"
proof -
  obtain out fin where run: "run (middleware_stack (\<lambda>app. app) [49] [50] (\<lambda>_. Raise ApplicationError) sample_scope) [] = (out, fin)"
    by (cases "run (middleware_stack (\<lambda>app. app) [49] [50] (\<lambda>_. Raise ApplicationError) sample_scope) []")
  have "out \<noteq> [] \<or> (\<exists>e. fin = Raised e)"
    using run by (auto simp: middleware_stack_def trace_middleware_def sanitize_middleware_def upload_limit_def Let_def
        sample_scope_def is_upload_def declared_too_large_def py_startswith_def py_endswith_def send_error_def)
  then show ?thesis
    using failures_are_answered_with_trace [OF _ _ _ run] run
    by (fastforce simp: keeps_answers_def sample_scope_def)
qed

end
