(* ===== verification/ApiHistory.thy ===== *)
theory ApiHistory
  imports ApiProperties
begin

text \<open>
  What a request for an analysis has answered is served later: no request, and nothing others do in
  between, takes back or changes an analysis. The frame rules for handlers are those of the routes.
\<close>

section \<open>Requests only add to the history\<close>

lemma extends_owners [simp]:
  "extends (w\<lparr>owners := os\<rparr>) v = extends w v" "extends w (v\<lparr>owners := os\<rparr>) = extends w v"
  by (simp_all add: extends_def)

lemma history_owners [simp]: "history_ok (w\<lparr>owners := os\<rparr>) = history_ok w"
  by (simp add: history_ok_def)

definition adds :: "'a handler \<Rightarrow> bool" where
  "adds h \<longleftrightarrow> (\<forall>s. extends (api_world s) (api_world (snd (h s))))"

text \<open>What others do while a request is served keeps the history as well.\<close>

definition others_add :: "api_call \<Rightarrow> bool" where
  "others_add c \<longleftrightarrow>
     (\<forall>s. extends (api_world s) (api_world (after_authentication c s)) \<and>
        (history_ok (api_world s) \<longrightarrow> history_ok (api_world (after_authentication c s)))) \<and>
     keeps_history (in_between (dataset_inputs c)) \<and> keeps_history (while_analysing (analysis_inputs c))"

lemma adds_lift: "adds (lift_result r)"
  by (simp add: adds_def)

lemma adds_then: "adds h \<Longrightarrow> (\<And>x. adds (k x)) \<Longrightarrow> adds (and_then h k)"
  by (auto simp: adds_def and_then_def split: prod.splits sum.splits) (metis extends_trans snd_conv)+

lemma adds_split: "(\<And>a b. adds (k a b)) \<Longrightarrow> adds (case p of (a, b) \<Rightarrow> k a b)"
  by (cases p) simp

lemma adds_db: "adds (on_db f)"
  by (simp add: adds_def on_db_def split: prod.splits)

lemma adds_store: "(\<And>w. extends w (snd (f w))) \<Longrightarrow> adds (on_store f)"
  unfolding adds_def on_store_def store_of_def by (auto split: prod.splits) (metis extends_owners(1) snd_conv)

lemma adds_origin: "adds (enforce_trusted_origin env req)"
  by (simp add: enforce_trusted_origin_def adds_lift)

lemma adds_others: "others_add c \<Longrightarrow> adds (\<lambda>s. (Inr x, after_authentication c s))"
  by (simp add: adds_def others_add_def)

lemma adds_session:
  "others_add c \<Longrightarrow> adds (session_context env c req)" "others_add c \<Longrightarrow> adds (session_mutation env c req)"
  unfolding session_context_def session_mutation_def by (intro adds_then adds_db adds_others; assumption)+

lemma adds_serve:
  "(\<And>w. extends w (snd (f w))) \<Longrightarrow> adds (serve exc shown f)"
  "(\<And>w. extends w (snd (g w))) \<Longrightarrow> adds (serve_analysis exc' shown' g)"
  unfolding serve_def serve_analysis_def by (intro adds_store, auto split: prod.splits, metis snd_conv)+

lemma route_adds:
  assumes "others_add c"
  shows "adds (route env c req e)"
proof -
  have *: "\<And>w. extends w (in_between (dataset_inputs c) w)" "\<And>w. extends w (while_analysing (analysis_inputs c) w)"
    using assms by (simp_all add: others_add_def keeps_history_def)
  show ?thesis
    by (cases e)
      (auto simp: register_route_def login_route_def credentials_route_def me_route_def logout_route_def
        register_handler_def login_handler_def create_dataset_route_def list_datasets_route_def get_dataset_route_def
        upload_csv_route_def create_rule_route_def list_rules_route_def delete_rule_route_def
        create_analysis_route_def list_analyses_route_def get_analysis_route_def
        intro!: adds_then adds_split adds_lift adds_db adds_origin adds_session [OF assms] adds_serve
          extends_create_dataset extends_upload extends_create_rule extends_delete_rule extends_create_analysis *)
qed

text \<open>The states after a state: any requests are served in between.\<close>

inductive later :: "api_env \<Rightarrow> api_state \<Rightarrow> api_state \<Rightarrow> bool" for env s where
  later_now: "later env s s"
| later_more: "later env s u \<Longrightarrow> others_add c \<Longrightarrow> later env s (snd (respond_to env c req e u))"

lemma later_extends: "later env s u \<Longrightarrow> extends (api_world s) (api_world u)"
proof (induction rule: later.induct)
  case (later_more u c req e)
  have "snd (respond_to env c req e u) = snd (route env c req e u)" by (simp add: respond_to_def split: prod.splits)
  then show ?case using later_more route_adds [of c env req e] extends_trans by (auto simp: adds_def)
qed simp

section \<open>Responses\<close>

text \<open>The response models admit all that is stored: no read of consistent data is refused by them.\<close>

lemma rule_of_known_type_shown: "rule_type r \<in> set rule_types \<Longrightarrow> \<exists>shown. rule_response_of (rule_reference_of r) = Inr shown"
  by (simp add: rule_response_of_def rule_reference_of_def)

lemma stored_rules_shown:
  assumes "world_ok env w" and "list_rules c owner did limit offset w = (Inr refs, w')"
  shows "\<exists>shown. map_results rule_response_of refs = Inr shown"
proof -
  have types: "rule_type r \<in> set rule_types" if "r \<in> set (rules w)" for r
    using assms(1) that by (auto simp: world_ok_def rules_by_id.table_ok_def rule_row_ok_def rule_row_checks_def list_all_iff)
  have "refs = map rule_reference_of (list_for_dataset (rules w) did limit offset)"
    using assms(2) by (auto simp: list_rules_def db_transaction_def reading_def result_simps
        split: sum.splits option.splits)
  moreover have "set (list_for_dataset (rules w) did limit offset) \<subseteq> set (rules w)"
    by (auto simp: list_for_dataset_def Database.page_def list_all_for_dataset_def dest!: in_set_takeD in_set_dropD)
  ultimately have "set refs \<subseteq> rule_reference_of ` set (rules w)" by auto
  then have "\<exists>shown. rule_response_of x = Inr shown" if "x \<in> set refs" for x
    using types that by (fastforce intro: rule_of_known_type_shown)
  then show ?thesis by (rule map_results_ex)
qed

lemma stored_analysis_shown:
  assumes "history_ok w" and "get_analysis c owner did aid w = (Inr detail, w')"
  shows "\<exists>shown. analysis_detail_of detail = Inr shown"
proof -
  have types: "row_rule_type r \<in> set rule_types" if "r \<in> set (results w)" for r
    using assms(1) that by (auto simp: history_ok_def results_by_position.table_ok_def result_row_ok_def result_row_checks_def list_all_iff)
  obtain a where "detail_reference a (list_for_analysis (results w) (analysis_id a)) = Inr detail"
    using assms(2) by (auto simp: get_analysis_def transaction_def result_simps split: sum.splits option.splits)
  then have refs: "map_results result_reference_of (list_for_analysis (results w) (analysis_id a)) = Inr (detail_results detail)"
    by (auto simp: detail_reference_def result_simps analysis_summary.extend_def)
  have "ref_result_type x \<in> set rule_types" if x: "x \<in> set (detail_results detail)" for x
  proof -
    obtain r where "r \<in> set (list_for_analysis (results w) (analysis_id a))" "result_reference_of r = Inr x"
      using map_results_image [OF refs, of x] x by blast
    then show ?thesis using types [of r] by (auto simp: result_reference_of_def list_for_analysis_def result_simps)
  qed
  then have "\<exists>shown. map_results result_response_of (detail_results detail) = Inr shown"
    by (intro map_results_ex) (simp add: result_response_of_def)
  then show ?thesis by (auto simp: analysis_detail_of_def)
qed

section \<open>Reading what was posted\<close>

lemma session_adds:
  assumes "others_add c" and "session_mutation env c req s = (r, s')"
  shows "extends (api_world s) (api_world s')" and "history_ok (api_world s) \<Longrightarrow> history_ok (api_world s')"
proof -
  show "extends (api_world s) (api_world s')" using adds_session(2) [OF assms(1), of env req] assms(2)
    by (auto simp: adds_def dest: spec [of _ s])
  have "api_world s' = api_world s \<or> (\<exists>db. s' = after_authentication c (s\<lparr>api_db := db\<rparr>))"
    using assms(2) by (auto simp: session_mutation_def and_then_def on_db_def split: prod.splits sum.splits)
  then show "history_ok (api_world s) \<Longrightarrow> history_ok (api_world s')"
    using assms(1) by (auto simp: others_add_def)
qed

lemma post_analysis_Inr:
  assumes "respond_to env c req (CreateAnalysis (Some did)) s = (Inr res, s1)"
  obtains ctx sA detail w shown where "session_mutation env c req s = (Inr ctx, sA)"
    "create_analysis (analysis_service env) (analysis_inputs c) (caller ctx) did (store_of sA) = (Inr detail, w)"
    "s1 = sA\<lparr>api_world := w\<rparr>" "analysis_detail_of detail = Inr shown" "res = respond 201 (AnalysisBody shown)"
proof -
  have r: "create_analysis_route env c req (Some did) s = (Inr res, s1)"
    using assms by (cases "create_analysis_route env c req (Some did) s") (auto simp: respond_to_def map_sum_id_Inr)
  obtain u sO where o: "enforce_trusted_origin env req s = (Inr u, sO)"
    and r1: "and_then (session_mutation env c req) (\<lambda>ctx. and_then (lift_result (path_id c (Some did))) (\<lambda>did.
       serve_analysis create_analysis_exc (\<lambda>a. bind_result (analysis_detail_of a) (\<lambda>shown. Inr (respond 201 (AnalysisBody shown))))
         (create_analysis (analysis_service env) (analysis_inputs c) (caller ctx) did))) sO = (Inr res, s1)"
    using r by (auto simp: create_analysis_route_def and_then_Inr)
  have "sO = s" using enforce_origin_state [OF o] .
  then obtain ctx sA where A: "session_mutation env c req s = (Inr ctx, sA)"
    and r2: "serve_analysis create_analysis_exc (\<lambda>a. bind_result (analysis_detail_of a) (\<lambda>shown. Inr (respond 201 (AnalysisBody shown))))
         (create_analysis (analysis_service env) (analysis_inputs c) (caller ctx) did) sA = (Inr res, s1)"
    using r1 by (auto simp: and_then_Inr path_id_def)
  obtain detail w where w: "create_analysis (analysis_service env) (analysis_inputs c) (caller ctx) did (store_of sA) = (Inr detail, w)"
    using r2 by (cases "create_analysis (analysis_service env) (analysis_inputs c) (caller ctx) did (store_of sA)";
        case_tac a) (auto simp: serve_analysis_def on_store_def)
  show thesis
    using that [OF A w] r2 w by (auto simp: serve_analysis_def on_store_def result_simps)
qed

lemma get_analysis_response:
  assumes "session_context env c req s = (Inr ctx, s')"
    and "get_analysis (analysis_inputs c) (caller ctx) did aid (store_of s') = (Inr detail, w)"
    and "analysis_detail_of detail = Inr shown"
  shows "fst (respond_to env c req (GetAnalysis (Some did) (Some aid)) s) = Inr (respond 200 (AnalysisBody shown))"
  using assms by (simp add: respond_to_def get_analysis_route_def and_then_def path_id_def serve_analysis_def on_store_def)

lemma owns_of_created:
  assumes "create_analysis env c owner did w = (Inr detail, w')"
  shows "owns (datasets w) did owner"
proof (rule create_analysis_adds [OF assms])
  fix d assume "get_for_owner (datasets w) did owner = Some d"
  then show ?thesis by (auto simp: owns_def dest: get_for_owner_Some)
qed

lemma posted_analysis_served:
  assumes post: "respond_to env c req (CreateAnalysis (Some did)) s = (Inr res, s1)"
    and ok: "history_ok (api_world s)" "world_ok (dataset_service env) (api_world s)" "others_add c"
    and later: "later env s1 s2" and auth: "session_context env c' req' s2 = (Inr ctx', s3)" "others_add c'"
    and owner: "owns (datasets (api_world s1)) did (caller ctx')" and works: "\<not> analysis_txn_fails (analysis_inputs c') 0"
  shows "\<exists>shown. http_body res = AnalysisBody shown \<and>
    fst (respond_to env c' req' (GetAnalysis (Some did) (Some (res_analysis_id shown))) s2) = Inr (respond 200 (AnalysisBody shown))"
proof (rule post_analysis_Inr [OF post])
  fix ctx sA detail w shown
  assume A: "session_mutation env c req s = (Inr ctx, sA)"
    and w: "create_analysis (analysis_service env) (analysis_inputs c) (caller ctx) did (store_of sA) = (Inr detail, w)"
    and s1: "s1 = sA\<lparr>api_world := w\<rparr>" and shown: "analysis_detail_of detail = Inr shown"
    and res: "res = respond 201 (AnalysisBody shown)"
  let ?inputs = "analysis_inputs c'"
  have ids: "distinct (map dataset_id (datasets (api_world s)))"
    using ok(2) by (simp add: world_ok_def datasets_by_id.table_ok_def)
  note sA = session_adds [OF ok(3) A]
  have ids_A: "distinct (map dataset_id (datasets (store_of sA)))" using sA(1) ids by (simp add: extends_def store_of_def)
  have while: "history_ok (while_analysing (analysis_inputs c) (store_of sA))"
    "extends (store_of sA) (while_analysing (analysis_inputs c) (store_of sA))"
    using ok(3) sA(2) ok(1) by (simp_all add: others_add_def keeps_history_def store_of_def)
  note got = get_created_analysis [OF w while ids_A works]
  have w_ext: "extends (store_of sA) w" using extends_create_analysis [OF while(2)] w by (metis snd_conv)
  then have ids_w: "distinct (map dataset_id (datasets w))" using ids_A by (simp add: extends_def)
  have "owns (datasets w) did (caller ctx)"
    using w_ext ids_A owns_of_created [OF w] by (simp add: extends_def)
  then have "caller ctx' = caller ctx"
    using owner ids_w s1 by (auto simp: owns_def distinct_map inj_on_def)
  moreover have "extends (api_world s2) (api_world s3)" using adds_session(1) [OF auth(2), of env req'] auth(1)
    by (auto simp: adds_def dest: spec [of _ s2])
  then have "extends w (store_of s3)"
    using later_extends [OF later] extends_trans by (auto simp: s1 store_of_def)
  ultimately have "get_analysis ?inputs (caller ctx') did (new_analysis_id (analysis_inputs c)) (store_of s3) = (Inr detail, store_of s3)"
    using get_analysis_extends [OF conjunct1 [OF got] _ ids_w works] by simp
  moreover have "res_analysis_id shown = new_analysis_id (analysis_inputs c)"
    using shown conjunct2 [OF got] by (auto simp: analysis_detail_of_def analysis_summary_of_def result_simps
        analysis_summary_response.defs analysis_summary.defs)
  ultimately show ?thesis using get_analysis_response [OF auth(1) _ shown] res by (simp add: respond_def)
qed

section \<open>A deployment with an open session\<close>

definition signed_in :: "instant \<Rightarrow> identity_db" where
  "signed_in seen = \<lparr>users = [sample_user], sessions = [sample_session\<lparr>last_seen_at := seen\<rparr>]\<rparr>"

definition session_request :: "pystr \<Rightarrow> http_request" where
  "session_request t =
     \<lparr>req_headers = [(''origin'', lit ''HTTPS://A.co:443''), (''x-csrf-token'', t)],
      req_cookies = [lit ''__Host-datacheck_session'' \<mapsto> t]\<rparr>"

definition sample_context :: authenticated_context where
  "sample_context = \<lparr>context_user = user_reference_of sample_user, context_session_id = Uuid 1,
     context_csrf = replicate 32 7, context_expires_at = ABSOLUTE_TIMEOUT\<rparr>"

lemma signed_in_authenticates:
  assumes "decode_token t = Inr (replicate 32 7)" and "seen \<in> {0, 5}"
  shows "authenticate sample_env (sample_call 5 2 9) (Some t) (signed_in seen) = (Inr sample_context, signed_in 5)"
proof -
  have c: "clock (sample_call 5 2 9) = AwareTime 5" "\<not> fails (sample_call 5 2 9) 0" by (simp_all add: sample_call_def)
  have "authenticate_body (replicate 32 7) 5 (signed_in seen) = Inr (sample_context, signed_in 5)"
    using assms(2) by (auto simp: authenticate_body_def authenticate_and_touch_def signed_in_def sample_session_def
        sample_user_def sample_context_def touchable_def touch_def update_rows_def get_user_def
        ABSOLUTE_TIMEOUT_def IDLE_TIMEOUT_def hours_def seconds_def)
  then show ?thesis unfolding authenticate_eval [OF assms(1) c] sample_sha by simp
qed

lemma sample_session_open:
  assumes "decode_token t = Inr (replicate 32 7)" and "api_db s = signed_in seen" and "seen \<in> {0, 5}"
  shows "session_context sample_api (sample_api_call 5) (session_request t) s = (Inr sample_context, s\<lparr>api_db := signed_in 5\<rparr>)"
    and "session_mutation sample_api (sample_api_call 5) (session_request t) s = (Inr sample_context, s\<lparr>api_db := signed_in 5\<rparr>)"
proof -
  have cookie: "get_session_cookie sample_settings (session_request t) = Some t"
    by (simp add: get_session_cookie_def sample_settings_def cookie_policy_for_def session_request_def del: lit_Cons)
  have csrf: "check_csrf (session_request t) sample_context = Inr sample_context"
    using assms(1) by (simp add: check_csrf_def parse_csrf_header_def getlist_def session_request_def sample_context_def
        csrf_tokens_match_def TOKEN_BYTES_def)
  note auth = signed_in_authenticates [OF assms(1,3)]
  show "session_context sample_api (sample_api_call 5) (session_request t) s = (Inr sample_context, s\<lparr>api_db := signed_in 5\<rparr>)"
    using cookie auth assms(2) by (simp add: session_context_def and_then_def on_db_def require_authenticated_context_def
        sample_api_def sample_api_call_def)
  show "session_mutation sample_api (sample_api_call 5) (session_request t) s = (Inr sample_context, s\<lparr>api_db := signed_in 5\<rparr>)"
    using cookie auth csrf assms(2) by (simp add: session_mutation_def and_then_def on_db_def
        require_authenticated_mutation_def require_authenticated_context_def sample_api_def sample_api_call_def)
qed

lemma session_request_trusted: "enforce_trusted_origin sample_api (session_request t) s = (Inr (), s)"
  by (simp add: enforce_trusted_origin_def sample_api_def require_trusted_origin_def request_origin_def getlist_def
      session_request_def sample_origin sample_settings_def del: lit_Cons)

lemma sample_post:
  assumes "decode_token t = Inr (replicate 32 7)"
  obtains shown w where
    "respond_to sample_api (sample_api_call 5) (session_request t) (CreateAnalysis (Some (Uuid 5)))
       \<lparr>api_db = signed_in 0, api_world = history_world\<rparr> =
     (Inr (respond 201 (AnalysisBody shown)), \<lparr>api_db = signed_in 5, api_world = w\<rparr>)"
    "datasets w = datasets history_world"
proof -
  obtain detail w where d: "create_analysis sample_analysis_env sample_analysis_call (Uuid 1) (Uuid 5) history_world = (Inr detail, w)"
    using sample_analysis by blast
  have between: "history_ok (while_analysing sample_analysis_call history_world)"
    "extends history_world (while_analysing sample_analysis_call history_world)" "\<not> analysis_txn_fails sample_analysis_call 0"
    using history_world_history by (simp_all add: sample_analysis_call_def)
  have "history_ok w" using history_ok_create [OF history_world_history between(1)] d by (metis snd_conv)
  moreover have "distinct (map dataset_id (datasets history_world))" by (simp add: history_world_def)
  ultimately obtain shown where shown: "analysis_detail_of detail = Inr shown"
    using stored_analysis_shown get_created_analysis [OF d between(1,2) _ between(3)] by blast
  have store: "store_of \<lparr>api_db = signed_in 5, api_world = history_world\<rparr> = history_world"
    by (simp add: store_of_def signed_in_def history_world_def sample_user_def)
  have "create_analysis_route sample_api (sample_api_call 5) (session_request t) (Some (Uuid 5))
       \<lparr>api_db = signed_in 0, api_world = history_world\<rparr> =
     (Inr (respond 201 (AnalysisBody shown)), \<lparr>api_db = signed_in 5, api_world = w\<rparr>)"
    using d shown store sample_session_open(2) [OF assms, of "\<lparr>api_db = signed_in 0, api_world = history_world\<rparr>" 0]
    by (simp add: create_analysis_route_def and_then_def session_request_trusted path_id_def serve_analysis_def on_store_def
        sample_context_def sample_user_def user_reference_of_def) (simp add: sample_api_def sample_api_call_def)
  moreover have "datasets w = datasets history_world"
    by (rule create_analysis_adds [OF d]) (simp add: sample_analysis_call_def)
  ultimately show thesis using that by (simp add: respond_to_def)
qed

lemma sample_delete:
  assumes "decode_token t = Inr (replicate 32 7)" and "api_db s = signed_in 5"
  shows "api_db (snd (respond_to sample_api (sample_api_call 5) (session_request t) (DeleteRule (Some (Uuid 5)) (Some (Uuid 6))) s)) =
     signed_in 5"
  using sample_session_open(2) [OF assms] assms(2)
  by (simp add: respond_to_def delete_rule_route_def and_then_def session_request_trusted path_id_def serve_def on_store_def
      split: prod.splits)

lemma sample_others_add: "others_add (sample_api_call now)"
  by (simp add: others_add_def sample_api_call_def sample_dataset_call'_def sample_analysis_call_def keeps_history_id)

section \<open>Properties\<close>

text \<open>
  C8. A posted analysis is served: what POST has answered is what GET answers under its identifier to
  any session of the dataset's owner, whatever requests the deployment has served in between.
\<close>

theorem posted_analysis_is_served:
  assumes "respond_to env c req (CreateAnalysis (Some did)) s = (Inr res, s1)"
    and "history_ok (api_world s)" and "world_ok (dataset_service env) (api_world s)" and "others_add c"
    and "later env s1 s2" and "session_context env c' req' s2 = (Inr ctx, s3)" and "others_add c'"
    and "owns (datasets (api_world s1)) did (caller ctx)" and "\<not> analysis_txn_fails (analysis_inputs c') 0"
  shows "\<exists>shown. http_body res = AnalysisBody shown \<and>
    fst (respond_to env c' req' (GetAnalysis (Some did) (Some (res_analysis_id shown))) s2) = Inr (respond 200 (AnalysisBody shown))"
  using assms by (rule posted_analysis_served)

text \<open>The rule that was checked is deleted in between.\<close>

theorem posted_analysis_is_served_witness:
  "\<exists>t res s1 s2 shown.
     respond_to sample_api (sample_api_call 5) (session_request t) (CreateAnalysis (Some (Uuid 5)))
       \<lparr>api_db = signed_in 0, api_world = history_world\<rparr> = (Inr res, s1) \<and>
     s2 = snd (respond_to sample_api (sample_api_call 5) (session_request t) (DeleteRule (Some (Uuid 5)) (Some (Uuid 6))) s1) \<and>
     http_body res = AnalysisBody shown \<and>
     fst (respond_to sample_api (sample_api_call 5) (session_request t) (GetAnalysis (Some (Uuid 5)) (Some (res_analysis_id shown))) s2) =
       Inr (respond 200 (AnalysisBody shown))"
proof -
  obtain t where t: "decode_token t = Inr (replicate 32 7)" using sample_bearer by blast
  obtain shown w where post: "respond_to sample_api (sample_api_call 5) (session_request t) (CreateAnalysis (Some (Uuid 5)))
       \<lparr>api_db = signed_in 0, api_world = history_world\<rparr> =
     (Inr (respond 201 (AnalysisBody shown)), \<lparr>api_db = signed_in 5, api_world = w\<rparr>)"
    and w: "datasets w = datasets history_world" by (rule sample_post [OF t])
  let ?s1 = "\<lparr>api_db = signed_in 5, api_world = w\<rparr>"
  let ?delete = "respond_to sample_api (sample_api_call 5) (session_request t) (DeleteRule (Some (Uuid 5)) (Some (Uuid 6)))"
  have "later sample_api ?s1 (snd (?delete ?s1))" by (intro later_more later_now sample_others_add)
  moreover have "session_context sample_api (sample_api_call 5) (session_request t) (snd (?delete ?s1)) =
      (Inr sample_context, (snd (?delete ?s1))\<lparr>api_db := signed_in 5\<rparr>)"
    by (rule sample_session_open(1) [OF t, of _ 5]) (simp_all add: sample_delete [OF t])
  moreover have "owns (datasets (api_world ?s1)) (Uuid 5) (caller sample_context)"
    by (simp add: w owns_def history_world_def sample_row_def sample_context_def user_reference_of_def sample_user_def)
  ultimately show ?thesis
    using posted_analysis_is_served [OF post _ _ sample_others_add, of "snd (?delete ?s1)" "sample_api_call 5"]
      post history_world_history history_world_ok sample_others_add
    by (fastforce simp: sample_api_def sample_api_call_def sample_analysis_call_def)
qed

end
