(* ===== verification/SchemaInvariant.thy ===== *)
theory SchemaInvariant
  imports SchemaProperties ApiHistory
begin

text \<open>
  The data of a deployment against its schema. The stores check every constraint but not the widths
  of the columns; that what the services store fits them, and so that the database never refuses a
  row the model accepts, is an invariant of all requests: lengths and formats come from the
  policies, the counts of an analysis from the sizes of files and rule sets.
\<close>

section \<open>Tables that obey their definitions\<close>

definition keys_differ :: "string list \<Rightarrow> sql_row list \<Rightarrow> bool" where
  "keys_differ ks rows \<longleftrightarrow> distinct (filter (\<lambda>k. SqlNull \<notin> set k) (map (\<lambda>row. key_values row ks) rows))"

definition row_obeys :: "table_def \<Rightarrow> contents \<Rightarrow> sql_row \<Rightarrow> bool" where
  "row_obeys t kept row \<longleftrightarrow> row_fits t row \<and> row_complete t row \<and>
     (\<forall>(n, c) \<in> set (checks_of (table_constraints t)). check_passes row c) \<and>
     (\<forall>(n, ks, target, rs) \<in> set (foreign_keys (table_constraints t)). refers (kept target) ks rs row)"

definition table_obeys :: "contents \<Rightarrow> table_def \<Rightarrow> bool" where
  "table_obeys kept t \<longleftrightarrow> list_all (row_obeys t kept) (kept (table_name t)) \<and>
     (\<forall>(n, ks) \<in> set (primary_keys (table_constraints t) @ uniques (table_constraints t)).
        keys_differ ks (kept (table_name t)))"

definition satisfies :: "schema \<Rightarrow> contents \<Rightarrow> bool" where
  "satisfies s kept \<longleftrightarrow> list_all (table_obeys kept) (tables s)"

lemma row_checks_all:
  "list_all snd (row_checks t row) \<longleftrightarrow> (\<forall>(n, c) \<in> set (checks_of (table_constraints t)). check_passes row c)"
  by (auto simp: row_checks_def list_all_iff)

lemma keys_differ_map:
  assumes "distinct (map f rows)"
    and "\<And>r q. r \<in> set rows \<Longrightarrow> q \<in> set rows \<Longrightarrow> SqlNull \<notin> set (key_values (enc r) ks) \<Longrightarrow>
      key_values (enc r) ks = key_values (enc q) ks \<Longrightarrow> f r = f q"
  shows "keys_differ ks (map enc rows)"
proof -
  let ?key = "\<lambda>r. key_values (enc r) ks"
  have inj: "inj_on f (set rows)" and dist: "distinct rows" using assms(1) by (simp_all add: distinct_map)
  have "inj_on ?key (set (filter (\<lambda>r. SqlNull \<notin> set (?key r)) rows))"
  proof (rule inj_onI)
    fix r q assume "r \<in> set (filter (\<lambda>r. SqlNull \<notin> set (?key r)) rows)"
      "q \<in> set (filter (\<lambda>r. SqlNull \<notin> set (?key r)) rows)" "?key r = ?key q"
    then show "r = q" using assms(2) [of r q] inj by (auto dest: inj_onD)
  qed
  then show ?thesis using dist
    by (simp add: keys_differ_def filter_map o_def distinct_map)
qed

lemma table_obeysI:
  assumes kept: "kept (table_name t) = map enc rows"
    and rows: "\<And>r. r \<in> set rows \<Longrightarrow> row_fits t (enc r) \<and> row_complete t (enc r) \<and> list_all snd (row_checks t (enc r)) \<and>
      (\<forall>(n, ks, target, rs) \<in> set (foreign_keys (table_constraints t)). refers (kept target) ks rs (enc r))"
    and keys: "\<forall>(n, ks) \<in> set (primary_keys (table_constraints t) @ uniques (table_constraints t)).
      keys_differ ks (map enc rows)"
  shows "table_obeys kept t"
  using rows keys unfolding table_obeys_def row_obeys_def kept row_checks_all by (simp add: list_all_iff)

section \<open>Rows that fit their columns\<close>

definition typed_account :: "user_row \<Rightarrow> bool" where
  "typed_account u \<longleftrightarrow> list_all (\<lambda>c. 0 < c \<and> c < 128) (user_email u) \<and>
     list_all (\<lambda>c. 0 < c \<and> c < 128) (user_email_normalized u) \<and> storable_text (user_password_hash u)"

definition two_places :: "rat \<Rightarrow> bool" where
  "two_places q \<longleftrightarrow> of_int \<lfloor>q * 100\<rfloor> = q * 100"

lemmas fit_simps = row_fits_def required_def optional_def

lemma ascii_storable: "list_all (\<lambda>c. 0 < c \<and> c < 128) s \<Longrightarrow> storable_text s"
  by (auto simp: storable_text_def list_all_iff)

lemma user_fits: "user_row_ok u \<Longrightarrow> typed_account u \<Longrightarrow> row_fits create_users (user_sql u)"
  by (simp add: fit_simps create_users_def user_sql_def user_row_ok_def user_row_checks_def typed_account_def ascii_storable)

lemma session_fits: "row_fits create_sessions (session_sql s)"
  by (cases "revoked_at s") (simp_all add: fit_simps create_sessions_def session_sql_def)

lemma storage_key_length: "is_storage_key k \<Longrightarrow> length k = 36"
  by (auto simp: is_storage_key_def)

lemma fits_or_null [simp]: "fits ty (or_null f x) \<longleftrightarrow> opt_all (\<lambda>y. fits ty (f y)) x"
  by (cases x) simp_all

lemma opt_all_mono: "opt_all P x \<Longrightarrow> (\<And>y. P y \<Longrightarrow> Q y) \<Longrightarrow> opt_all Q x"
  by (cases x) simp_all

lemma opt_all_conj: "opt_all (\<lambda>y. P y \<and> Q y) x \<longleftrightarrow> opt_all P x \<and> opt_all Q x"
  by (cases x) simp_all

lemma opt_all_True [simp]: "opt_all (\<lambda>y. True) x"
  by (cases x) simp_all

lemma texts_fit [simp]: "fits JsonbType (texts_sql ts) \<longleftrightarrow> list_all storable_text ts"
  by (simp add: texts_sql_def list_all_iff)

lemma dataset_fits:
  assumes "dataset_row_ok d" and "opt_all (\<lambda>n. n < 2 ^ 63) (dataset_row_count d)"
  shows "row_fits create_datasets (dataset_sql d)"
proof -
  have ok: "storable_text (dataset_name d)" "length (dataset_name d) \<le> 100"
    "opt_all storable_text (original_filename d)" "opt_all (\<lambda>n. length n \<le> 255) (original_filename d)"
    "opt_all storable_text (storage_key d)" "opt_all (list_all storable_text) (DatasetStore.column_names d)"
    using assms(1) by (simp_all add: dataset_row_ok_def dataset_row_checks_def opt_all_conj)
  have "opt_all (\<lambda>k. length k \<le> 36) (storage_key d)" "opt_all (\<lambda>n. - (2 ^ 63) \<le> n \<and> n < 2 ^ 63) (size_bytes d)"
    "opt_all (\<lambda>n. - (2 ^ 63) \<le> n) (dataset_row_count d)"
    using assms(1) by (auto simp: dataset_row_ok_def dataset_row_checks_def storage_key_length elim: opt_all_mono)
  then show ?thesis using ok assms(2)
    by (simp add: fit_simps create_datasets_def dataset_sql_def opt_all_conj)
qed

lemma rule_type_length: "t \<in> set rule_types \<Longrightarrow> length t \<le> 16"
  by (auto simp: rule_types_def)

lemma configuration_fits [simp]: "fits JsonbType (configuration_sql cfg) \<longleftrightarrow> configuration_storable cfg"
  by (simp only: configuration_sql_def fits.simps json_storable_normal json_object_storable)

lemma rule_fits_columns: "rule_row_ok r \<Longrightarrow> row_fits create_rules (rule_sql r)"
  by (simp add: fit_simps create_rules_def rule_sql_def rule_row_ok_def rule_row_checks_def rule_type_length)

lemma score_fits:
  assumes "opt_all (\<lambda>q. 0 \<le> q \<and> q \<le> 100) score" and "opt_all two_places score"
  shows "fits (NumericType 5 2) (or_null SqlNumeric score)"
proof (cases score)
  case (Some q)
  then have "\<bar>q * 100\<bar> < 100000" using assms(1) by simp
  then show ?thesis using Some assms(2) by (simp add: two_places_def)
qed simp

lemma analysis_fits:
  assumes "analysis_row_ok a" and "opt_all two_places (analysis_score a)"
    and "source_rows (analysis_source a) < 2 ^ 63" and "analysis_violations a < 2 ^ 63"
    and "length (source_filename (analysis_source a)) \<le> 255"
  shows "row_fits create_analyses (analysis_sql a)"
proof -
  have ok: "storable_text (source_filename (analysis_source a))" "list_all storable_text (source_columns (analysis_source a))"
    "0 \<le> source_rows (analysis_source a)" "0 \<le> analysis_violations a" "0 \<le> source_size (analysis_source a)"
    "source_size (analysis_source a) < 2 ^ 63" "opt_all (\<lambda>q. 0 \<le> q \<and> q \<le> 100) (analysis_score a)"
    using assms(1) by (simp_all add: analysis_row_ok_def analysis_row_checks_def Let_def)
  note score = score_fits [OF ok(7) assms(2)]
  show ?thesis using ok(1-6) score assms(3-5)
    by (simp add: fit_simps create_analyses_def analysis_sql_def Let_def del: fits_or_null)
qed

lemma result_fits:
  assumes "result_row_ok r" and "row_position r < 2 ^ 31"
    and "row_evaluated r + row_skipped r < 2 ^ 63"
  shows "row_fits create_results (result_sql r)"
proof -
  have ok: "storable_text (row_rule_type r)" "length (row_rule_type r) \<le> 16" "storable_text (row_column r)"
    "length (row_column r) \<le> 128" "configuration_storable (row_configuration r)"
    "list_all configuration_storable (row_samples r)" "0 \<le> row_position r"
    "0 \<le> row_evaluated r" "0 \<le> row_passed r" "0 \<le> row_violations r" "0 \<le> row_skipped r"
    "row_evaluated r = row_passed r + row_violations r"
    using assms(1) by (simp_all add: result_row_ok_def result_row_checks_def rule_type_length)
  have "fits JsonbType (SqlJson (VList (map (\<lambda>cfg. jsonb_normal (VDict cfg)) (row_samples r))))"
    using ok(6) by (simp add: json_object_storable list_all_iff del: jsonb_normal.simps(3) json_storable.simps(4))
  then show ?thesis using ok assms(2,3)
    by (simp add: fit_simps create_results_def result_sql_def del: fits.simps(10))
qed

section \<open>What the services keep true, with the widths\<close>

definition accounts_ok :: "identity_db \<Rightarrow> bool" where
  "accounts_ok db \<longleftrightarrow> identity_ok db \<and> list_all typed_account (users db)"

definition typed_analysis :: "result_row list \<Rightarrow> analysis_row \<Rightarrow> bool" where
  "typed_analysis rs a \<longleftrightarrow> length (source_filename (analysis_source a)) \<le> 255 \<and>
     source_rows (analysis_source a) \<le> int MAX_CSV_BYTES \<and> opt_all two_places (analysis_score a) \<and>
     int (length (list_for_analysis rs (analysis_id a))) \<le> 2 ^ 31"

definition data_typed :: "analysis_world \<Rightarrow> bool" where
  "data_typed w \<longleftrightarrow> (\<forall>d \<in> set (datasets w). owner_id d \<in> owners w) \<and>
     (\<forall>r \<in> set (rules w). canonical_configuration (rule_configuration r)) \<and>
     (\<forall>a \<in> set (analyses w). typed_analysis (results w) a)"

definition data_ok :: "dataset_env \<Rightarrow> analysis_world \<Rightarrow> bool" where
  "data_ok env w \<longleftrightarrow> world_ok env w \<and> history_ok w \<and>
     data_typed w"

lemma keys_of_users:
  "distinct (map user_id us) \<Longrightarrow> keys_differ [''id''] (map user_sql us)"
  "distinct (map user_email_normalized us) \<Longrightarrow> keys_differ [''email_normalized''] (map user_sql us)"
  by (erule keys_differ_map, simp add: key_values_sql)+

lemma keys_of_sessions:
  "distinct (map session_id ss) \<Longrightarrow> keys_differ [''id''] (map session_sql ss)"
  "distinct (map token_hash ss) \<Longrightarrow> keys_differ [''token_hash''] (map session_sql ss)"
  by (erule keys_differ_map, simp add: key_values_sql)+

lemma keys_of_datasets:
  "distinct (map dataset_id ds) \<Longrightarrow> keys_differ [''id''] (map dataset_sql ds)"
  "distinct (map dataset_id ds) \<Longrightarrow> \<forall>d \<in> set ds. storage_key_free ds d \<Longrightarrow>
     keys_differ [''storage_key''] (map dataset_sql ds)"
proof -
  show "keys_differ [''id''] (map dataset_sql ds)" if "distinct (map dataset_id ds)"
    using that by (rule keys_differ_map) (simp add: key_values_sql)
  have same: "or_null SqlText x = or_null SqlText y \<longleftrightarrow> x = y" for x y by (cases x; cases y) simp_all
  show "keys_differ [''storage_key''] (map dataset_sql ds)"
    if "distinct (map dataset_id ds)" and free: "\<forall>d \<in> set ds. storage_key_free ds d"
    by (rule keys_differ_map [OF that(1)])
      (use free in \<open>auto simp: key_values_sql same storage_key_free_def\<close>)
qed

lemma keys_of_rules:
  "distinct (map rule_row_id rs) \<Longrightarrow> keys_differ [''id''] (map rule_sql rs)"
  "distinct (map rule_definition rs) \<Longrightarrow> \<forall>r \<in> set rs. canonical_configuration (rule_configuration r) \<Longrightarrow>
     keys_differ [''dataset_id'', ''rule_type'', ''target_column'', ''configuration''] (map rule_sql rs)"
proof -
  show "keys_differ [''id''] (map rule_sql rs)" if "distinct (map rule_row_id rs)"
    using that by (rule keys_differ_map) (simp add: key_values_sql)
  show "keys_differ [''dataset_id'', ''rule_type'', ''target_column'', ''configuration''] (map rule_sql rs)"
    if "distinct (map rule_definition rs)" and canonical: "\<forall>r \<in> set rs. canonical_configuration (rule_configuration r)"
    by (rule keys_differ_map [OF that(1)])
      (use canonical canonical_injective in \<open>auto simp: key_values_sql rule_definition_def\<close>)
qed

lemma keys_of_history:
  "distinct (map analysis_id as) \<Longrightarrow> keys_differ [''id''] (map analysis_sql as)"
  "distinct (map position_key rs) \<Longrightarrow> keys_differ [''analysis_id'', ''rule_position''] (map result_sql rs)"
  "distinct (map rule_key rs) \<Longrightarrow> keys_differ [''analysis_id'', ''source_rule_id''] (map result_sql rs)"
  by (erule keys_differ_map, simp add: key_values_sql position_key_def rule_key_def)+

lemmas obeys_simps = stored_tables_simps table_keys rows_complete key_values_sql refers_map

lemma users_obey: "accounts_ok db \<Longrightarrow> table_obeys (stored_tables db w) create_users"
  by (rule table_obeysI [where enc = user_sql and rows = "users db"])
    (auto simp: accounts_ok_def identity_ok_def users_by_id.table_ok_def users_by_email.table_ok_def list_all_iff
      obeys_simps typed_account_def user_checks user_row_ok_def intro!: user_fits keys_of_users)

lemma sessions_obey: "accounts_ok db \<Longrightarrow> table_obeys (stored_tables db w) create_sessions"
  by (rule table_obeysI [where enc = session_sql and rows = "sessions db"])
    (auto simp: accounts_ok_def identity_ok_def sessions_by_id.table_ok_def sessions_by_token.table_ok_def list_all_iff
      obeys_simps session_checks session_row_ok_def intro!: session_fits keys_of_sessions)

text \<open>A file has no more records than bytes.\<close>

lemma split_lines_length: "length (split_lines s) \<le> length s"
proof (induction s rule: split_lines.induct)
  case (2 c s)
  consider "c = 10" | "c = 13" | "c \<noteq> 10" "c \<noteq> 13" by blast
  then show ?case
  proof cases
    case 1
    then show ?thesis using 2(1) by simp
  next
    case 2
    then show ?thesis using "2.IH"(2,3) by (cases s) auto
  next
    case 3
    then show ?thesis using "2.IH"(4) by (cases "split_lines s") simp_all
  qed
qed simp

lemma utf8_decode_length: "utf8_decode bs = Some (t, left) \<Longrightarrow> length t + length left \<le> length bs"
proof (induction bs arbitrary: t left rule: utf8_decode.induct)
  case (1 bs)
  show ?case
  proof (cases "first_char bs")
    case (Char c r)
    then obtain t' where "t = c # t'" "utf8_decode r = Some (t', left)"
      using "1.prems" by (subst (asm) utf8_decode.simps) auto
    then show ?thesis using "1.IH" [OF Char] first_char_shorter [OF Char] by fastforce
  qed (use "1.prems" in \<open>subst (asm) utf8_decode.simps, simp\<close>)+
qed

lemma sig_decode_length: "sig_decode first data = Some (t, first', left) \<Longrightarrow> length t + length left \<le> length data"
  by (auto simp: sig_decode_def sig_body_def split: if_splits dest!: utf8_decode_length)

lemma read_chunks_length: "length (fst (read_chunks first left chs)) \<le> length left + sum_list (map length chs)"
proof (induction chs arbitrary: first left)
  case Nil
  show ?case by (auto split: option.split dest!: sig_decode_length)
next
  case (Cons ch chs)
  show ?case
  proof (cases "sig_decode first (left @ ch)")
    case (Some r)
    obtain t first' left' where r: "r = (t, first', left')" by (cases r)
    show ?thesis using sig_decode_length [OF Some [unfolded r]] Cons [of first' left'] Some r
      by (cases "read_chunks first' left' chs") simp
  qed simp
qed

lemma read_lines_length: "length (fst (read_lines chunks)) \<le> length (concat chunks)"
proof -
  obtain s e where s: "read_text chunks = (s, e)" by (cases "read_text chunks")
  then have "length s \<le> length (concat chunks)"
    using read_chunks_length [of True "[]" "map (map unat) chunks"]
    by (simp add: read_text_def length_concat o_def)
  moreover have "length (complete_lines s) \<le> length (split_lines s)" by (simp add: complete_lines_def)
  ultimately show ?thesis using split_lines_length [of s] s by (simp add: read_lines_def)
qed

lemma scan_rows_bounded: "scan_rows e width n ls = Inr k \<Longrightarrow> k \<le> n + length ls"
proof (induction e width n ls rule: scan_rows.induct)
  case (1 e width n ls)
  show ?case
  proof (cases "k = n")
    case False
    then obtain row rest where r: "next_record e parse_reset ls = Inr (Some (row, rest))" "length row = width"
      "scan_rows e width (n + 1) rest = Inr k"
      using "1.prems" by (subst (asm) scan_rows.simps) (auto split: sum.splits option.splits if_splits)
    show ?thesis using "1.IH" [OF r(1)] r(2,3) next_record_shorter [OF r(1)] by fastforce
  qed simp
qed

lemma scan_csv_bounded:
  assumes "scan_csv chunks = Inr st"
  shows "row_count st \<le> length (concat chunks)"
proof -
  obtain ls e where ls: "read_lines chunks = (ls, e)" by (cases "read_lines chunks")
  then have "row_count st \<le> length ls" using assms
    by (auto simp: scan_csv_def scan_lines_def result_simps split: sum.splits option.splits
        dest!: scan_rows_bounded next_record_shorter)
  then show ?thesis using read_lines_length [of chunks] ls by simp
qed

lemma rows_bounded:
  assumes ok: "world_ok env w" and d: "d \<in> set (datasets w)" and whole: "\<And>b. concat (split_file env b) = b"
  shows "opt_all (\<lambda>n. n \<le> int MAX_CSV_BYTES) (dataset_row_count d)"
proof (cases "storage_key d")
  case None
  then have "no_upload d" using ok d
    by (auto simp: world_ok_def datasets_by_id.table_ok_def list_all_iff dataset_row_ok_def dataset_row_checks_def full_upload_def)
  then show ?thesis by (simp add: no_upload_def)
next
  case (Some k)
  then obtain b n cs where b: "length b \<le> MAX_CSV_BYTES" "dataset_row_count d = Some (int n)"
    "scan_csv (split_file env b) = Inr \<lparr>row_count = n, csv_columns = cs\<rparr>"
    using ok d unfolding world_ok_def upload_ok_def by blast
  have "n \<le> length b" using scan_csv_bounded [OF b(3)] whole by simp
  then show ?thesis using b by simp
qed

lemma datasets_obey:
  assumes ok: "data_ok env w" and accounts: "owners w \<subseteq> user_id ` set (users db)"
    and whole: "\<And>b. concat (split_file env b) = b"
  shows "table_obeys (stored_tables db w) create_datasets"
proof (rule table_obeysI [where enc = dataset_sql and rows = "datasets w"])
  fix d assume d: "d \<in> set (datasets w)"
  then have row: "dataset_row_ok d" and own: "owner_id d \<in> user_id ` set (users db)"
    using ok accounts by (auto simp: data_ok_def data_typed_def world_ok_def datasets_by_id.table_ok_def list_all_iff)
  have count: "opt_all (\<lambda>n. n \<le> int MAX_CSV_BYTES) (dataset_row_count d)"
    using rows_bounded [OF _ d whole] ok by (simp add: data_ok_def)
  have "row_fits create_datasets (dataset_sql d)"
    by (rule dataset_fits [OF row opt_all_mono [OF count]]) (simp add: MAX_CSV_BYTES_def)
  moreover have "list_all snd (row_checks create_datasets (dataset_sql d))"
    using row unfolding dataset_checks dataset_row_ok_def by (simp add: dataset_row_checks_def)
  ultimately show "row_fits create_datasets (dataset_sql d) \<and> row_complete create_datasets (dataset_sql d) \<and>
      list_all snd (row_checks create_datasets (dataset_sql d)) \<and>
      (\<forall>(n, ks, target, rs) \<in> set (foreign_keys (table_constraints create_datasets)).
         refers (stored_tables db w target) ks rs (dataset_sql d))"
    using own by (auto simp: obeys_simps)
qed (use ok in \<open>auto simp: obeys_simps data_ok_def world_ok_def datasets_by_id.table_ok_def intro!: keys_of_datasets\<close>)

lemma rules_obey:
  assumes ok: "data_ok env w"
  shows "table_obeys (stored_tables db w) create_rules"
proof (rule table_obeysI [where enc = rule_sql and rows = "rules w"])
  fix r assume r: "r \<in> set (rules w)"
  then have row: "rule_row_ok r" and fits: "rule_fits (datasets w) r"
    using ok by (auto simp: data_ok_def world_ok_def rules_by_id.table_ok_def list_all_iff)
  have "list_all snd (row_checks create_rules (rule_sql r))"
    using row unfolding rule_checks rule_row_ok_def by (simp add: rule_row_checks_def)
  moreover have "\<exists>d \<in> set (datasets w). rule_dataset_id r = dataset_id d" using fits unfolding rule_fits_def by metis
  ultimately show "row_fits create_rules (rule_sql r) \<and> row_complete create_rules (rule_sql r) \<and>
      list_all snd (row_checks create_rules (rule_sql r)) \<and>
      (\<forall>(n, ks, target, rs) \<in> set (foreign_keys (table_constraints create_rules)).
         refers (stored_tables db w target) ks rs (rule_sql r))"
    using rule_fits_columns [OF row] by (simp add: obeys_simps)
qed (use ok in \<open>auto simp: obeys_simps data_ok_def data_typed_def world_ok_def rules_by_id.table_ok_def rules_by_definition.table_ok_def
    intro!: keys_of_rules\<close>)

text \<open>The results of one analysis: their positions, and the bounds of their counts.\<close>

lemma stored_results:
  assumes ok: "data_ok env w" and a: "a \<in> set (analyses w)"
    and r: "r \<in> set (results w)" "row_analysis_id r = analysis_id a"
  shows "row_position r < 2 ^ 31" and "row_evaluated r + row_skipped r \<le> int MAX_CSV_BYTES"
    and "row_violations r \<le> int MAX_CSV_BYTES"
proof -
  let ?rows = "list_for_analysis (results w) (analysis_id a)"
  have con: "analysis_consistent a ?rows" and typed: "typed_analysis (results w) a" and row: "result_row_ok r"
    using ok a r(1) by (auto simp: data_ok_def data_typed_def history_ok_def results_by_position.table_ok_def list_all_iff)
  have mem: "r \<in> set ?rows" using r by (simp add: list_for_analysis_def order_by_def)
  then have "row_position r \<in> set (map row_position ?rows)" by simp
  then have "row_position r \<in> set (map int [0..<length ?rows])" using con by (simp only: analysis_consistent_def)
  then have "row_position r < int (length ?rows)" by auto
  then show "row_position r < 2 ^ 31" using typed by (simp add: typed_analysis_def)
  show "row_evaluated r + row_skipped r \<le> int MAX_CSV_BYTES"
    using con typed mem by (auto simp: analysis_consistent_def typed_analysis_def)
  then show "row_violations r \<le> int MAX_CSV_BYTES" using row by (simp add: result_row_ok_def result_row_checks_def)
qed

lemma sum_bounded: "(\<And>x. x \<in> set xs \<Longrightarrow> f x \<le> (k::int)) \<Longrightarrow> sum_list (map f xs) \<le> int (length xs) * k"
proof (induction xs)
  case (Cons x xs)
  then have "f x \<le> k" "sum_list (map f xs) \<le> int (length xs) * k" by simp_all
  then show ?case by (simp add: distrib_right)
qed simp

lemma analysis_total_counts:
  assumes ok: "data_ok env w" and a: "a \<in> set (analyses w)"
  shows "analysis_violations a < 2 ^ 63"
proof -
  let ?rows = "list_for_analysis (results w) (analysis_id a)"
  have con: "analysis_consistent a ?rows" and typed: "typed_analysis (results w) a"
    using ok a by (auto simp: data_ok_def data_typed_def history_ok_def)
  have "row_violations r \<le> int MAX_CSV_BYTES" if "r \<in> set ?rows" for r
    using that by (intro stored_results(3) [OF ok a]) (simp_all add: list_for_analysis_def order_by_def)
  then have "analysis_violations a \<le> int (length ?rows) * int MAX_CSV_BYTES"
    using con sum_bounded [of ?rows row_violations "int MAX_CSV_BYTES"] by (simp add: analysis_consistent_def)
  also have "\<dots> \<le> 2 ^ 31 * int MAX_CSV_BYTES" using typed by (simp add: typed_analysis_def MAX_CSV_BYTES_def)
  also have "\<dots> < 2 ^ 63" by (simp add: MAX_CSV_BYTES_def)
  finally show ?thesis .
qed

lemma analyses_obey:
  assumes ok: "data_ok env w"
  shows "table_obeys (stored_tables db w) create_analyses"
proof (rule table_obeysI [where enc = analysis_sql and rows = "analyses w"])
  fix a assume a: "a \<in> set (analyses w)"
  then have row: "analysis_row_ok a" and typed: "typed_analysis (results w) a"
    and owner: "analysis_dataset_id a \<in> dataset_id ` set (datasets w)"
    using ok by (auto simp: data_ok_def data_typed_def history_ok_def analyses_by_id.table_ok_def list_all_iff)
  have "row_fits create_analyses (analysis_sql a)"
    by (rule analysis_fits [OF row _ _ analysis_total_counts [OF ok a]]) (use typed in \<open>simp_all add: typed_analysis_def MAX_CSV_BYTES_def\<close>)
  moreover have "list_all snd (row_checks create_analyses (analysis_sql a))"
    using row unfolding analysis_checks analysis_row_ok_def by (simp add: analysis_row_checks_def Let_def)
  moreover have "\<exists>d \<in> set (datasets w). analysis_dataset_id a = dataset_id d" using owner by auto
  ultimately show "row_fits create_analyses (analysis_sql a) \<and> row_complete create_analyses (analysis_sql a) \<and>
      list_all snd (row_checks create_analyses (analysis_sql a)) \<and>
      (\<forall>(n, ks, target, rs) \<in> set (foreign_keys (table_constraints create_analyses)).
         refers (stored_tables db w target) ks rs (analysis_sql a))"
    by (simp add: obeys_simps)
qed (use ok in \<open>auto simp: obeys_simps data_ok_def data_typed_def history_ok_def analyses_by_id.table_ok_def intro!: keys_of_history\<close>)

lemma results_obey:
  assumes ok: "data_ok env w"
  shows "table_obeys (stored_tables db w) create_results"
proof (rule table_obeysI [where enc = result_sql and rows = "results w"])
  fix r assume r: "r \<in> set (results w)"
  then have row: "result_row_ok r" and "row_analysis_id r \<in> analysis_id ` set (analyses w)"
    using ok by (auto simp: data_ok_def data_typed_def history_ok_def results_by_position.table_ok_def list_all_iff)
  then obtain a where a: "a \<in> set (analyses w)" "row_analysis_id r = analysis_id a" by auto
  note bounds = stored_results [OF ok a(1) r a(2)]
  have "row_fits create_results (result_sql r)"
    by (rule result_fits [OF row bounds(1)]) (use bounds(2) in \<open>simp add: MAX_CSV_BYTES_def\<close>)
  moreover have "list_all snd (row_checks create_results (result_sql r))"
    using row unfolding result_checks result_row_ok_def by (simp add: result_row_checks_def)
  ultimately show "row_fits create_results (result_sql r) \<and> row_complete create_results (result_sql r) \<and>
      list_all snd (row_checks create_results (result_sql r)) \<and>
      (\<forall>(n, ks, target, rs) \<in> set (foreign_keys (table_constraints create_results)).
         refers (stored_tables db w target) ks rs (result_sql r))"
    using a by (auto simp: obeys_simps)
qed (use ok in \<open>auto simp: obeys_simps data_ok_def data_typed_def history_ok_def results_by_position.table_ok_def results_by_rule.table_ok_def
    intro!: keys_of_history\<close>)

lemma schema_satisfied:
  assumes "accounts_ok db" and "data_ok env w" and "owners w \<subseteq> user_id ` set (users db)"
    and "\<And>b. concat (split_file env b) = b"
  shows "satisfies head_schema (stored_tables db w)"
  using users_obey [OF assms(1)] sessions_obey [OF assms(1)] datasets_obey [OF assms(2-4)] rules_obey [OF assms(2)]
    analyses_obey [OF assms(2)] results_obey [OF assms(2)]
  by (simp add: satisfies_def head_schema_def)

section \<open>Accounts\<close>

text \<open>The hasher's results are printable: an Argon2 hash in the PHC string format.\<close>

definition storable_hashes :: "identity_env \<Rightarrow> bool" where
  "storable_hashes env \<longleftrightarrow>
     (\<forall>salt p h. hash_password (password_hasher env) salt p = Some h \<longrightarrow> storable_text h)"

definition accounts_grow :: "identity_db \<Rightarrow> identity_db \<Rightarrow> bool" where
  "accounts_grow db db' \<longleftrightarrow> (accounts_ok db \<longrightarrow> accounts_ok db') \<and> user_id ` set (users db) \<subseteq> user_id ` set (users db')"

lemma accounts_same: "(identity_ok db \<Longrightarrow> identity_ok db') \<Longrightarrow> users db' = users db \<Longrightarrow> accounts_grow db db'"
  by (simp add: accounts_grow_def accounts_ok_def)

lemma accounts_grow_refl [simp]: "accounts_grow db db"
  by (simp add: accounts_grow_def)

lemma accounts_grow_trans: "accounts_grow db db1 \<Longrightarrow> accounts_grow db1 db2 \<Longrightarrow> accounts_grow db db2"
  by (auto simp: accounts_grow_def)

lemma parts_positive:
  assumes "list_all Q (py_split 46 s)" and "\<And>p. Q p \<Longrightarrow> list_all (\<lambda>c. 0 < c) p"
  shows "list_all (\<lambda>c. 0 < c) s"
proof -
  have "0 < c" if "c \<in> set s" for c
    using py_split_elem [OF that, of 46] assms by (auto simp: list_all_iff)
  then show ?thesis by (simp add: list_all_iff)
qed

lemma class_positive: "in_cls atext c \<Longrightarrow> 0 < c" "in_cls label_inner c \<Longrightarrow> 0 < c"
  by (auto simp: atext_def label_inner_def)

lemma dot_atom_positive: "is_dot_atom s \<Longrightarrow> list_all (\<lambda>c. 0 < c) s"
  unfolding is_dot_atom_def by (erule parts_positive) (auto simp: list_all_iff class_positive)

lemma domain_positive: "list_all is_domain_label (py_split 46 s) \<Longrightarrow> list_all (\<lambda>c. 0 < c) s"
  by (erule parts_positive) (auto simp: list_all_iff is_domain_label_def class_positive)

lemma valid_address_chars:
  assumes "valid_address l d"
  shows "list_all (\<lambda>c. 0 < c \<and> c < 128) (l @ 64 # map ascii_lower d)"
    and "list_all (\<lambda>c. 0 < c \<and> c < 128) (map ascii_lower (l @ 64 # d))"
proof -
  have l: "list_all is_ascii l" "list_all (\<lambda>c. 0 < c) l" and d: "list_all is_ascii d" "list_all (\<lambda>c. 0 < c) d"
    using assms dot_atom_ascii domain_ascii dot_atom_positive domain_positive by (simp_all add: valid_address_def)
  have low: "0 < ascii_lower c \<and> ascii_lower c < 128" if "0 < c" "c < 128" for c
    using that by (simp add: ascii_lower_def)
  show "list_all (\<lambda>c. 0 < c \<and> c < 128) (l @ 64 # map ascii_lower d)"
    "list_all (\<lambda>c. 0 < c \<and> c < 128) (map ascii_lower (l @ 64 # d))"
    using l d low by (auto simp: list_all_iff is_ascii_def ascii_lower_def)
qed

lemma password_hash_storable:
  "storable_hashes env \<Longrightarrow> password_hash nf (password_hasher env) salt p = Inr h \<Longrightarrow> storable_text h"
  by (auto simp: storable_hashes_def password_hash_def result_simps split: option.splits)

lemma prepared_typed:
  assumes "storable_hashes env" and "prepare_registration env c address password = Inr (u, m, now)"
  shows "typed_account u"
proof (rule prepare_registration_Inr [OF assms(2)])
  fix ce pw h
  assume ce: "canonicalize_email address = Inr ce" and h: "password_hash (nfc env) (password_hasher env) (new_salt c) pw = Inr h"
    and u: "u = \<lparr>user_id = new_user_id c, user_email = email ce, user_email_normalized = email_normalized ce,
      user_password_hash = h, user_created_at = now, user_updated_at = now\<rparr>"
  from ce obtain l d where "valid_address l d" "ce = \<lparr>email = l @ 64 # map ascii_lower d, email_normalized = map ascii_lower (l @ 64 # d)\<rparr>"
    unfolding canonicalize_email_map by blast
  then show ?thesis using valid_address_chars password_hash_storable [OF assms(1) h] by (simp add: typed_account_def u)
qed

lemma register_grows:
  assumes "storable_hashes env"
  shows "accounts_grow db (snd (register env c address password db))"
proof -
  have ok: "identity_ok db \<Longrightarrow> identity_ok (snd (register env c address password db))" by (rule register_ok)
  obtain r db' where reg: "register env c address password db = (r, db')" by (cases "register env c address password db")
  show ?thesis
  proof (cases r)
    case (Inl e)
    then have "users db' = users db"
      using reg by (auto simp: register_def transaction_def split: sum.splits prod.splits option.splits)
    then show ?thesis using accounts_same [OF ok] reg by simp
  next
    case (Inr iss)
    show ?thesis
    proof (rule register_Inr [OF reg [unfolded Inr]], goal_cases)
      case (1 u m now db1)
      then have "users db' = users db @ [u]" using register_commit_users by simp
      then show ?case using ok reg prepared_typed [OF assms 1(1)] by (auto simp: accounts_grow_def accounts_ok_def)
    qed
  qed
qed

lemma authenticate_grows: "accounts_grow db (snd (authenticate env c bearer db))"
proof (rule accounts_same [OF authenticate_ok])
  show "users (snd (authenticate env c bearer db)) = users db"
    by (auto simp: authenticate_def transaction_def authenticate_body_def split: sum.splits option.splits prod.splits)
qed

lemma logout_grows: "accounts_grow db (snd (logout env c bearer supplied db))"
proof (rule accounts_same [OF logout_ok])
  show "users (snd (logout env c bearer supplied db)) = users db"
    by (auto simp: logout_def transaction_def logout_body_def update_session_def result_simps
        split: sum.splits option.splits prod.splits if_splits)
qed

lemma login_commit_grows:
  assumes commit: "login_commit snapshot replacement now m db = Inr (u', db')"
    and storable: "\<And>h. replacement = Some h \<Longrightarrow> storable_text h"
  shows "accounts_grow db db'"
proof (cases replacement)
  case None
  then have "users db' = users db" using commit
    by (auto simp: login_commit_def Let_def result_simps dest!: add_session_db split: option.splits if_splits)
  then show ?thesis using login_commit_ok [OF _ commit] by (intro accounts_same)
next
  case (Some h)
  then obtain u where u: "get_user (users db) (fst snapshot) = Some (Some u)"
    and u': "u' = u\<lparr>user_password_hash := h, user_updated_at := now\<rparr>"
    and users: "users db' = update_rows (\<lambda>r. user_id r = user_id u') (\<lambda>_. u') (users db)"
    using commit by (auto simp: login_commit_def Let_def result_simps update_user_def dest!: add_session_db split: option.splits if_splits)
  have "user_id ` set (users db') = user_id ` set (users db)" unfolding users by (rule image_update_rows) simp
  moreover have "list_all typed_account (users db')" if ok: "accounts_ok db"
  proof -
    have "u \<in> set (users db)" using get_user_iff u ok by (auto simp: accounts_ok_def)
    then have "typed_account u'" using ok storable [OF Some] by (auto simp: accounts_ok_def list_all_iff typed_account_def u')
    then show ?thesis using ok unfolding users by (auto simp: accounts_ok_def list_all_iff set_update_rows)
  qed
  ultimately show ?thesis using login_commit_ok [OF _ commit] by (simp add: accounts_grow_def accounts_ok_def)
qed

lemma cleanup_grows: "accounts_grow db (cleanup_after_success c n now db)"
  by (intro accounts_same) (simp_all add: cleanup_after_success_ok)

lemma finish_login_grows:
  assumes hashes: "storable_hashes env" and between: "accounts_grow db (meanwhile c db)"
  shows "accounts_grow db (snd (finish_login env c pw snapshot db))"
proof (cases "bind_result (check_password env c pw (snd snapshot)) (\<lambda>replacement.
           bind_result (validate_time (clock c)) (\<lambda>now.
           bind_result (issue_session env c (fst snapshot) now) (\<lambda>m. Inr (replacement, now, m))))")
  case (Inr x)
  obtain replacement now m where x: "x = (replacement, now, m)" by (cases x)
  have "check_password env c pw (snd snapshot) = Inr replacement" using Inr x by (auto simp: result_simps)
  then have storable: "storable_text h" if "replacement = Some h" for h
    using that password_hash_storable [OF hashes]
    by (auto simp: check_password_def reject_login_def result_simps split: if_splits)
  obtain r d where t: "transaction (fault c 1) (meanwhile c db) (login_commit snapshot replacement now m) = (r, d)"
    by (cases "transaction (fault c 1) (meanwhile c db) (login_commit snapshot replacement now m)")
  have "accounts_grow (meanwhile c db) d"
    using t login_commit_grows [OF _ storable]
    by (auto simp: transaction_def split: sum.splits option.splits prod.splits)
  then have "accounts_grow db d" using between accounts_grow_trans by blast
  then show ?thesis using Inr x t accounts_grow_trans [OF _ cleanup_grows]
    by (auto simp: finish_login_def split: sum.splits)
qed (simp add: finish_login_def)

lemma login_grows:
  assumes "storable_hashes env" and "\<And>d. accounts_grow d (meanwhile c d)"
  shows "accounts_grow db (snd (login env c address password db))"
  using finish_login_grows [OF assms]
  by (auto simp: login_def dest!: transaction_find_credentials split: sum.splits prod.splits option.splits)

section \<open>Datasets, rules and analyses\<close>

definition keeps_data :: "dataset_env \<Rightarrow> (analysis_world \<Rightarrow> analysis_world) \<Rightarrow> bool" where
  "keeps_data env f \<longleftrightarrow> (\<forall>w. data_ok env w \<longrightarrow> data_ok env (f w) \<and> owners (f w) = owners w)"

lemma data_typed_files [simp]: "data_typed (w\<lparr>files := fs\<rparr>) = data_typed w"
  by (simp add: data_typed_def)

lemma data_typed_row:
  assumes "data_typed w" and "d \<in> set (datasets w)"
  shows "data_typed (w\<lparr>datasets := update_rows (\<lambda>r. dataset_id r = dataset_id d)
     (\<lambda>_. uploaded d safe key cand st now) (datasets w)\<rparr>)"
  using assms by (auto simp: data_typed_def set_update_rows uploaded_def)

lemma create_dataset_data:
  assumes "data_ok env w"
  shows "data_ok env (snd (create_dataset env c owner name w)) \<and> owners (snd (create_dataset env c owner name w)) = owners w"
proof (cases rule: create_dataset_cases [of env c owner name w])
  case (added ref d)
  then have "owner_id d \<in> owners w" by (simp add: insert_dataset_Inr)
  then have "data_typed (snd (create_dataset env c owner name w))"
    using assms by (auto simp: data_ok_def data_typed_def added(3))
  then show ?thesis
    using assms create_dataset_ok [of env w c owner name] history_ok_create_dataset [of w env c owner name]
    by (simp add: data_ok_def added(3))
qed (use assms in simp)

lemma create_rule_data:
  assumes "data_ok env w"
  shows "data_ok env (snd (create_rule env c owner did ty column (canonical_rule_configuration p) w)) \<and>
    owners (snd (create_rule env c owner did ty column (canonical_rule_configuration p) w)) = owners w"
proof (cases rule: create_rule_cases [of env c owner did ty column "canonical_rule_configuration p" w])
  case (added r d cs)
  have "rule_row_ok r" using added(2) by (simp add: insert_rule_Inr)
  then have "canonical_configuration (rule_configuration r)"
    using added(9) by (auto simp: canonical_configuration_def rule_row_ok_def rule_row_checks_def)
  then have "data_typed (snd (create_rule env c owner did ty column (canonical_rule_configuration p) w))"
    using assms by (auto simp: data_ok_def data_typed_def added(1))
  then show ?thesis
    using assms create_rule_ok [of env w c owner did ty column "canonical_rule_configuration p"]
    by (simp add: data_ok_def added(1))
qed (use assms in simp)

lemma delete_rule_data:
  assumes "data_ok env w"
  shows "data_ok env (snd (delete_rule c owner did rid w)) \<and> owners (snd (delete_rule c owner did rid w)) = owners w"
proof (cases rule: delete_rule_cases [of c owner did rid w])
  case (removed r)
  have "data_typed (snd (delete_rule c owner did rid w))"
    using assms by (auto simp: data_ok_def data_typed_def removed(1))
  then show ?thesis using assms delete_rule_ok [of env w c owner did rid] by (simp add: data_ok_def removed(1))
qed (use assms in simp)

lemma upload_data:
  assumes ok: "data_ok env w" and polite: "others_polite env c" and between: "keeps_data env (in_between c)"
    and key: "unused_key (new_storage_key (key_uuid c)) w"
  shows "data_ok env (snd (upload_csv env c owner did fn source w)) \<and>
    owners (snd (upload_csv env c owner did fn source w)) = owners w"
proof -
  let ?P = "\<lambda>v. history_ok v \<and> data_typed v \<and> owners v = owners w"
  have "?P (snd (upload_csv env c owner did fn source w))"
  proof (rule upload_csv_between)
    show "?P w" using ok by (simp add: data_ok_def)
    show "?P (v\<lparr>files := fs\<rparr>)" if "?P v" for v fs using that by simp
    show "?P (in_between c (w\<lparr>files := fs\<rparr>))"
      if "write_candidate (file_sha256 env) (candidate_uuid c) (write_fails c) source (files w) = (r, fs)" for r fs
    proof -
      have "world_ok env (w\<lparr>files := fs\<rparr>)" using ok world_ok_files keeps_active_write [OF that] by (auto simp: data_ok_def)
      then have "data_ok env (w\<lparr>files := fs\<rparr>)" using ok by (simp add: data_ok_def)
      then show ?thesis using between by (simp add: keeps_data_def data_ok_def)
    qed
    fix v d safe cand st now assume v: "?P v" "d \<in> set (datasets v)"
    have ids: "dataset_id ` set (update_rows (\<lambda>r. dataset_id r = dataset_id d)
        (\<lambda>_. uploaded d safe (new_storage_key (key_uuid c)) cand st now) (datasets v)) = dataset_id ` set (datasets v)"
      by (rule image_update_rows) (simp add: uploaded_def)
    have "history_ok (v\<lparr>datasets := update_rows (\<lambda>r. dataset_id r = dataset_id d)
        (\<lambda>_. uploaded d safe (new_storage_key (key_uuid c)) cand st now) (datasets v)\<rparr>)"
      by (rule history_ok_same [of v]) (use v(1) ids in simp_all)
    then show "?P (v\<lparr>datasets := update_rows (\<lambda>r. dataset_id r = dataset_id d)
        (\<lambda>_. uploaded d safe (new_storage_key (key_uuid c)) cand st now) (datasets v)\<rparr>)"
      using v data_typed_row by simp
  qed
  then show ?thesis using upload_csv_ok [OF _ polite key] ok by (simp add: data_ok_def)
qed

lemma score_two_places: "calculate_quality_score rs = Inr score \<Longrightarrow> opt_all two_places score"
proof (cases score)
  case (Some q)
  assume "calculate_quality_score rs = Inr score"
  then obtain x where "quantize2 x = Inr q" using Some
    by (auto simp: calculate_quality_score_def Let_def result_simps split: if_splits)
  then have "q = of_int (half_up_signed (x * 100)) / 100" by (simp add: quantize2_def Let_def split: if_splits)
  then show ?thesis using Some by (simp add: two_places_def)
qed simp

lemma create_analysis_data:
  assumes ok: "data_ok env w" and between: "keeps_data env (while_analysing c)"
    and whole: "\<And>b. concat (split_file env b) = b" and few: "int (length (rules w)) \<le> 2 ^ 31"
  shows "data_ok env (snd (create_analysis aenv c owner did w)) \<and>
    owners (snd (create_analysis aenv c owner did w)) = owners w"
proof -
  let ?v = "while_analysing c w"
  have v: "data_ok env ?v" "owners ?v = owners w" using ok between by (simp_all add: keeps_data_def)
  obtain r w' where r: "create_analysis aenv c owner did w = (r, w')" by (cases "create_analysis aenv c owner did w")
  show ?thesis
  proof (cases r)
    case (Inl e)
    then show ?thesis using create_analysis_Inl [of aenv c owner did w e w'] r ok v by auto
  next
    case (Inr detail)
    show ?thesis
    proof (rule create_analysis_adds [OF r [unfolded Inr]], goal_cases)
      case (1 d content f adapted res now score rows a)
      note R = result_models_Inr [OF 1(8)]
      have d: "d \<in> set (datasets w)" using get_for_owner_Some [OF 1(1)] by simp
      then have "dataset_row_ok d" using ok by (auto simp: data_ok_def world_ok_def datasets_by_id.table_ok_def list_all_iff)
      then have name: "length (source_filename (source_of d)) \<le> 255"
        using 1(2) by (auto simp: source_of_def full_upload_def dataset_row_ok_def dataset_row_checks_def)
      have "opt_all (\<lambda>n. n \<le> int MAX_CSV_BYTES) (dataset_row_count d)"
        using rows_bounded [OF _ d whole] ok by (simp add: data_ok_def)
      then have rows: "source_rows (source_of d) \<le> int MAX_CSV_BYTES"
        using 1(2) by (auto simp: source_of_def full_upload_def)
      have "length (list_all_for_dataset (rules w) did) \<le> length (rules w)"
        by (simp add: list_all_for_dataset_def order_by_def)
      then have number: "int (length rows) \<le> 2 ^ 31" using few R list_all2_lengthD [OF 1(5)] by linarith
      have fresh: "analysis_id a \<notin> analysis_id ` set (analyses ?v)" using 1(11) by (simp add: insert_analysis_Inr)
      have mine: "row_analysis_id q = analysis_id a" if "q \<in> set rows" for q
        using result_models_analysis [OF 1(8) that] by (simp add: 1(10))
      have other: "list_for_analysis (results ?v @ rows) (analysis_id b) = list_for_analysis (results ?v) (analysis_id b)"
        if "b \<in> set (analyses ?v)" for b
        by (rule list_for_analysis_other) (use mine fresh that in \<open>auto simp: image_iff\<close>)
      have "\<forall>q \<in> set (results ?v). row_analysis_id q \<in> analysis_id ` set (analyses ?v)"
        using v(1) by (simp add: data_ok_def history_ok_def)
      then have "filter (\<lambda>q. row_analysis_id q = analysis_id a) (results ?v) = []"
        using fresh by (simp add: filter_empty_conv) metis
      then have "length (list_for_analysis (results ?v @ rows) (analysis_id a)) \<le> length rows"
        by (simp add: list_for_analysis_def order_by_def)
      then have "typed_analysis (results ?v @ rows) a"
        using name rows number score_two_places [OF 1(7)] by (simp add: typed_analysis_def 1(10))
      then have "data_typed w'"
        using v(1) other by (auto simp: data_ok_def data_typed_def typed_analysis_def 1(13))
      then show ?case
        using v ok r history_ok_create [of w c aenv owner did] world_ok_create_analysis [of env w c aenv owner did]
        by (auto simp: data_ok_def 1(13))
    qed
  qed
qed

section \<open>Requests\<close>

definition deployment_ok :: "api_env \<Rightarrow> api_state \<Rightarrow> bool" where
  "deployment_ok env s \<longleftrightarrow> accounts_ok (api_db s) \<and> data_ok (dataset_service env) (store_of s)"

text \<open>
  What a request may count on when it starts: its random storage key is not in use, and there are no
  more rules than positions in an analysis.
\<close>

definition ready :: "api_env \<Rightarrow> api_call \<Rightarrow> api_state \<Rightarrow> bool" where
  "ready env c s \<longleftrightarrow> deployment_ok env s \<and>
     unused_key (new_storage_key (key_uuid (dataset_inputs c))) (api_world s) \<and>
     int (length (rules (api_world s))) \<le> 2 ^ 31"

text \<open>What other requests do meanwhile keeps what this one counts on.\<close>

definition others_ok :: "api_env \<Rightarrow> api_call \<Rightarrow> bool" where
  "others_ok env c \<longleftrightarrow>
     (\<forall>s. ready env c s \<longrightarrow> ready env c (after_authentication c s)) \<and>
     (\<forall>db. accounts_grow db (meanwhile (identity_inputs c) db)) \<and>
     others_polite (dataset_service env) (dataset_inputs c) \<and>
     keeps_data (dataset_service env) (in_between (dataset_inputs c)) \<and>
     keeps_data (dataset_service env) (while_analysing (analysis_inputs c))"

definition leads :: "(api_state \<Rightarrow> bool) \<Rightarrow> 'a handler \<Rightarrow> (api_state \<Rightarrow> bool) \<Rightarrow> bool" where
  "leads P h Q \<longleftrightarrow> (\<forall>s. P s \<longrightarrow> Q (snd (h s)))"

lemma leads_then:
  assumes "leads P h P" and "\<And>s. P s \<Longrightarrow> Q s" and "\<And>x. leads P (k x) Q"
  shows "leads P (and_then h k) Q"
  unfolding leads_def and_then_def
proof (intro allI impI)
  fix s assume "P s"
  obtain x s1 where h: "h s = (x, s1)" by (cases "h s")
  then have "P s1" using assms(1) \<open>P s\<close> by (auto simp: leads_def dest: spec [of _ s])
  then show "Q (snd (case h s of (Inl e, s') \<Rightarrow> (Inl e, s') | (Inr x, s') \<Rightarrow> k x s'))"
    using h assms(2,3) by (cases x) (auto simp: leads_def)
qed

lemma leads_result: "(\<And>s. P s \<Longrightarrow> Q s) \<Longrightarrow> leads P (lift_result r) Q"
  by (simp add: leads_def)

lemma leads_lift:
  "(\<And>s. P s \<Longrightarrow> Q s) \<Longrightarrow> (\<And>x. r = Inr x \<Longrightarrow> leads P (k x) Q) \<Longrightarrow> leads P (and_then (lift_result r) k) Q"
  by (cases r) (simp_all add: leads_def and_then_def)

lemma leads_origin:
  "(\<And>s. P s \<Longrightarrow> Q s) \<Longrightarrow> (\<And>x. leads P (k x) Q) \<Longrightarrow> leads P (and_then (enforce_trusted_origin env req) k) Q"
  unfolding enforce_trusted_origin_def by (rule leads_lift)

lemma leads_split: "(\<And>a b. leads P (k a b) Q) \<Longrightarrow> leads P (case p of (a, b) \<Rightarrow> k a b) Q"
  by (cases p) simp

lemma ready_deployment: "ready env c s \<Longrightarrow> deployment_ok env s"
  by (simp add: ready_def)

text \<open>More accounts are more owners.\<close>

lemma data_ok_owners: "data_ok env w \<Longrightarrow> owners w \<subseteq> os \<Longrightarrow> data_ok env (w\<lparr>owners := os\<rparr>)"
  by (auto simp: data_ok_def data_typed_def world_ok_def history_ok_def)

lemma grow_deployment:
  assumes "deployment_ok env s" and "accounts_grow (api_db s) db"
  shows "deployment_ok env (s\<lparr>api_db := db\<rparr>)"
proof -
  have "data_ok (dataset_service env) ((store_of s)\<lparr>owners := user_id ` set (users db)\<rparr>)"
    using assms by (intro data_ok_owners) (auto simp: deployment_ok_def accounts_grow_def store_of_def)
  then show ?thesis using assms by (simp add: deployment_ok_def accounts_grow_def store_of_def)
qed

lemma leads_db:
  assumes "\<And>db. accounts_grow db (snd (f db))"
  shows "leads (ready env c) (on_db f) (ready env c)"
  using assms grow_deployment by (auto simp: leads_def ready_def on_db_def split: prod.splits) (metis snd_conv)

lemma weaken_leads: "leads P h Q \<Longrightarrow> (\<And>s. Q s \<Longrightarrow> R s) \<Longrightarrow> leads P h R"
  by (auto simp: leads_def)

lemma leads_others:
  assumes "others_ok env c"
  shows "leads (ready env c) (\<lambda>s. (Inr x, after_authentication c s)) (ready env c)"
  using assms by (simp add: leads_def others_ok_def)

lemma context_grows: "accounts_grow db (snd (require_authenticated_context ienv ic st req db))"
  using authenticate_grows [of db ienv ic "get_session_cookie st req"]
  by (auto simp: require_authenticated_context_def split: prod.splits sum.splits)

lemma mutation_grows: "accounts_grow db (snd (require_authenticated_mutation ienv ic st req db))"
  using context_grows [of db ienv ic st req]
  by (auto simp: require_authenticated_mutation_def split: prod.splits sum.splits)

lemma leads_session:
  assumes "others_ok env c" and "\<And>ctx. leads (ready env c) (k ctx) (deployment_ok env)"
  shows "leads (ready env c) (and_then (session_context env c req) k) (deployment_ok env)"
    and "leads (ready env c) (and_then (session_mutation env c req) k) (deployment_ok env)"
proof -
  have "leads (ready env c) (session_context env c req) (ready env c)"
    "leads (ready env c) (session_mutation env c req) (ready env c)"
    unfolding session_context_def session_mutation_def
    by (intro leads_then leads_db context_grows mutation_grows leads_others [OF assms(1)]; assumption)+
  then show "leads (ready env c) (and_then (session_context env c req) k) (deployment_ok env)"
    "leads (ready env c) (and_then (session_mutation env c req) k) (deployment_ok env)"
    using assms(2) ready_deployment by (auto intro!: leads_then)
qed

lemma leads_store:
  assumes "\<And>w. data_ok (dataset_service env) w \<Longrightarrow> unused_key (new_storage_key (key_uuid (dataset_inputs c))) w \<Longrightarrow>
      int (length (rules w)) \<le> 2 ^ 31 \<Longrightarrow> data_ok (dataset_service env) (snd (f w)) \<and> owners (snd (f w)) = owners w"
  shows "leads (ready env c) (on_store f) (deployment_ok env)"
  unfolding leads_def
proof (intro allI impI)
  fix s assume s: "ready env c s"
  have "unused_key (new_storage_key (key_uuid (dataset_inputs c))) (store_of s)" "int (length (rules (store_of s))) \<le> 2 ^ 31"
    using s by (simp_all add: ready_def store_of_def unused_key_def)
  then have w: "data_ok (dataset_service env) (snd (f (store_of s)))" "owners (snd (f (store_of s))) = owners (store_of s)"
    using assms s by (simp_all add: ready_def deployment_ok_def)
  have "owners (store_of s) = user_id ` set (users (api_db s))" by (simp add: store_of_def)
  then show "deployment_ok env (snd (on_store f s))"
    using w data_ok_owners [OF w(1)] s by (auto simp: on_store_def ready_def deployment_ok_def store_of_def split: prod.splits)
qed

lemma snd_mapped [simp]: "snd (case p of (r, w') \<Rightarrow> (g r, w')) = snd p"
  by (cases p) simp

lemma leads_serve:
  assumes "\<And>w. data_ok (dataset_service env) w \<Longrightarrow> unused_key (new_storage_key (key_uuid (dataset_inputs c))) w \<Longrightarrow>
      int (length (rules w)) \<le> 2 ^ 31 \<Longrightarrow> data_ok (dataset_service env) (snd (f w)) \<and> owners (snd (f w)) = owners w"
  shows "leads (ready env c) (serve exc shown f) (deployment_ok env)"
  unfolding serve_def by (rule leads_store) (simp add: assms)

lemma leads_serve_analysis:
  assumes "\<And>w. data_ok (dataset_service env) w \<Longrightarrow> unused_key (new_storage_key (key_uuid (dataset_inputs c))) w \<Longrightarrow>
      int (length (rules w)) \<le> 2 ^ 31 \<Longrightarrow> data_ok (dataset_service env) (snd (f w)) \<and> owners (snd (f w)) = owners w"
  shows "leads (ready env c) (serve_analysis exc shown f) (deployment_ok env)"
  unfolding serve_analysis_def by (rule leads_store) (simp add: assms)

lemma login_handler_grows:
  assumes "storable_hashes (identity env)" and "others_ok env c"
  shows "leads (ready env c) (login_handler env c given) (ready env c)"
  unfolding login_handler_def
proof (rule leads_db)
  show "accounts_grow db (snd (case login (identity env) (identity_inputs c) (fst given) (snd given) db of
      (Inl e, db') \<Rightarrow> (Inl (login_exc e), db') | (Inr i, db') \<Rightarrow> (Inr (session_issued env 200 i), db')))" for db
    using login_grows [OF assms(1), of "identity_inputs c" db "fst given" "snd given"] assms(2)
    by (auto simp: others_ok_def split: prod.splits sum.splits)
qed

lemma register_handler_grows:
  assumes "storable_hashes (identity env)"
  shows "leads (ready env c) (register_handler env c given) (ready env c)"
  unfolding register_handler_def
proof (rule leads_db)
  show "accounts_grow db (snd (case register (identity env) (identity_inputs c) (fst given) (snd given) db of
      (Inl e, db') \<Rightarrow> (Inl (register_exc e), db') | (Inr i, db') \<Rightarrow> (Inr (session_issued env 201 i), db')))" for db
    using register_grows [OF assms(1), of db "identity_inputs c" "fst given" "snd given"]
    by (auto split: prod.splits sum.splits)
qed

lemma logout_handler_grows:
  "leads (ready env c) (on_db (\<lambda>db. case logout (identity env) (identity_inputs c) bearer supplied db of
      (Inl e, db') \<Rightarrow> (Inl (logout_exc e), db') | (Inr _, db') \<Rightarrow> (Inr (logout_response env), db'))) (ready env c)"
proof (rule leads_db)
  show "accounts_grow db (snd (case logout (identity env) (identity_inputs c) bearer supplied db of
      (Inl e, db') \<Rightarrow> (Inl (logout_exc e), db') | (Inr _, db') \<Rightarrow> (Inr (logout_response env), db')))" for db
    using logout_grows [of db "identity env" "identity_inputs c" bearer supplied]
    by (auto split: prod.splits sum.splits)
qed

lemmas route_defs = register_route_def login_route_def credentials_route_def me_route_def logout_route_def
  create_dataset_route_def list_datasets_route_def get_dataset_route_def upload_csv_route_def create_rule_route_def
  list_rules_route_def delete_rule_route_def create_analysis_route_def list_analyses_route_def get_analysis_route_def

lemma route_leads:
  assumes "storable_hashes (identity env)" and "\<And>b. concat (split_file (dataset_service env) b) = b" and "others_ok env c"
  shows "leads (ready env c) (route env c req e) (deployment_ok env)"
proof -
  note accounts = weaken_leads [OF register_handler_grows [OF assms(1)] ready_deployment]
    weaken_leads [OF login_handler_grows [OF assms(1,3)] ready_deployment]
    weaken_leads [OF logout_handler_grows ready_deployment]
  have between: "others_polite (dataset_service env) (dataset_inputs c)"
    "keeps_data (dataset_service env) (in_between (dataset_inputs c))"
    "keeps_data (dataset_service env) (while_analysing (analysis_inputs c))"
    using assms(3) by (simp_all add: others_ok_def)
  note data = create_dataset_data create_rule_data delete_rule_data upload_data [OF _ between(1,2)]
    create_analysis_data [OF _ between(3) assms(2)]
  show ?thesis
    by (cases e)
      (auto simp: route_defs
        intro!: leads_lift leads_origin leads_session [OF assms(3)] leads_split leads_result leads_serve leads_serve_analysis
          accounts data ready_deployment)
qed

text \<open>A deployment and the requests it has served, one after another.\<close>

definition fresh_deployment :: api_state where
  "fresh_deployment = \<lparr>api_db = no_accounts, api_world = no_data\<rparr>"

inductive serves :: "api_env \<Rightarrow> api_state \<Rightarrow> api_state \<Rightarrow> bool" for env start where
  serves_none: "serves env start start"
| serves_more: "serves env start s \<Longrightarrow> others_ok env c \<Longrightarrow>
    unused_key (new_storage_key (key_uuid (dataset_inputs c))) (api_world s) \<Longrightarrow> int (length (rules (api_world s))) \<le> 2 ^ 31 \<Longrightarrow>
    serves env start (snd (respond_to env c req e s))"

lemma serves_deployment:
  assumes "serves env start s" and "deployment_ok env start"
    and "storable_hashes (identity env)" and "\<And>b. concat (split_file (dataset_service env) b) = b"
  shows "deployment_ok env s"
  using assms(1)
proof induction
  case (serves_more s c req e)
  then have "ready env c s" by (simp add: ready_def)
  moreover have "snd (respond_to env c req e s) = snd (route env c req e s)" by (simp add: respond_to_def split: prod.splits)
  ultimately show ?case using route_leads [OF assms(3,4) serves_more(2)] by (simp add: leads_def)
qed (rule assms(2))

lemma fresh_deployment_ok: "deployment_ok env fresh_deployment"
  by (simp add: deployment_ok_def accounts_ok_def data_ok_def data_typed_def world_ok_def history_ok_def identity_ok_def
      fresh_deployment_def no_accounts_def no_data_def store_of_def users_by_id.table_ok_def users_by_email.table_ok_def
      sessions_by_id.table_ok_def sessions_by_token.table_ok_def datasets_by_id.table_ok_def rules_by_id.table_ok_def
      rules_by_definition.table_ok_def analyses_by_id.table_ok_def results_by_position.table_ok_def results_by_rule.table_ok_def)

section \<open>Responses\<close>

lemma deployment_reads_are_shown:
  assumes "deployment_ok env s"
  shows "list_rules c owner did limit offset (store_of s) = (Inr refs, w) \<Longrightarrow> \<exists>shown. map_results rule_response_of refs = Inr shown"
    and "get_analysis c' owner did aid (store_of s) = (Inr detail, w') \<Longrightarrow> \<exists>shown. analysis_detail_of detail = Inr shown"
  using assms stored_rules_shown [of "dataset_service env" "store_of s"] stored_analysis_shown [of "store_of s"]
  by (simp_all add: deployment_ok_def data_ok_def)

section \<open>Properties\<close>

text \<open>
  C2. A deployment stays within its schema: whatever requests it has served since it was migrated and
  empty, succeeding or failing and with others in between, its data satisfies every constraint of the
  tables \<open>alembic upgrade head\<close> has created: the types and widths of the columns, checks, keys and references.
\<close>

theorem deployment_stays_within_schema:
  assumes "upgrade_head None empty_database = (Inr (), head)" and "serves env fresh_deployment s"
    and "storable_hashes (identity env)" and "\<And>b. concat (split_file (dataset_service env) b) = b"
  shows "satisfies (relations head) (stored_tables (api_db s) (api_world s))"
proof -
  have "deployment_ok env s" using serves_deployment [OF assms(2) fresh_deployment_ok assms(3,4)] .
  then have "satisfies head_schema (stored_tables (api_db s) (store_of s))"
    by (intro schema_satisfied [OF _ _ _ assms(4)]) (simp_all add: deployment_ok_def, simp add: store_of_def)
  moreover have "stored_tables (api_db s) (store_of s) = stored_tables (api_db s) (api_world s)"
    by (rule ext) (simp add: stored_tables_def store_of_def)
  moreover have "relations head = head_schema" using assms(1) empty_upgrade by (auto simp: head_database_def)
  ultimately show ?thesis by simp
qed

text \<open>A deployment that has served a registration.\<close>

lemma sample_others: "others_ok sample_api (sample_api_call 0)"
  by (simp add: others_ok_def sample_api_call_def sample_call_def sample_dataset_call'_def sample_analysis_call_def
      others_polite_def keeps_data_def)

lemma sample_hashes: "storable_hashes (identity sample_api)"
  by (simp add: storable_hashes_def sample_api_def sample_env_def shifting_hasher_def storable_text_def)

theorem deployment_stays_within_schema_witness:
  "\<exists>s. serves sample_api fresh_deployment s \<and> length (users (api_db s)) = 1 \<and>
     satisfies head_schema (stored_tables (api_db s) (api_world s))"
proof -
  let ?request = "respond_to sample_api (sample_api_call 0) (sample_request (\<lambda>_. None)) (Register sample_credentials)"
  obtain iss db1 where reg:
    "register sample_env (sample_call 0 2 9) (lit ''A@b.Co'') sample_password empty_db = (Inr iss, db1)"
    by (rule sample_registration)
  have "length (users db1) = 1"
    by (rule register_Inr [OF reg]) (simp add: register_commit_users empty_db_def)
  moreover have "api_db (snd (?request fresh_deployment)) = db1"
    using sample_registered [of fresh_deployment] reg by (simp add: fresh_deployment_def no_accounts_def empty_db_def)
  moreover have "serves sample_api fresh_deployment (snd (?request fresh_deployment))"
    by (intro serves_more serves_none sample_others) (simp_all add: fresh_deployment_def no_data_def unused_key_def)
  moreover have "concat (split_file (dataset_service sample_api) b) = b" for b
    by (simp add: sample_api_def sample_files_env_def)
  ultimately show ?thesis
    using deployment_stays_within_schema [OF empty_upgrade _ sample_hashes] by (auto simp: head_database_def)
qed

end
