(* ===== verification/Lifecycle.thy ===== *)
theory Lifecycle
  imports Origins
begin

text \<open>
  The life of the process: what \<open>create_app\<close> is given, what its lifespan opens, keeps in
  \<open>application.state\<close> and closes again (\<open>main.py\<close>, \<open>infrastructure/database.py\<close>), how the
  dependencies read it (\<open>api/dependencies.py\<close>), and the operational routes that work beside the API
  (\<open>operational/routes.py\<close>). Engines made by \<open>create_database_resources\<close> are numbered; creating one
  opens no connection, disposing of it does not fail.
\<close>

section \<open>State\<close>

datatype engine = SuppliedEngine | OwnedEngine nat

datatype probe = SuppliedProbe | EngineProbe engine

datatype service = SuppliedService | ServiceOn engine

text \<open>Which arguments of \<open>create_app\<close> are not \<open>None\<close>.\<close>

record app_arguments =
  probe_given :: bool
  resources_given :: bool
  identity_given :: bool
  dataset_given :: bool
  analysis_given :: bool

text \<open>\<open>Running\<close> holds what the suspended lifespan owns: the engine it will dispose of, if any.\<close>

datatype phase = Stopped | Running "engine option"

record process =
  phase :: phase
  active_probe :: "probe option"
  identity_state :: "service option"
  dataset_state :: "service option"
  analysis_state :: "service option"
  engines_created :: nat
  engines_disposed :: "engine list"

definition new_process :: process where
  "new_process = \<lparr>phase = Stopped, active_probe = None, identity_state = None, dataset_state = None,
     analysis_state = None, engines_created = 0, engines_disposed = []\<rparr>"

section \<open>The lifespan\<close>

datatype startup_error = EngineNotCreated | StorageNotCreated | AssertionFails

text \<open>Whether \<open>create_engine\<close> refuses the URL, and whether the storage root cannot be made.\<close>

record startup_faults =
  engine_fails :: bool
  storage_fails :: bool

text \<open>The resources to use, those of them that are owned, and the process with its probe.\<close>

definition open_resources ::
  "app_arguments \<Rightarrow> startup_faults \<Rightarrow> process \<Rightarrow> startup_error + engine option \<times> engine option \<times> process" where
  "open_resources args faults p =
     (let supplied = (if resources_given args then Some SuppliedEngine else None) in
      if probe_given args then Inr (supplied, None, p\<lparr>active_probe := Some SuppliedProbe\<rparr>)
      else (case supplied of
          Some e \<Rightarrow> Inr (Some e, None, p\<lparr>active_probe := Some (EngineProbe e)\<rparr>)
        | None \<Rightarrow>
            if engine_fails faults then Inl EngineNotCreated
            else let e = OwnedEngine (engines_created p) in
              Inr (Some e, Some e,
                p\<lparr>engines_created := engines_created p + 1, active_probe := Some (EngineProbe e)\<rparr>)))"

text \<open>A service that was supplied, or one on the resources; that one may need the storage.\<close>

definition identity_for :: "bool \<Rightarrow> engine option \<Rightarrow> service option" where
  "identity_for given resources = (if given then Some SuppliedService else map_option ServiceOn resources)"

definition stored_service_for :: "bool \<Rightarrow> engine option \<Rightarrow> bool \<Rightarrow> startup_error + service option" where
  "stored_service_for given resources storage =
     (if given then Inr (Some SuppliedService)
      else case resources of
          None \<Rightarrow> Inr None
        | Some e \<Rightarrow> if storage then Inr (Some (ServiceOn e)) else Inl AssertionFails)"

definition startup :: "app_arguments \<Rightarrow> startup_faults \<Rightarrow> process \<Rightarrow> startup_error option \<times> process" where
  "startup args faults p =
     (case open_resources args faults p of
        Inl e \<Rightarrow> (Some e, p)
      | Inr (resources, owned, p) \<Rightarrow>
          let p = p\<lparr>identity_state := identity_for (identity_given args) resources\<rparr>;
              storage = (resources \<noteq> None \<and> (\<not> dataset_given args \<or> \<not> analysis_given args)) in
          if storage \<and> storage_fails faults then (Some StorageNotCreated, p)
          else (case stored_service_for (dataset_given args) resources storage of
              Inl e \<Rightarrow> (Some e, p)
            | Inr d \<Rightarrow>
                let p = p\<lparr>dataset_state := d\<rparr> in
                (case stored_service_for (analysis_given args) resources storage of
                   Inl e \<Rightarrow> (Some e, p)
                 | Inr a \<Rightarrow> (None, p\<lparr>analysis_state := a, phase := Running owned\<rparr>))))"

definition shutdown :: "process \<Rightarrow> process" where
  "shutdown p =
     (case phase p of
        Stopped \<Rightarrow> p
      | Running owned \<Rightarrow>
          p\<lparr>phase := Stopped, active_probe := None, identity_state := None, dataset_state := None, analysis_state := None,
            engines_disposed := engines_disposed p @ (case owned of None \<Rightarrow> [] | Some e \<Rightarrow> [e])\<rparr>)"

text \<open>
  The server runs one lifespan at a time. One that fails to start has no end: its \<open>finally\<close> is not
  reached, so what it has set so far stays. \<open>reliable\<close> says that the storage root can always be made.
\<close>

inductive lifespan :: "app_arguments \<Rightarrow> bool \<Rightarrow> process \<Rightarrow> process \<Rightarrow> bool" for args reliable where
  fresh: "lifespan args reliable p p"
| started: "lifespan args reliable p q \<Longrightarrow> phase q = Stopped \<Longrightarrow> (reliable \<Longrightarrow> \<not> storage_fails faults) \<Longrightarrow>
    startup args faults q = (None, r) \<Longrightarrow> lifespan args reliable p r"
| refused: "lifespan args reliable p q \<Longrightarrow> phase q = Stopped \<Longrightarrow> (reliable \<Longrightarrow> \<not> storage_fails faults) \<Longrightarrow>
    startup args faults q = (Some e, r) \<Longrightarrow> lifespan args reliable p r"
| stopped: "lifespan args reliable p q \<Longrightarrow> phase q = Running owned \<Longrightarrow> lifespan args reliable p (shutdown q)"

section \<open>Reading the state\<close>

datatype runtime_error = LifespanNotActive | ServiceUnavailable

definition get_database_probe :: "process \<Rightarrow> runtime_error + probe" where
  "get_database_probe p = (case active_probe p of None \<Rightarrow> Inl LifespanNotActive | Some probe \<Rightarrow> Inr probe)"

definition available :: "service option \<Rightarrow> runtime_error + service" where
  "available s = (case s of None \<Rightarrow> Inl ServiceUnavailable | Some service \<Rightarrow> Inr service)"

definition get_identity_service :: "process \<Rightarrow> runtime_error + service" where
  "get_identity_service p = available (identity_state p)"



text \<open>Status and body of the operational routes; \<open>works\<close> is whether the probe returns.\<close>

definition health :: "nat \<times> string" where
  "health = (200, ''ok'')"

definition readiness :: "(probe \<Rightarrow> bool) \<Rightarrow> process \<Rightarrow> runtime_error + nat \<times> string" where
  "readiness works p =
     map_sum id (\<lambda>probe. if works probe then (200, ''ready'') else (503, ''unavailable'')) (get_database_probe p)"

section \<open>The lazy application\<close>

text \<open>
  \<open>LazyConfiguredApplication\<close>: the application is made at the first call; a factory that raises is
  called again at the next one. No other call runs between the test and the assignment.
\<close>

definition lazy_call :: "'e + 'app \<Rightarrow> 'app option \<Rightarrow> ('e + 'app) \<times> 'app option" where
  "lazy_call made held =
     (case held of
        Some a \<Rightarrow> (Inr a, held)
      | None \<Rightarrow> (case made of Inl e \<Rightarrow> (Inl e, None) | Inr a \<Rightarrow> (Inr a, Some a)))"

fun lazy_calls :: "('e + 'app) list \<Rightarrow> 'app option \<Rightarrow> ('e + 'app) list" where
  "lazy_calls [] held = []"
| "lazy_calls (made # ms) held = (case lazy_call made held of (r, held') \<Rightarrow> r # lazy_calls ms held')"

section \<open>What a start does\<close>

definition resources_used :: "app_arguments \<Rightarrow> nat \<Rightarrow> engine option" where
  "resources_used args n =
     (if resources_given args then Some SuppliedEngine else if probe_given args then None else Some (OwnedEngine n))"

definition makes_engine :: "app_arguments \<Rightarrow> bool" where
  "makes_engine args \<longleftrightarrow> \<not> probe_given args \<and> \<not> resources_given args"

lemma startup_ok:
  assumes "startup args faults p = (None, r)"
  shows "r = p\<lparr>phase := Running (if makes_engine args then Some (OwnedEngine (engines_created p)) else None),
      active_probe := (if probe_given args then Some SuppliedProbe
        else map_option EngineProbe (resources_used args (engines_created p))),
      identity_state := identity_for (identity_given args) (resources_used args (engines_created p)),
      dataset_state := identity_for (dataset_given args) (resources_used args (engines_created p)),
      analysis_state := identity_for (analysis_given args) (resources_used args (engines_created p)),
      engines_created := engines_created p + (if makes_engine args then 1 else 0)\<rparr>"
  using assms
  by (cases "resources_given args"; cases "probe_given args"; cases "dataset_given args"; cases "analysis_given args")
    (auto simp: startup_def open_resources_def stored_service_for_def identity_for_def resources_used_def makes_engine_def
      Let_def split: if_splits)

lemma startup_refused:
  assumes "startup args faults p = (Some e, r)" and "\<not> storage_fails faults"
  shows "r = p \<and> e = EngineNotCreated \<and> makes_engine args"
  using assms
  by (cases "resources_given args"; cases "probe_given args"; cases "dataset_given args"; cases "analysis_given args")
    (auto simp: startup_def open_resources_def stored_service_for_def identity_for_def makes_engine_def Let_def split: if_splits)

lemma startup_never_asserts: "startup args faults p \<noteq> (Some AssertionFails, r)"
  by (cases "resources_given args"; cases "probe_given args"; cases "dataset_given args"; cases "analysis_given args")
    (auto simp: startup_def open_resources_def stored_service_for_def identity_for_def Let_def split: if_splits)

lemma startup_keeps:
  assumes "startup args faults p = (x, r)"
  shows "engines_disposed r = engines_disposed p" and "engines_created p \<le> engines_created r"
    and "x \<noteq> None \<Longrightarrow> phase r = phase p"
  using assms
  by (cases "resources_given args"; cases "probe_given args"; cases "dataset_given args"; cases "analysis_given args";
      auto simp: startup_def open_resources_def stored_service_for_def identity_for_def Let_def split: if_splits)+

section \<open>The invariant\<close>

definition owned_engines :: "nat \<Rightarrow> engine set" where
  "owned_engines n = OwnedEngine ` {..<n}"

lemma owned_engines_Suc: "owned_engines (Suc n) = insert (OwnedEngine n) (owned_engines n)"
  by (auto simp: owned_engines_def lessThan_Suc)

lemma owned_engine_fresh: "OwnedEngine n \<notin> owned_engines n"
  by (auto simp: owned_engines_def)

text \<open>
  While the process runs, its probe and services are the supplied ones or work on the resources;
  when it is stopped, there are none, and every engine it made has been disposed of.
\<close>

definition slots_of :: "process \<Rightarrow> probe option \<times> service option \<times> service option \<times> service option" where
  "slots_of p = (active_probe p, identity_state p, dataset_state p, analysis_state p)"

definition running_ok :: "app_arguments \<Rightarrow> engine option \<Rightarrow> process \<Rightarrow> bool" where
  "running_ok args owned p \<longleftrightarrow>
     (let used = (if resources_given args then Some SuppliedEngine else owned) in
      owned = (if makes_engine args then Some (OwnedEngine (engines_created p - 1)) else None) \<and>
      (\<forall>e. owned = Some e \<longrightarrow> e \<in> owned_engines (engines_created p) \<and> e \<notin> set (engines_disposed p)) \<and>
      slots_of p =
        (if probe_given args then Some SuppliedProbe else map_option EngineProbe used,
         identity_for (identity_given args) used, identity_for (dataset_given args) used,
         identity_for (analysis_given args) used))"

definition process_ok :: "app_arguments \<Rightarrow> bool \<Rightarrow> process \<Rightarrow> bool" where
  "process_ok args reliable p \<longleftrightarrow>
     distinct (engines_disposed p) \<and> set (engines_disposed p) \<subseteq> owned_engines (engines_created p) \<and>
     (case phase p of
        Stopped \<Rightarrow> reliable \<longrightarrow> slots_of p = (None, None, None, None) \<and>
          set (engines_disposed p) = owned_engines (engines_created p)
      | Running owned \<Rightarrow> running_ok args owned p \<and>
          (reliable \<longrightarrow> set (engines_disposed p) \<union> set_option owned = owned_engines (engines_created p)))"

lemma startup_process_ok:
  assumes ok: "process_ok args reliable p" and "phase p = Stopped" and start: "startup args faults p = (None, r)"
  shows "process_ok args reliable r"
  using ok assms(2) owned_engine_fresh [of "engines_created p"] unfolding startup_ok [OF start]
  by (auto simp: process_ok_def running_ok_def Let_def slots_of_def resources_used_def makes_engine_def owned_engines_Suc
      identity_for_def)

lemma refused_process_ok:
  assumes ok: "process_ok args reliable p" and stopped: "phase p = Stopped" and "reliable \<Longrightarrow> \<not> storage_fails faults"
    and start: "startup args faults p = (Some e, r)"
  shows "process_ok args reliable r"
proof (cases reliable)
  case True
  then show ?thesis using ok startup_refused [OF start] assms(3) by simp
next
  case False
  have "owned_engines (engines_created p) \<subseteq> owned_engines (engines_created r)"
    using startup_keeps(2) [OF start] by (auto simp: owned_engines_def)
  then show ?thesis using ok stopped startup_keeps [OF start] False by (auto simp: process_ok_def)
qed

lemma shutdown_process_ok:
  assumes "process_ok args reliable p"
  shows "process_ok args reliable (shutdown p)"
proof (cases "phase p")
  case Stopped
  then show ?thesis using assms by (simp add: shutdown_def)
next
  case (Running owned)
  then show ?thesis using assms
    by (cases owned) (auto simp: shutdown_def process_ok_def running_ok_def slots_of_def Let_def)
qed

lemma lifespan_process_ok: "lifespan args reliable p q \<Longrightarrow> process_ok args reliable p \<Longrightarrow> process_ok args reliable q"
  by (induction rule: lifespan.induct) (auto intro: startup_process_ok refused_process_ok shutdown_process_ok)

lemma new_process_ok: "process_ok args reliable new_process"
  by (simp add: process_ok_def new_process_def slots_of_def owned_engines_def)


text \<open>An engine that no running lifespan owns is never disposed of.\<close>

lemma abandoned_engine:
  assumes "lifespan args reliable p q"
    and "OwnedEngine n \<notin> set (engines_disposed p) \<and> n < engines_created p \<and> phase p \<noteq> Running (Some (OwnedEngine n))"
  shows "OwnedEngine n \<notin> set (engines_disposed q) \<and> n < engines_created q \<and> phase q \<noteq> Running (Some (OwnedEngine n))"
  using assms
proof (induction rule: lifespan.induct)
  case (started q faults r)
  then show ?case using startup_ok [OF started(4)] by auto
next
  case (refused q faults e r)
  then show ?case using startup_keeps [OF refused(4)] by auto
next
  case (stopped q owned)
  then show ?case by (cases owned) (auto simp: shutdown_def)
qed simp

lemma lazy_held: "lazy_calls ms (Some a) = replicate (length ms) (Inr a)"
  by (induction ms) (simp_all add: lazy_call_def)

text \<open>The first application made serves every later call.\<close>

lemma lazy_application: "lazy_calls (map Inl es @ Inr a # ms) None = map Inl es @ replicate (length (Inr a # ms)) (Inr a)"
  by (induction es) (simp_all add: lazy_call_def lazy_held)

section \<open>Properties\<close>



text \<open>
  A start that fails on the storage root is not undone: the engine it has created stays the one of the
  probe and the identity service, and is not disposed of, whatever follows.
\<close>

theorem failed_start_keeps_engine:
  assumes "makes_engine args" and "\<not> identity_given args" and "\<not> dataset_given args \<or> \<not> analysis_given args"
    and "\<not> engine_fails faults" and "storage_fails faults"
    and "lifespan args False new_process p" and "phase p = Stopped"
  shows "\<exists>r. startup args faults p = (Some StorageNotCreated, r) \<and>
    get_database_probe r = Inr (EngineProbe (OwnedEngine (engines_created p))) \<and>
    get_identity_service r = Inr (ServiceOn (OwnedEngine (engines_created p))) \<and>
    (\<forall>q. lifespan args False r q \<longrightarrow> OwnedEngine (engines_created p) \<notin> set (engines_disposed q))"
proof -
  let ?e = "OwnedEngine (engines_created p)"
  define r where "r = p\<lparr>engines_created := engines_created p + 1, active_probe := Some (EngineProbe ?e),
    identity_state := Some (ServiceOn ?e)\<rparr>"
  have "startup args faults p = (Some StorageNotCreated, r)"
    using assms(1-5) by (auto simp: startup_def open_resources_def identity_for_def makes_engine_def Let_def r_def)
  moreover have "process_ok args False p" using lifespan_process_ok [OF assms(6) new_process_ok] .
  then have "?e \<notin> set (engines_disposed r) \<and> engines_created p < engines_created r \<and> phase r \<noteq> Running (Some ?e)"
    using owned_engine_fresh [of "engines_created p"] assms(7) by (auto simp: process_ok_def r_def)
  then have "\<forall>q. lifespan args False r q \<longrightarrow> ?e \<notin> set (engines_disposed q)" using abandoned_engine by blast
  ultimately show ?thesis
    by (intro exI [where x = r]) (simp add: get_database_probe_def get_identity_service_def available_def r_def)
qed

theorem failed_start_keeps_engine_witness:
  "\<exists>r. startup \<lparr>probe_given = False, resources_given = False, identity_given = False, dataset_given = False,
       analysis_given = False\<rparr> \<lparr>engine_fails = False, storage_fails = True\<rparr> new_process = (Some StorageNotCreated, r) \<and>
     get_database_probe r = Inr (EngineProbe (OwnedEngine 0))"
proof -
  let ?args = "\<lparr>probe_given = False, resources_given = False, identity_given = False, dataset_given = False, analysis_given = False\<rparr>"
  have "phase new_process = Stopped" "engines_created new_process = 0" by (simp_all add: new_process_def)
  with failed_start_keeps_engine [of ?args "\<lparr>engine_fails = False, storage_fails = True\<rparr>" new_process] fresh
  show ?thesis by (auto simp: makes_engine_def)
qed

end
