(* ===== verification/Worker.thy ===== *)
theory Worker
  imports Origins
begin

text \<open>
  The worker process (\<open>infrastructure/celery.py\<close>): its settings and the options of the Celery
  application it makes. It registers no task.
\<close>

record worker_settings =
  worker_environment :: environment
  celery_broker_url :: pystr

definition make_worker_settings :: "url_env \<Rightarrow> environment \<Rightarrow> pystr \<Rightarrow> settings_error + worker_settings" where
  "make_worker_settings env e broker_url =
     bind_result (validate_broker_scheme env broker_url) (\<lambda>_.
       Inr \<lparr>worker_environment = e, celery_broker_url = broker_url\<rparr>)"

record celery_application =
  celery_main :: pystr
  celery_broker :: pystr
  accept_content :: "pystr list"
  task_serializer :: pystr
  result_serializer :: pystr
  broker_connection_retry_on_startup :: bool

text \<open>\<open>loaded\<close> is what \<open>WorkerSettings.from_environment()\<close> gives, read only when no settings are passed.\<close>

definition create_celery_app ::
  "worker_settings option \<Rightarrow> settings_error + worker_settings \<Rightarrow> settings_error + celery_application" where
  "create_celery_app given loaded =
     bind_result (case given of Some s \<Rightarrow> Inr s | None \<Rightarrow> loaded) (\<lambda>resolved.
       Inr \<lparr>celery_main = lit ''datacheck'', celery_broker = celery_broker_url resolved,
         accept_content = [lit ''json''], task_serializer = lit ''json'', result_serializer = lit ''json'',
         broker_connection_retry_on_startup = True\<rparr>)"

text \<open>The object the command line of Celery imports.\<close>

definition celery_app :: "settings_error + worker_settings \<Rightarrow> settings_error + celery_application" where
  "celery_app loaded = create_celery_app None loaded"

text \<open>
  The worker talks to a Redis broker only, and it accepts the messages it writes: what it would
  deserialize is JSON, never a pickle.
\<close>

lemma worker_settings_use_redis:
  "make_worker_settings env e broker_url = Inr s \<longleftrightarrow>
     s = \<lparr>worker_environment = e, celery_broker_url = broker_url\<rparr> \<and>
     (\<exists>parsed. urlsplit env broker_url = Inr parsed \<and> url_scheme parsed \<in> {lit ''redis'', lit ''rediss''})"
  by (auto simp: make_worker_settings_def validate_broker_scheme_def result_simps split: sum.splits if_splits)

lemma worker_exchanges_json:
  assumes "celery_app (make_worker_settings env e broker_url) = Inr app"
  shows "celery_broker app = broker_url"
    and "\<exists>parsed. urlsplit env (celery_broker app) = Inr parsed \<and> url_scheme parsed \<in> {lit ''redis'', lit ''rediss''}"
    and "{task_serializer app, result_serializer app} \<subseteq> set (accept_content app)"
  using assms by (auto simp: celery_app_def create_celery_app_def worker_settings_use_redis result_simps)

end
