(* ===== verification/Spec2Isabelle.thy ===== *)
theory Spec2Isabelle
  imports Engine Score IdentityProperties SessionCleanup DatasetProperties AnalysisProperties
    Catalogue SchemaInvariant Lifecycle Worker
begin

text \<open>
  DataCheck lets users register, upload CSV files as datasets, attach validation rules to their
  columns, and run analyses that score the data. This development models its backend under
  \<open>src/backend\<close>, the package \<open>datacheck\<close> and its migrations, and proves what makes each part, and
  their composition, correct.

  \<^bold>\<open>The program and its theories.\<close> Requests pass the middleware and a route, which authenticates
  the caller, calls one use case of a service, and shows its result; services work on PostgreSQL
  tables and on a directory of files. From the bottom:

  \<^item> Vocabulary. \<open>Prelude\<close>: Python strings as lists of code points with the string methods used, results
    as sums. \<open>Regex\<close>: the patterns of the sources as regular languages with a decision procedure.
    \<open>Numbers\<close>: binary64 and decimal rounding. \<open>PyValues\<close>: dynamically typed values. \<open>Utf8\<close>: the strict
    codecs. \<open>Database\<close>: tables as lists of rows with named constraints, transactions. \<open>Url\<close>: \<open>urlsplit\<close>
    and \<open>ipaddress\<close>.

  \<^item> Validation Engine (\<open>validation/\<close>). \<open>ValidationModels\<close> has its values, \<open>Rules\<close> the five rule families
    (\<open>rules.py\<close>) over the loop laws of \<open>RowScan\<close>, \<open>Engine\<close> the input validation and evaluation
    (\<open>engine.py\<close>), and shows that the results are the declared ones. \<open>TypeRules\<close> says what the type, range and regex rules accept without the code's
    grammars: dates by the calendar, ranges by exact values. \<open>Score\<close> (\<open>analysis/score.py\<close>) shows the
    decimal arithmetic to be exact rounding.

  \<^item> Identity (\<open>identity/\<close>). \<open>Tokens\<close>, \<open>Email\<close> and \<open>Passwords\<close> are the policies, \<open>IdentityStore\<close> the tables
    and queries (\<open>models.py\<close>, \<open>repositories.py\<close>), \<open>IdentityService\<close> the use cases (\<open>service.py\<close>).
    \<open>IdentityLifecycle\<close> makes one step relation of all transactions and shows that tables stay
    consistent and ended sessions stay ended; \<open>SessionCleanup\<close> that cleanup finishes.

  \<^item> Datasets (\<open>datasets/\<close>). \<open>Csv\<close> is the structural scan with the state machine of Python's \<open>csv\<close>
    module, \<open>Policies\<close> the input policies, \<open>Storage\<close> the files, \<open>DatasetStore\<close> the tables,
    \<open>DatasetService\<close> the use cases with every file operation in order, \<open>RuleConfig\<close> the request schemas.
    \<open>DatasetConsistency\<close> shows the invariant of database and files, \<open>DatasetOutcomes\<close> what each upload
    leaves behind; \<open>CsvProperties\<close> says which files are accepted.

  \<^item> Analysis (\<open>analysis/\<close>). \<open>AnalysisStore\<close> has the tables, \<open>AnalysisService\<close> the use cases and adapters.
    \<open>AnalysisHistory\<close> and \<open>AnalysisRuns\<close> show that history is consistent and only added to,
    \<open>AnalysisLiveness\<close> that no integrity check can fail on consistent data without U+0000, which
    PostgreSQL cannot hold (\<open>AnalysisProperties\<close> shows what happens with it).

  \<^item> Schema (\<open>alembic/\<close>, the three \<open>models.py\<close>). \<open>Sql\<close> has values, conditions in three-valued logic,
    definitions of tables and the statements on them; \<open>Migrations\<close> the tables as the revisions create
    them and as the mapped classes declare them, and the runs and scripts of Alembic (\<open>env.py\<close>). \<open>SchemaRows\<close> relates
    the rows of the stores to SQL rows, \<open>SchemaProperties\<close> shows that the stores do what the migrated
    tables do, \<open>SchemaInvariant\<close> that the data of a deployment satisfies every constraint of the schema
    after any requests, the widths of the columns included.

  \<^item> Process (\<open>main.py\<close>, \<open>infrastructure/database.py\<close>, \<open>operational/routes.py\<close>). \<open>Lifecycle\<close> has the lifespan
    as a step relation: what is opened, kept in \<open>application.state\<close> and closed. A start that fails on
    the storage root leaves its engine undisposed (\<open>failed_start_keeps_engine\<close>). \<open>Worker\<close>
    (\<open>infrastructure/celery.py\<close>) has the Celery application, which registers no task.

  \<^item> API (\<open>api/\<close>, \<open>core/settings.py\<close>). \<open>Origins\<close> has settings and canonical origins, \<open>Security\<close> errors, the
    cookie, header checks and the authenticating dependencies, \<open>Api\<close> the frame of handlers,
    \<open>AuthRoutes\<close>, \<open>DatasetRoutes\<close> and \<open>AnalysisRoutes\<close> the routes, \<open>Router\<close> all of them in one function with
    the documented statuses, \<open>Middleware\<close> the ASGI middleware. \<open>OriginProperties\<close>, \<open>ApiErrors\<close> and
    \<open>ApiSessions\<close> hold what \<open>ApiProperties\<close> states; \<open>ApiHistory\<close> shows that what a request has answered about
    an analysis is served later, and that what is stored can always be shown.

  \<^item> \<open>Catalogue\<close> is the abstract specification of datasets and analyses together, without tables, keys and
    candidate files, and shows that the services refine it.

  \<^bold>\<open>State and operations.\<close> The identity tables are an \<open>identity_db\<close>; datasets, rules and files are a
  \<open>world\<close>, extended by analyses and results to an \<open>analysis_world\<close>; \<open>api_state\<close> pairs the two. An
  operation has the name of its Python function and returns a result with the new state:
  \<open>Inl\<close> is the exception raised, \<open>Inr\<close> the value. What a call does not determine is an input of it:
  clock readings, random values and UUIDs, which transactions, commits and system calls fail, which
  rows are locked, and what others do between two transactions of the call
  (\<open>meanwhile\<close>, \<open>in_between\<close>, \<open>while_analysing\<close>, \<open>after_authentication\<close>), which may be any function where a
  property does not restrict it.

  \<^bold>\<open>What the lemmas show.\<close> Invariants: \<open>identity_ok\<close>, \<open>world_ok\<close> and \<open>history_ok\<close> hold after every call
  whatever fails. Functional behaviour: each rule family, the score, the CSV scan, uploads and
  analyses on every branch. Equivalence with a reference: calendar dates, addresses, token texts,
  valid input, origins by scheme, host and port. Safety: sessions, passwords, ownership, immutable
  history, authority of requests, engines never used after disposal. Liveness: valid calls on a
  working system succeed. Round trips: tokens, requested rules, and an analysis posted and read later. Refinement: the catalogue by the services, the stores by the migrated
  tables. Interfaces are locales, each interpreted on the model: tables with a unique key
  (\<open>checked_table\<close>), row loops (\<open>row_scan\<close>), integer rounding (\<open>integer_rounding\<close>), the file store
  (\<open>file_store\<close>), the token codec (\<open>token_codec\<close>), steps that can be taken back (\<open>reversible_steps\<close>).

  \<^bold>\<open>Bounds.\<close> No function needs fuel: every loop of the sources is a structural recursion or has a
  measure (the rest of the text, of the file or of the lines). Integers are Python's, unbounded, except
  where the database or a format bounds them; that the values of a row fit their columns is a premise of
  the refinement of the stores (\<open>row_fits\<close>) and a theorem of \<open>SchemaInvariant\<close> for everything requests
  store, as an upload has at most 10 MiB, provided a deployment has no more than \<open>2 ^ 31\<close> rules. Bytes are 8-bit words; instants are integers of
  microseconds. Floats are the exact rationals of binary64; the range check compares them as Python does.

  \<^bold>\<open>Parameters and what is relied on.\<close> Code outside the repository is an argument: NFC and NFKC, the
  Unicode categories (\<open>unicode_law\<close>: U+0000 is a control character), Argon2 (\<open>hasher_law\<close>, \<open>nfc_law\<close>; \<open>storable_hashes\<close>: no U+0000 in a hash), SHA-256, Polars' regexes and CSV reader
  (\<open>contains_law\<close>), Pydantic's \<open>FiniteFloat\<close> (\<open>finite_float_law\<close>) and error reports, the text of IPv6
  addresses (\<open>ipv6_law\<close>), path resolution, Starlette's form parser and CORS middleware. FastAPI is taken to
  read a body before the dependencies and to validate after them. Closing a session after a commit
  is taken not to fail, and JSON columns to give back the values stored. PostgreSQL is taken to check
  a row's values, its \<open>CHECK\<close>s by name, its keys and its references in this order, and to reject text
  and JSON with U+0000 (\<open>unstorable_value\<close>) except in the table of users, whose texts are addresses
  and Argon2 hashes, all of them ASCII without controls. Lower case beyond
  ASCII covers the two letters whose lower case is or contains ASCII; the texts compared with it are ASCII.

  \<^bold>\<open>Not modelled.\<close> Celery and Alembic themselves (the text of a printed statement, the command line),
  cascades (nothing deletes a row that others refer to), the creation and the modes of files and
  directories beyond whether it fails, logging, OpenAPI texts other than the statuses, and the
  frontend's start page.
\<close>

end
